(* ===== verification/Lxp_Prelude.thy ===== *)
theory Lxp_Prelude
  imports Main "HOL-Library.Word"
begin

unbundle bit_operations_syntax

text \<open>
  Shared vocabulary of the lxp development: the machine types, the Linux errno values
  and open flags of \<^verbatim>\<open>src/src/lxp_linux_uapi.h\<close>, the sizing knobs of
  \<^verbatim>\<open>src/include/lxp/lxp_config.h\<close> at their defaults, the flat byte memory with its
  block and little-endian accessors, and the scan that finds the first free entry of a
  fixed pool.

  Conventions used by every theory.  The target is the 32-bit Cortex-M one: an address
  (\<^verbatim>\<open>uintptr_t\<close>) or a \<^verbatim>\<open>size_t\<close> is a natural number below \<open>2 ^ 32\<close>, and
  where the C arithmetic may wrap the reduction is written out.  A \<^verbatim>\<open>long\<close> or
  \<^verbatim>\<open>int\<close> result is an \<open>int\<close>, negative for a negated errno.  A pointer to
  guest or pool bytes is an address into one flat memory (the program has no MMU) and
  0 is NULL; a pointer to a kernel object is an index into the pool that holds it, NULL
  being \<open>None\<close>.  A fixed C array is a function on indices, read and written only
  below its bound.
\<close>

type_synonym byte = "8 word"
type_synonym mem = "nat \<Rightarrow> byte"

named_theorems mem_simps \<open>reading back what was written to memory\<close>
named_theorems scan_simps \<open>first-fit scans over a fixed pool\<close>

section \<open>Constants\<close>

subsection \<open>Machine limits\<close>

definition SIZE_MAX :: nat where
  "SIZE_MAX = 4294967295"

abbreviation (input) UINTPTR_MAX :: nat where
  "UINTPTR_MAX \<equiv> SIZE_MAX"

definition UINT16_MAX :: nat where
  "UINT16_MAX = 65535"

lemma UINT16_MAX_pos [simp]: "0 < UINT16_MAX"
  by (simp add: UINT16_MAX_def)

subsection \<open>Linux errno values\<close>

abbreviation (input) LXP_EPERM :: int where "LXP_EPERM \<equiv> 1"
abbreviation (input) LXP_ENOENT :: int where "LXP_ENOENT \<equiv> 2"
abbreviation (input) LXP_ESRCH :: int where "LXP_ESRCH \<equiv> 3"
abbreviation (input) LXP_EINTR :: int where "LXP_EINTR \<equiv> 4"
abbreviation (input) LXP_EIO :: int where "LXP_EIO \<equiv> 5"
abbreviation (input) LXP_E2BIG :: int where "LXP_E2BIG \<equiv> 7"
abbreviation (input) LXP_ENOEXEC :: int where "LXP_ENOEXEC \<equiv> 8"
abbreviation (input) LXP_EBADF :: int where "LXP_EBADF \<equiv> 9"
abbreviation (input) LXP_EAGAIN :: int where "LXP_EAGAIN \<equiv> 11"
abbreviation (input) LXP_ENOMEM :: int where "LXP_ENOMEM \<equiv> 12"
abbreviation (input) LXP_EACCES :: int where "LXP_EACCES \<equiv> 13"
abbreviation (input) LXP_EFAULT :: int where "LXP_EFAULT \<equiv> 14"
abbreviation (input) LXP_EBUSY :: int where "LXP_EBUSY \<equiv> 16"
abbreviation (input) LXP_EEXIST :: int where "LXP_EEXIST \<equiv> 17"
abbreviation (input) LXP_EXDEV :: int where "LXP_EXDEV \<equiv> 18"
abbreviation (input) LXP_ENODEV :: int where "LXP_ENODEV \<equiv> 19"
abbreviation (input) LXP_ENOTDIR :: int where "LXP_ENOTDIR \<equiv> 20"
abbreviation (input) LXP_EISDIR :: int where "LXP_EISDIR \<equiv> 21"
abbreviation (input) LXP_EINVAL :: int where "LXP_EINVAL \<equiv> 22"
abbreviation (input) LXP_EMFILE :: int where "LXP_EMFILE \<equiv> 24"
abbreviation (input) LXP_ENOTTY :: int where "LXP_ENOTTY \<equiv> 25"
abbreviation (input) LXP_EFBIG :: int where "LXP_EFBIG \<equiv> 27"
abbreviation (input) LXP_ENOSPC :: int where "LXP_ENOSPC \<equiv> 28"
abbreviation (input) LXP_ESPIPE :: int where "LXP_ESPIPE \<equiv> 29"
abbreviation (input) LXP_EROFS :: int where "LXP_EROFS \<equiv> 30"
abbreviation (input) LXP_EPIPE :: int where "LXP_EPIPE \<equiv> 32"
abbreviation (input) LXP_ENAMETOOLONG :: int where "LXP_ENAMETOOLONG \<equiv> 36"
abbreviation (input) LXP_ENOSYS :: int where "LXP_ENOSYS \<equiv> 38"
abbreviation (input) LXP_ENOTEMPTY :: int where "LXP_ENOTEMPTY \<equiv> 39"
abbreviation (input) LXP_ELOOP :: int where "LXP_ELOOP \<equiv> 40"
abbreviation (input) LXP_EOVERFLOW :: int where "LXP_EOVERFLOW \<equiv> 75"
abbreviation (input) LXP_EOPNOTSUPP :: int where "LXP_EOPNOTSUPP \<equiv> 95"
abbreviation (input) LXP_EADDRINUSE :: int where "LXP_EADDRINUSE \<equiv> 98"
abbreviation (input) LXP_EADDRNOTAVAIL :: int where "LXP_EADDRNOTAVAIL \<equiv> 99"
abbreviation (input) LXP_ENETUNREACH :: int where "LXP_ENETUNREACH \<equiv> 101"
abbreviation (input) LXP_ECONNRESET :: int where "LXP_ECONNRESET \<equiv> 104"
abbreviation (input) LXP_ETIMEDOUT :: int where "LXP_ETIMEDOUT \<equiv> 110"
abbreviation (input) LXP_ECONNREFUSED :: int where "LXP_ECONNREFUSED \<equiv> 111"

subsection \<open>Sizing knobs\<close>

definition LXP_NREG :: nat where "LXP_NREG = 8"
definition LXP_NSLOT :: nat where "LXP_NSLOT = LXP_NREG + 4"
definition LXP_NPIPE :: nat where "LXP_NPIPE = 4"
definition LXP_PIPE_BUF :: nat where "LXP_PIPE_BUF = 4096"
definition LXP_MAX_FDS :: nat where "LXP_MAX_FDS = 32"
definition LXP_PATH_MAX :: nat where "LXP_PATH_MAX = 256"
definition LXP_MAX_CHILD :: nat where "LXP_MAX_CHILD = 8"
definition LXP_RESOURCE_POOL_COUNT :: nat where "LXP_RESOURCE_POOL_COUNT = LXP_NSLOT"
definition LXP_ARENA_MAX_MAPPINGS :: nat where "LXP_ARENA_MAX_MAPPINGS = 128"
definition LXP_WFS_POOL :: nat where "LXP_WFS_POOL = 65536"

lemmas config_defs =
  LXP_NREG_def LXP_NSLOT_def LXP_NPIPE_def LXP_PIPE_BUF_def LXP_MAX_FDS_def
  LXP_PATH_MAX_def LXP_MAX_CHILD_def LXP_RESOURCE_POOL_COUNT_def
  LXP_ARENA_MAX_MAPPINGS_def LXP_WFS_POOL_def

lemma config_pos [simp]:
  "0 < LXP_NREG" "0 < LXP_NSLOT" "0 < LXP_NPIPE" "0 < LXP_PIPE_BUF" "0 < LXP_MAX_FDS"
  "0 < LXP_PATH_MAX" "0 < LXP_MAX_CHILD" "0 < LXP_RESOURCE_POOL_COUNT"
  "0 < LXP_ARENA_MAX_MAPPINGS" "0 < LXP_WFS_POOL"
  by (simp_all add: config_defs)

section \<open>Scanning a fixed pool\<close>

text \<open>
  The C loops \<^verbatim>\<open>for (i = 0; i < n; i++) if (P(i)) ...\<close> that stop at the first
  hit.
\<close>

definition scan :: "(nat \<Rightarrow> bool) \<Rightarrow> nat \<Rightarrow> nat \<Rightarrow> nat option" where
  "scan P lo n = List.find P [lo..<n]"

lemma scan_Some [scan_simps]:
  "scan P lo n = Some i \<longleftrightarrow> lo \<le> i \<and> i < n \<and> P i \<and> (\<forall>j. lo \<le> j \<longrightarrow> j < i \<longrightarrow> \<not> P j)"
proof
  assume "scan P lo n = Some i"
  then obtain k where k: "k < length [lo..<n]" "P ([lo..<n] ! k)" "i = [lo..<n] ! k"
    "\<forall>j<k. \<not> P ([lo..<n] ! j)"
    unfolding scan_def by (auto simp: find_Some_iff)
  have i: "i = lo + k" using k by simp
  have "\<not> P j" if "lo \<le> j" "j < i" for j
  proof -
    have "j - lo < k" using that i by simp
    then have "\<not> P ([lo..<n] ! (j - lo))" using k by blast
    then show ?thesis using that k(1) i by simp
  qed
  with k i show "lo \<le> i \<and> i < n \<and> P i \<and> (\<forall>j. lo \<le> j \<longrightarrow> j < i \<longrightarrow> \<not> P j)" by simp
next
  assume h: "lo \<le> i \<and> i < n \<and> P i \<and> (\<forall>j. lo \<le> j \<longrightarrow> j < i \<longrightarrow> \<not> P j)"
  have "i - lo < length [lo..<n]" "P ([lo..<n] ! (i - lo))" "i = [lo..<n] ! (i - lo)"
    "\<forall>j<i - lo. \<not> P ([lo..<n] ! j)"
    using h by auto
  then show "scan P lo n = Some i"
    unfolding scan_def by (auto simp: find_Some_iff intro!: exI [of _ "i - lo"])
qed

lemma scan_None [scan_simps]: "scan P lo n = None \<longleftrightarrow> (\<forall>i. lo \<le> i \<longrightarrow> i < n \<longrightarrow> \<not> P i)"
  by (auto simp: scan_def find_None_iff)

lemma scan_SomeD:
  assumes "scan P lo n = Some i"
  shows "lo \<le> i" "i < n" "P i" "\<And>j. lo \<le> j \<Longrightarrow> j < i \<Longrightarrow> \<not> P j"
  using assms by (auto simp: scan_simps)

lemma scan_cong [fundef_cong]:
  "lo = lo' \<Longrightarrow> n = n' \<Longrightarrow> (\<And>i. lo' \<le> i \<Longrightarrow> i < n' \<Longrightarrow> P i = Q i) \<Longrightarrow> scan P lo n = scan Q lo' n'"
  by (auto simp: scan_def intro: find_cong)

lemma scan_ex: "lo \<le> i \<Longrightarrow> i < n \<Longrightarrow> P i \<Longrightarrow> \<exists>j. scan P lo n = Some j"
  by (metis not_None_eq scan_None)

section \<open>Flat memory\<close>

text \<open>
  \<open>mem_read\<close> and \<open>mem_write\<close> are the two halves of a \<^verbatim>\<open>memcpy\<close>,
  \<open>mem_fill\<close> is \<^verbatim>\<open>memset\<close>.
\<close>

definition mem_read :: "mem \<Rightarrow> nat \<Rightarrow> nat \<Rightarrow> byte list" where
  "mem_read m a n = map m [a..<a + n]"

definition mem_write :: "mem \<Rightarrow> nat \<Rightarrow> byte list \<Rightarrow> mem" where
  "mem_write m a bs = (\<lambda>x. if a \<le> x \<and> x < a + length bs then bs ! (x - a) else m x)"

definition mem_fill :: "mem \<Rightarrow> nat \<Rightarrow> nat \<Rightarrow> byte \<Rightarrow> mem" where
  "mem_fill m a n v = (\<lambda>x. if a \<le> x \<and> x < a + n then v else m x)"

lemma length_mem_read [simp]: "length (mem_read m a n) = n"
  by (simp add: mem_read_def)

lemma mem_read_nth [mem_simps]: "i < n \<Longrightarrow> mem_read m a n ! i = m (a + i)"
  by (simp add: mem_read_def)

lemma mem_read_0 [simp]: "mem_read m a 0 = []"
  by (simp add: mem_read_def)

lemma mem_write_Nil [simp]: "mem_write m a [] = m"
  by (rule ext) (auto simp: mem_write_def)

lemma mem_fill_0 [simp]: "mem_fill m a 0 v = m"
  by (rule ext) (auto simp: mem_fill_def)

lemma mem_write_in [mem_simps]:
  "a \<le> x \<Longrightarrow> x < a + length bs \<Longrightarrow> mem_write m a bs x = bs ! (x - a)"
  by (simp add: mem_write_def)

lemma mem_write_out [mem_simps]:
  "x < a \<or> a + length bs \<le> x \<Longrightarrow> mem_write m a bs x = m x"
  by (auto simp: mem_write_def)

lemma mem_fill_in [mem_simps]: "a \<le> x \<Longrightarrow> x < a + n \<Longrightarrow> mem_fill m a n v x = v"
  by (simp add: mem_fill_def)

lemma mem_fill_out [mem_simps]: "x < a \<or> a + n \<le> x \<Longrightarrow> mem_fill m a n v x = m x"
  by (auto simp: mem_fill_def)

lemma mem_read_cong: "(\<And>x. a \<le> x \<Longrightarrow> x < a + n \<Longrightarrow> m x = m' x) \<Longrightarrow> mem_read m a n = mem_read m' a n"
  by (simp add: mem_read_def)

lemma mem_read_write_same [mem_simps]:
  "n = length bs \<Longrightarrow> mem_read (mem_write m a bs) a n = bs"
  by (rule nth_equalityI) (auto simp: mem_simps)

lemma mem_read_write_other [mem_simps]:
  "b + n \<le> a \<or> a + length bs \<le> b \<Longrightarrow> mem_read (mem_write m a bs) b n = mem_read m b n"
  by (rule mem_read_cong) (auto simp: mem_simps)

lemma mem_read_split: "mem_read m a (n + k) = mem_read m a n @ mem_read m (a + n) k"
  by (rule nth_equalityI) (auto simp: mem_simps nth_append)

lemma mem_read_fill_same [mem_simps]: "mem_read (mem_fill m a n v) a n = replicate n v"
  by (rule nth_equalityI) (auto simp: mem_simps)

lemma mem_write_read_id [simp]: "mem_write m a (mem_read m a n) = m"
  by (rule ext) (auto simp: mem_write_def mem_read_def)

subsection \<open>Little-endian words\<close>

definition get_u32 :: "mem \<Rightarrow> nat \<Rightarrow> nat" where
  "get_u32 m a = unat (m a) + 256 * unat (m (a + 1)) + 65536 * unat (m (a + 2))
     + 16777216 * unat (m (a + 3))"

definition put_u32 :: "mem \<Rightarrow> nat \<Rightarrow> nat \<Rightarrow> mem" where
  "put_u32 m a v = m(a := word_of_nat v, a + 1 := word_of_nat (v div 256),
     a + 2 := word_of_nat (v div 65536), a + 3 := word_of_nat (v div 16777216))"

lemma unat_byte [simp]: "unat (word_of_nat v :: byte) = v mod 256"
  by (simp add: unat_of_nat)

lemma nat_le_bytes:
  fixes v :: nat
  assumes "v < 4294967296"
  shows "v mod 256 + 256 * (v div 256 mod 256) + 65536 * (v div 65536 mod 256)
     + 16777216 * (v div 16777216 mod 256) = v"
proof -
  have "v div 16777216 < 256" using assms by (simp add: less_mult_imp_div_less)
  then have top: "v div 16777216 mod 256 = v div 16777216" by simp
  have a: "v = 256 * (v div 256) + v mod 256" by simp
  have b: "v div 256 = 256 * (v div 65536) + v div 256 mod 256"
    using div_mult2_eq [of v 256 256] mult_div_mod_eq [of 256 "v div 256"] by simp
  have c: "v div 65536 = 256 * (v div 16777216) + v div 65536 mod 256"
    using div_mult2_eq [of v 65536 256] mult_div_mod_eq [of 256 "v div 65536"] by simp
  show ?thesis unfolding top using a b c by linarith
qed

lemma get_put_u32_same [mem_simps]: "v \<le> SIZE_MAX \<Longrightarrow> get_u32 (put_u32 m a v) a = v"
  using nat_le_bytes [of v] by (simp add: get_u32_def put_u32_def SIZE_MAX_def)

lemma get_u32_cong: "(\<And>x. a \<le> x \<Longrightarrow> x < a + 4 \<Longrightarrow> m x = m' x) \<Longrightarrow> get_u32 m a = get_u32 m' a"
  by (simp add: get_u32_def)

lemma put_u32_out [mem_simps]: "x < a \<or> a + 4 \<le> x \<Longrightarrow> put_u32 m a v x = m x"
  by (auto simp: put_u32_def)

lemma get_put_u32_other [mem_simps]:
  "a + 4 \<le> b \<or> b + 4 \<le> a \<Longrightarrow> get_u32 (put_u32 m a v) b = get_u32 m b"
  by (rule get_u32_cong) (auto simp: mem_simps)

lemma get_u32_le: "get_u32 m a \<le> SIZE_MAX"
proof -
  have "unat (m a) < 256" "unat (m (a + 1)) < 256" "unat (m (a + 2)) < 256" "unat (m (a + 3)) < 256"
    using unsigned_less [where 'a = nat and 'b = 8] by auto
  then show ?thesis unfolding get_u32_def SIZE_MAX_def by linarith
qed

end
