(* ===== verification/Arena.thy ===== *)
theory Arena
  imports Lxp_Prelude
begin

text \<open>
  The region allocator of \<^verbatim>\<open>src/src/lxp_arena.c\<close>, at the level of bytes.  The
  control block (\<^verbatim>\<open>lxp_arena_t\<close>) is a record held outside guest memory; the
  block headers live in the flat memory, where the guest may overwrite them.  Every
  operation takes the memory and the control block and returns both.

  The list of \<open>(payload, free)\<close> pairs that a valid layout tiles is the abstract
  state (\<open>arena_ok\<close>).  The lemmas show that the validation walk accepts exactly the
  layouts that tile the region, that allocation and release refine the list operations
  \<open>aalloc\<close> and \<open>afree\<close>, that live payloads keep their bytes, and that an
  operation on an arbitrary memory writes nowhere outside the managed region.
\<close>

section \<open>The model\<close>

abbreviation (input) LXP_ARENA_ALIGN :: nat where "LXP_ARENA_ALIGN \<equiv> 16"

text \<open>\<^verbatim>\<open>sizeof(struct lxp_arena_blk)\<close> is 12 on the 32-bit target, rounded up to 16.\<close>

abbreviation (input) ARENA_HDR :: nat where "ARENA_HDR \<equiv> 16"

definition ARENA_MAGIC :: nat where
  "ARENA_MAGIC = 0x4f415242"

text \<open>\<^verbatim>\<open>struct lxp_arena_blk\<close>: its three words at their offsets.\<close>

definition blk_payload_size :: "mem \<Rightarrow> nat \<Rightarrow> nat" where
  "blk_payload_size m b = get_u32 m b"

definition blk_is_free :: "mem \<Rightarrow> nat \<Rightarrow> nat" where
  "blk_is_free m b = get_u32 m (b + 4)"

definition blk_magic :: "mem \<Rightarrow> nat \<Rightarrow> nat" where
  "blk_magic m b = get_u32 m (b + 8)"

definition set_payload_size :: "mem \<Rightarrow> nat \<Rightarrow> nat \<Rightarrow> mem" where
  "set_payload_size m b v = put_u32 m b v"

definition set_is_free :: "mem \<Rightarrow> nat \<Rightarrow> nat \<Rightarrow> mem" where
  "set_is_free m b v = put_u32 m (b + 4) v"

definition set_magic :: "mem \<Rightarrow> nat \<Rightarrow> nat \<Rightarrow> mem" where
  "set_magic m b v = put_u32 m (b + 8) v"

record arena_mapping =
  map_addr :: nat
  map_len :: nat

record arena =
  a_base :: nat
  a_size :: nat
  a_used :: nat
  a_high_water :: nat
  a_first :: nat
  a_mappings :: "nat \<Rightarrow> arena_mapping"

text \<open>\<open>n & ~(ALIGN - 1)\<close>: round down to the alignment.\<close>

definition align_down :: "nat \<Rightarrow> nat" where
  "align_down n = n - n mod LXP_ARENA_ALIGN"

definition arena_align :: "nat \<Rightarrow> nat" where
  "arena_align n =
     (if n > SIZE_MAX - (LXP_ARENA_ALIGN - 1) then 0
      else align_down (n + (LXP_ARENA_ALIGN - 1)))"

definition blk_payload :: "nat \<Rightarrow> nat" where
  "blk_payload b = b + ARENA_HDR"

definition arena_clear_mappings :: "arena \<Rightarrow> arena" where
  "arena_clear_mappings ar = ar\<lparr>a_mappings := (\<lambda>_. \<lparr>map_addr = 0, map_len = 0\<rparr>)\<rparr>"

definition arena_lay_first :: "mem \<Rightarrow> arena \<Rightarrow> mem \<times> arena" where
  "arena_lay_first m ar =
     (let first = a_base ar;
          m1 = set_payload_size m first (a_size ar - ARENA_HDR);
          m2 = set_is_free m1 first 1;
          m3 = set_magic m2 first ARENA_MAGIC
      in (m3, ar\<lparr>a_first := first, a_used := 0\<rparr>))"

text \<open>The \<^verbatim>\<open>while\<close> loop of \<^verbatim>\<open>arena_layout_valid\<close>: \<open>None\<close> is \<^verbatim>\<open>return false\<close>.\<close>

function arena_walk :: "mem \<Rightarrow> nat \<Rightarrow> nat \<Rightarrow> nat \<Rightarrow> nat \<Rightarrow> nat option" where
  "arena_walk m sz end cur used =
     (if cur < end then
        (let remain = end - cur; footprint = ARENA_HDR + blk_payload_size m cur in
         if remain < ARENA_HDR then None
         else if blk_magic m cur \<noteq> ARENA_MAGIC \<or> blk_is_free m cur > 1
           \<or> blk_payload_size m cur < LXP_ARENA_ALIGN
           \<or> blk_payload_size m cur mod LXP_ARENA_ALIGN \<noteq> 0
           \<or> blk_payload_size m cur > remain - ARENA_HDR then None
         else if blk_is_free m cur = 0 then
           (if used > sz - footprint then None
            else arena_walk m sz end (cur + footprint) (used + footprint))
         else arena_walk m sz end (cur + footprint) used)
      else if cur = end then Some used else None)"
  by pat_completeness auto
termination
  by (relation "measure (\<lambda>(m, sz, end, cur, used). end - cur)") auto

declare arena_walk.simps [simp del]

definition arena_layout_valid :: "mem \<Rightarrow> arena \<Rightarrow> bool" where
  "arena_layout_valid m ar =
     (if a_base ar = 0 \<or> a_first ar \<noteq> a_base ar \<or> a_size ar < ARENA_HDR + LXP_ARENA_ALIGN
       \<or> a_size ar mod LXP_ARENA_ALIGN \<noteq> 0 then False
      else if a_base ar mod LXP_ARENA_ALIGN \<noteq> 0 \<or> a_base ar > UINTPTR_MAX - a_size ar then False
      else arena_walk m (a_size ar) (a_base ar + a_size ar) (a_base ar) 0 = Some (a_used ar))"

function arena_find_from :: "mem \<Rightarrow> nat \<Rightarrow> nat \<Rightarrow> nat \<Rightarrow> nat option \<Rightarrow> (nat \<times> nat option) option" where
  "arena_find_from m end target cur prev =
     (if cur < end then
        (if blk_payload cur = target then Some (cur, prev)
         else arena_find_from m end target (cur + (ARENA_HDR + blk_payload_size m cur)) (Some cur))
      else None)"
  by pat_completeness auto
termination
  by (relation "measure (\<lambda>(m, end, target, cur, prev). end - cur)") auto

declare arena_find_from.simps [simp del]

definition arena_find_payload :: "mem \<Rightarrow> arena \<Rightarrow> nat \<Rightarrow> (nat \<times> nat option) option" where
  "arena_find_payload m ar ptr =
     arena_find_from m (a_base ar + a_size ar) ptr (a_base ar) None"

datatype init_result = LXP_OK | LXP_ERR_INVALID_PARAM | LXP_ERR_NO_MEMORY

definition lxp_arena_init :: "mem \<Rightarrow> arena \<Rightarrow> nat \<Rightarrow> nat \<Rightarrow> mem \<times> arena \<times> init_result" where
  "lxp_arena_init m ar buf sz =
     (if buf = 0 then (m, ar, LXP_ERR_INVALID_PARAM)
      else if buf > UINTPTR_MAX - (LXP_ARENA_ALIGN - 1) then (m, ar, LXP_ERR_INVALID_PARAM)
      else
        (let start = align_down (buf + (LXP_ARENA_ALIGN - 1)); adjust = start - buf in
         if sz \<le> adjust then (m, ar, LXP_ERR_INVALID_PARAM)
         else
           (let usable = align_down (sz - adjust) in
            if usable < ARENA_HDR + LXP_ARENA_ALIGN then (m, ar, LXP_ERR_NO_MEMORY)
            else
              (let ar1 = ar\<lparr>a_base := buf + adjust, a_size := usable, a_high_water := 0\<rparr>;
                   (m2, ar2) = arena_lay_first m (arena_clear_mappings ar1)
               in (m2, ar2, LXP_OK)))))"

function arena_first_fit :: "mem \<Rightarrow> nat \<Rightarrow> nat \<Rightarrow> nat \<Rightarrow> nat option" where
  "arena_first_fit m end need cur =
     (if cur < end then
        (if blk_is_free m cur \<noteq> 0 \<and> blk_payload_size m cur \<ge> need then Some cur
         else arena_first_fit m end need (cur + (ARENA_HDR + blk_payload_size m cur)))
      else None)"
  by pat_completeness auto
termination
  by (relation "measure (\<lambda>(m, end, need, cur). end - cur)") auto

declare arena_first_fit.simps [simp del]

text \<open>The split of \<^verbatim>\<open>lxp_arena_alloc\<close> and of the in-place growth of
  \<^verbatim>\<open>lxp_arena_realloc\<close>: carve a free remainder behind the first \<open>need\<close> bytes.\<close>

definition arena_split :: "mem \<Rightarrow> nat \<Rightarrow> nat \<Rightarrow> mem" where
  "arena_split m b need =
     (if blk_payload_size m b - need \<ge> ARENA_HDR + LXP_ARENA_ALIGN then
        (let rem = b + ARENA_HDR + need;
             m1 = set_payload_size m rem (blk_payload_size m b - need - ARENA_HDR);
             m2 = set_is_free m1 rem 1;
             m3 = set_magic m2 rem ARENA_MAGIC
         in set_payload_size m3 b need)
      else m)"

definition bump_high_water :: "arena \<Rightarrow> arena" where
  "bump_high_water ar =
     (if a_used ar > a_high_water ar then ar\<lparr>a_high_water := a_used ar\<rparr> else ar)"

definition lxp_arena_alloc :: "mem \<Rightarrow> arena \<Rightarrow> nat \<Rightarrow> mem \<times> arena \<times> nat" where
  "lxp_arena_alloc m ar sz =
     (if a_first ar = 0 \<or> \<not> arena_layout_valid m ar then (m, ar, 0)
      else
        (let need = arena_align (if sz = 0 then 1 else sz) in
         if need = 0 then (m, ar, 0)
         else
           (case arena_first_fit m (a_base ar + a_size ar) need (a_base ar) of
              None \<Rightarrow> (m, ar, 0)
            | Some b \<Rightarrow>
                (let m1 = arena_split m b need;
                     footprint = ARENA_HDR + blk_payload_size m1 b in
                 if a_used ar > a_size ar - footprint then (m1, ar, 0)
                 else
                   (set_is_free m1 b 0,
                    bump_high_water (ar\<lparr>a_used := a_used ar + footprint\<rparr>),
                    blk_payload b)))))"

definition lxp_arena_calloc :: "mem \<Rightarrow> arena \<Rightarrow> nat \<Rightarrow> mem \<times> arena \<times> nat" where
  "lxp_arena_calloc m ar sz =
     (let need = arena_align (if sz = 0 then 1 else sz) in
      if need = 0 then (m, ar, 0)
      else
        (let (m1, ar1, p) = lxp_arena_alloc m ar sz in
         (if p \<noteq> 0 then mem_fill m1 p need 0 else m1, ar1, p)))"

text \<open>The two merges of \<^verbatim>\<open>arena_free_block\<close>.\<close>

definition coalesce_forward :: "mem \<Rightarrow> nat \<Rightarrow> nat \<Rightarrow> mem" where
  "coalesce_forward m end b =
     (let next = b + ARENA_HDR + blk_payload_size m b in
      if next < end \<and> blk_is_free m next \<noteq> 0 then
        set_magic
          (set_payload_size m b (blk_payload_size m b + (ARENA_HDR + blk_payload_size m next)))
          next 0
      else m)"

definition coalesce_backward :: "mem \<Rightarrow> nat option \<Rightarrow> nat \<Rightarrow> mem" where
  "coalesce_backward m prev b =
     (case prev of
        None \<Rightarrow> m
      | Some pb \<Rightarrow>
          if blk_is_free m pb \<noteq> 0 then
            set_magic
              (set_payload_size m pb (blk_payload_size m pb + (ARENA_HDR + blk_payload_size m b)))
              b 0
          else m)"

definition arena_free_block :: "mem \<Rightarrow> arena \<Rightarrow> nat \<Rightarrow> mem \<times> arena \<times> bool" where
  "arena_free_block m ar ptr =
     (if ptr = 0 \<or> \<not> arena_layout_valid m ar then (m, ar, False)
      else
        (case arena_find_payload m ar ptr of
           None \<Rightarrow> (m, ar, False)
         | Some (b, prev) \<Rightarrow>
             if blk_is_free m b \<noteq> 0 then (m, ar, False)
             else
               (let footprint = ARENA_HDR + blk_payload_size m b in
                if a_used ar < footprint then (m, ar, False)
                else
                  (let m1 = set_is_free m b 1;
                       m2 = coalesce_forward m1 (a_base ar + a_size ar) b;
                       m3 = coalesce_backward m2 prev b
                   in (m3, ar\<lparr>a_used := a_used ar - footprint\<rparr>, True)))))"

text \<open>Clear every tracking record of an address.\<close>

definition drop_mappings :: "arena \<Rightarrow> nat \<Rightarrow> arena" where
  "drop_mappings ar addr =
     ar\<lparr>a_mappings := (\<lambda>i. if i < LXP_ARENA_MAX_MAPPINGS \<and> map_addr (a_mappings ar i) = addr
        then \<lparr>map_addr = 0, map_len = 0\<rparr> else a_mappings ar i)\<rparr>"

definition lxp_arena_free :: "mem \<Rightarrow> arena \<Rightarrow> nat \<Rightarrow> mem \<times> arena" where
  "lxp_arena_free m ar ptr =
     (let (m1, ar1, ok) = arena_free_block m ar ptr in
      if \<not> ok then (m1, ar1) else (m1, drop_mappings ar1 ptr))"

definition arena_set_mapping :: "arena \<Rightarrow> nat \<Rightarrow> nat \<Rightarrow> nat \<Rightarrow> arena" where
  "arena_set_mapping ar i addr len =
     ar\<lparr>a_mappings := (a_mappings ar)(i := \<lparr>map_addr = addr, map_len = len\<rparr>)\<rparr>"

definition resize_mappings :: "arena \<Rightarrow> nat \<Rightarrow> nat \<Rightarrow> arena" where
  "resize_mappings ar addr len =
     ar\<lparr>a_mappings := (\<lambda>i. if i < LXP_ARENA_MAX_MAPPINGS \<and> map_addr (a_mappings ar i) = addr
        then (a_mappings ar i)\<lparr>map_len := len\<rparr> else a_mappings ar i)\<rparr>"

text \<open>The two halves of \<^verbatim>\<open>lxp_arena_realloc\<close> after its guards: growth into the
  following free block, and allocate-copy-free.\<close>

definition arena_grow_in_place :: "mem \<Rightarrow> arena \<Rightarrow> nat \<Rightarrow> nat \<Rightarrow> nat \<Rightarrow> nat \<Rightarrow> (mem \<times> arena) option" where
  "arena_grow_in_place m ar ptr b need sz =
     (let old_payload = blk_payload_size m b;
          next = b + ARENA_HDR + old_payload;
          combined = old_payload + ARENA_HDR + blk_payload_size m next in
      if next < a_base ar + a_size ar \<and> blk_is_free m next \<noteq> 0 \<and> combined \<ge> need then
        (let m1 = set_payload_size (set_magic m next 0) b combined;
             m2 = arena_split m1 b need;
             ar1 = bump_high_water
                     (ar\<lparr>a_used := a_used ar + (blk_payload_size m2 b - old_payload)\<rparr>)
         in Some (m2, resize_mappings ar1 ptr sz))
      else None)"

definition arena_move :: "mem \<Rightarrow> arena \<Rightarrow> nat \<Rightarrow> nat \<Rightarrow> nat \<Rightarrow> mem \<times> arena \<times> nat" where
  "arena_move m ar ptr old_payload sz =
     (let (m1, ar1, replacement) = lxp_arena_alloc m ar sz in
      if replacement = 0 then (m1, ar1, 0)
      else
        (let m2 = mem_write m1 replacement
                    (mem_read m1 ptr (if old_payload < sz then old_payload else sz));
             tracked = scan (\<lambda>i. map_addr (a_mappings ar1 i) = ptr) 0 LXP_ARENA_MAX_MAPPINGS;
             (m3, ar3, ok) = arena_free_block m2 ar1 ptr in
         if \<not> ok then (let (m4, ar4) = lxp_arena_free m3 ar3 replacement in (m4, ar4, 0))
         else
           (m3,
            (case tracked of None \<Rightarrow> ar3 | Some i \<Rightarrow> arena_set_mapping ar3 i replacement sz),
            replacement)))"

definition lxp_arena_realloc :: "mem \<Rightarrow> arena \<Rightarrow> nat \<Rightarrow> nat \<Rightarrow> mem \<times> arena \<times> nat" where
  "lxp_arena_realloc m ar ptr sz =
     (if ptr = 0 then lxp_arena_alloc m ar sz
      else if \<not> arena_layout_valid m ar then (m, ar, 0)
      else
        (let need = arena_align (if sz = 0 then 1 else sz) in
         if need = 0 then (m, ar, 0)
         else
           (case arena_find_payload m ar ptr of
              None \<Rightarrow> (m, ar, 0)
            | Some (b, _) \<Rightarrow>
                if blk_is_free m b \<noteq> 0 then (m, ar, 0)
                else if need \<le> blk_payload_size m b then (m, ar, ptr)
                else
                  (case arena_grow_in_place m ar ptr b need sz of
                     Some (m1, ar1) \<Rightarrow> (m1, ar1, ptr)
                   | None \<Rightarrow> arena_move m ar ptr (blk_payload_size m b) sz))))"

definition lxp_arena_alloc_tracked :: "mem \<Rightarrow> arena \<Rightarrow> nat \<Rightarrow> mem \<times> arena \<times> nat" where
  "lxp_arena_alloc_tracked m ar sz =
     (case scan (\<lambda>i. map_addr (a_mappings ar i) = 0) 0 LXP_ARENA_MAX_MAPPINGS of
        None \<Rightarrow> (m, ar, 0)
      | Some slot \<Rightarrow>
          (let (m1, ar1, ptr) = lxp_arena_alloc m ar sz in
           if ptr = 0 then (m1, ar1, 0) else (m1, arena_set_mapping ar1 slot ptr sz, ptr)))"

definition lxp_arena_free_tracked :: "mem \<Rightarrow> arena \<Rightarrow> nat \<Rightarrow> nat \<Rightarrow> mem \<times> arena \<times> bool" where
  "lxp_arena_free_tracked m ar ptr sz =
     (if ptr = 0 then (m, ar, False)
      else
        (case scan (\<lambda>i. map_addr (a_mappings ar i) = ptr \<and> map_len (a_mappings ar i) = sz)
                0 LXP_ARENA_MAX_MAPPINGS of
           None \<Rightarrow> (m, ar, False)
         | Some i \<Rightarrow>
             (let (m1, ar1, ok) = arena_free_block m ar ptr in
              if \<not> ok then (m1, ar1, False) else (m1, arena_set_mapping ar1 i 0 0, True))))"

definition lxp_arena_reset :: "mem \<Rightarrow> arena \<Rightarrow> mem \<times> arena" where
  "lxp_arena_reset m ar =
     (if a_base ar = 0 then (m, ar) else arena_lay_first m (arena_clear_mappings ar))"

definition lxp_arena_owns :: "arena \<Rightarrow> nat \<Rightarrow> bool" where
  "lxp_arena_owns ar ptr =
     (if ptr = 0 then False
      else if a_base ar > UINTPTR_MAX - a_size ar then False
      else ptr \<ge> a_base ar \<and> ptr < a_base ar + a_size ar)"

named_theorems hdr_simps \<open>block headers after header stores\<close>

lemmas hdr_defs =
  blk_payload_size_def blk_is_free_def blk_magic_def
  set_payload_size_def set_is_free_def set_magic_def

lemma hdr_same [hdr_simps]:
  "v \<le> SIZE_MAX \<Longrightarrow> blk_payload_size (set_payload_size m b v) b = v"
  "blk_payload_size (set_is_free m b v) b = blk_payload_size m b"
  "blk_payload_size (set_magic m b v) b = blk_payload_size m b"
  "blk_is_free (set_payload_size m b v) b = blk_is_free m b"
  "v \<le> SIZE_MAX \<Longrightarrow> blk_is_free (set_is_free m b v) b = v"
  "blk_is_free (set_magic m b v) b = blk_is_free m b"
  "blk_magic (set_payload_size m b v) b = blk_magic m b"
  "blk_magic (set_is_free m b v) b = blk_magic m b"
  "v \<le> SIZE_MAX \<Longrightarrow> blk_magic (set_magic m b v) b = v"
  by (simp_all add: hdr_defs mem_simps)

lemma set_out [hdr_simps]:
  "x < b \<or> b + 12 \<le> x \<Longrightarrow> set_payload_size m b v x = m x"
  "x < b \<or> b + 12 \<le> x \<Longrightarrow> set_is_free m b v x = m x"
  "x < b \<or> b + 12 \<le> x \<Longrightarrow> set_magic m b v x = m x"
  by (auto simp: hdr_defs mem_simps)

lemma hdr_cong:
  assumes "\<And>x. b \<le> x \<Longrightarrow> x < b + 12 \<Longrightarrow> m x = m' x"
  shows "blk_payload_size m b = blk_payload_size m' b" "blk_is_free m b = blk_is_free m' b"
    "blk_magic m b = blk_magic m' b"
  using assms by (auto simp: hdr_defs intro!: get_u32_cong)

lemma hdr_other [hdr_simps]:
  assumes "c + 12 \<le> b \<or> b + 12 \<le> c"
  shows "blk_payload_size (set_payload_size m b v) c = blk_payload_size m c"
    "blk_payload_size (set_is_free m b v) c = blk_payload_size m c"
    "blk_payload_size (set_magic m b v) c = blk_payload_size m c"
    "blk_is_free (set_payload_size m b v) c = blk_is_free m c"
    "blk_is_free (set_is_free m b v) c = blk_is_free m c"
    "blk_is_free (set_magic m b v) c = blk_is_free m c"
    "blk_magic (set_payload_size m b v) c = blk_magic m c"
    "blk_magic (set_is_free m b v) c = blk_magic m c"
    "blk_magic (set_magic m b v) c = blk_magic m c"
  using assms by (auto intro!: hdr_cong simp: set_out)

lemma blk_payload_size_le: "blk_payload_size m b \<le> SIZE_MAX"
  by (simp add: hdr_defs get_u32_le)

lemma magic_le [simp]: "ARENA_MAGIC \<le> SIZE_MAX" "Suc 0 \<le> SIZE_MAX"
  by (simp_all add: ARENA_MAGIC_def SIZE_MAX_def)

text \<open>The abstract state: the physical blocks in address order, each with its payload
  size and whether it is free.\<close>

type_synonym blocks = "(nat \<times> bool) list"

definition aligned :: "nat \<Rightarrow> bool" where
  "aligned n \<longleftrightarrow> n mod LXP_ARENA_ALIGN = 0"

definition span :: "blocks \<Rightarrow> nat" where
  "span bs = (\<Sum>(p, f)\<leftarrow>bs. ARENA_HDR + p)"

definition used_of :: "blocks \<Rightarrow> nat" where
  "used_of bs = (\<Sum>(p, f)\<leftarrow>bs. if f then 0 else ARENA_HDR + p)"

fun tiles :: "mem \<Rightarrow> nat \<Rightarrow> blocks \<Rightarrow> nat \<Rightarrow> bool" where
  "tiles m cur [] e \<longleftrightarrow> cur = e"
| "tiles m cur ((p, f) # bs) e \<longleftrightarrow>
     blk_magic m cur = ARENA_MAGIC \<and> blk_is_free m cur = (if f then 1 else 0)
     \<and> blk_payload_size m cur = p \<and> LXP_ARENA_ALIGN \<le> p \<and> aligned p
     \<and> tiles m (cur + (ARENA_HDR + p)) bs e"

definition arena_ok :: "mem \<Rightarrow> arena \<Rightarrow> blocks \<Rightarrow> bool" where
  "arena_ok m ar bs \<longleftrightarrow>
     a_base ar \<noteq> 0 \<and> a_first ar = a_base ar \<and> aligned (a_base ar)
     \<and> aligned (a_size ar) \<and> ARENA_HDR + LXP_ARENA_ALIGN \<le> a_size ar
     \<and> a_base ar + a_size ar \<le> SIZE_MAX
     \<and> tiles m (a_base ar) bs (a_base ar + a_size ar) \<and> a_used ar = used_of bs"

lemma span_simps [simp]:
  "span [] = 0" "span ((p, f) # bs) = ARENA_HDR + p + span bs" "span (xs @ ys) = span xs + span ys"
  by (simp_all add: span_def)

lemma used_of_simps [simp]:
  "used_of [] = 0" "used_of ((p, f) # bs) = (if f then 0 else ARENA_HDR + p) + used_of bs"
  "used_of (xs @ ys) = used_of xs + used_of ys"
  by (simp_all add: used_of_def)

lemma used_of_le_span: "used_of bs \<le> span bs"
  by (induction bs) auto

lemma tiles_span: "tiles m cur bs e \<Longrightarrow> e = cur + span bs"
proof (induction bs arbitrary: cur)
  case (Cons b bs)
  obtain p f where b: "b = (p, f)" by (cases b)
  have "e = cur + (ARENA_HDR + p) + span bs" by (rule Cons.IH) (use Cons.prems in \<open>simp add: b\<close>)
  then show ?case by (simp add: b)
qed simp

lemma tiles_append:
  "tiles m cur (xs @ ys) e \<longleftrightarrow> tiles m cur xs (cur + span xs) \<and> tiles m (cur + span xs) ys e"
  by (induction xs arbitrary: cur) (auto simp: add.assoc)

lemma tiles_unique: "tiles m cur bs e \<Longrightarrow> tiles m cur bs' e \<Longrightarrow> bs = bs'"
proof (induction bs arbitrary: cur bs')
  case Nil
  then show ?case by (cases bs') (auto dest: tiles_span)
next
  case (Cons b bs)
  obtain p f where b: "b = (p, f)" by (cases b)
  have "e \<noteq> cur" using tiles_span [OF Cons.prems(1)] by (simp add: b)
  then obtain p' f' bs2 where b': "bs' = (p', f') # bs2"
    using Cons.prems(2) by (cases bs') auto
  have "p = blk_payload_size m cur" "f \<longleftrightarrow> blk_is_free m cur = 1"
    using Cons.prems(1) by (simp_all add: b)
  moreover have "p' = blk_payload_size m cur" "f' \<longleftrightarrow> blk_is_free m cur = 1"
    using Cons.prems(2) by (simp_all add: b')
  ultimately have hd: "p' = p" "f' = f" by simp_all
  have "bs = bs2"
    by (rule Cons.IH [of "cur + (ARENA_HDR + p)"]) (use Cons.prems hd in \<open>simp_all add: b b'\<close>)
  with hd show ?case by (simp add: b b')
qed

lemma tiles_local:
  "tiles m cur bs e \<Longrightarrow> (\<And>x. cur \<le> x \<Longrightarrow> x < cur + span bs \<Longrightarrow> m' x = m x) \<Longrightarrow> tiles m' cur bs e"
proof (induction bs arbitrary: cur)
  case (Cons b bs)
  obtain p f where b: "b = (p, f)" by (cases b)
  have eq: "blk_payload_size m' cur = blk_payload_size m cur" "blk_is_free m' cur = blk_is_free m cur"
    "blk_magic m' cur = blk_magic m cur"
    using Cons.prems(2) by (auto intro!: hdr_cong simp: b)
  have "tiles m' (cur + (ARENA_HDR + p)) bs e"
    by (rule Cons.IH) (use Cons.prems in \<open>auto simp: b\<close>)
  with eq Cons.prems(1) show ?case by (simp add: b)
qed simp

lemma arena_walk_complete:
  assumes "tiles m cur bs e" "used + used_of bs \<le> sz" "span bs \<le> sz"
  shows "arena_walk m sz e cur used = Some (used + used_of bs)"
  using assms
proof (induction bs arbitrary: cur used)
  case Nil
  then show ?case by (simp add: arena_walk.simps)
next
  case (Cons b bs)
  obtain p f where b: "b = (p, f)" by (cases b)
  have e: "e = cur + (16 + p) + span bs" using Cons.prems tiles_span by (fastforce simp: b)
  have "arena_walk m sz e (cur + (16 + p)) (if f then used else used + (16 + p))
      = Some ((if f then used else used + (16 + p)) + used_of bs)"
    by (rule Cons.IH) (use Cons.prems in \<open>auto simp: b\<close>)
  then show ?case
    using Cons.prems e by (subst arena_walk.simps) (auto simp: b Let_def aligned_def split: if_splits)
qed

lemma arena_walk_step:
  assumes "arena_walk m sz e cur used = Some u" "cur < e"
  shows "blk_magic m cur = ARENA_MAGIC" "blk_is_free m cur \<le> 1" "16 \<le> blk_payload_size m cur"
    "blk_payload_size m cur mod 16 = 0"
    "arena_walk m sz e (cur + (16 + blk_payload_size m cur))
       (if blk_is_free m cur = 0 then used + (16 + blk_payload_size m cur) else used) = Some u"
  using assms by (simp_all add: arena_walk.simps [of m sz e cur] Let_def split: if_splits)

lemma arena_walk_sound:
  "arena_walk m sz e cur used = Some u \<Longrightarrow> \<exists>bs. tiles m cur bs e \<and> u = used + used_of bs"
proof (induction "e - cur" arbitrary: cur used rule: less_induct)
  case less
  let ?p = "blk_payload_size m cur" and ?f = "blk_is_free m cur \<noteq> 0"
  show ?case
  proof (cases "cur < e")
    case False
    with less.prems show ?thesis
      by (auto simp: arena_walk.simps [of m sz e cur] split: if_splits intro!: exI [of _ "[]"])
  next
    case True
    note st = arena_walk_step [OF less.prems True]
    obtain bs where "tiles m (cur + (16 + ?p)) bs e"
      "u = (if blk_is_free m cur = 0 then used + (16 + ?p) else used) + used_of bs"
      using less.hyps [OF _ st(5)] True by (metis (no_types, lifting) diff_less_mono2 less_add_same_cancel1 zero_less_numeral add_gr_0)
    then have "tiles m cur ((?p, ?f) # bs) e \<and> u = used + used_of ((?p, ?f) # bs)"
      using st(1-4) by (auto simp: aligned_def)
    then show ?thesis by blast
  qed
qed

lemma arena_layout_valid_iff: "arena_layout_valid m ar \<longleftrightarrow> (\<exists>bs. arena_ok m ar bs)"
proof
  assume v: "arena_layout_valid m ar"
  then obtain bs where "tiles m (a_base ar) bs (a_base ar + a_size ar)" "a_used ar = 0 + used_of bs"
    unfolding arena_layout_valid_def by (auto split: if_splits dest: arena_walk_sound)
  with v show "\<exists>bs. arena_ok m ar bs"
    unfolding arena_layout_valid_def arena_ok_def aligned_def by (auto split: if_splits)
next
  assume "\<exists>bs. arena_ok m ar bs"
  then obtain bs where ok: "arena_ok m ar bs" by blast
  then have t: "tiles m (a_base ar) bs (a_base ar + a_size ar)" by (simp add: arena_ok_def)
  have "span bs = a_size ar" using tiles_span [OF t] by simp
  then have "arena_walk m (a_size ar) (a_base ar + a_size ar) (a_base ar) 0 = Some (0 + used_of bs)"
    by (intro arena_walk_complete [OF t]) (use used_of_le_span [of bs] in auto)
  with ok show "arena_layout_valid m ar"
    by (auto simp: arena_ok_def arena_layout_valid_def aligned_def)
qed

text \<open>What is left of a block of payload \<open>p\<close> after \<open>need\<close> bytes are taken: a
  remainder block when it can host a header and a minimum slot.\<close>

definition carve :: "nat \<Rightarrow> nat \<Rightarrow> bool \<Rightarrow> blocks \<Rightarrow> blocks" where
  "carve need p f bs =
     (if p - need \<ge> ARENA_HDR + LXP_ARENA_ALIGN then (need, f) # (p - need - ARENA_HDR, True) # bs
      else (p, f) # bs)"

text \<open>First fit on the list of blocks: the offset of the chosen header and the new list.\<close>

fun aalloc :: "nat \<Rightarrow> blocks \<Rightarrow> (nat \<times> blocks) option" where
  "aalloc need [] = None"
| "aalloc need ((p, f) # bs) =
     (if f \<and> need \<le> p then Some (0, carve need p False bs)
      else map_option (\<lambda>(off, bs'). (ARENA_HDR + p + off, (p, f) # bs')) (aalloc need bs))"

text \<open>The live allocations: payload address and size.\<close>

fun allocd :: "nat \<Rightarrow> blocks \<Rightarrow> (nat \<times> nat) set" where
  "allocd cur [] = {}"
| "allocd cur ((p, f) # bs) =
     (if f then {} else {(cur + ARENA_HDR, p)}) \<union> allocd (cur + (ARENA_HDR + p)) bs"

lemma aalloc_SomeE:
  assumes "aalloc need bs = Some (off, bs')"
  obtains pre p post where "bs = pre @ (p, True) # post" "need \<le> p" "off = span pre"
    "bs' = pre @ carve need p False post"
proof -
  have "\<exists>pre p post. bs = pre @ (p, True) # post \<and> need \<le> p \<and> off = span pre
      \<and> bs' = pre @ carve need p False post"
    using assms
  proof (induction bs arbitrary: off bs')
    case (Cons b bs)
    obtain p f where b: "b = (p, f)" by (cases b)
    show ?case
    proof (cases "f \<and> need \<le> p")
      case True
      with Cons.prems show ?thesis by (intro exI [of _ "[]"]) (auto simp: b)
    next
      case False
      with Cons.prems obtain off2 bs2 where "aalloc need bs = Some (off2, bs2)"
        and o: "off = ARENA_HDR + p + off2" "bs' = (p, f) # bs2" by (auto simp: b)
      from Cons.IH [OF this(1)] obtain pre q post where "bs = pre @ (q, True) # post" "need \<le> q"
        "off2 = span pre" "bs2 = pre @ carve need q False post" by blast
      with o show ?thesis by (intro exI [of _ "(p, f) # pre"]) (auto simp: b)
    qed
  qed simp
  then show thesis using that by blast
qed

lemma aalloc_None: "aalloc need bs = None \<longleftrightarrow> (\<forall>(p, f) \<in> set bs. f \<longrightarrow> p < need)"
proof (induction bs)
  case (Cons b bs)
  then show ?case by (cases b) auto
qed simp

lemma arena_first_fit_refines:
  "tiles m cur bs e \<Longrightarrow> arena_first_fit m e need cur = map_option (\<lambda>(off, _). cur + off) (aalloc need bs)"
proof (induction bs arbitrary: cur)
  case Nil
  then show ?case by (simp add: arena_first_fit.simps)
next
  case (Cons b bs)
  obtain p f where b: "b = (p, f)" by (cases b)
  have e: "cur < e" using tiles_span [OF Cons.prems] by (simp add: b)
  have IH: "arena_first_fit m e need (cur + (16 + p)) =
      map_option (\<lambda>(off, _). cur + (16 + p) + off) (aalloc need bs)"
    by (rule Cons.IH) (use Cons.prems in \<open>simp add: b\<close>)
  have h: "blk_is_free m cur = (if f then 1 else 0)" "blk_payload_size m cur = p"
    using Cons.prems by (simp_all add: b)
  show ?case
    by (subst arena_first_fit.simps, cases "aalloc need bs") (auto simp: b e h IH)
qed

lemma block_separate:
  assumes "pre @ (p, f) # post = pre' @ (q, g) # post'"
  shows "(pre = pre' \<and> p = q \<and> f = g \<and> post = post')
    \<or> span pre + (ARENA_HDR + p) \<le> span pre' \<or> span pre' + (ARENA_HDR + q) \<le> span pre"
  using assms by (auto simp: append_eq_append_conv2 Cons_eq_append_conv append_eq_Cons_conv)

lemma allocd_iff:
  "(a, l) \<in> allocd cur bs \<longleftrightarrow>
     (\<exists>pre post. bs = pre @ (l, False) # post \<and> a = cur + span pre + ARENA_HDR)"
proof (induction bs arbitrary: cur)
  case (Cons b bs)
  obtain p f where b: "b = (p, f)" by (cases b)
  show ?case (is "?L \<longleftrightarrow> ?R")
  proof
    assume ?L
    then consider "\<not> f" "a = cur + ARENA_HDR" "l = p" | "(a, l) \<in> allocd (cur + (ARENA_HDR + p)) bs"
      by (auto simp: b split: if_splits)
    then show ?R
    proof cases
      case 1
      then show ?thesis by (intro exI [of _ "[]"] exI [of _ bs]) (auto simp: b)
    next
      case 2
      then obtain pre post where "bs = pre @ (l, False) # post"
        "a = cur + (ARENA_HDR + p) + span pre + ARENA_HDR" using Cons.IH by blast
      then show ?thesis by (intro exI [of _ "(p, f) # pre"] exI [of _ post]) (auto simp: b)
    qed
  next
    assume ?R
    then obtain pre post where d: "b # bs = pre @ (l, False) # post"
      "a = cur + span pre + ARENA_HDR" by blast
    show ?L
    proof (cases pre)
      case Nil
      with d show ?thesis by (auto simp: b)
    next
      case (Cons c pre')
      with d have "(a, l) \<in> allocd (cur + (ARENA_HDR + p)) bs"
        using Cons.IH [of "cur + (ARENA_HDR + p)"] by (auto simp: b)
      then show ?thesis by (simp add: b)
    qed
  qed
qed simp

lemma allocd_append [simp]: "allocd cur (xs @ ys) = allocd cur xs \<union> allocd (cur + span xs) ys"
  by (induction xs arbitrary: cur) (auto simp: add.assoc)

lemma allocd_carve [simp]:
  "allocd cur (carve need p True bs) = allocd (cur + (ARENA_HDR + p)) bs" if "need \<le> p"
  using that by (auto simp: carve_def add.assoc)

lemma span_carve [simp]: "need \<le> p \<Longrightarrow> span (carve need p f bs) = ARENA_HDR + p + span bs"
  by (auto simp: carve_def)

lemma tiles_blockD:
  assumes "tiles m cur (pre @ (p, f) # post) e"
  shows "tiles m cur pre (cur + span pre)" "tiles m (cur + span pre) ((p, f) # post) e"
    "blk_payload_size m (cur + span pre) = p" "blk_is_free m (cur + span pre) = (if f then 1 else 0)"
    "blk_magic m (cur + span pre) = ARENA_MAGIC" "16 \<le> p" "aligned p"
    "tiles m (cur + span pre + (16 + p)) post e" "e = cur + span pre + (16 + p) + span post"
  using assms tiles_span [OF assms] by (simp_all add: tiles_append)

lemma aligned_simps [simp]:
  "aligned 16" "aligned 0" "aligned a \<Longrightarrow> aligned b \<Longrightarrow> aligned (a + b)"
  "aligned a \<Longrightarrow> aligned b \<Longrightarrow> aligned (a - b)" "aligned (16 + b) = aligned b"
  by (auto simp: aligned_def dvd_diff_nat mod_eq_0_iff_dvd dvd_add_right_iff)

lemma tiles_aligned: "tiles m cur bs e \<Longrightarrow> aligned (span bs)"
proof (induction bs arbitrary: cur)
  case (Cons b bs)
  then show ?case by (cases b) (auto simp: add.assoc)
qed simp

lemma align_down_aligned [simp]: "aligned (align_down n)"
  by (simp add: aligned_def align_down_def minus_mod_eq_mult_div)

lemma arena_align_props:
  assumes "arena_align n \<noteq> 0"
  shows "aligned (arena_align n)" "n \<le> arena_align n" "arena_align n < n + 16"
proof -
  have n: "arena_align n = align_down (n + 15)"
    using assms by (auto simp: arena_align_def split: if_splits)
  show "aligned (arena_align n)" by (simp add: n)
  show "n \<le> arena_align n" "arena_align n < n + 16"
    using mod_less_divisor [of 16 "n + 15"] by (simp_all add: n align_down_def)
qed

lemma arena_split_tiles:
  assumes t: "tiles m b ((p, f) # post) e" and n: "need \<le> p" "16 \<le> need" "aligned need"
  shows "tiles (arena_split m b need) b (carve need p f post) e"
proof (cases "p - need \<ge> 32")
  case False
  with t show ?thesis by (simp add: arena_split_def carve_def)
next
  case True
  have p: "blk_payload_size m b = p" "p \<le> SIZE_MAX" using t blk_payload_size_le [of m b] by auto
  let ?r = "b + 16 + need" and ?q = "p - need - 16"
  have le: "?q \<le> SIZE_MAX" "need \<le> SIZE_MAX" using p n by linarith+
  define m' where "m' = arena_split m b need"
  have m': "m' = set_payload_size (set_magic (set_is_free (set_payload_size m ?r ?q) ?r 1) ?r ARENA_MAGIC) b need"
    using True p by (simp add: m'_def arena_split_def Let_def)
  have "tiles m' (?r + (16 + ?q)) post e"
  proof (rule tiles_local)
    have "?r + (16 + ?q) = b + (16 + p)" using True by simp
    then show "tiles m (?r + (16 + ?q)) post e" using t by simp
  qed (simp add: m' hdr_simps)
  moreover have "blk_payload_size m' b = need" "blk_is_free m' b = (if f then 1 else 0)"
    "blk_magic m' b = ARENA_MAGIC" "blk_payload_size m' ?r = ?q" "blk_is_free m' ?r = 1"
    "blk_magic m' ?r = ARENA_MAGIC"
    using t n le by (simp_all add: m' hdr_simps)
  moreover have "16 \<le> ?q" "aligned ?q" using True n t by auto
  ultimately show ?thesis
    using True n by (simp add: carve_def m'_def [symmetric] add.assoc)
qed

lemma arena_split_out:
  "x < b \<or> b + (16 + blk_payload_size m b) \<le> x \<Longrightarrow> arena_split m b need x = m x"
  by (cases "need + 32 \<le> blk_payload_size m b") (auto simp: arena_split_def Let_def hdr_simps)

lemma arena_split_payload:
  "16 \<le> need \<Longrightarrow> b + 16 \<le> x \<Longrightarrow> x < b + 16 + need \<Longrightarrow> arena_split m b need x = m x"
  by (simp add: arena_split_def Let_def hdr_simps)

lemma carve_head:
  assumes "need \<le> p"
  obtains q rest where "\<And>f. carve need p f bs = (q, f) # rest" "need \<le> q" "q \<le> p"
  using assms that by (cases "p - need \<ge> 32") (auto simp: carve_def)

lemma set_is_free_tiles:
  "tiles m b ((p, f) # post) e \<Longrightarrow> v = (if g then 1 else 0) \<Longrightarrow> tiles (set_is_free m b v) b ((p, g) # post) e"
  by (auto simp: hdr_simps intro: tiles_local)

lemma tiles_replace_tail:
  assumes "tiles m cur (pre @ rest) e" "tiles m' (cur + span pre) rest' e"
    "\<And>x. cur \<le> x \<Longrightarrow> x < cur + span pre \<Longrightarrow> m' x = m x"
  shows "tiles m' cur (pre @ rest') e"
  using assms by (auto simp: tiles_append intro: tiles_local)

lemma merge_tiles:
  assumes t: "tiles m b ((p, f) # (q, g) # r) e"
    and h: "blk_payload_size m' b = p + (16 + q)" "blk_is_free m' b = blk_is_free m b"
      "blk_magic m' b = blk_magic m b"
    and out: "\<And>x. b + (16 + p) + 12 \<le> x \<Longrightarrow> m' x = m x"
  shows "tiles m' b ((p + (16 + q), f) # r) e"
proof -
  have "tiles m' (b + (16 + (p + (16 + q)))) r e"
    by (rule tiles_local [of m]) (use t out in \<open>auto simp: add.assoc\<close>)
  with t h show ?thesis by auto
qed

lemma arena_okD:
  assumes "arena_ok m ar bs"
  shows "tiles m (a_base ar) bs (a_base ar + a_size ar)" "a_used ar = used_of bs"
    "span bs = a_size ar" "a_base ar \<noteq> 0" "a_first ar = a_base ar" "a_base ar + a_size ar \<le> SIZE_MAX"
    "aligned (a_base ar)" "arena_layout_valid m ar"
  using assms tiles_span [of m "a_base ar" bs "a_base ar + a_size ar"]
  by (auto simp: arena_ok_def arena_layout_valid_iff)

lemma arena_ok_unique: "arena_ok m ar bs \<Longrightarrow> arena_ok m ar bs' \<Longrightarrow> bs = bs'"
  by (auto simp: arena_ok_def intro: tiles_unique)

lemma arena_okI:
  assumes "arena_ok m ar bs" "tiles m' (a_base ar) bs' (a_base ar + a_size ar)"
    "a_base ar' = a_base ar" "a_size ar' = a_size ar" "a_first ar' = a_first ar"
    "a_used ar' = used_of bs'"
  shows "arena_ok m' ar' bs'"
  using assms by (simp add: arena_ok_def)

lemma bump_high_water_simps [simp]:
  "a_base (bump_high_water ar) = a_base ar" "a_size (bump_high_water ar) = a_size ar"
  "a_used (bump_high_water ar) = a_used ar" "a_first (bump_high_water ar) = a_first ar"
  "a_mappings (bump_high_water ar) = a_mappings ar"
  "a_high_water (bump_high_water ar) = max (a_high_water ar) (a_used ar)"
  by (auto simp: bump_high_water_def)

text \<open>The effect of a successful allocation on bytes and control block.\<close>

lemma lxp_arena_alloc_Some:
  assumes ok: "arena_ok m ar bs" and n: "need = arena_align (if sz = 0 then 1 else sz)" "need \<noteq> 0"
    and a: "aalloc need bs = Some (off, bs')"
  obtains m' ar' pre p post where
    "lxp_arena_alloc m ar sz = (m', ar', a_base ar + off + ARENA_HDR)" "arena_ok m' ar' bs'"
    "bs = pre @ (p, True) # post" "need \<le> p" "off = span pre" "bs' = pre @ carve need p False post"
    "a_base ar' = a_base ar" "a_size ar' = a_size ar" "a_mappings ar' = a_mappings ar"
    "a_high_water ar' = max (a_high_water ar) (a_used ar')"
    "\<forall>x. x < a_base ar + off \<or> a_base ar + off + (ARENA_HDR + p) \<le> x \<longrightarrow> m' x = m x"
proof -
  note okd = arena_okD [OF ok]
  obtain pre p post where d: "bs = pre @ (p, True) # post" "need \<le> p" "off = span pre"
    "bs' = pre @ carve need p False post" using aalloc_SomeE [OF a] .
  let ?b = "a_base ar + span pre" and ?e = "a_base ar + a_size ar"
  note blk = tiles_blockD [OF okd(1) [unfolded d(1)]]
  have np: "aligned need" "16 \<le> need"
    using arena_align_props [of "if sz = 0 then 1 else sz"] n
    by (auto simp: aligned_def elim!: dvdE)
  obtain q rest where c: "\<And>f. carve need p f post = (q, f) # rest" "need \<le> q" "q \<le> p"
    using carve_head [OF d(2)] by metis
  let ?m1 = "arena_split m ?b need" and ?m2 = "set_is_free (arena_split m ?b need) ?b 0"
  have t1: "tiles ?m1 ?b ((q, True) # rest) ?e"
    using arena_split_tiles [OF blk(2) d(2) np(2,1)] by (simp add: c)
  have t2: "tiles ?m2 ?b ((q, False) # rest) ?e"
    by (rule set_is_free_tiles [OF t1]) simp
  have out: "?m2 x = m x" if "x < ?b \<or> ?b + (16 + p) \<le> x" for x
    using that blk(3) by (auto simp: hdr_simps arena_split_out)
  have t3: "tiles ?m2 (a_base ar) bs' ?e"
    using tiles_replace_tail [OF okd(1) [unfolded d(1)] t2] out by (simp add: d(4) c(1))
  have q: "blk_payload_size ?m1 ?b = q" using t1 by simp
  have used: "used_of bs' = a_used ar + (16 + q)" "a_used ar + (16 + q) \<le> a_size ar"
    using okd(2,3) used_of_le_span [of pre] used_of_le_span [of post] c(1) [of True] c(1) [of False] c(3)
      span_carve [OF d(2), of False post]
    by (auto simp: d(1,4) c(1) carve_def split: if_splits)
  have fit: "arena_first_fit m ?e need (a_base ar) = Some ?b"
    using arena_first_fit_refines [OF okd(1), of need] a d(3) by simp
  let ?ar' = "bump_high_water (ar\<lparr>a_used := a_used ar + (16 + q)\<rparr>)"
  have alloc: "lxp_arena_alloc m ar sz = (?m2, ?ar', ?b + 16)"
    unfolding lxp_arena_alloc_def Let_def n(1) [symmetric]
    using used(2) n(2) okd(4,5,8) by (simp add: fit q blk_payload_def)
  have "arena_ok ?m2 ?ar' bs'"
    by (rule arena_okI [OF ok t3]) (simp_all add: used)
  with alloc d out show thesis by (intro that [of ?m2 ?ar' pre p post]) auto
qed

lemma lxp_arena_alloc_None:
  assumes "arena_ok m ar bs" "need = arena_align (if sz = 0 then 1 else sz)"
    "need = 0 \<or> aalloc need bs = None"
  shows "lxp_arena_alloc m ar sz = (m, ar, 0)"
  using assms arena_first_fit_refines [OF arena_okD(1) [OF assms(1)], of need]
  by (auto simp: lxp_arena_alloc_def Let_def)

text \<open>Release on the list of blocks, with the forward and the backward coalescing.\<close>

definition afwd :: "nat \<Rightarrow> blocks \<Rightarrow> nat \<times> blocks" where
  "afwd p post = (case post of (q, True) # r \<Rightarrow> (p + (ARENA_HDR + q), r) | _ \<Rightarrow> (p, post))"

definition afree :: "blocks \<Rightarrow> nat \<Rightarrow> blocks \<Rightarrow> blocks" where
  "afree pre p post =
     (let (p', post') = afwd p post in
      if pre \<noteq> [] \<and> snd (last pre)
      then butlast pre @ (fst (last pre) + (ARENA_HDR + p'), True) # post'
      else pre @ (p', True) # post')"

lemma arena_find_complete:
  "tiles m cur (pre @ (p, f) # post) e \<Longrightarrow>
   arena_find_from m e (cur + span pre + 16) cur prev =
     Some (cur + span pre, if pre = [] then prev else Some (cur + span (butlast pre)))"
proof (induction pre arbitrary: cur prev)
  case Nil
  then show ?case using tiles_span [OF Nil] by (simp add: arena_find_from.simps blk_payload_def)
next
  case (Cons b pre)
  obtain q g where b: "b = (q, g)" by (cases b)
  have e: "cur < e" using tiles_span [OF Cons.prems] by (simp add: b)
  have "arena_find_from m e (cur + (16 + q) + span pre + 16) (cur + (16 + q)) (Some cur) =
     Some (cur + (16 + q) + span pre,
       if pre = [] then Some cur else Some (cur + (16 + q) + span (butlast pre)))"
    by (rule Cons.IH) (use Cons.prems in \<open>simp add: b\<close>)
  with Cons.prems e show ?case
    by (subst arena_find_from.simps) (auto simp: b blk_payload_def add.assoc)
qed

lemma arena_find_sound:
  "tiles m cur bs e \<Longrightarrow> arena_find_from m e t cur prev = Some (b, pv) \<Longrightarrow>
   \<exists>pre p f post. bs = pre @ (p, f) # post \<and> b = cur + span pre \<and> t = b + 16"
proof (induction bs arbitrary: cur prev)
  case Nil
  then show ?case by (simp add: arena_find_from.simps)
next
  case (Cons c bs)
  obtain q g where c: "c = (q, g)" by (cases c)
  have e: "cur < e" using tiles_span [OF Cons.prems(1)] by (simp add: c)
  show ?case
  proof (cases "cur + 16 = t")
    case True
    with Cons.prems(2) e have "b = cur"
      by (simp add: arena_find_from.simps [of m e t cur] blk_payload_def)
    with True show ?thesis by (intro exI [of _ "[]"]) (auto simp: c)
  next
    case False
    with Cons.prems e have "arena_find_from m e t (cur + (16 + q)) (Some cur) = Some (b, pv)"
      by (simp add: arena_find_from.simps [of m e t cur] blk_payload_def c)
    moreover have "tiles m (cur + (16 + q)) bs e" using Cons.prems(1) by (simp add: c)
    ultimately obtain pre p f post where "bs = pre @ (p, f) # post" "b = cur + (16 + q) + span pre"
      "t = b + 16" using Cons.IH by blast
    then show ?thesis by (intro exI [of _ "(q, g) # pre"]) (auto simp: c)
  qed
qed

lemma tiles_merge_step:
  assumes t: "tiles m b ((p, f) # (q, g) # r) e" and e: "e \<le> SIZE_MAX"
  shows "tiles (set_magic (set_payload_size m b (p + (16 + q))) (b + (16 + p)) 0) b ((p + (16 + q), f) # r) e"
proof (rule merge_tiles [OF t])
  have "p + (16 + q) \<le> SIZE_MAX" using tiles_span [OF t] e by simp
  then show "blk_payload_size (set_magic (set_payload_size m b (p + (16 + q))) (b + (16 + p)) 0) b = p + (16 + q)"
    by (simp add: hdr_simps)
qed (simp_all add: hdr_simps)

lemma coalesce_forward_tiles:
  assumes t: "tiles m b ((p, True) # post) e" and e: "e \<le> SIZE_MAX" and a: "afwd p post = (p', post')"
  shows "tiles (coalesce_forward m e b) b ((p', True) # post') e"
proof (cases post)
  case Nil
  then show ?thesis using t a tiles_span [OF t] by (simp add: coalesce_forward_def afwd_def Let_def)
next
  case (Cons c r)
  obtain q g where c: "c = (q, g)" by (cases c)
  have h: "blk_payload_size m b = p" "blk_payload_size m (b + 16 + p) = q"
    "blk_is_free m (b + 16 + p) = (if g then 1 else 0)" "b + 16 + p < e"
    using t tiles_span [OF t] by (simp_all add: Cons c add.assoc)
  show ?thesis
  proof (cases g)
    case True
    have "p' = p + (16 + q)" "post' = r" using a True by (simp_all add: afwd_def Cons c)
    moreover have "coalesce_forward m e b =
        set_magic (set_payload_size m b (p + (16 + q))) (b + (16 + p)) 0"
      using h True by (simp add: coalesce_forward_def Let_def add.assoc)
    ultimately show ?thesis
      using tiles_merge_step [OF t [unfolded Cons c True] e] by (simp only:)
  next
    case False
    then show ?thesis using t a h by (auto simp: coalesce_forward_def afwd_def Let_def Cons c)
  qed
qed

lemma coalesce_forward_below: "x < b \<Longrightarrow> coalesce_forward m e b x = m x"
  by (simp add: coalesce_forward_def Let_def hdr_simps)

lemma coalesce_backward_tiles:
  assumes t: "tiles m cur ((r, g) # (p, True) # post) e" and e: "e \<le> SIZE_MAX"
  shows "tiles (coalesce_backward m (Some cur) (cur + (16 + r))) cur
     (if g then (r + (16 + p), True) # post else (r, g) # (p, True) # post) e"
  using t tiles_merge_step [OF t e] by (auto simp: coalesce_backward_def)

lemma last_split: "pre \<noteq> [] \<Longrightarrow> \<exists>pre0 r g. pre = pre0 @ [(r, g)]"
  by (cases pre rule: rev_cases) auto

lemma afree_tiles:
  assumes t: "tiles m cur (pre @ (p, True) # post) e" and e: "e \<le> SIZE_MAX"
  shows "tiles
     (coalesce_backward (coalesce_forward m e (cur + span pre))
        (if pre = [] then None else Some (cur + span (butlast pre))) (cur + span pre))
     cur (afree pre p post) e"
proof -
  obtain p' post' where a: "afwd p post = (p', post')" by (cases "afwd p post")
  let ?m2 = "coalesce_forward m e (cur + span pre)"
  have t2: "tiles ?m2 (cur + span pre) ((p', True) # post') e"
    by (rule coalesce_forward_tiles [OF _ e a]) (use t in \<open>simp only: tiles_append\<close>)
  have t3: "tiles ?m2 cur (pre @ (p', True) # post') e"
    by (rule tiles_replace_tail [OF t t2]) (simp add: coalesce_forward_below)
  show ?thesis
  proof (cases "pre = []")
    case True
    with t3 show ?thesis by (simp add: coalesce_backward_def afree_def a)
  next
    case False
    then obtain pre0 r g where p0: "pre = pre0 @ [(r, g)]" using last_split by blast
    have t4: "tiles ?m2 (cur + span pre0) ((r, g) # (p', True) # post') e"
      using t3 by (simp add: p0 tiles_append add.assoc)
    let ?m3 = "coalesce_backward ?m2 (Some (cur + span pre0)) (cur + span pre0 + (16 + r))"
    have below: "?m3 x = ?m2 x" if "x < cur + span pre0" for x
      using that by (simp add: coalesce_backward_def hdr_simps)
    have "tiles ?m3 cur (pre0 @ (if g then (r + (16 + p'), True) # post' else (r, g) # (p', True) # post')) e"
      by (rule tiles_replace_tail [of ?m2 cur pre0 "(r, g) # (p', True) # post'"])
        (use t3 coalesce_backward_tiles [OF t4 e] below in \<open>auto simp: p0\<close>)
    then show ?thesis by (cases g) (simp_all add: p0 afree_def a add.assoc)
  qed
qed

lemma used_of_afree: "used_of (afree pre p post) = used_of pre + used_of post"
proof -
  have fwd: "used_of (snd (afwd p post)) = used_of post"
    by (auto simp: afwd_def split: list.split prod.split bool.split)
  show ?thesis
  proof (cases "pre = []")
    case True
    then show ?thesis using fwd by (auto simp: afree_def split: prod.splits)
  next
    case False
    then obtain pre0 r g where "pre = pre0 @ [(r, g)]" using last_split by blast
    then show ?thesis using fwd by (auto simp: afree_def split: prod.splits)
  qed
qed

lemma coalesce_changes:
  assumes "coalesce_backward (coalesce_forward m e b) pv b x \<noteq> m x"
  shows "(b \<le> x \<and> x < b + 12)
    \<or> (b + 16 + blk_payload_size m b < e \<and> b + 16 + blk_payload_size m b \<le> x
        \<and> x < b + 16 + blk_payload_size m b + 12)
    \<or> (\<exists>pb. pv = Some pb \<and> pb \<le> x \<and> x < pb + 12)"
proof (rule ccontr)
  assume n: "\<not> ?thesis"
  have "coalesce_backward m' pv b x = m' x" for m'
    using n by (cases pv) (auto simp: coalesce_backward_def hdr_simps)
  moreover have "coalesce_forward m e b x = m x"
    using n by (auto simp: coalesce_forward_def Let_def hdr_simps)
  ultimately show False using assms by simp
qed

text \<open>The addresses of the block headers.\<close>

definition hdr_bytes :: "nat \<Rightarrow> blocks \<Rightarrow> nat set" where
  "hdr_bytes cur bs =
     {x. \<exists>pre p f post. bs = pre @ (p, f) # post \<and> cur + span pre \<le> x \<and> x < cur + span pre + ARENA_HDR}"

lemma hdr_bytes_allocd:
  assumes "(a, l) \<in> allocd cur bs" "a \<le> x" "x < a + l" shows "x \<notin> hdr_bytes cur bs"
proof
  assume "x \<in> hdr_bytes cur bs"
  then obtain pre p f post where 1: "bs = pre @ (p, f) # post" "cur + span pre \<le> x"
    "x < cur + span pre + ARENA_HDR" by (auto simp: hdr_bytes_def)
  obtain pre' post' where 2: "bs = pre' @ (l, False) # post'" "a = cur + span pre' + ARENA_HDR"
    using assms(1) by (auto simp: allocd_iff)
  from block_separate [of pre p f post pre' l False post'] 1 2 assms(2,3) show False by auto
qed

lemma arena_free_block_refines:
  assumes ok: "arena_ok m ar (pre @ (p, False) # post)"
  obtains m' where
    "arena_free_block m ar (a_base ar + span pre + ARENA_HDR) =
       (m', ar\<lparr>a_used := a_used ar - (ARENA_HDR + p)\<rparr>, True)"
    "arena_ok m' (ar\<lparr>a_used := a_used ar - (ARENA_HDR + p)\<rparr>) (afree pre p post)"
    "\<forall>x. x \<notin> hdr_bytes (a_base ar) (pre @ (p, False) # post) \<longrightarrow> m' x = m x"
proof -
  note okd = arena_okD [OF ok]
  let ?bs = "pre @ (p, False) # post"
  let ?b = "a_base ar + span pre" and ?e = "a_base ar + a_size ar"
  let ?pv = "if pre = [] then None else Some (a_base ar + span (butlast pre))"
  note blk = tiles_blockD [OF okd(1)]
  define m1 where "m1 = set_is_free m ?b 1"
  define m3 where "m3 = coalesce_backward (coalesce_forward m1 ?e ?b) ?pv ?b"
  have t1: "tiles m1 (a_base ar) (pre @ (p, True) # post) ?e"
    unfolding m1_def
    by (rule tiles_replace_tail [OF okd(1) set_is_free_tiles [OF blk(2)]]) (simp_all add: hdr_simps)
  have t3: "tiles m3 (a_base ar) (afree pre p post) ?e"
    using afree_tiles [OF t1 okd(6)] by (simp add: m3_def)
  have find: "arena_find_payload m ar (?b + 16) = Some (?b, ?pv)"
    using arena_find_complete [OF okd(1)] by (simp add: arena_find_payload_def)
  have free: "arena_free_block m ar (?b + 16) = (m3, ar\<lparr>a_used := a_used ar - (16 + p)\<rparr>, True)"
    using okd(2,8) blk(3,4)
    by (simp add: arena_free_block_def find Let_def m3_def m1_def)
  have ok3: "arena_ok m3 (ar\<lparr>a_used := a_used ar - (16 + p)\<rparr>) (afree pre p post)"
    by (rule arena_okI [OF ok t3]) (simp_all add: used_of_afree okd(2))
  have out: "m3 x = m x" if x: "x \<notin> hdr_bytes (a_base ar) ?bs" for x
  proof -
    have nb: "\<not> (a_base ar + span xs \<le> x \<and> x < a_base ar + span xs + 16)"
      if "?bs = xs @ (q, g) # ys" for xs q g ys
      using x that unfolding hdr_bytes_def by blast
    have b: "\<not> (?b \<le> x \<and> x < ?b + 16)" by (rule nb [of pre p False post]) simp
    have nxt: "\<not> (?b + 16 + p \<le> x \<and> x < ?b + 16 + p + 16)" if lt: "?b + 16 + p < ?e"
    proof -
      obtain q g r where "post = (q, g) # r" using lt blk(9) by (cases post) auto
      then show ?thesis using nb [of "pre @ [(p, False)]" q g r] by (simp add: add.assoc)
    qed
    have prv: "\<not> (pb \<le> x \<and> x < pb + 16)" if pv: "?pv = Some pb" for pb
    proof -
      have "pre \<noteq> []" using pv by (auto split: if_splits)
      then obtain pre0 r g where "pre = pre0 @ [(r, g)]" using last_split by blast
      then show ?thesis using nb [of pre0 r g "(p, False) # post"] pv by auto
    qed
    have "m3 x = m1 x"
    proof (rule ccontr)
      assume "m3 x \<noteq> m1 x"
      moreover have "blk_payload_size m1 ?b = p" using blk(3) by (simp add: m1_def hdr_simps)
      ultimately show False
        using coalesce_changes [of m1 ?e ?b ?pv x] b nxt prv unfolding m3_def by fastforce
    qed
    also have "m1 x = m x" using b by (auto simp: m1_def hdr_simps)
    finally show ?thesis .
  qed
  show thesis using that free ok3 out by blast
qed

lemma arena_free_block_refused:
  assumes ok: "arena_ok m ar bs" and n: "\<And>l. (ptr, l) \<notin> allocd (a_base ar) bs"
  shows "arena_free_block m ar ptr = (m, ar, False)"
proof (cases "arena_find_payload m ar ptr")
  case None
  then show ?thesis by (simp add: arena_free_block_def)
next
  case (Some c)
  obtain b pv where c: "c = (b, pv)" by (cases c)
  note okd = arena_okD [OF ok]
  obtain pre p f post where d: "bs = pre @ (p, f) # post" "b = a_base ar + span pre" "ptr = b + 16"
    using arena_find_sound [OF okd(1), of ptr None b pv] Some c
    unfolding arena_find_payload_def by blast
  have f using n [of p] d by (cases f) (auto simp: allocd_iff)
  then have "blk_is_free m b \<noteq> 0" using tiles_blockD(4) [OF okd(1) [unfolded d(1)]] d by simp
  with Some c show ?thesis by (simp add: arena_free_block_def)
qed

definition coalesced :: "blocks \<Rightarrow> bool" where
  "coalesced bs \<longleftrightarrow> successively (\<lambda>x y. \<not> (snd x \<and> snd y)) bs"

lemma coalesced_simps [simp]:
  "coalesced []" "coalesced [x]" "coalesced (x # y # bs) \<longleftrightarrow> \<not> (snd x \<and> snd y) \<and> coalesced (y # bs)"
  "coalesced (xs @ ys) \<longleftrightarrow> coalesced xs \<and> coalesced ys
     \<and> (xs = [] \<or> ys = [] \<or> \<not> (snd (last xs) \<and> snd (hd ys)))"
  by (simp_all add: coalesced_def successively_append_iff)

lemma coalesced_Cons: "coalesced (x # bs) \<longleftrightarrow> coalesced bs \<and> (bs = [] \<or> \<not> (snd x \<and> snd (hd bs)))"
  by (cases bs) auto

lemma coalesced_carve:
  "coalesced (pre @ (p, True) # post) \<Longrightarrow> coalesced (pre @ carve need p False post)"
  by (auto simp: carve_def coalesced_Cons)

lemma coalesced_afree:
  assumes "coalesced (pre @ (p, False) # post)" shows "coalesced (afree pre p post)"
proof -
  obtain p' post' where a: "afwd p post = (p', post')" by (cases "afwd p post")
  have f: "coalesced post' \<and> (post' = [] \<or> \<not> snd (hd post'))"
    using assms a
    by (cases post; cases "snd (hd post)") (auto simp: afwd_def coalesced_Cons split: prod.splits)
  show ?thesis
  proof (cases "pre = []")
    case True
    then show ?thesis using f by (auto simp: afree_def a coalesced_Cons)
  next
    case False
    then obtain pre0 r g where "pre = pre0 @ [(r, g)]" using last_split by blast
    then show ?thesis using f assms by (auto simp: afree_def a coalesced_Cons)
  qed
qed

text \<open>A fully released, coalesced arena is one extent.\<close>

lemma coalesced_all_free:
  assumes "coalesced bs" "\<And>p f. (p, f) \<in> set bs \<Longrightarrow> f" "bs \<noteq> []"
  shows "bs = [(span bs - ARENA_HDR, True)]"
proof (cases bs)
  case (Cons b rest)
  obtain p f where b: "b = (p, f)" by (cases b)
  have "rest = []"
  proof (rule ccontr)
    assume "rest \<noteq> []"
    then obtain q g rest' where "rest = (q, g) # rest'" by (cases rest) auto
    then show False using assms(1) assms(2) [of p f] assms(2) [of q g] Cons b by simp
  qed
  with assms(2) [of p f] Cons b show ?thesis by simp
qed (use assms in simp)

lemma allocd_disjoint:
  assumes "(a, l) \<in> allocd cur bs" "(a', l') \<in> allocd cur bs"
  shows "(a, l) = (a', l') \<or> a + l + ARENA_HDR \<le> a' \<or> a' + l' + ARENA_HDR \<le> a"
proof -
  obtain pre post where 1: "bs = pre @ (l, False) # post" "a = cur + span pre + 16"
    using assms by (auto simp: allocd_iff)
  obtain pre' post' where 2: "bs = pre' @ (l', False) # post'" "a' = cur + span pre' + 16"
    using assms by (auto simp: allocd_iff)
  from block_separate [of pre l False post pre' l' False post'] 1 2 show ?thesis by auto
qed

lemma allocd_bounds:
  "(a, l) \<in> allocd cur bs \<Longrightarrow> cur + ARENA_HDR \<le> a \<and> a + l \<le> cur + span bs"
  by (auto simp: allocd_iff)

lemma allocd_free_apart:
  assumes "(a, l) \<in> allocd cur (pre @ (p, True) # post)"
  shows "a + l \<le> cur + span pre \<or> cur + span pre + (ARENA_HDR + p) + ARENA_HDR \<le> a"
proof -
  obtain pre' post' where 2: "pre @ (p, True) # post = pre' @ (l, False) # post'" "a = cur + span pre' + 16"
    using assms unfolding allocd_iff by blast
  from block_separate [OF 2(1)] 2(2) show ?thesis by auto
qed

lemma allocd_carve_False:
  assumes "need \<le> p"
  obtains q where "need \<le> q" "q \<le> p"
    "\<And>pre post. allocd cur (pre @ carve need p False post) =
       insert (cur + span pre + ARENA_HDR, q) (allocd cur (pre @ (p, True) # post))"
proof (cases "p - need \<ge> 32")
  case True
  then have "cur + span pre + (16 + need) + (16 + (p - need - 16)) = cur + span pre + (16 + p)" for pre
    by simp
  with True show thesis by (intro that [of need]) (use assms in \<open>auto simp: carve_def add.assoc\<close>)
next
  case False
  then show thesis by (intro that [of p]) (use assms in \<open>auto simp: carve_def\<close>)
qed

lemma allocd_afree:
  "allocd cur (afree pre p post) = allocd cur (pre @ (p, False) # post) - {(cur + span pre + ARENA_HDR, p)}"
proof -
  have apart: "(cur + span pre + 16, p) \<notin> allocd cur pre"
    "(cur + span pre + 16, p) \<notin> allocd (cur + span pre + (16 + p)) post"
    by (auto dest: allocd_bounds)
  obtain p' post' where a: "afwd p post = (p', post')" by (cases "afwd p post")
  have f: "allocd (c + (16 + p')) post' = allocd (c + (16 + p)) post" for c
    using a by (auto simp: afwd_def add.assoc split: list.splits prod.splits bool.splits)
  show ?thesis
  proof (cases "pre = []")
    case True
    then show ?thesis using f [of cur] apart by (auto simp: afree_def a)
  next
    case False
    then obtain pre0 r g where "pre = pre0 @ [(r, g)]" using last_split by blast
    then show ?thesis
      using f [of "cur + span pre0 + (16 + r)"] apart by (auto simp: afree_def a add.assoc)
  qed
qed

text \<open>The bytes of every live block are unchanged.\<close>

definition keeps :: "(nat \<times> nat) set \<Rightarrow> mem \<Rightarrow> mem \<Rightarrow> bool" where
  "keeps L m m' \<longleftrightarrow> (\<forall>a l. (a, l) \<in> L \<longrightarrow> mem_read m' a l = mem_read m a l)"

lemma keepsI:
  "(\<And>a l x. (a, l) \<in> L \<Longrightarrow> a \<le> x \<Longrightarrow> x < a + l \<Longrightarrow> m' x = m x) \<Longrightarrow> keeps L m m'"
  by (auto simp: keeps_def intro: mem_read_cong)

lemma keepsD: "keeps L m m' \<Longrightarrow> (a, l) \<in> L \<Longrightarrow> mem_read m' a l = mem_read m a l"
  by (auto simp: keeps_def)

lemma keeps_trans: "keeps L m m' \<Longrightarrow> keeps L m' m'' \<Longrightarrow> keeps L m m''"
  by (auto simp: keeps_def)

lemma keeps_mono: "keeps L m m' \<Longrightarrow> L' \<subseteq> L \<Longrightarrow> keeps L' m m'"
  by (auto simp: keeps_def)

lemma arena_alloc_ok:
  assumes ok: "arena_ok m ar bs" and r: "lxp_arena_alloc m ar sz = (m', ar', ptr)" and p: "ptr \<noteq> 0"
  obtains bs' l where "arena_ok m' ar' bs'"
    "allocd (a_base ar) bs' = insert (ptr, l) (allocd (a_base ar) bs)"
    "sz \<le> l" "0 < l" "aligned ptr" "keeps (allocd (a_base ar) bs) m m'"
    "\<forall>(a, n) \<in> allocd (a_base ar) bs. a + n \<le> ptr \<or> ptr + l \<le> a"
    "a_base ar' = a_base ar" "a_size ar' = a_size ar" "a_mappings ar' = a_mappings ar"
    "coalesced bs \<longrightarrow> coalesced bs'"
proof -
  let ?need = "arena_align (if sz = 0 then 1 else sz)"
  have "\<not> (?need = 0 \<or> aalloc ?need bs = None)"
    using lxp_arena_alloc_None [OF ok refl, of sz] r p by force
  then have n: "?need \<noteq> 0" and "aalloc ?need bs \<noteq> None" by simp_all
  then obtain off bs' where a: "aalloc ?need bs = Some (off, bs')" by auto
  obtain m2 ar2 pre q post where f:
    "lxp_arena_alloc m ar sz = (m2, ar2, a_base ar + off + 16)" "arena_ok m2 ar2 bs'"
    "bs = pre @ (q, True) # post" "?need \<le> q" "off = span pre" "bs' = pre @ carve ?need q False post"
    "a_base ar2 = a_base ar" "a_size ar2 = a_size ar" "a_mappings ar2 = a_mappings ar"
    "a_high_water ar2 = max (a_high_water ar) (a_used ar2)"
    "\<forall>x. x < a_base ar + off \<or> a_base ar + off + (16 + q) \<le> x \<longrightarrow> m2 x = m x"
    using lxp_arena_alloc_Some [OF ok refl n a] .
  have eq: "m2 = m'" "ar2 = ar'" "ptr = a_base ar + span pre + 16" using f r by auto
  obtain l where l: "?need \<le> l" "l \<le> q" "allocd (a_base ar) bs' = insert (ptr, l) (allocd (a_base ar) bs)"
    by (rule allocd_carve_False [OF f(4), of "a_base ar"]) (use f(3,6) eq(3) in auto)
  have apart: "a + k \<le> a_base ar + span pre \<or> a_base ar + span pre + (16 + q) + 16 \<le> a"
    if "(a, k) \<in> allocd (a_base ar) bs" for a k
    using allocd_free_apart that f(3) by blast
  have k: "keeps (allocd (a_base ar) bs) m m'"
  proof (rule keepsI)
    fix a k x assume "(a, k) \<in> allocd (a_base ar) bs" "a \<le> x" "x < a + k"
    then show "m' x = m x" using apart [of a k] f(5) f(11) eq(1) by auto
  qed
  have "sz \<le> ?need" "0 < ?need" using arena_align_props(2) [OF n] n by (auto split: if_splits)
  moreover have "aligned ptr"
    using arena_okD(7) [OF ok] tiles_aligned [OF tiles_blockD(1) [OF arena_okD(1) [OF ok, unfolded f(3)]]]
    by (simp add: eq(3))
  moreover have "\<forall>(a, n) \<in> allocd (a_base ar) bs. a + n \<le> ptr \<or> ptr + l \<le> a"
    using apart l(2) eq(3) by fastforce
  moreover have "coalesced bs \<longrightarrow> coalesced bs'" unfolding f(3,6) using coalesced_carve by blast
  ultimately show thesis
    using f(2,7,8,9) l(1,3) k unfolding eq(1,2) by (intro that [of bs' l]) (assumption | linarith)+
qed

lemma arena_alloc_fail:
  assumes ok: "arena_ok m ar bs" and r: "lxp_arena_alloc m ar sz = (m', ar', 0)"
  shows "m' = m" "ar' = ar" "arena_align (if sz = 0 then 1 else sz) = 0 \<or>
      (\<forall>(p, f) \<in> set bs. f \<longrightarrow> p < arena_align (if sz = 0 then 1 else sz))"
proof -
  let ?need = "arena_align (if sz = 0 then 1 else sz)"
  have no: "?need = 0 \<or> aalloc ?need bs = None"
  proof (rule ccontr)
    assume "\<not> ?thesis"
    then obtain off bs' where n: "?need \<noteq> 0" and a: "aalloc ?need bs = Some (off, bs')" by auto
    show False by (rule lxp_arena_alloc_Some [OF ok refl n a]) (use r in auto)
  qed
  then show "m' = m" "ar' = ar" using lxp_arena_alloc_None [OF ok refl] r by auto
  show "?need = 0 \<or> (\<forall>(p, f) \<in> set bs. f \<longrightarrow> p < ?need)" using no by (simp only: aalloc_None)
qed

lemma arena_free_ok:
  assumes ok: "arena_ok m ar bs" and l: "(ptr, l) \<in> allocd (a_base ar) bs"
  obtains m' bs' where "arena_free_block m ar ptr = (m', ar\<lparr>a_used := a_used ar - (ARENA_HDR + l)\<rparr>, True)"
    "arena_ok m' (ar\<lparr>a_used := a_used ar - (ARENA_HDR + l)\<rparr>) bs'"
    "allocd (a_base ar) bs' = allocd (a_base ar) bs - {(ptr, l)}"
    "keeps (allocd (a_base ar) bs) m m'" "coalesced bs \<longrightarrow> coalesced bs'"
proof -
  obtain pre post where d: "bs = pre @ (l, False) # post" "ptr = a_base ar + span pre + 16"
    using l by (auto simp: allocd_iff)
  obtain m' where f: "arena_free_block m ar ptr = (m', ar\<lparr>a_used := a_used ar - (16 + l)\<rparr>, True)"
    "arena_ok m' (ar\<lparr>a_used := a_used ar - (16 + l)\<rparr>) (afree pre l post)"
    "\<forall>x. x \<notin> hdr_bytes (a_base ar) bs \<longrightarrow> m' x = m x"
    using arena_free_block_refines [OF ok [unfolded d(1)], folded d] .
  have "keeps (allocd (a_base ar) bs) m m'"
    by (rule keepsI) (use f(3) hdr_bytes_allocd in blast)
  then show thesis
    using that [of m' "afree pre l post"] f allocd_afree coalesced_afree d by auto
qed

lemma payload_write_ok:
  assumes ok: "arena_ok m ar bs" and l: "(a, l) \<in> allocd (a_base ar) bs"
    and out: "\<And>x. x < a \<or> a + l \<le> x \<Longrightarrow> m' x = m x"
  shows "arena_ok m' ar bs"
proof -
  note okd = arena_okD [OF ok]
  obtain pre post where d: "bs = pre @ (l, False) # post" "a = a_base ar + span pre + 16"
    using l unfolding allocd_iff by blast
  note blk = tiles_blockD [OF okd(1) [unfolded d(1)]]
  let ?b = "a_base ar + span pre"
  have "tiles m' (?b + (16 + l)) post (a_base ar + a_size ar)"
    by (rule tiles_local [OF blk(8)]) (simp add: out d(2))
  moreover have "blk_payload_size m' ?b = blk_payload_size m ?b" "blk_is_free m' ?b = blk_is_free m ?b"
    "blk_magic m' ?b = blk_magic m ?b"
    by (rule hdr_cong; simp add: out d(2))+
  ultimately have "tiles m' ?b ((l, False) # post) (a_base ar + a_size ar)"
    using blk(3-7) by simp
  then have "tiles m' (a_base ar) bs (a_base ar + a_size ar)"
    using tiles_replace_tail [OF okd(1) [unfolded d(1)], of m' "(l, False) # post"] out
    by (simp add: d)
  then show ?thesis by (rule arena_okI [OF ok]) (simp_all add: okd(2))
qed

lemma resize_mappings_simps [simp]:
  "a_base (resize_mappings ar p n) = a_base ar" "a_size (resize_mappings ar p n) = a_size ar"
  "a_used (resize_mappings ar p n) = a_used ar" "a_first (resize_mappings ar p n) = a_first ar"
  by (simp_all add: resize_mappings_def)

lemma arena_grow_ok:
  assumes ok: "arena_ok m ar (pre @ (p, False) # (q, True) # post)"
    and n: "p < need" "need \<le> p + (16 + q)" "aligned need"
  obtains m' ar' where "arena_grow_in_place m ar ptr (a_base ar + span pre) need sz = Some (m', ar')"
    "arena_ok m' ar' (pre @ carve need (p + (16 + q)) False post)"
    "\<forall>x. x < a_base ar + span pre \<or> (a_base ar + span pre + 16 \<le> x \<and> x < a_base ar + span pre + 16 + p)
       \<or> a_base ar + span pre + 16 + (p + (16 + q)) \<le> x \<longrightarrow> m' x = m x"
    "a_base ar' = a_base ar" "a_size ar' = a_size ar"
proof -
  note okd = arena_okD [OF ok]
  note blk = tiles_blockD [OF okd(1)]
  let ?b = "a_base ar + span pre" and ?e = "a_base ar + a_size ar" and ?c = "p + (16 + q)"
  have nx: "blk_payload_size m (?b + 16 + p) = q" "blk_is_free m (?b + 16 + p) = 1" "?b + 16 + p < ?e"
    using blk(2,9) by (simp_all add: add.assoc)
  define m1 where "m1 = set_payload_size (set_magic m (?b + 16 + p) 0) ?b ?c"
  have "?c \<le> SIZE_MAX" using blk(9) okd(6) by simp
  then have h1: "blk_payload_size m1 ?b = ?c" "blk_is_free m1 ?b = blk_is_free m ?b" "blk_magic m1 ?b = blk_magic m ?b"
    by (simp_all add: m1_def hdr_simps)
  have t1: "tiles m1 ?b ((?c, False) # post) ?e"
    by (rule merge_tiles [OF blk(2) h1]) (simp add: m1_def hdr_simps)
  have n16: "16 \<le> need" using n(1) blk(6) by simp
  define m2 where "m2 = arena_split m1 ?b need"
  have t2: "tiles m2 ?b (carve need ?c False post) ?e"
    unfolding m2_def by (rule arena_split_tiles [OF t1 n(2) n16 n(3)])
  obtain r rest where c: "\<And>f. carve need ?c f post = (r, f) # rest" "need \<le> r" "r \<le> ?c"
    using carve_head [OF n(2)] by metis
  have r: "blk_payload_size m2 ?b = r" using t2 by (simp add: c)
  have out: "m2 x = m x"
    if "x < ?b \<or> (?b + 16 \<le> x \<and> x < ?b + 16 + p) \<or> ?b + 16 + ?c \<le> x" for x
  proof -
    have "m1 x = m x" using that by (auto simp: m1_def hdr_simps)
    moreover have "m2 x = m1 x"
      using that h1(1) n(1) n16 by (auto simp: m2_def arena_split_out arena_split_payload)
    ultimately show ?thesis by simp
  qed
  have t3: "tiles m2 (a_base ar) (pre @ carve need ?c False post) ?e"
    using tiles_replace_tail [OF okd(1) t2] out by simp
  let ?ar' = "resize_mappings (bump_high_water (ar\<lparr>a_used := a_used ar + (r - p)\<rparr>)) ptr sz"
  have used: "a_used ar + (r - p) = used_of (pre @ carve need ?c False post)"
    using okd(2) c(1) [of False] c(2,3) n(1) by (auto simp: carve_def split: if_splits)
  have g: "arena_grow_in_place m ar ptr ?b need sz = Some (m2, ?ar')"
    using n(2) nx blk(3) r [unfolded m2_def m1_def]
    by (simp add: arena_grow_in_place_def Let_def m2_def m1_def add.assoc)
  have "arena_ok m2 ?ar' (pre @ carve need ?c False post)"
    by (rule arena_okI [OF ok t3]) (simp_all add: used)
  then show thesis using g out by (intro that [of m2 ?ar']) auto
qed

lemma arena_grow_None:
  assumes ok: "arena_ok m ar (pre @ (p, False) # post)"
    and n: "\<And>q r. post = (q, True) # r \<Longrightarrow> p + (16 + q) < need"
  shows "arena_grow_in_place m ar ptr (a_base ar + span pre) need sz = None"
proof -
  note okd = arena_okD [OF ok]
  note blk = tiles_blockD [OF okd(1)]
  show ?thesis
  proof (cases post)
    case Nil
    then show ?thesis using blk(3,9) by (simp add: arena_grow_in_place_def Let_def)
  next
    case (Cons c r)
    obtain q g where c: "c = (q, g)" by (cases c)
    have "blk_payload_size m (a_base ar + span pre + 16 + p) = q"
      "blk_is_free m (a_base ar + span pre + 16 + p) = (if g then 1 else 0)"
      using blk(2) by (simp_all add: Cons c add.assoc)
    then show ?thesis using n [of q r] blk(3)
      by (cases g) (auto simp: arena_grow_in_place_def Let_def Cons c add.assoc)
  qed
qed

text \<open>What a resize promises: on failure nothing changes, on success the block keeps its
  leading bytes, is large enough, and every other live block is untouched.\<close>

definition realloc_post :: "mem \<Rightarrow> arena \<Rightarrow> blocks \<Rightarrow> nat \<Rightarrow> nat \<Rightarrow> nat \<Rightarrow> mem \<times> arena \<times> nat \<Rightarrow> bool" where
  "realloc_post m ar bs ptr l sz res =
     (case res of (m', ar', q) \<Rightarrow>
        if q = 0 then m' = m \<and> ar' = ar
        else \<exists>bs' n. arena_ok m' ar' bs' \<and> sz \<le> n
          \<and> a_base ar' = a_base ar \<and> a_size ar' = a_size ar
          \<and> allocd (a_base ar) bs' = insert (q, n) (allocd (a_base ar) bs - {(ptr, l)})
          \<and> mem_read m' q (min l sz) = mem_read m ptr (min l sz)
          \<and> keeps (allocd (a_base ar) bs - {(ptr, l)}) m m'
          \<and> (coalesced bs \<longrightarrow> coalesced bs')
          \<and> (q = ptr \<or> (\<forall>k. (q, k) \<notin> allocd (a_base ar) bs)))"

lemma realloc_postI:
  assumes "q \<noteq> 0" "arena_ok m' ar' bs'" "sz \<le> n" "a_base ar' = a_base ar" "a_size ar' = a_size ar"
    "allocd (a_base ar) bs' = insert (q, n) (allocd (a_base ar) bs - {(ptr, l)})"
    "mem_read m' q (min l sz) = mem_read m ptr (min l sz)"
    "keeps (allocd (a_base ar) bs - {(ptr, l)}) m m'" "coalesced bs \<longrightarrow> coalesced bs'"
    "q = ptr \<or> (\<forall>k. (q, k) \<notin> allocd (a_base ar) bs)"
  shows "realloc_post m ar bs ptr l sz (m', ar', q)"
  using assms unfolding realloc_post_def prod.case by (simp only: if_False) blast

lemma mem_read_prefix: "mem_read m' a l = mem_read m b l \<Longrightarrow> k \<le> l \<Longrightarrow> mem_read m' a k = mem_read m b k"
  by (metis append_eq_append_conv le_Suc_ex length_mem_read mem_read_split)

lemma allocd_pos: "arena_ok m ar bs \<Longrightarrow> (a, l) \<in> allocd (a_base ar) bs \<Longrightarrow> 16 \<le> l"
  by (auto simp: allocd_iff dest!: arena_okD(1) tiles_blockD(6))

lemma allocd_unique:
  "arena_ok m ar bs \<Longrightarrow> (a, l) \<in> allocd (a_base ar) bs \<Longrightarrow> (a, l') \<in> allocd (a_base ar) bs \<Longrightarrow> l = l'"
  using allocd_disjoint [of a l "a_base ar" bs a l'] by (auto dest: allocd_pos)

lemma arena_move_post:
  assumes ok: "arena_ok m ar bs" and l: "(ptr, l) \<in> allocd (a_base ar) bs"
  shows "realloc_post m ar bs ptr l sz (arena_move m ar ptr l sz)"
proof -
  obtain m1 ar1 rep where a: "lxp_arena_alloc m ar sz = (m1, ar1, rep)" by (metis prod_cases3)
  show ?thesis
  proof (cases "rep = 0")
    case True
    with arena_alloc_fail(1,2) [OF ok, of sz m1 ar1] a show ?thesis
      by (simp add: realloc_post_def arena_move_def)
  next
    case False
    let ?L = "allocd (a_base ar) bs"
    obtain bs1 n where A: "arena_ok m1 ar1 bs1" "allocd (a_base ar) bs1 = insert (rep, n) ?L"
      "sz \<le> n" "0 < n" "aligned rep" "keeps ?L m m1"
      "\<forall>(a, k) \<in> ?L. a + k \<le> rep \<or> rep + n \<le> a"
      "a_base ar1 = a_base ar" "a_size ar1 = a_size ar" "a_mappings ar1 = a_mappings ar"
      "coalesced bs \<longrightarrow> coalesced bs1"
      using arena_alloc_ok [OF ok a False] .
    define k where "k = (if l < sz then l else sz)"
    have k: "k = min l sz" "k \<le> n" using A(3) by (auto simp: k_def)
    define m2 where "m2 = mem_write m1 rep (mem_read m1 ptr k)"
    have ok2: "arena_ok m2 ar1 bs1"
      by (rule payload_write_ok [OF A(1), of rep n]) (use A(2,8) k in \<open>auto simp: m2_def mem_simps\<close>)
    have keep2: "keeps ?L m m2"
    proof (rule keeps_trans [OF A(6)], rule keepsI)
      fix a j x assume "(a, j) \<in> ?L" "a \<le> x" "x < a + j"
      moreover from this A(7) have "a + j \<le> rep \<or> rep + n \<le> a" by blast
      ultimately show "m2 x = m1 x" using k by (auto simp: m2_def mem_write_def)
    qed
    have "(ptr, l) \<in> allocd (a_base ar1) bs1" using A(2,8) l by simp
    from arena_free_ok [OF ok2 this] obtain m3 bs3 where F:
      "arena_free_block m2 ar1 ptr = (m3, ar1\<lparr>a_used := a_used ar1 - (16 + l)\<rparr>, True)"
      "arena_ok m3 (ar1\<lparr>a_used := a_used ar1 - (16 + l)\<rparr>) bs3"
      "allocd (a_base ar1) bs3 = allocd (a_base ar1) bs1 - {(ptr, l)}"
      "keeps (allocd (a_base ar1) bs1) m2 m3" "coalesced bs1 \<Longrightarrow> coalesced bs3" by metis
    have ne: "rep \<noteq> ptr" using A(4,7) l allocd_pos [OF ok l] by fastforce
    let ?ar3 = "ar1\<lparr>a_used := a_used ar1 - (16 + l)\<rparr>"
    let ?ar4 = "case scan (\<lambda>i. map_addr (a_mappings ar1 i) = ptr) 0 LXP_ARENA_MAX_MAPPINGS of
        None \<Rightarrow> ?ar3 | Some i \<Rightarrow> arena_set_mapping ?ar3 i rep sz"
    have mv: "arena_move m ar ptr l sz = (m3, ?ar4, rep)"
      using False F(1) by (simp add: arena_move_def a Let_def m2_def k_def split: option.split)
    have ok4: "arena_ok m3 ?ar4 bs3" "a_base ?ar4 = a_base ar" "a_size ?ar4 = a_size ar"
      using F(2) A(8,9) by (auto simp: arena_ok_def arena_set_mapping_def split: option.split)
    have live: "allocd (a_base ar) bs3 = insert (rep, n) (?L - {(ptr, l)})"
      using F(3) A(2,8) ne by auto
    have "keeps (insert (rep, n) ?L) m2 m3" using F(4) A(2,8) by simp
    then have k3: "keeps ?L m m3" "mem_read m3 rep n = mem_read m2 rep n"
      using keep2 by (auto intro: keeps_trans keeps_mono dest: keepsD)
    have "mem_read m3 rep k = mem_read m2 rep k" by (rule mem_read_prefix [OF k3(2) k(2)])
    also have "\<dots> = mem_read m1 ptr k" by (simp add: m2_def mem_simps)
    also have "\<dots> = mem_read m ptr k"
      by (rule mem_read_prefix [OF keepsD [OF A(6) l]]) (simp add: k)
    finally have "mem_read m3 rep (min l sz) = mem_read m ptr (min l sz)" by (simp add: k)
    moreover have "keeps (?L - {(ptr, l)}) m m3" by (rule keeps_mono [OF k3(1)]) auto
    moreover have "coalesced bs \<longrightarrow> coalesced bs3" using A(11) F(5) by blast
    moreover have "(rep, j) \<notin> ?L" for j using A(4,7) allocd_pos [OF ok, of rep j] by fastforce
    ultimately show ?thesis
      unfolding mv by (intro realloc_postI [OF False ok4(1) A(3) ok4(2,3) live]) simp_all
  qed
qed

lemma arena_grow_post:
  assumes ok: "arena_ok m ar (pre @ (p, False) # (q, True) # post)"
    and n: "p < need" "need \<le> p + (16 + q)" "aligned need" "sz \<le> need"
    and g: "arena_grow_in_place m ar (a_base ar + span pre + 16) (a_base ar + span pre) need sz = Some (m', ar')"
  shows "realloc_post m ar (pre @ (p, False) # (q, True) # post) (a_base ar + span pre + 16) p sz
     (m', ar', a_base ar + span pre + 16)"
proof -
  let ?bs = "pre @ (p, False) # (q, True) # post" and ?ptr = "a_base ar + span pre + 16"
  let ?bs' = "pre @ carve need (p + (16 + q)) False post"
  let ?L = "allocd (a_base ar) ?bs - {(?ptr, p)}"
  obtain m2 ar2 where G2: "arena_grow_in_place m ar ?ptr (a_base ar + span pre) need sz = Some (m2, ar2)"
    "arena_ok m2 ar2 ?bs'"
    "\<forall>x. x < a_base ar + span pre \<or> (?ptr \<le> x \<and> x < ?ptr + p) \<or> ?ptr + (p + (16 + q)) \<le> x
       \<longrightarrow> m2 x = m x"
    "a_base ar2 = a_base ar" "a_size ar2 = a_size ar"
    using arena_grow_ok [OF ok n(1-3)] .
  have eq: "m2 = m'" "ar2 = ar'" using G2(1) g by simp_all
  note G = G2(2,4,5) [unfolded eq] and out = G2(3) [unfolded eq]
  have apart: "(?ptr, p) \<notin> allocd (a_base ar) pre"
    "(?ptr, p) \<notin> allocd (a_base ar + span pre + (16 + (p + (16 + q)))) post"
    by (auto dest: allocd_bounds)
  have L: "?L = allocd (a_base ar) (pre @ (p + (16 + q), True) # post)"
    using apart by (auto simp: add.assoc)
  obtain r where r: "need \<le> r" "allocd (a_base ar) ?bs' = insert (?ptr, r) ?L"
    by (rule allocd_carve_False [OF n(2), of "a_base ar"]) (rule that, assumption, unfold L)
  have k: "keeps ?L m m'"
  proof (rule keepsI)
    fix a j x assume "(a, j) \<in> ?L" and x: "a \<le> x" "x < a + j"
    then have "(a, j) \<in> allocd (a_base ar) (pre @ (p + (16 + q), True) # post)" by (simp only: L)
    from allocd_free_apart [OF this] x have "x < a_base ar + span pre \<or> ?ptr + (p + (16 + q)) \<le> x"
      by linarith
    then show "m' x = m x" using out by blast
  qed
  have c: "coalesced ?bs \<longrightarrow> coalesced ?bs'"
    by (auto simp: carve_def coalesced_Cons)
  have "mem_read m' ?ptr (min p sz) = mem_read m ?ptr (min p sz)"
    by (rule mem_read_cong) (use out in auto)
  then show ?thesis
    using r(1) n(4) by (intro realloc_postI [OF _ G(1) _ G(2,3) r(2) _ k c]) simp_all
qed

lemma arena_realloc_post:
  assumes ok: "arena_ok m ar bs" and l: "(ptr, l) \<in> allocd (a_base ar) bs"
  shows "realloc_post m ar bs ptr l sz (lxp_arena_realloc m ar ptr sz)"
proof -
  note okd = arena_okD [OF ok]
  obtain pre post where d: "bs = pre @ (l, False) # post" "ptr = a_base ar + span pre + 16"
    using l unfolding allocd_iff by blast
  let ?b = "a_base ar + span pre" and ?need = "arena_align (if sz = 0 then 1 else sz)"
  note blk = tiles_blockD [OF okd(1) [unfolded d(1)]]
  have "arena_find_payload m ar ptr = Some (?b, if pre = [] then None else Some (a_base ar + span (butlast pre)))"
    unfolding arena_find_payload_def d(2) by (rule arena_find_complete [OF okd(1) [unfolded d(1)]])
  then have R: "lxp_arena_realloc m ar ptr sz =
     (if ?need = 0 then (m, ar, 0) else if ?need \<le> l then (m, ar, ptr) else
      case arena_grow_in_place m ar ptr ?b ?need sz of Some (m1, ar1) \<Rightarrow> (m1, ar1, ptr)
      | None \<Rightarrow> arena_move m ar ptr l sz)"
    using okd(8) d(2) blk(3,4) 
    by (simp only: lxp_arena_realloc_def Let_def) (simp split: option.split)
  consider "?need = 0" | "?need \<noteq> 0" "?need \<le> l" | "?need \<noteq> 0" "l < ?need" by linarith
  then show ?thesis
  proof cases
    case 1
    then show ?thesis unfolding R by (simp add: realloc_post_def)
  next
    case 2
    have "sz \<le> l" using arena_align_props(2) [OF 2(1)] 2(2) by (auto split: if_splits)
    moreover have "allocd (a_base ar) bs = insert (ptr, l) (allocd (a_base ar) bs - {(ptr, l)})"
      using l by auto
    ultimately have "realloc_post m ar bs ptr l sz (m, ar, ptr)"
      using d(2) ok by (intro realloc_postI [of _ _ _ bs _ l]) (auto simp: keeps_def)
    with 2 show ?thesis unfolding R by simp
  next
    case 3
    have n: "aligned ?need" "sz \<le> ?need" using arena_align_props [OF 3(1)] by (auto split: if_splits)
    show ?thesis
    proof (cases "\<exists>q r. post = (q, True) # r \<and> ?need \<le> l + (16 + q)")
      case True
      then obtain q r where post: "post = (q, True) # r" "?need \<le> l + (16 + q)" by blast
      note ok' = ok [unfolded d(1) post(1)]
      obtain m1 ar1 where g: "arena_grow_in_place m ar ptr ?b ?need sz = Some (m1, ar1)"
        by (rule arena_grow_ok [OF ok' 3(2) post(2) n(1)])
      then show ?thesis
        using 3 arena_grow_post [OF ok' 3(2) post(2) n g [unfolded d(2)]]
        unfolding R g d(1) post(1) by (simp add: d(2))
    next
      case False
      then have "arena_grow_in_place m ar ptr ?b ?need sz = None"
        by (intro arena_grow_None [OF ok [unfolded d(1)]]) (use not_le in blast)
      with 3 arena_move_post [OF ok l, of sz] show ?thesis unfolding R by simp
    qed
  qed
qed

section \<open>Fresh arenas and tracked blocks\<close>

lemma arena_lay_first_ok:
  assumes "a_base ar \<noteq> 0" "aligned (a_base ar)" "aligned (a_size ar)" "32 \<le> a_size ar"
    "a_base ar + a_size ar \<le> SIZE_MAX"
  obtains m' ar' where "arena_lay_first m ar = (m', ar')" "arena_ok m' ar' [(a_size ar - ARENA_HDR, True)]"
    "a_base ar' = a_base ar" "a_size ar' = a_size ar"
proof -
  let ?m = "set_magic (set_is_free (set_payload_size m (a_base ar) (a_size ar - 16)) (a_base ar) 1) (a_base ar) ARENA_MAGIC"
  have "a_size ar - 16 \<le> SIZE_MAX" using assms(5) by linarith
  then have "tiles ?m (a_base ar) [(a_size ar - 16, True)] (a_base ar + a_size ar)"
    using assms by (simp add: hdr_simps)
  then have "arena_ok ?m (ar\<lparr>a_first := a_base ar, a_used := 0\<rparr>) [(a_size ar - 16, True)]"
    using assms by (simp add: arena_ok_def)
  then show thesis
    by (intro that [of ?m "ar\<lparr>a_first := a_base ar, a_used := 0\<rparr>"]) (simp_all add: arena_lay_first_def Let_def)
qed

lemma align_down_le [simp]: "align_down n \<le> n" "n < align_down n + 16"
  using mod_less_divisor [of 16 n] mod_less_eq_dividend [of n 16] unfolding align_down_def
  by linarith+

lemma arena_init_ok:
  assumes r: "lxp_arena_init m ar buf sz = (m', ar', LXP_OK)" and b: "buf + sz \<le> SIZE_MAX"
  shows "arena_ok m' ar' [(a_size ar' - ARENA_HDR, True)]" "buf \<le> a_base ar'"
    "a_base ar' + a_size ar' \<le> buf + sz" "buf + sz < a_base ar' + a_size ar' + 16"
proof -
  define start where "start = align_down (buf + 15)"
  have s: "buf \<le> start" "start < buf + 16" "aligned start"
    unfolding start_def using align_down_le [of "buf + 15"] by (linarith, linarith, simp)
  define ar1 where "ar1 = arena_clear_mappings
    (ar\<lparr>a_base := start, a_size := align_down (sz - (start - buf)), a_high_water := 0\<rparr>)"
  have g: "buf \<noteq> 0" "start - buf < sz" "32 \<le> align_down (sz - (start - buf))"
    and L: "arena_lay_first m ar1 = (m', ar')"
    using r s(1) by (auto simp: lxp_arena_init_def Let_def start_def ar1_def split: if_splits prod.splits)
  have f: "a_base ar1 = start" "a_size ar1 = align_down (sz - (start - buf))"
    by (simp_all add: ar1_def arena_clear_mappings_def)
  have z: "a_size ar1 \<le> sz - (start - buf)" "sz - (start - buf) < a_size ar1 + 16"
    by (simp_all add: f(2))
  have "start + a_size ar1 \<le> buf + sz" "buf + sz < start + a_size ar1 + 16" using z s(1) g(2) by linarith+
  moreover have "arena_ok m' ar' [(a_size ar1 - 16, True)] \<and> a_base ar' = start \<and> a_size ar' = a_size ar1"
    by (rule arena_lay_first_ok [of ar1 m]) (use g s f L b calculation in auto)
  ultimately show "arena_ok m' ar' [(a_size ar' - ARENA_HDR, True)]" "buf \<le> a_base ar'"
    "a_base ar' + a_size ar' \<le> buf + sz" "buf + sz < a_base ar' + a_size ar' + 16"
    using s by simp_all
qed

section \<open>Confinement\<close>

lemma arena_alloc_confined:
  assumes "lxp_arena_alloc m ar sz = (m', ar', p)" "x < a_base ar \<or> a_base ar + a_size ar \<le> x"
  shows "m' x = m x"
proof (cases "arena_layout_valid m ar \<and> p \<noteq> 0")
  case False
  then consider "\<not> arena_layout_valid m ar" | bs where "arena_ok m ar bs" "p = 0"
    by (auto simp: arena_layout_valid_iff)
  then show ?thesis
  proof cases
    case 1
    then show ?thesis using assms(1) by (simp add: lxp_arena_alloc_def)
  next
    case 2
    then show ?thesis using arena_alloc_fail(1) [OF 2(1)] assms(1) by blast
  qed
next
  case True
  then obtain bs where ok: "arena_ok m ar bs" by (auto simp: arena_layout_valid_iff)
  let ?need = "arena_align (if sz = 0 then 1 else sz)"
  have "\<not> (?need = 0 \<or> aalloc ?need bs = None)"
    using lxp_arena_alloc_None [OF ok refl, of sz] assms(1) True by force
  then obtain off bs' where n: "?need \<noteq> 0" and a: "aalloc ?need bs = Some (off, bs')" by auto
  show ?thesis
  proof (rule lxp_arena_alloc_Some [OF ok refl n a])
    fix m2 ar2 pre q post
    assume h: "lxp_arena_alloc m ar sz = (m2, ar2, a_base ar + off + 16)" "bs = pre @ (q, True) # post"
      "off = span pre"
      "\<forall>x. x < a_base ar + off \<or> a_base ar + off + (16 + q) \<le> x \<longrightarrow> m2 x = m x"
    have "off + (16 + q) \<le> a_size ar" using arena_okD(3) [OF ok] h by simp
    then have "x < a_base ar + off \<or> a_base ar + off + (16 + q) \<le> x" using assms(2) by linarith
    with h(1,4) assms(1) show ?thesis by auto
  qed
qed

lemma hdr_bytes_bounds:
  assumes "x \<in> hdr_bytes cur bs" "\<And>p f. (p, f) \<in> set bs \<Longrightarrow> 16 \<le> p"
  shows "cur \<le> x \<and> x < cur + span bs"
  using assms by (auto simp: hdr_bytes_def)

lemma arena_free_block_confined:
  assumes r: "arena_free_block m ar ptr = (m', ar', b)" and x: "x < a_base ar \<or> a_base ar + a_size ar \<le> x"
  shows "m' x = m x"
proof (cases "\<exists>bs l. arena_ok m ar bs \<and> (ptr, l) \<in> allocd (a_base ar) bs")
  case False
  then consider "\<not> arena_layout_valid m ar" | bs where "arena_ok m ar bs" "\<And>l. (ptr, l) \<notin> allocd (a_base ar) bs"
    by (auto simp: arena_layout_valid_iff)
  then show ?thesis
    by cases (use r arena_free_block_refused in \<open>auto simp: arena_free_block_def\<close>)
next
  case True
  then obtain bs l where ok: "arena_ok m ar bs" and l: "(ptr, l) \<in> allocd (a_base ar) bs" by blast
  then obtain pre post where d: "bs = pre @ (l, False) # post" "ptr = a_base ar + span pre + 16"
    unfolding allocd_iff by blast
  have "x \<notin> hdr_bytes (a_base ar) bs"
    using x arena_okD(3) [OF ok] by (auto simp: hdr_bytes_def)
  then show ?thesis
    using arena_free_block_refines [OF ok [unfolded d(1)]] r d by (metis prod.inject)
qed

lemma arena_move_confined:
  assumes ok: "arena_ok m ar bs" and l: "(ptr, l) \<in> allocd (a_base ar) bs"
    and r: "arena_move m ar ptr l sz = (m', ar', p)"
    and x: "x < a_base ar \<or> a_base ar + a_size ar \<le> x"
  shows "m' x = m x"
proof -
  obtain m1 ar1 rep where a: "lxp_arena_alloc m ar sz = (m1, ar1, rep)" by (metis prod_cases3)
  note c1 = arena_alloc_confined [OF a x]
  show ?thesis
  proof (cases "rep = 0")
    case True
    then show ?thesis using r c1 by (simp add: arena_move_def a)
  next
    case False
    let ?L = "allocd (a_base ar) bs"
    obtain bs1 n where A: "arena_ok m1 ar1 bs1" "allocd (a_base ar) bs1 = insert (rep, n) ?L"
      "sz \<le> n" "0 < n" "aligned rep" "keeps ?L m m1"
      "\<forall>(a, k) \<in> ?L. a + k \<le> rep \<or> rep + n \<le> a"
      "a_base ar1 = a_base ar" "a_size ar1 = a_size ar" "a_mappings ar1 = a_mappings ar"
      "coalesced bs \<longrightarrow> coalesced bs1"
      using arena_alloc_ok [OF ok a False] .
    define k where "k = (if l < sz then l else sz)"
    define m2 where "m2 = mem_write m1 rep (mem_read m1 ptr k)"
    have k: "k \<le> n" using A(3) by (simp add: k_def)
    have b: "a_base ar \<le> rep" "rep + n \<le> a_base ar + a_size ar"
      using allocd_bounds [of rep n "a_base ar" bs1] A(2,8,9) arena_okD(3) [OF A(1)] by auto
    have c2: "m2 x = m1 x" using x b k by (auto simp: m2_def mem_write_def)
    have ok2: "arena_ok m2 ar1 bs1"
      by (rule payload_write_ok [OF A(1), of rep n]) (use A(2,8) k in \<open>auto simp: m2_def mem_simps\<close>)
    have "(ptr, l) \<in> allocd (a_base ar1) bs1" using A(2,8) l by simp
    from arena_free_ok [OF ok2 this] obtain m3 where F:
      "arena_free_block m2 ar1 ptr = (m3, ar1\<lparr>a_used := a_used ar1 - (16 + l)\<rparr>, True)" by metis
    have "m3 x = m2 x" using arena_free_block_confined [OF F] x A(8,9) by simp
    moreover have "m' = m3" using r False F by (simp add: arena_move_def a Let_def m2_def k_def)
    ultimately show ?thesis using c1 c2 by simp
  qed
qed

lemma arena_realloc_confined:
  assumes r: "lxp_arena_realloc m ar ptr sz = (m', ar', p)"
    and x: "x < a_base ar \<or> a_base ar + a_size ar \<le> x"
  shows "m' x = m x"
proof (cases "ptr \<noteq> 0 \<and> (\<exists>bs l. arena_ok m ar bs \<and> (ptr, l) \<in> allocd (a_base ar) bs)")
  case False
  consider "ptr = 0" | "ptr \<noteq> 0" "\<not> arena_layout_valid m ar"
    | bs where "ptr \<noteq> 0" "arena_ok m ar bs" "\<And>l. (ptr, l) \<notin> allocd (a_base ar) bs"
    using False by (auto simp: arena_layout_valid_iff)
  then show ?thesis
  proof cases
    case 1
    then show ?thesis using r arena_alloc_confined [OF _ x] by (simp add: lxp_arena_realloc_def)
  next
    case 2
    then show ?thesis using r by (simp add: lxp_arena_realloc_def)
  next
    case 3
    have "b_free \<noteq> 0" if f: "arena_find_payload m ar ptr = Some (b, pv)" "b_free = blk_is_free m b" for b pv b_free
    proof -
      obtain pre q f post where d: "bs = pre @ (q, f) # post" "b = a_base ar + span pre" "ptr = b + 16"
        using arena_find_sound [OF arena_okD(1) [OF 3(2)], of ptr None b pv] f(1)
        unfolding arena_find_payload_def by blast
      have f using 3(3) [of q] d by (cases f) (auto simp: allocd_iff)
      then show ?thesis using tiles_blockD(4) [OF arena_okD(1) [OF 3(2), unfolded d(1)]] d f(2) by simp
    qed
    then show ?thesis
      using r 3(1) by (auto simp: lxp_arena_realloc_def Let_def split: if_splits option.splits)
  qed
next
  case True
  then obtain bs l where ok: "arena_ok m ar bs" and l: "(ptr, l) \<in> allocd (a_base ar) bs" by blast
  note okd = arena_okD [OF ok]
  obtain pre post where d: "bs = pre @ (l, False) # post" "ptr = a_base ar + span pre + 16"
    using l unfolding allocd_iff by blast
  let ?b = "a_base ar + span pre" and ?need = "arena_align (if sz = 0 then 1 else sz)"
  note blk = tiles_blockD [OF okd(1) [unfolded d(1)]]
  have "arena_find_payload m ar ptr = Some (?b, if pre = [] then None else Some (a_base ar + span (butlast pre)))"
    unfolding arena_find_payload_def d(2) by (rule arena_find_complete [OF okd(1) [unfolded d(1)]])
  then have R: "lxp_arena_realloc m ar ptr sz =
     (if ?need = 0 then (m, ar, 0) else if ?need \<le> l then (m, ar, ptr) else
      case arena_grow_in_place m ar ptr ?b ?need sz of Some (m1, ar1) \<Rightarrow> (m1, ar1, ptr)
      | None \<Rightarrow> arena_move m ar ptr l sz)"
    using okd(8) d(2) blk(3,4)
    by (simp only: lxp_arena_realloc_def Let_def) (simp split: option.split)
  show ?thesis
  proof (cases "?need = 0 \<or> ?need \<le> l")
    case True
    then show ?thesis using r R by (auto split: if_splits)
  next
    case n: False
    show ?thesis
    proof (cases "arena_grow_in_place m ar ptr ?b ?need sz")
      case None
      then show ?thesis using n r R arena_move_confined [OF ok l _ x] by simp
    next
      case (Some c)
      then obtain q rest where post: "post = (q, True) # rest" "?need \<le> l + (16 + q)"
        using arena_grow_None [OF ok [unfolded d(1)], of ?need ptr sz]
        by (metis not_le option.distinct(1))
      have n': "l < ?need" "aligned ?need" using n arena_align_props(1) by auto
      show ?thesis
      proof (rule arena_grow_ok [OF ok [unfolded d(1) post(1)] n'(1) post(2) n'(2), of ptr sz])
        fix m2 ar2
        assume g: "arena_grow_in_place m ar ptr ?b ?need sz = Some (m2, ar2)"
          and out: "\<forall>x. x < ?b \<or> (?b + 16 \<le> x \<and> x < ?b + 16 + l) \<or> ?b + 16 + (l + (16 + q)) \<le> x \<longrightarrow> m2 x = m x"
        have "?b + 16 + (l + (16 + q)) \<le> a_base ar + a_size ar"
          using okd(3) by (simp add: d(1) post(1))
        then have "m2 x = m x" using x out by auto
        then show ?thesis using r n g unfolding R by auto
      qed
    qed
  qed
qed

section \<open>The allocator contract\<close>

text \<open>What the clients of an allocator rely on: a fresh block is large enough and apart
  from every live block, a release removes exactly its block, and neither touches the
  bytes of a live block.\<close>

datatype arena_op = Op_alloc nat | Op_free nat

definition run_ops :: "('s \<Rightarrow> nat \<Rightarrow> 's \<times> nat) \<Rightarrow> ('s \<Rightarrow> nat \<Rightarrow> 's) \<Rightarrow> arena_op list \<Rightarrow> 's \<Rightarrow> 's" where
  "run_ops alloc free ops s =
     fold (\<lambda>op s. case op of Op_alloc n \<Rightarrow> fst (alloc s n) | Op_free p \<Rightarrow> free s p) ops s"

locale block_allocator =
  fixes alloc :: "'s \<Rightarrow> nat \<Rightarrow> 's \<times> nat"
    and free :: "'s \<Rightarrow> nat \<Rightarrow> 's"
    and ok :: "'s \<Rightarrow> bool"
    and live :: "'s \<Rightarrow> (nat \<times> nat) set"
    and bytes :: "'s \<Rightarrow> mem"
  assumes alloc_ok: "ok s \<Longrightarrow> ok (fst (alloc s n))"
    and alloc_new: "ok s \<Longrightarrow> alloc s n = (s', p) \<Longrightarrow> p \<noteq> 0 \<Longrightarrow>
      \<exists>l. n \<le> l \<and> live s' = insert (p, l) (live s) \<and> (\<forall>(a, k) \<in> live s. a + k \<le> p \<or> p + l \<le> a)"
    and alloc_null: "ok s \<Longrightarrow> alloc s n = (s', 0) \<Longrightarrow> live s' = live s"
    and alloc_keeps: "ok s \<Longrightarrow> keeps (live s) (bytes s) (bytes (fst (alloc s n)))"
    and free_ok: "ok s \<Longrightarrow> ok (free s p)"
    and free_live: "ok s \<Longrightarrow> live (free s p) = {b \<in> live s. fst b \<noteq> p}"
    and free_keeps: "ok s \<Longrightarrow> keeps (live s) (bytes s) (bytes (free s p))"
begin

definition disjoint_live :: "'s \<Rightarrow> bool" where
  "disjoint_live s \<longleftrightarrow>
     (\<forall>(a, k) \<in> live s. \<forall>(b, l) \<in> live s. (a, k) = (b, l) \<or> a + k \<le> b \<or> b + l \<le> a)"

lemma alloc_grows: "ok s \<Longrightarrow> live s \<subseteq> live (fst (alloc s n))"
  by (cases "alloc s n", cases "snd (alloc s n) = 0") (auto dest: alloc_new alloc_null)

lemma run_ok: "ok s \<Longrightarrow> ok (run_ops alloc free ops s)"
  by (induction ops arbitrary: s) (auto simp: run_ops_def alloc_ok free_ok split: arena_op.splits)

lemma alloc_disjoint:
  assumes "ok s" "disjoint_live s" shows "disjoint_live (fst (alloc s n))"
proof -
  obtain s' p where a: "alloc s n = (s', p)" by (cases "alloc s n")
  show ?thesis
  proof (cases "p = 0")
    case True
    with a assms alloc_null show ?thesis by (simp add: disjoint_live_def)
  next
    case False
    from alloc_new [OF assms(1) a False] obtain l where l: "live s' = insert (p, l) (live s)"
      "\<forall>(a, k) \<in> live s. a + k \<le> p \<or> p + l \<le> a" by blast
    then show ?thesis using assms(2) a by (fastforce simp: disjoint_live_def)
  qed
qed

lemma run_disjoint:
  "ok s \<Longrightarrow> disjoint_live s \<Longrightarrow> disjoint_live (run_ops alloc free ops s)"
proof (induction ops arbitrary: s)
  case (Cons op ops)
  have "disjoint_live (free s p)" for p
    using Cons.prems by (auto simp: disjoint_live_def free_live)
  then show ?case
    using Cons alloc_disjoint alloc_ok free_ok by (cases op) (auto simp: run_ops_def)
qed (simp add: run_ops_def)

lemma run_keeps:
  "ok s \<Longrightarrow> (a, l) \<in> live s \<Longrightarrow> Op_free a \<notin> set ops \<Longrightarrow>
   (a, l) \<in> live (run_ops alloc free ops s)
   \<and> mem_read (bytes (run_ops alloc free ops s)) a l = mem_read (bytes s) a l"
proof (induction ops arbitrary: s)
  case (Cons op ops)
  let ?s = "case op of Op_alloc n \<Rightarrow> fst (alloc s n) | Op_free p \<Rightarrow> free s p"
  have "ok ?s" using Cons.prems by (cases op) (simp_all add: alloc_ok free_ok)
  moreover have "(a, l) \<in> live ?s"
    using Cons.prems alloc_grows by (cases op) (auto simp: free_live)
  moreover have "mem_read (bytes ?s) a l = mem_read (bytes s) a l"
    using Cons.prems(1,2) keepsD [OF alloc_keeps] keepsD [OF free_keeps] by (cases op) simp_all
  ultimately show ?case using Cons.IH [of ?s] Cons.prems by (simp add: run_ops_def)
qed (simp add: run_ops_def)

end

text \<open>The blocks a walk over the headers reads.\<close>

function arena_blocks_from :: "mem \<Rightarrow> nat \<Rightarrow> nat \<Rightarrow> blocks" where
  "arena_blocks_from m e cur =
     (if cur < e then (blk_payload_size m cur, blk_is_free m cur \<noteq> 0)
          # arena_blocks_from m e (cur + (ARENA_HDR + blk_payload_size m cur))
      else [])"
  by pat_completeness auto
termination
  by (relation "measure (\<lambda>(m, e, cur). e - cur)") auto

declare arena_blocks_from.simps [simp del]

definition arena_blocks :: "mem \<times> arena \<Rightarrow> blocks" where
  "arena_blocks s = (case s of (m, ar) \<Rightarrow> arena_blocks_from m (a_base ar + a_size ar) (a_base ar))"

definition arena_live :: "mem \<times> arena \<Rightarrow> (nat \<times> nat) set" where
  "arena_live s = allocd (a_base (snd s)) (arena_blocks s)"

definition arena_good :: "mem \<times> arena \<Rightarrow> bool" where
  "arena_good s \<longleftrightarrow> arena_layout_valid (fst s) (snd s) \<and> coalesced (arena_blocks s)"

definition arena_alloc_s :: "mem \<times> arena \<Rightarrow> nat \<Rightarrow> (mem \<times> arena) \<times> nat" where
  "arena_alloc_s s n = (case lxp_arena_alloc (fst s) (snd s) n of (m, ar, p) \<Rightarrow> ((m, ar), p))"

definition arena_free_s :: "mem \<times> arena \<Rightarrow> nat \<Rightarrow> mem \<times> arena" where
  "arena_free_s s p = lxp_arena_free (fst s) (snd s) p"

lemma arena_blocks_from_tiles: "tiles m cur bs e \<Longrightarrow> arena_blocks_from m e cur = bs"
proof (induction bs arbitrary: cur)
  case Nil
  then show ?case by (simp add: arena_blocks_from.simps)
next
  case (Cons b bs)
  obtain p f where b: "b = (p, f)" by (cases b)
  have "cur < e" using tiles_span [OF Cons.prems] by (simp add: b)
  then show ?case using Cons.prems Cons.IH [of "cur + (16 + p)"]
    by (subst arena_blocks_from.simps) (simp add: b)
qed

lemma arena_blocks_ok: "arena_ok m ar bs \<Longrightarrow> arena_blocks (m, ar) = bs"
  by (simp add: arena_blocks_def arena_blocks_from_tiles arena_okD(1))

lemma arena_goodE:
  assumes "arena_good s"
  obtains m ar bs where "s = (m, ar)" "arena_ok m ar bs" "coalesced bs" "arena_blocks s = bs"
    "arena_live s = allocd (a_base ar) bs"
  using assms by (cases s) (auto simp: arena_good_def arena_layout_valid_iff arena_live_def dest: arena_blocks_ok)

lemma arena_goodI: "arena_ok m ar bs \<Longrightarrow> coalesced bs \<Longrightarrow> arena_good (m, ar)"
  by (auto simp: arena_good_def arena_layout_valid_iff dest: arena_blocks_ok)

lemma drop_mappings_ok [simp]:
  "arena_ok m (drop_mappings ar p) bs = arena_ok m ar bs" "a_base (drop_mappings ar p) = a_base ar"
  by (simp_all add: arena_ok_def drop_mappings_def)

lemma arena_alloc_s_cases:
  assumes g: "arena_good s" and r: "arena_alloc_s s n = (s', p)"
  shows "arena_good s' \<and> keeps (arena_live s) (fst s) (fst s')
    \<and> (p = 0 \<longrightarrow> s' = s)
    \<and> (p \<noteq> 0 \<longrightarrow> (\<exists>l. n \<le> l \<and> arena_live s' = insert (p, l) (arena_live s)
         \<and> (\<forall>(a, k) \<in> arena_live s. a + k \<le> p \<or> p + l \<le> a)))"
proof -
  obtain m ar bs where s: "s = (m, ar)" "arena_ok m ar bs" "coalesced bs"
    "arena_blocks s = bs" "arena_live s = allocd (a_base ar) bs" using arena_goodE [OF g] .
  obtain m' ar' where a: "lxp_arena_alloc m ar n = (m', ar', p)" "s' = (m', ar')"
    using r s(1) by (auto simp: arena_alloc_s_def split: prod.splits)
  show ?thesis
  proof (cases "p = 0")
    case True
    with arena_alloc_fail(1,2) [OF s(2)] a s(1) have "s' = s" by simp
    then show ?thesis using True g by (simp add: keeps_def)
  next
    case False
    obtain bs' l where A: "arena_ok m' ar' bs'"
      "allocd (a_base ar) bs' = insert (p, l) (allocd (a_base ar) bs)"
      "n \<le> l" "0 < l" "aligned p" "keeps (allocd (a_base ar) bs) m m'"
      "\<forall>(a, k) \<in> allocd (a_base ar) bs. a + k \<le> p \<or> p + l \<le> a"
      "a_base ar' = a_base ar" "a_size ar' = a_size ar" "a_mappings ar' = a_mappings ar"
      "coalesced bs \<longrightarrow> coalesced bs'"
      using arena_alloc_ok [OF s(2) a(1) False] .
    have "arena_live s' = allocd (a_base ar) bs'"
      using arena_blocks_ok [OF A(1)] A(8) a(2) by (simp add: arena_live_def)
    then show ?thesis
      using False A s arena_goodI [OF A(1)] a(2) by auto
  qed
qed

lemma arena_free_s_cases:
  assumes g: "arena_good s"
  shows "arena_good (arena_free_s s p) \<and> keeps (arena_live s) (fst s) (fst (arena_free_s s p))
    \<and> arena_live (arena_free_s s p) = {b \<in> arena_live s. fst b \<noteq> p}"
proof -
  obtain m ar bs where s: "s = (m, ar)" "arena_ok m ar bs" "coalesced bs"
    "arena_blocks s = bs" "arena_live s = allocd (a_base ar) bs" using arena_goodE [OF g] .
  show ?thesis
  proof (cases "\<exists>l. (p, l) \<in> allocd (a_base ar) bs")
    case False
    then have "arena_free_s s p = s" using arena_free_block_refused [OF s(2)] s(1)
      by (simp add: arena_free_s_def lxp_arena_free_def)
    with False g s(5) show ?thesis by (auto simp: keeps_def)
  next
    case True
    then obtain l where l: "(p, l) \<in> allocd (a_base ar) bs" by blast
    let ?ar = "ar\<lparr>a_used := a_used ar - (16 + l)\<rparr>"
    obtain m' bs' where F: "arena_free_block m ar p = (m', ?ar, True)" "arena_ok m' ?ar bs'"
      "allocd (a_base ar) bs' = allocd (a_base ar) bs - {(p, l)}"
      "keeps (allocd (a_base ar) bs) m m'" "coalesced bs'"
      using arena_free_ok [OF s(2) l] s(3) by metis
    have f: "arena_free_s s p = (m', drop_mappings ?ar p)"
      using F(1) s(1) by (simp add: arena_free_s_def lxp_arena_free_def)
    have ok: "arena_ok m' (drop_mappings ?ar p) bs'" using F(2) by simp
    have "{b \<in> allocd (a_base ar) bs. fst b \<noteq> p} = allocd (a_base ar) bs - {(p, l)}"
      using l allocd_unique [OF s(2)] by auto
    then show ?thesis
      unfolding f using s F arena_goodI [OF ok] arena_blocks_ok [OF ok] by (simp add: arena_live_def)
  qed
qed

interpretation arena_alloc: block_allocator arena_alloc_s arena_free_s arena_good arena_live fst
proof
  fix s n s' p
  assume g: "arena_good s"
  show "arena_good (fst (arena_alloc_s s n))"
    using arena_alloc_s_cases [OF g, of n] by (cases "arena_alloc_s s n") auto
  show "keeps (arena_live s) (fst s) (fst (fst (arena_alloc_s s n)))"
    using arena_alloc_s_cases [OF g, of n] by (cases "arena_alloc_s s n") auto
  show "arena_good (arena_free_s s p)" "arena_live (arena_free_s s p) = {b \<in> arena_live s. fst b \<noteq> p}"
    "keeps (arena_live s) (fst s) (fst (arena_free_s s p))"
    using arena_free_s_cases [OF g] by auto
  show "\<exists>l. n \<le> l \<and> arena_live s' = insert (p, l) (arena_live s)
      \<and> (\<forall>(a, k) \<in> arena_live s. a + k \<le> p \<or> p + l \<le> a)"
    if "arena_alloc_s s n = (s', p)" "p \<noteq> 0"
    using arena_alloc_s_cases [OF g that(1)] that(2) by simp
  show "arena_live s' = arena_live s" if "arena_alloc_s s n = (s', 0)"
    using arena_alloc_s_cases [OF g that] by simp
qed

lemma arena_live_disjoint: "arena_good s \<Longrightarrow> arena_alloc.disjoint_live s"
  using allocd_disjoint unfolding arena_alloc.disjoint_live_def by (fastforce elim!: arena_goodE)

section \<open>Histories of an arena\<close>

definition arena_step :: "arena_op \<Rightarrow> mem \<times> arena \<Rightarrow> mem \<times> arena" where
  "arena_step op s = (case op of Op_alloc n \<Rightarrow> fst (arena_alloc_s s n) | Op_free p \<Rightarrow> arena_free_s s p)"

lemma arena_alloc_frame:
  "lxp_arena_alloc m ar n = (m', ar', p) \<Longrightarrow> a_base ar' = a_base ar \<and> a_size ar' = a_size ar"
  by (auto simp: lxp_arena_alloc_def Let_def bump_high_water_def split: if_splits option.splits)

lemma arena_free_block_frame:
  "arena_free_block m ar p = (m', ar', b) \<Longrightarrow> a_base ar' = a_base ar \<and> a_size ar' = a_size ar \<and> (\<not> b \<longrightarrow> m' = m \<and> ar' = ar)"
  by (auto simp: arena_free_block_def Let_def split: if_splits option.splits)

lemma arena_step_frame: "a_base (snd (arena_step op s)) = a_base (snd s) \<and> a_size (snd (arena_step op s)) = a_size (snd s)"
proof (cases op)
  case (Op_alloc n)
  obtain m' ar' p where a: "lxp_arena_alloc (fst s) (snd s) n = (m', ar', p)" by (metis prod_cases3)
  show ?thesis using arena_alloc_frame [OF a] by (simp add: arena_step_def arena_alloc_s_def Op_alloc a)
next
  case (Op_free p)
  obtain m' ar' b where f: "arena_free_block (fst s) (snd s) p = (m', ar', b)" by (metis prod_cases3)
  show ?thesis using arena_free_block_frame [OF f]
    by (simp add: arena_step_def arena_free_s_def lxp_arena_free_def drop_mappings_def Op_free f)
qed

lemma run_arena: "run_ops arena_alloc_s arena_free_s ops s = fold arena_step ops s"
  unfolding run_ops_def by (rule fold_cong) (auto simp: arena_step_def split: arena_op.split)

lemma run_arena_frame:
  "a_base (snd (fold arena_step ops s)) = a_base (snd s) \<and> a_size (snd (fold arena_step ops s)) = a_size (snd s)"
  by (induction ops arbitrary: s) (simp_all add: arena_step_frame)

lemma arena_live_bounds:
  assumes "arena_good s" "(a, l) \<in> arena_live s"
  shows "a_base (snd s) < a" "a + l \<le> a_base (snd s) + a_size (snd s)" "a mod LXP_ARENA_ALIGN = 0" "0 < l"
proof -
  obtain m ar bs where s: "s = (m, ar)" "arena_ok m ar bs" "coalesced bs"
    "arena_blocks s = bs" "arena_live s = allocd (a_base ar) bs" using arena_goodE [OF assms(1)] .
  note okd = arena_okD [OF s(2)]
  obtain pre post where d: "bs = pre @ (l, False) # post" "a = a_base ar + span pre + 16"
    using assms(2) s(5) by (auto simp: allocd_iff)
  have "aligned (a_base ar + span pre + 16)"
    using okd(7) tiles_aligned [OF tiles_blockD(1) [OF okd(1) [unfolded d(1)]]] by simp
  then show "a mod 16 = 0" by (simp add: d(2) aligned_def)
  show "a_base (snd s) < a" "a + l \<le> a_base (snd s) + a_size (snd s)"
    using okd(3) by (simp_all add: s(1) d)
  show "0 < l" using tiles_blockD(6) [OF okd(1) [unfolded d(1)]] by simp
qed

lemma arena_init_good:
  assumes "lxp_arena_init m ar buf sz = (m0, ar0, LXP_OK)" "buf + sz \<le> SIZE_MAX"
  shows "arena_good (m0, ar0)" "arena_live (m0, ar0) = {}"
  using arena_init_ok [OF assms] by (auto intro: arena_goodI simp: arena_live_def dest: arena_blocks_ok)

lemma arena_free_all:
  assumes "arena_good s" "arena_live s = {}"
  shows "arena_blocks s = [(a_size (snd s) - ARENA_HDR, True)]" "a_used (snd s) = 0"
proof -
  obtain m ar bs where s: "s = (m, ar)" "arena_ok m ar bs" "coalesced bs"
    "arena_blocks s = bs" "arena_live s = allocd (a_base ar) bs" using arena_goodE [OF assms(1)] .
  note okd = arena_okD [OF s(2)]
  have free: "f" if "(p, f) \<in> set bs" for p f
  proof (rule ccontr)
    assume "\<not> f"
    with that have "(p, False) \<in> set bs" by simp
    then obtain pre post where "bs = pre @ (p, False) # post" by (auto dest: split_list)
    then have "(a_base ar + span pre + 16, p) \<in> allocd (a_base ar) bs" by (simp add: allocd_iff)
    with assms(2) s(5) show False by simp
  qed
  have "bs \<noteq> []" using okd(3) s(2) by (auto simp: arena_ok_def)
  from coalesced_all_free [OF s(3) free this] have b: "bs = [(a_size ar - 16, True)]" using okd(3) by simp
  then show "arena_blocks s = [(a_size (snd s) - ARENA_HDR, True)]" using s by simp
  show "a_used (snd s) = 0" using okd(2) b s(1) by simp
qed


lemma arena_free_tracked_cases:
  assumes "lxp_arena_free_tracked m ar ptr sz = (m', ar', b)"
  shows "\<not> b \<longrightarrow> m' = m \<and> ar' = ar"
    "b \<longrightarrow> ptr \<noteq> 0 \<and> arena_layout_valid m ar
       \<and> (\<exists>i<LXP_ARENA_MAX_MAPPINGS. a_mappings ar i = \<lparr>map_addr = ptr, map_len = sz\<rparr>
            \<and> a_mappings ar' = (a_mappings ar)(i := \<lparr>map_addr = 0, map_len = 0\<rparr>))"
proof -
  obtain m1 ar1 ok where f: "arena_free_block m ar ptr = (m1, ar1, ok)" by (metis prod_cases3)
  have m: "a_mappings ar1 = a_mappings ar" "ok \<Longrightarrow> arena_layout_valid m ar"
    using f by (auto simp: arena_free_block_def Let_def split: if_splits option.splits)
  show "\<not> b \<longrightarrow> m' = m \<and> ar' = ar"
    using assms arena_free_block_frame [OF f]
    by (auto simp: lxp_arena_free_tracked_def f split: if_splits option.splits)
  show "b \<longrightarrow> ptr \<noteq> 0 \<and> arena_layout_valid m ar
       \<and> (\<exists>i<LXP_ARENA_MAX_MAPPINGS. a_mappings ar i = \<lparr>map_addr = ptr, map_len = sz\<rparr>
            \<and> a_mappings ar' = (a_mappings ar)(i := \<lparr>map_addr = 0, map_len = 0\<rparr>))"
    using assms m
    by (auto simp: lxp_arena_free_tracked_def f arena_set_mapping_def scan_simps split: if_splits option.splits)
qed

lemma arena_free_tracked_True:
  assumes ok: "arena_ok m ar bs" and l: "(ptr, l) \<in> allocd (a_base ar) bs"
    and i: "i < LXP_ARENA_MAX_MAPPINGS" "a_mappings ar i = \<lparr>map_addr = ptr, map_len = sz\<rparr>"
  shows "\<exists>m' ar'. lxp_arena_free_tracked m ar ptr sz = (m', ar', True)"
proof -
  have p: "ptr \<noteq> 0" using allocd_bounds [OF l] by simp
  obtain j where j: "scan (\<lambda>i. map_addr (a_mappings ar i) = ptr \<and> map_len (a_mappings ar i) = sz)
      0 LXP_ARENA_MAX_MAPPINGS = Some j"
    using scan_ex [of 0 i LXP_ARENA_MAX_MAPPINGS "\<lambda>i. map_addr (a_mappings ar i) = ptr \<and> map_len (a_mappings ar i) = sz"] i
    by auto
  obtain m' ar' where "arena_free_block m ar ptr = (m', ar', True)" using arena_free_ok [OF ok l] by metis
  with p j show ?thesis by (simp add: lxp_arena_free_tracked_def)
qed

section \<open>Properties\<close>

text \<open>A control block and a memory as the linker leaves them.\<close>

definition arena_bss :: arena where
  "arena_bss = \<lparr>a_base = 0, a_size = 0, a_used = 0, a_high_water = 0, a_first = 0,
     a_mappings = (\<lambda>_. \<lparr>map_addr = 0, map_len = 0\<rparr>)\<rparr>"

lemma arena_init_bss:
  obtains m0 ar0 where "lxp_arena_init (\<lambda>_. 0) arena_bss 4096 4096 = (m0, ar0, LXP_OK)"
    "a_base ar0 = 4096" "a_size ar0 = 4096" "arena_ok m0 ar0 [(4080, True)]"
proof -
  obtain m0 ar0 r where i: "lxp_arena_init (\<lambda>_. 0) arena_bss 4096 4096 = (m0, ar0, r)" by (metis prod_cases3)
  then have "r = LXP_OK" "a_base ar0 = 4096" "a_size ar0 = 4096"
    by (auto simp: lxp_arena_init_def align_down_def Let_def arena_lay_first_def arena_clear_mappings_def
        SIZE_MAX_def)
  then show thesis using that [of m0 ar0] i arena_init_ok(1) [of "\<lambda>_. 0" arena_bss 4096 4096 m0 ar0]
    by (simp add: SIZE_MAX_def)
qed

lemma arena_align_id: "aligned n \<Longrightarrow> n \<le> SIZE_MAX - 15 \<Longrightarrow> arena_align n = n"
proof -
  assume "aligned n" "n \<le> SIZE_MAX - 15"
  moreover then obtain k where k: "n = 16 * k" by (auto simp: aligned_def)
  moreover have "(16 * k + 15) mod 16 = 15" by presburger
  ultimately show ?thesis by (simp add: arena_align_def align_down_def)
qed

lemma arena_alloc_bss:
  obtains m0 ar0 m1 ar1 where "lxp_arena_init (\<lambda>_. 0) arena_bss 4096 4096 = (m0, ar0, LXP_OK)"
    "arena_ok m0 ar0 [(4080, True)]" "a_base ar0 = 4096" "a_size ar0 = 4096"
    "lxp_arena_alloc m0 ar0 100 = (m1, ar1, 4112)" "arena_ok m1 ar1 [(112, False), (3952, True)]"
    "a_base ar1 = 4096"
proof (rule arena_init_bss)
  fix m0 ar0
  assume i: "lxp_arena_init (\<lambda>_. 0) arena_bss 4096 4096 = (m0, ar0, LXP_OK)"
    "a_base ar0 = 4096" "a_size ar0 = 4096" "arena_ok m0 ar0 [(4080, True)]"
  have n: "112 = arena_align (if (100::nat) = 0 then 1 else 100)"
    by (simp add: arena_align_def align_down_def SIZE_MAX_def)
  have a: "aalloc 112 [(4080, True)] = Some (0, [(112, False), (3952, True)])" by (simp add: carve_def)
  show thesis
  proof (rule lxp_arena_alloc_Some [OF i(4) n _ a])
    fix m1 ar1
    assume "lxp_arena_alloc m0 ar0 100 = (m1, ar1, a_base ar0 + 0 + 16)"
      "arena_ok m1 ar1 [(112, False), (3952, True)]" "a_base ar1 = a_base ar0"
    then show thesis using that i by simp
  qed simp
qed

text \<open>C5.  Whatever sequence of allocations and releases (of any pointers) follows a
  successful \<^verbatim>\<open>lxp_arena_init\<close>, the layout stays valid and the live blocks are
  16-byte aligned, inside the caller's buffer and pairwise disjoint.\<close>

theorem arena_history_safe:
  assumes "lxp_arena_init m ar buf sz = (m0, ar0, LXP_OK)" "buf + sz \<le> SIZE_MAX"
  shows "arena_layout_valid (fst (fold arena_step ops (m0, ar0))) (snd (fold arena_step ops (m0, ar0)))
    \<and> (\<forall>(a, k) \<in> arena_live (fold arena_step ops (m0, ar0)).
         buf < a \<and> a + k \<le> buf + sz \<and> a mod LXP_ARENA_ALIGN = 0
         \<and> (\<forall>(b, l) \<in> arena_live (fold arena_step ops (m0, ar0)).
              (a, k) = (b, l) \<or> a + k \<le> b \<or> b + l \<le> a))"
proof -
  let ?s = "fold arena_step ops (m0, ar0)"
  note i = arena_init_ok [OF assms]
  have g: "arena_good ?s"
    using arena_alloc.run_ok [OF arena_init_good(1) [OF assms], of ops] run_arena by simp
  have f: "a_base (snd ?s) = a_base ar0" "a_size (snd ?s) = a_size ar0"
    using run_arena_frame [of ops "(m0, ar0)"] by simp_all
  have "buf < a \<and> a + k \<le> buf + sz \<and> a mod 16 = 0" if "(a, k) \<in> arena_live ?s" for a k
    using arena_live_bounds [OF g that] i(2,3) f by linarith
  moreover have "(a, k) = (b, l) \<or> a + k \<le> b \<or> b + l \<le> a"
    if "(a, k) \<in> arena_live ?s" "(b, l) \<in> arena_live ?s" for a k b l
    using arena_live_disjoint [OF g] that unfolding arena_alloc.disjoint_live_def by fast
  moreover have "arena_layout_valid (fst ?s) (snd ?s)" using g by (simp add: arena_good_def)
  ultimately show ?thesis by (intro conjI ballI) (simp, fastforce)
qed

theorem arena_history_safe_witness:
  "\<exists>m0 ar0. lxp_arena_init (\<lambda>_. 0) arena_bss 4096 4096 = (m0, ar0, LXP_OK)
     \<and> (\<forall>(a, k) \<in> arena_live (fold arena_step [Op_alloc 100, Op_alloc 7, Op_free 4112] (m0, ar0)).
          4096 < a \<and> a + k \<le> 8192)"
proof (rule arena_init_bss)
  fix m0 ar0 assume i: "lxp_arena_init (\<lambda>_. 0) arena_bss 4096 4096 = (m0, ar0, LXP_OK)"
  have "(4096 :: nat) + 4096 \<le> SIZE_MAX" by (simp add: SIZE_MAX_def)
  from arena_history_safe [OF i this, of "[Op_alloc 100, Op_alloc 7, Op_free 4112]"]
  show ?thesis using i by fastforce
qed

text \<open>C19.  A live block that no later operation releases stays live with the same bytes,
  whatever else is allocated or released.\<close>

theorem arena_history_keeps:
  assumes "arena_good s" "(a, l) \<in> arena_live s" "Op_free a \<notin> set ops"
  shows "(a, l) \<in> arena_live (fold arena_step ops s)
    \<and> mem_read (fst (fold arena_step ops s)) a l = mem_read (fst s) a l"
  using arena_alloc.run_keeps [OF assms] by (simp add: run_arena)

theorem arena_history_keeps_witness:
  "\<exists>m0 ar0 m1 ar1. lxp_arena_init (\<lambda>_. 0) arena_bss 4096 4096 = (m0, ar0, LXP_OK)
     \<and> lxp_arena_alloc m0 ar0 100 = (m1, ar1, 4112)
     \<and> mem_read (fst (fold arena_step [Op_alloc 300, Op_free 4240, Op_free 5000] (m1, ar1))) 4112 112
       = mem_read m1 4112 112"
proof (rule arena_alloc_bss)
  fix m0 ar0 m1 ar1
  assume h: "lxp_arena_init (\<lambda>_. 0) arena_bss 4096 4096 = (m0, ar0, LXP_OK)"
    "lxp_arena_alloc m0 ar0 100 = (m1, ar1, 4112)" "arena_ok m1 ar1 [(112, False), (3952, True)]"
    "a_base ar1 = 4096"
  have "arena_good (m1, ar1)" by (rule arena_goodI [OF h(3)]) simp
  moreover have "(4112, 112) \<in> arena_live (m1, ar1)"
    using arena_blocks_ok [OF h(3)] h(4) by (simp add: arena_live_def)
  ultimately show ?thesis
    using arena_history_keeps [of "(m1, ar1)" 4112 112 "[Op_alloc 300, Op_free 4240, Op_free 5000]"] h(1,2)
    by auto
qed

text \<open>C20.  When every block of a history has been released, the arena is again one free
  extent of the whole region, and a request of all of it is served.\<close>

theorem arena_fully_freed_is_one_extent:
  assumes "lxp_arena_init m ar buf sz = (m0, ar0, LXP_OK)" "buf + sz \<le> SIZE_MAX"
    and "arena_live (fold arena_step ops (m0, ar0)) = {}"
  shows "arena_blocks (fold arena_step ops (m0, ar0)) = [(a_size ar0 - ARENA_HDR, True)]
    \<and> a_used (snd (fold arena_step ops (m0, ar0))) = 0
    \<and> snd (arena_alloc_s (fold arena_step ops (m0, ar0)) (a_size ar0 - ARENA_HDR)) \<noteq> 0"
proof -
  define s where "s = fold arena_step ops (m0, ar0)"
  have g: "arena_good s"
    using arena_alloc.run_ok [OF arena_init_good(1) [OF assms(1,2)], of ops] run_arena by (simp add: s_def)
  have sz: "a_size (snd s) = a_size ar0"
    using run_arena_frame [of ops "(m0, ar0)"] by (simp add: s_def)
  note fa = arena_free_all [OF g assms(3) [folded s_def]]
  obtain m' ar' bs where s: "s = (m', ar')" "arena_ok m' ar' bs" "arena_blocks s = bs"
    using arena_goodE [OF g] by metis
  let ?n = "a_size ar0 - 16"
  have bs: "bs = [(?n, True)]" using fa s sz by simp
  have n: "aligned ?n" "16 \<le> ?n" "?n \<le> SIZE_MAX - 15"
    using s(2) sz by (auto simp: arena_ok_def s(1) SIZE_MAX_def)
  have "snd (arena_alloc_s s ?n) \<noteq> 0"
  proof
    assume z: "snd (arena_alloc_s s ?n) = 0"
    obtain m2 ar2 p where a: "lxp_arena_alloc m' ar' ?n = (m2, ar2, p)" by (metis prod_cases3)
    have "p = 0" using z a by (simp add: arena_alloc_s_def s(1))
    then show False using arena_alloc_fail(3) [OF s(2), of ?n m2 ar2] a bs n(2) arena_align_id [OF n(1,3)]
      by (auto split: if_splits)
  qed
  then show ?thesis using fa sz by (simp add: s_def)
qed

theorem arena_fully_freed_is_one_extent_witness:
  "\<exists>m0 ar0. lxp_arena_init (\<lambda>_. 0) arena_bss 4096 4096 = (m0, ar0, LXP_OK)
     \<and> arena_blocks (fold arena_step [Op_alloc 100, Op_free 4112] (m0, ar0)) = [(4080, True)]"
proof (rule arena_alloc_bss)
  fix m0 ar0 m1 ar1
  assume h: "lxp_arena_init (\<lambda>_. 0) arena_bss 4096 4096 = (m0, ar0, LXP_OK)" "arena_ok m0 ar0 [(4080, True)]"
    "a_size ar0 = 4096" "lxp_arena_alloc m0 ar0 100 = (m1, ar1, 4112)"
    "arena_ok m1 ar1 [(112, False), (3952, True)]" "a_base ar1 = 4096"
  have g: "arena_good (m1, ar1)" by (rule arena_goodI [OF h(5)]) simp
  have "arena_live (m1, ar1) = {(4112, 112)}"
    using arena_blocks_ok [OF h(5)] h(6) by (simp add: arena_live_def)
  then have e: "arena_live (fold arena_step [Op_alloc 100, Op_free 4112] (m0, ar0)) = {}"
    using arena_free_s_cases [OF g, of 4112] h(4) by (simp add: arena_step_def arena_alloc_s_def)
  have "(4096 :: nat) + 4096 \<le> SIZE_MAX" by (simp add: SIZE_MAX_def)
  from arena_fully_freed_is_one_extent [OF h(1) this e] h(1,3) show ?thesis by auto
qed

text \<open>C21.  On a valid layout \<^verbatim>\<open>lxp_arena_alloc\<close> is first fit on the list of blocks: it
  returns NULL and changes nothing exactly when no free block is large enough (or the
  rounded size does not exist), and otherwise it takes the first one that fits, splits
  it when the tail can be a block, and updates the footprint and the high-water mark.\<close>

theorem lxp_arena_alloc_first_fit:
  assumes ok: "arena_ok m ar bs" and need: "need = arena_align (if sz = 0 then 1 else sz)"
  shows "case (if need = 0 then None else aalloc need bs) of
      None \<Rightarrow> lxp_arena_alloc m ar sz = (m, ar, 0)
        \<and> (need = 0 \<or> (\<forall>(p, f) \<in> set bs. f \<longrightarrow> p < need))
    | Some (off, bs') \<Rightarrow> (\<exists>m' ar'. lxp_arena_alloc m ar sz = (m', ar', a_base ar + off + ARENA_HDR)
        \<and> arena_ok m' ar' bs' \<and> a_high_water ar' = max (a_high_water ar) (a_used ar')
        \<and> a_mappings ar' = a_mappings ar)"
proof (cases "if need = 0 then None else aalloc need bs")
  case None
  then have n: "need = 0 \<or> aalloc need bs = None" by (simp split: if_splits)
  from lxp_arena_alloc_None [OF ok need n] n show ?thesis by (simp add: None) (auto simp: aalloc_None)
next
  case (Some c)
  obtain off bs' where c: "c = (off, bs')" by (cases c)
  have n: "need \<noteq> 0" and a: "aalloc need bs = Some (off, bs')"
    using Some c by (simp_all split: if_splits)
  show ?thesis
  proof (rule lxp_arena_alloc_Some [OF ok need n a])
    fix m' ar'
    assume "lxp_arena_alloc m ar sz = (m', ar', a_base ar + off + 16)" "arena_ok m' ar' bs'"
      "a_mappings ar' = a_mappings ar" "a_high_water ar' = max (a_high_water ar) (a_used ar')"
    then show ?thesis unfolding Some c by auto
  qed
qed

theorem lxp_arena_alloc_first_fit_witness:
  "\<exists>m ar m' ar'. arena_ok m ar [(4080, True)] \<and> lxp_arena_alloc m ar 100 = (m', ar', a_base ar + 16)
     \<and> arena_ok m' ar' [(112, False), (3952, True)]"
proof (rule arena_init_bss)
  fix m ar assume ok: "arena_ok m ar [(4080, True)]"
  have n: "112 = arena_align (if (100::nat) = 0 then 1 else 100)"
    by (simp add: arena_align_def align_down_def SIZE_MAX_def)
  show ?thesis using lxp_arena_alloc_first_fit [OF ok n] ok by (auto simp: carve_def)
qed

text \<open>C22.  \<^verbatim>\<open>lxp_arena_realloc\<close> of a live block either fails and leaves memory and
  control block as they were, or returns a live block of at least the requested size
  that replaces the old one, with the old leading bytes, every other live block
  untouched.\<close>

theorem lxp_arena_realloc_preserves:
  assumes "arena_ok m ar bs" "(ptr, l) \<in> allocd (a_base ar) bs"
    and "lxp_arena_realloc m ar ptr sz = (m', ar', q)"
  shows "if q = 0 then m' = m \<and> ar' = ar
    else \<exists>bs' n. arena_ok m' ar' bs' \<and> sz \<le> n
      \<and> allocd (a_base ar) bs' = insert (q, n) (allocd (a_base ar) bs - {(ptr, l)})
      \<and> mem_read m' q (min l sz) = mem_read m ptr (min l sz)
      \<and> (\<forall>a k. (a, k) \<in> allocd (a_base ar) bs - {(ptr, l)} \<longrightarrow> mem_read m' a k = mem_read m a k)"
proof (cases "q = 0")
  case True
  with arena_realloc_post [OF assms(1,2), of sz] assms(3) show ?thesis by (simp add: realloc_post_def)
next
  case False
  with arena_realloc_post [OF assms(1,2), of sz] assms(3) show ?thesis
    unfolding realloc_post_def keeps_def by auto
qed

theorem lxp_arena_realloc_preserves_witness:
  "\<exists>m ar m' ar' q. arena_ok m ar [(112, False), (3952, True)] \<and> a_base ar = 4096
     \<and> lxp_arena_realloc m ar 4112 500 = (m', ar', q)
     \<and> (q = 0 \<or> mem_read m' q 112 = mem_read m 4112 112)"
proof (rule arena_alloc_bss)
  fix m ar
  assume h: "arena_ok m ar [(112, False), (3952, True)]" "a_base ar = 4096"
  obtain m' ar' q where r: "lxp_arena_realloc m ar 4112 500 = (m', ar', q)" by (metis prod_cases3)
  have l: "(4112, 112) \<in> allocd (a_base ar) [(112, False), (3952, True)]" using h(2) by simp
  have "q = 0 \<or> mem_read m' q 112 = mem_read m 4112 112"
    using lxp_arena_realloc_preserves [OF h(1) l r] by (auto split: if_splits)
  with h r show ?thesis by blast
qed

lemma arena_align_le:
  assumes "aligned l" "sz \<le> l" "0 < l"
  shows "arena_align (if sz = 0 then 1 else sz) \<le> l"
proof -
  obtain q where q: "l = 16 * q" using assms(1) by (auto simp: aligned_def mod_eq_0_iff_dvd elim!: dvdE)
  have "align_down (n + 15) \<le> l" if "n \<le> l" for n
  proof -
    have "(n + 15) div 16 \<le> q" using that unfolding q by linarith
    moreover have "align_down (n + 15) = 16 * ((n + 15) div 16)"
      unfolding align_down_def by (metis minus_mod_eq_mult_div)
    ultimately show ?thesis unfolding q by simp
  qed
  then show ?thesis using assms(2,3) by (auto simp: arena_align_def)
qed

lemma arena_calloc_confined:
  assumes r: "lxp_arena_calloc m ar sz = (m', ar', p)" and x: "x < a_base ar \<or> a_base ar + a_size ar \<le> x"
  shows "m' x = m x"
proof -
  let ?need = "arena_align (if sz = 0 then 1 else sz)"
  obtain m1 ar1 q where a: "lxp_arena_alloc m ar sz = (m1, ar1, q)" by (metis prod_cases3)
  have c: "lxp_arena_calloc m ar sz = (if ?need = 0 then (m, ar, 0) else (if q \<noteq> 0 then mem_fill m1 q ?need 0 else m1, ar1, q))"
    by (simp only: lxp_arena_calloc_def a Let_def prod.case)
  have m1: "m1 x = m x" by (rule arena_alloc_confined [OF a x])
  show ?thesis
  proof (cases "?need = 0 \<or> q = 0")
    case True
    then show ?thesis using r m1 unfolding c by (auto split: if_split_asm)
  next
    case False
    then have "arena_layout_valid m ar" using a by (auto simp: lxp_arena_alloc_def split: if_splits)
    then obtain bs where ok: "arena_ok m ar bs" by (auto simp: arena_layout_valid_iff)
    obtain bs' l where b: "arena_ok m1 ar1 bs'" "allocd (a_base ar) bs' = insert (q, l) (allocd (a_base ar) bs)"
      "sz \<le> l" "0 < l" "a_base ar1 = a_base ar" "a_size ar1 = a_size ar"
      by (rule arena_alloc_ok [OF ok a]) (use False in auto)
    have in_bs: "(q, l) \<in> allocd (a_base ar) bs'" using b(2) by simp
    have al: "aligned l" using in_bs b(1,5) by (auto simp: allocd_iff dest!: arena_okD(1) tiles_blockD(7))
    have "q + l \<le> a_base ar + span bs'" "a_base ar \<le> q" using allocd_bounds [OF in_bs] by simp_all
    moreover have "span bs' = a_size ar" using arena_okD(3) [OF b(1)] b(6) by simp
    ultimately have "q \<le> x \<Longrightarrow> x < q + ?need \<Longrightarrow> False" using x arena_align_le [OF al b(3,4)] by linarith
    then have "mem_fill m1 q ?need 0 x = m1 x" by (auto simp: mem_fill_def)
    then show ?thesis using r m1 False unfolding c by (simp only: if_False de_Morgan_disj if_True simp_thms prod.inject) (metis)
  qed
qed

text \<open>C23.  Whatever the bytes of the region are (the guest may have overwritten every
  header), allocation (plain, cleared or tracked), resizing and release (plain or tracked) write
  nothing outside the managed region; and when the headers do not tile the region, each of them
  refuses and changes nothing.  Reset is the one operation that does not read the headers: it writes
  inside the region only, and leaves it as one free extent whatever the headers were.\<close>

theorem arena_fails_closed:
  "((x < a_base ar \<or> a_base ar + a_size ar \<le> x) \<longrightarrow>
      fst (lxp_arena_alloc m ar sz) x = m x \<and> fst (lxp_arena_calloc m ar sz) x = m x
      \<and> fst (lxp_arena_alloc_tracked m ar sz) x = m x \<and> fst (lxp_arena_realloc m ar p sz) x = m x
      \<and> fst (lxp_arena_free m ar p) x = m x \<and> fst (lxp_arena_free_tracked m ar p sz) x = m x
      \<and> (ARENA_HDR \<le> a_size ar \<longrightarrow> fst (lxp_arena_reset m ar) x = m x))
    \<and> ((\<nexists>bs. arena_ok m ar bs) \<longrightarrow>
      lxp_arena_alloc m ar sz = (m, ar, 0) \<and> lxp_arena_calloc m ar sz = (m, ar, 0)
      \<and> lxp_arena_alloc_tracked m ar sz = (m, ar, 0) \<and> lxp_arena_realloc m ar p sz = (m, ar, 0)
      \<and> lxp_arena_free m ar p = (m, ar) \<and> lxp_arena_free_tracked m ar p sz = (m, ar, False))
    \<and> (a_base ar \<noteq> 0 \<and> aligned (a_base ar) \<and> aligned (a_size ar) \<and> ARENA_HDR + LXP_ARENA_ALIGN \<le> a_size ar
        \<and> a_base ar + a_size ar \<le> SIZE_MAX \<longrightarrow>
      (case lxp_arena_reset m ar of (m', ar') \<Rightarrow> arena_ok m' ar' [(a_size ar - ARENA_HDR, True)]
        \<and> a_base ar' = a_base ar \<and> a_size ar' = a_size ar))"
  (is "?confined \<and> ?closed \<and> ?reset")
proof (intro conjI)
  obtain m1 ar1 p1 where a: "lxp_arena_alloc m ar sz = (m1, ar1, p1)" by (metis prod_cases3)
  obtain m2 ar2 p2 where r: "lxp_arena_realloc m ar p sz = (m2, ar2, p2)" by (metis prod_cases3)
  obtain m3 ar3 b where f: "arena_free_block m ar p = (m3, ar3, b)" by (metis prod_cases3)
  obtain m4 ar4 p4 where c: "lxp_arena_calloc m ar sz = (m4, ar4, p4)" by (metis prod_cases3)
  have z: "fst (lxp_arena_reset m ar) x = m x" if "x < a_base ar \<or> a_base ar + a_size ar \<le> x" "ARENA_HDR \<le> a_size ar"
    using that by (auto simp: lxp_arena_reset_def arena_lay_first_def arena_clear_mappings_def Let_def set_out)
  show ?confined
    using arena_alloc_confined [OF a, of x] arena_realloc_confined [OF r, of x] arena_calloc_confined [OF c, of x]
      arena_free_block_confined [OF f, of x] z
    by (simp add: a r f c lxp_arena_alloc_tracked_def lxp_arena_free_def lxp_arena_free_tracked_def split: option.split)
  show ?closed
    using arena_layout_valid_iff [of m ar]
    by (simp add: lxp_arena_alloc_def lxp_arena_calloc_def lxp_arena_alloc_tracked_def lxp_arena_realloc_def lxp_arena_free_def
        arena_free_block_def lxp_arena_free_tracked_def Let_def split: option.split)
  show ?reset
  proof
    assume h: "a_base ar \<noteq> 0 \<and> aligned (a_base ar) \<and> aligned (a_size ar) \<and> ARENA_HDR + LXP_ARENA_ALIGN \<le> a_size ar
        \<and> a_base ar + a_size ar \<le> SIZE_MAX"
    show "case lxp_arena_reset m ar of (m', ar') \<Rightarrow> arena_ok m' ar' [(a_size ar - ARENA_HDR, True)]
        \<and> a_base ar' = a_base ar \<and> a_size ar' = a_size ar"
      by (rule arena_lay_first_ok [of "arena_clear_mappings ar" m])
        (use h in \<open>simp_all add: lxp_arena_reset_def arena_clear_mappings_def\<close>)
  qed
qed

theorem arena_fails_closed_witness:
  "lxp_arena_alloc (\<lambda>_. 0) (arena_bss\<lparr>a_base := 4096, a_first := 4096, a_size := 4096\<rparr>) 100
     = (\<lambda>_. 0, arena_bss\<lparr>a_base := 4096, a_first := 4096, a_size := 4096\<rparr>, 0)
   \<and> fst (lxp_arena_free (\<lambda>_. 7) (arena_bss\<lparr>a_base := 4096, a_first := 4096, a_size := 4096\<rparr>) 4112) 9000 = 7
   \<and> (\<exists>m ar. lxp_arena_reset (\<lambda>_. 7) (arena_bss\<lparr>a_base := 4096, a_first := 4096, a_size := 4096\<rparr>) = (m, ar)
        \<and> arena_ok m ar [(4080, True)])"
proof (intro conjI)
  let ?ar = "arena_bss\<lparr>a_base := 4096, a_first := 4096, a_size := 4096\<rparr>"
  have "\<not> arena_ok (\<lambda>_. 0) ?ar bs" for bs
    by (cases bs) (auto simp: arena_ok_def arena_bss_def blk_magic_def get_u32_def ARENA_MAGIC_def)
  then show "lxp_arena_alloc (\<lambda>_. 0) ?ar 100 = (\<lambda>_. 0, ?ar, 0)"
    using arena_fails_closed [of 0 ?ar "\<lambda>_. 0" 100] by blast
  show "fst (lxp_arena_free (\<lambda>_. 7) ?ar 4112) 9000 = 7"
    using arena_fails_closed [of 9000 ?ar "\<lambda>_. 7" 100 4112] by (simp add: arena_bss_def)
  show "\<exists>m ar. lxp_arena_reset (\<lambda>_. 7) ?ar = (m, ar) \<and> arena_ok m ar [(4080, True)]"
    using arena_fails_closed [of 0 ?ar "\<lambda>_. 7" 100 4112] by (auto simp: arena_bss_def aligned_def SIZE_MAX_def split: prod.splits)
qed

text \<open>C24.  \<^verbatim>\<open>lxp_arena_free_tracked\<close> (the allocator half of \<^verbatim>\<open>munmap\<close>) answers false
  with no change of state, or true, and then only for an address and length that are
  recorded, on an intact layout, and it clears that record; a recorded live block is
  always released.\<close>

theorem lxp_arena_free_tracked_exact:
  assumes "lxp_arena_free_tracked m ar ptr sz = (m', ar', b)"
  shows "if b then arena_layout_valid m ar
        \<and> (\<exists>i<LXP_ARENA_MAX_MAPPINGS. a_mappings ar i = \<lparr>map_addr = ptr, map_len = sz\<rparr>
             \<and> a_mappings ar' = (a_mappings ar)(i := \<lparr>map_addr = 0, map_len = 0\<rparr>))
      else m' = m \<and> ar' = ar
        \<and> (\<nexists>bs l i. arena_ok m ar bs \<and> (ptr, l) \<in> allocd (a_base ar) bs
             \<and> i < LXP_ARENA_MAX_MAPPINGS \<and> a_mappings ar i = \<lparr>map_addr = ptr, map_len = sz\<rparr>)"
proof (cases b)
  case True
  then show ?thesis using arena_free_tracked_cases(2) [OF assms] by simp
next
  case False
  have "\<not> (arena_ok m ar bs \<and> (ptr, l) \<in> allocd (a_base ar) bs \<and> i < LXP_ARENA_MAX_MAPPINGS
      \<and> a_mappings ar i = \<lparr>map_addr = ptr, map_len = sz\<rparr>)" for bs l i
    using arena_free_tracked_True [of m ar bs ptr l i sz] assms False by auto
  then show ?thesis using False arena_free_tracked_cases(1) [OF assms] by auto
qed

theorem lxp_arena_free_tracked_exact_witness:
  "\<exists>m0 ar0 m ar m' ar'. lxp_arena_init (\<lambda>_. 0) arena_bss 4096 4096 = (m0, ar0, LXP_OK)
     \<and> lxp_arena_alloc_tracked m0 ar0 100 = (m, ar, 4112)
     \<and> lxp_arena_free_tracked m ar 4112 100 = (m', ar', True) \<and> a_mappings ar' 0 = \<lparr>map_addr = 0, map_len = 0\<rparr>
     \<and> lxp_arena_free_tracked m ar 4112 96 = (m, ar, False)"
proof (rule arena_alloc_bss)
  fix m0 ar0 m1 ar1
  assume i: "lxp_arena_init (\<lambda>_. 0) arena_bss 4096 4096 = (m0, ar0, LXP_OK)" "arena_ok m0 ar0 [(4080, True)]"
    and a: "lxp_arena_alloc m0 ar0 100 = (m1, ar1, 4112)" "arena_ok m1 ar1 [(112, False), (3952, True)]" "a_base ar1 = 4096"
  let ?ar = "arena_set_mapping ar1 0 4112 100"
  have z: "a_mappings ar0 j = \<lparr>map_addr = 0, map_len = 0\<rparr>" if "j < LXP_ARENA_MAX_MAPPINGS" for j
    using i(1) that by (auto simp: lxp_arena_init_def align_down_def Let_def arena_lay_first_def arena_clear_mappings_def
      split: if_splits)
  have "a_mappings ar1 = a_mappings ar0" by (rule arena_alloc_ok [OF i(2) a(1)]) simp_all
  then have mp: "a_mappings ?ar j = (if j = 0 then \<lparr>map_addr = 4112, map_len = 100\<rparr> else \<lparr>map_addr = 0, map_len = 0\<rparr>)"
    if "j < LXP_ARENA_MAX_MAPPINGS" for j
    using z [OF that] by (simp add: arena_set_mapping_def)
  have "scan (\<lambda>j. map_addr (a_mappings ar0 j) = 0) 0 LXP_ARENA_MAX_MAPPINGS = Some 0" using z by (simp add: scan_simps)
  then have t: "lxp_arena_alloc_tracked m0 ar0 100 = (m1, ?ar, 4112)" by (simp add: lxp_arena_alloc_tracked_def a(1))
  have ok: "arena_ok m1 ?ar [(112, False), (3952, True)]" using a(2) by (auto simp: arena_ok_def arena_set_mapping_def)
  have "(4112, 112) \<in> allocd (a_base ?ar) [(112, False), (3952, True)]" using a(3) by (simp add: arena_set_mapping_def)
  then obtain m' ar' where f: "lxp_arena_free_tracked m1 ?ar 4112 100 = (m', ar', True)"
    using arena_free_tracked_True [OF ok _ config_pos(9)] mp by fastforce
  have "a_mappings ar' 0 = \<lparr>map_addr = 0, map_len = 0\<rparr>"
    using lxp_arena_free_tracked_exact [OF f] mp by (auto split: if_splits)
  moreover obtain m'' ar'' b where g: "lxp_arena_free_tracked m1 ?ar 4112 96 = (m'', ar'', b)" by (metis prod_cases3)
  moreover have "\<not> b \<and> m'' = m1 \<and> ar'' = ?ar"
    using lxp_arena_free_tracked_exact [OF g] mp by (auto split: if_splits)
  ultimately show ?thesis using i(1) t f
    by (intro exI [of _ m0] exI [of _ ar0] exI [of _ m1] exI [of _ ?ar] exI [of _ m'] exI [of _ ar']) simp
qed

section \<open>The arena as a heap of resizable blocks\<close>

text \<open>
  What a client that keeps data in arena blocks relies on.  \<open>region\<close> are the addresses the
  allocator owns, \<open>meta\<close> those of its own records; \<open>put\<close> is the state after the client (or
  anybody else) has changed memory.
\<close>

locale byte_heap = block_allocator alloc free ok live bytes
  for alloc :: "'s \<Rightarrow> nat \<Rightarrow> 's \<times> nat" and free :: "'s \<Rightarrow> nat \<Rightarrow> 's" and ok :: "'s \<Rightarrow> bool"
    and live :: "'s \<Rightarrow> (nat \<times> nat) set" and bytes :: "'s \<Rightarrow> mem" +
  fixes realloc :: "'s \<Rightarrow> nat \<Rightarrow> nat \<Rightarrow> 's \<times> nat"
    and put :: "'s \<Rightarrow> mem \<Rightarrow> 's"
    and meta :: "'s \<Rightarrow> nat set"
    and region :: "'s \<Rightarrow> nat set"
  assumes put_bytes [simp]: "bytes (put s m) = m"
    and put_put [simp]: "put (put s m) m' = put s m'"
    and put_same [simp]: "put s (bytes s) = s"
    and put_region [simp]: "region (put s m) = region s"
    and put_ok: "ok s \<Longrightarrow> (\<And>x. x \<in> meta s \<Longrightarrow> m x = bytes s x) \<Longrightarrow> ok (put s m)"
    and put_live: "ok s \<Longrightarrow> (\<And>x. x \<in> meta s \<Longrightarrow> m x = bytes s x) \<Longrightarrow> live (put s m) = live s"
    and meta_live: "ok s \<Longrightarrow> (a, l) \<in> live s \<Longrightarrow> a \<le> x \<Longrightarrow> x < a + l \<Longrightarrow> x \<notin> meta s"
    and meta_region: "ok s \<Longrightarrow> meta s \<subseteq> region s"
    and live_region: "ok s \<Longrightarrow> (a, l) \<in> live s \<Longrightarrow> a \<le> x \<Longrightarrow> x < a + l \<Longrightarrow> x \<in> region s"
    and live_disjoint: "ok s \<Longrightarrow> (a, k) \<in> live s \<Longrightarrow> (b, l) \<in> live s \<Longrightarrow>
      (a, k) = (b, l) \<or> a + k \<le> b \<or> b + l \<le> a"
    and live_nonzero: "ok s \<Longrightarrow> (a, l) \<in> live s \<Longrightarrow> a \<noteq> 0 \<and> 0 < l"
    and realloc_null: "ok s \<Longrightarrow> realloc s 0 n = alloc s n"
    and realloc_fails: "ok s \<Longrightarrow> p = 0 \<or> (p, l) \<in> live s \<Longrightarrow> realloc s p n = (s', 0) \<Longrightarrow> s' = s"
    and realloc_moves: "ok s \<Longrightarrow> (p, l) \<in> live s \<Longrightarrow> realloc s p n = (s', q) \<Longrightarrow> q \<noteq> 0 \<Longrightarrow>
      ok s' \<and> (\<exists>k. n \<le> k \<and> live s' = insert (q, k) (live s - {(p, l)})
        \<and> mem_read (bytes s') q (min l n) = mem_read (bytes s) p (min l n))
        \<and> keeps (live s - {(p, l)}) (bytes s) (bytes s') \<and> (q = p \<or> (\<forall>j. (q, j) \<notin> live s))"
    and alloc_region: "region (fst (alloc s n)) = region s"
    and free_region: "region (free s p) = region s"
    and realloc_region: "ok s \<Longrightarrow> p = 0 \<or> (p, l) \<in> live s \<Longrightarrow> region (fst (realloc s p n)) = region s"
    and alloc_outside: "ok s \<Longrightarrow> x \<notin> region s \<Longrightarrow> bytes (fst (alloc s n)) x = bytes s x"
    and free_outside: "ok s \<Longrightarrow> x \<notin> region s \<Longrightarrow> bytes (free s p) x = bytes s x"
    and realloc_outside: "ok s \<Longrightarrow> x \<notin> region s \<Longrightarrow> bytes (fst (realloc s p n)) x = bytes s x"
begin

text \<open>Bytes stored inside one live block.\<close>

lemma store_ok:
  assumes "ok s" "(a, l) \<in> live s" "a \<le> b" "b + length bs \<le> a + l"
  shows "ok (put s (mem_write (bytes s) b bs))" "live (put s (mem_write (bytes s) b bs)) = live s"
proof -
  have "mem_write (bytes s) b bs x = bytes s x" if "x \<in> meta s" for x
  proof -
    have "\<not> (b \<le> x \<and> x < b + length bs)" using that meta_live [OF assms(1,2), of x] assms(3,4) by auto
    then show ?thesis by (intro mem_write_out) auto
  qed
  then show "ok (put s (mem_write (bytes s) b bs))" "live (put s (mem_write (bytes s) b bs)) = live s"
    using put_ok put_live assms(1) by blast+
qed

lemma store_keeps:
  assumes "ok s" "(a, l) \<in> live s" "a \<le> b" "b + length bs \<le> a + l" "(c, k) \<in> live s" "(c, k) \<noteq> (a, l)"
  shows "mem_read (mem_write (bytes s) b bs) c k = mem_read (bytes s) c k"
  by (rule mem_read_write_other) (use live_disjoint [OF assms(1) assms(2) assms(5)] assms(3,4,6) in auto)

text \<open>Memory changed outside the region.\<close>

lemma outside_ok:
  assumes "ok s" "\<And>x. x \<in> region s \<Longrightarrow> m x = bytes s x"
  shows "ok (put s m)" "live (put s m) = live s"
  using put_ok put_live assms meta_region by blast+

lemma outside_reads:
  assumes "ok s" "\<And>x. x \<in> region s \<Longrightarrow> m x = bytes s x" "(a, l) \<in> live s" "n \<le> l"
  shows "mem_read m a n = mem_read (bytes s) a n"
  by (rule mem_read_cong) (use assms live_region [OF assms(1,3)] in auto)

lemma live_unique: "ok s \<Longrightarrow> (a, k) \<in> live s \<Longrightarrow> (a, l) \<in> live s \<Longrightarrow> k = l"
  using live_disjoint [of s a k a l] live_nonzero [of s a k] live_nonzero [of s a l] by auto

end

subsection \<open>The arena provides it\<close>

definition arena_realloc_s :: "mem \<times> arena \<Rightarrow> nat \<Rightarrow> nat \<Rightarrow> (mem \<times> arena) \<times> nat" where
  "arena_realloc_s s p n = (case lxp_arena_realloc (fst s) (snd s) p n of (m, ar, q) \<Rightarrow> ((m, ar), q))"

definition arena_put :: "mem \<times> arena \<Rightarrow> mem \<Rightarrow> mem \<times> arena" where
  "arena_put s m = (m, snd s)"

definition arena_meta :: "mem \<times> arena \<Rightarrow> nat set" where
  "arena_meta s = hdr_bytes (a_base (snd s)) (arena_blocks s)"

definition arena_region :: "mem \<times> arena \<Rightarrow> nat set" where
  "arena_region s = {a_base (snd s)..<a_base (snd s) + a_size (snd s)}"

lemma tiles_hdr_cong:
  "tiles m cur bs e \<Longrightarrow> (\<And>x. x \<in> hdr_bytes cur bs \<Longrightarrow> m' x = m x) \<Longrightarrow> tiles m' cur bs e"
proof (induction bs arbitrary: cur)
  case (Cons b bs)
  obtain p f where b: "b = (p, f)" by (cases b)
  have "m' x = m x" if "cur \<le> x" "x < cur + 16" for x
  proof -
    have "x \<in> hdr_bytes cur (b # bs)"
      unfolding hdr_bytes_def b
      by (rule CollectI, rule exI [of _ "[]"], rule exI [of _ p], rule exI [of _ f], rule exI [of _ bs]) (use that in simp)
    then show ?thesis by (rule Cons.prems(2))
  qed
  then have eq: "blk_payload_size m' cur = blk_payload_size m cur" "blk_is_free m' cur = blk_is_free m cur"
    "blk_magic m' cur = blk_magic m cur"
    by (auto intro!: hdr_cong)
  have "x \<in> hdr_bytes cur (b # bs)" if mem: "x \<in> hdr_bytes (cur + (ARENA_HDR + p)) bs" for x
  proof -
    obtain pre q g post where h: "bs = pre @ (q, g) # post" "cur + (16 + p) + span pre \<le> x"
      "x < cur + (16 + p) + span pre + 16"
      using mem unfolding hdr_bytes_def by (simp only: mem_Collect_eq) blast
    then have "b # bs = (b # pre) @ (q, g) # post" "cur + span (b # pre) \<le> x" "x < cur + span (b # pre) + 16"
      by (simp_all add: b)
    then show ?thesis unfolding hdr_bytes_def by blast
  qed
  then have "tiles m' (cur + (ARENA_HDR + p)) bs e"
    using Cons.IH [of "cur + (ARENA_HDR + p)"] Cons.prems b by simp
  with Cons.prems(1) eq show ?case by (simp add: b)
qed simp

lemma arena_put_ok:
  assumes g: "arena_good s" and h: "\<And>x. x \<in> arena_meta s \<Longrightarrow> m x = fst s x"
  shows "arena_good (arena_put s m)" "arena_live (arena_put s m) = arena_live s"
proof -
  obtain m0 ar bs where s: "s = (m0, ar)" "arena_ok m0 ar bs" "coalesced bs" "arena_blocks s = bs"
    "arena_live s = allocd (a_base ar) bs" using arena_goodE [OF g] .
  have "tiles m (a_base ar) bs (a_base ar + a_size ar)"
    by (rule tiles_hdr_cong [OF arena_okD(1) [OF s(2)]]) (use h s in \<open>simp add: arena_meta_def\<close>)
  then have ok: "arena_ok m ar bs" using s(2) by (simp add: arena_ok_def)
  show "arena_good (arena_put s m)" using arena_goodI [OF ok s(3)] s(1) by (simp add: arena_put_def)
  show "arena_live (arena_put s m) = arena_live s"
    using arena_blocks_ok [OF ok] s by (simp add: arena_put_def arena_live_def)
qed

lemma arena_realloc_s_cases:
  assumes g: "arena_good s" and l: "(p, l) \<in> arena_live s" and r: "arena_realloc_s s p n = (s', q)"
  shows "(q = 0 \<longrightarrow> s' = s) \<and> arena_region s' = arena_region s \<and>
    (q \<noteq> 0 \<longrightarrow> arena_good s' \<and> (\<exists>k. n \<le> k \<and> arena_live s' = insert (q, k) (arena_live s - {(p, l)})
        \<and> mem_read (fst s') q (min l n) = mem_read (fst s) p (min l n))
        \<and> keeps (arena_live s - {(p, l)}) (fst s) (fst s') \<and> (q = p \<or> (\<forall>j. (q, j) \<notin> arena_live s)))"
proof -
  obtain m ar bs where s: "s = (m, ar)" "arena_ok m ar bs" "coalesced bs" "arena_blocks s = bs"
    "arena_live s = allocd (a_base ar) bs" using arena_goodE [OF g] .
  obtain m' ar' where a: "lxp_arena_realloc m ar p n = (m', ar', q)" "s' = (m', ar')"
    using r s(1) by (auto simp: arena_realloc_s_def split: prod.splits)
  have post: "realloc_post m ar bs p l n (m', ar', q)"
    using arena_realloc_post [OF s(2), of p l n] l s(5) a(1) by simp
  show ?thesis
  proof (cases "q = 0")
    case True
    with post a(2) s(1) show ?thesis by (simp add: realloc_post_def)
  next
    case False
    then obtain bs' k where A: "arena_ok m' ar' bs'" "n \<le> k" "a_base ar' = a_base ar" "a_size ar' = a_size ar"
      "allocd (a_base ar) bs' = insert (q, k) (allocd (a_base ar) bs - {(p, l)})"
      "mem_read m' q (min l n) = mem_read m p (min l n)"
      "keeps (allocd (a_base ar) bs - {(p, l)}) m m'" "coalesced bs \<longrightarrow> coalesced bs'"
      "q = p \<or> (\<forall>j. (q, j) \<notin> allocd (a_base ar) bs)"
      using post unfolding realloc_post_def by (simp only: prod.case if_False) blast
    have "arena_live s' = allocd (a_base ar) bs'"
      using arena_blocks_ok [OF A(1)] A(3) a(2) by (simp add: arena_live_def)
    then show ?thesis using False A s arena_goodI [OF A(1)] a(2)
      by (auto simp: arena_region_def)
  qed
qed

lemma arena_realloc_s_null: "arena_realloc_s s 0 n = arena_alloc_s s n"
  by (simp add: arena_realloc_s_def arena_alloc_s_def lxp_arena_realloc_def)

interpretation arena_heap: byte_heap arena_alloc_s arena_free_s arena_good arena_live fst
  arena_realloc_s arena_put arena_meta arena_region
proof
  fix s :: "mem \<times> arena" and m m' :: mem
  show "fst (arena_put s m) = m" "arena_put (arena_put s m) m' = arena_put s m'" "arena_put s (fst s) = s"
    "arena_region (arena_put s m) = arena_region s"
    by (simp_all add: arena_put_def arena_region_def)
next
  fix s m
  assume "arena_good s" "\<And>x. x \<in> arena_meta s \<Longrightarrow> m x = fst s x"
  then show "arena_good (arena_put s m)" "arena_live (arena_put s m) = arena_live s"
    using arena_put_ok by blast+
next
  fix s a l x
  assume g: "arena_good s" and l: "(a, l) \<in> arena_live s" and x: "a \<le> x" "x < a + l"
  show "x \<notin> arena_meta s"
    using l x hdr_bytes_allocd unfolding arena_live_def arena_meta_def by blast
  show "x \<in> arena_region s" using arena_live_bounds(1,2) [OF g l] x by (simp add: arena_region_def)
next
  fix s
  assume g: "arena_good s"
  obtain m ar bs where s: "s = (m, ar)" "arena_ok m ar bs" "coalesced bs" "arena_blocks s = bs"
    "arena_live s = allocd (a_base ar) bs" using arena_goodE [OF g] .
  show "arena_meta s \<subseteq> arena_region s"
    using arena_okD(3) [OF s(2)] s(1,4) by (auto simp: arena_meta_def arena_region_def hdr_bytes_def)
next
  fix s a k b l
  assume "arena_good s" "(a, k) \<in> arena_live s" "(b, l) \<in> arena_live s"
  then show "(a, k) = (b, l) \<or> a + k \<le> b \<or> b + l \<le> a"
    using arena_live_disjoint unfolding arena_alloc.disjoint_live_def by fast
next
  fix s a l
  assume "arena_good s" "(a, l) \<in> arena_live s"
  from arena_live_bounds [OF this] show "a \<noteq> 0 \<and> 0 < l" by simp
next
  fix s n
  show "arena_realloc_s s 0 n = arena_alloc_s s n" by (rule arena_realloc_s_null)
next
  fix s p l n s'
  assume g: "arena_good s" and p: "p = 0 \<or> (p, l) \<in> arena_live s" and r: "arena_realloc_s s p n = (s', 0)"
  show "s' = s"
    using p arena_realloc_s_cases [OF g _ r] arena_alloc_s_cases [OF g, of n s' 0] r
    by (auto simp: arena_realloc_s_null)
next
  fix s p l n s' q
  assume "arena_good s" "(p, l) \<in> arena_live s" "arena_realloc_s s p n = (s', q)" "q \<noteq> 0"
  then show "arena_good s' \<and> (\<exists>k. n \<le> k \<and> arena_live s' = insert (q, k) (arena_live s - {(p, l)})
        \<and> mem_read (fst s') q (min l n) = mem_read (fst s) p (min l n))
        \<and> keeps (arena_live s - {(p, l)}) (fst s) (fst s') \<and> (q = p \<or> (\<forall>j. (q, j) \<notin> arena_live s))"
    using arena_realloc_s_cases by blast
next
  fix s n p
  show al: "arena_region (fst (arena_alloc_s s n)) = arena_region s"
    using arena_step_frame [of "Op_alloc n" s] by (simp add: arena_step_def arena_region_def)
  show "arena_region (arena_free_s s p) = arena_region s"
    using arena_step_frame [of "Op_free p" s] by (simp add: arena_step_def arena_region_def)
  fix l
  assume g: "arena_good s" and p: "p = 0 \<or> (p, l) \<in> arena_live s"
  show "arena_region (fst (arena_realloc_s s p n)) = arena_region s"
  proof (cases "p = 0")
    case True
    show ?thesis unfolding True arena_realloc_s_null by (rule al)
  next
    case False
    with p have l: "(p, l) \<in> arena_live s" by simp
    obtain s' q where r: "arena_realloc_s s p n = (s', q)" by (metis surj_pair)
    from arena_realloc_s_cases [OF g l r] have "arena_region s' = arena_region s" by (elim conjE)
    then show ?thesis by (simp only: r fst_conv)
  qed
next
  fix s x n p
  assume x: "x \<notin> arena_region s"
  then have b: "x < a_base (snd s) \<or> a_base (snd s) + a_size (snd s) \<le> x" by (auto simp: arena_region_def)
  show "fst (fst (arena_alloc_s s n)) x = fst s x"
    using arena_alloc_confined [OF _ b] by (auto simp: arena_alloc_s_def split: prod.splits)
  show "fst (fst (arena_realloc_s s p n)) x = fst s x"
    using arena_realloc_confined [OF _ b] by (auto simp: arena_realloc_s_def split: prod.splits)
  show "fst (arena_free_s s p) x = fst s x"
    using arena_free_block_confined [OF _ b]
    by (auto simp: arena_free_s_def lxp_arena_free_def split: prod.splits)
qed

end
