(* ===== verification/Ring.thy ===== *)
theory Ring
  imports Lxp_Prelude
begin

text \<open>
  The byte ring of \<^verbatim>\<open>src/src/fs/lxp_ring.h\<close> that pipes, and the other byte-stream
  backends, share, and the byte-queue contract its clients rely on.  A ring is its
  storage, the two indices and the count; the two \<^verbatim>\<open>memcpy\<close> calls of each operation
  are \<open>mem_read\<close> and \<open>mem_write\<close>.  \<open>ring_contents\<close> is the abstraction: the buffered
  bytes, oldest first.
\<close>

section \<open>The model\<close>

record ring =
  r_buf :: mem
  r_rpos :: nat
  r_wpos :: nat
  r_count :: nat

definition lxp_ring_read :: "nat \<Rightarrow> ring \<Rightarrow> nat \<Rightarrow> ring \<times> byte list" where
  "lxp_ring_read cap r len0 =
     (let len = (if len0 > r_count r then r_count r else len0);
          n1 = (if cap - r_rpos r > len then len else cap - r_rpos r);
          out = mem_read (r_buf r) (r_rpos r) n1 @ mem_read (r_buf r) 0 (len - n1)
      in (r\<lparr>r_rpos := (r_rpos r + len) mod cap, r_count := r_count r - len\<rparr>, out))"

definition lxp_ring_write :: "nat \<Rightarrow> ring \<Rightarrow> byte list \<Rightarrow> ring \<times> nat" where
  "lxp_ring_write cap r src =
     (let space = cap - r_count r;
          len = (if length src > space then space else length src);
          n1 = (if cap - r_wpos r > len then len else cap - r_wpos r);
          buf1 = mem_write (r_buf r) (r_wpos r) (take n1 src);
          buf2 = mem_write buf1 0 (take (len - n1) (drop n1 src))
      in (r\<lparr>r_buf := buf2, r_wpos := (r_wpos r + len) mod cap, r_count := r_count r + len\<rparr>, len))"

section \<open>The byte-queue contract\<close>

datatype queue_op = Q_push "byte list" | Q_pop nat

text \<open>A run of a byte queue: the bytes it accepted and the bytes it delivered.\<close>

fun queue_run ::
  "('q \<Rightarrow> byte list \<Rightarrow> 'q \<times> nat) \<Rightarrow> ('q \<Rightarrow> nat \<Rightarrow> 'q \<times> byte list) \<Rightarrow> queue_op list \<Rightarrow> 'q
     \<Rightarrow> 'q \<times> byte list \<times> byte list" where
  "queue_run push pop [] q = (q, [], [])"
| "queue_run push pop (Q_push bs # ops) q =
     (let (q1, n) = push q bs; (q2, inp, outp) = queue_run push pop ops q1
      in (q2, take n bs @ inp, outp))"
| "queue_run push pop (Q_pop n # ops) q =
     (let (q1, bs) = pop q n; (q2, inp, outp) = queue_run push pop ops q1
      in (q2, inp, bs @ outp))"

locale byte_queue =
  fixes push :: "'q \<Rightarrow> byte list \<Rightarrow> 'q \<times> nat"
    and pop :: "'q \<Rightarrow> nat \<Rightarrow> 'q \<times> byte list"
    and ok :: "'q \<Rightarrow> bool"
    and contents :: "'q \<Rightarrow> byte list"
    and cap :: nat
  assumes bounded: "ok q \<Longrightarrow> length (contents q) \<le> cap"
    and push_ok: "ok q \<Longrightarrow> push q bs = (q', n) \<Longrightarrow> ok q'"
    and push_contents: "ok q \<Longrightarrow> push q bs = (q', n) \<Longrightarrow> contents q' = contents q @ take n bs"
    and push_count: "ok q \<Longrightarrow> push q bs = (q', n) \<Longrightarrow> n = min (length bs) (cap - length (contents q))"
    and pop_ok: "ok q \<Longrightarrow> pop q n = (q', bs) \<Longrightarrow> ok q'"
    and pop_bytes: "ok q \<Longrightarrow> pop q n = (q', bs) \<Longrightarrow> bs = take n (contents q)"
    and pop_contents: "ok q \<Longrightarrow> pop q n = (q', bs) \<Longrightarrow> contents q' = drop n (contents q)"
begin

lemma run_fifo:
  "ok q \<Longrightarrow> queue_run push pop ops q = (q', inp, outp) \<Longrightarrow>
   ok q' \<and> contents q @ inp = outp @ contents q'"
proof (induction ops arbitrary: q q' inp outp)
  case (Cons op ops)
  show ?case
  proof (cases op)
    case (Q_push bs)
    obtain q1 n where p: "push q bs = (q1, n)" by (cases "push q bs")
    obtain q2 i2 o2 where r: "queue_run push pop ops q1 = (q2, i2, o2)" by (metis prod_cases3)
    have "ok q2 \<and> contents q1 @ i2 = o2 @ contents q2"
      by (rule Cons.IH [OF push_ok [OF Cons.prems(1) p] r])
    then show ?thesis
      using Cons.prems push_contents [OF Cons.prems(1) p] p r by (auto simp: Q_push)
  next
    case (Q_pop n)
    obtain q1 bs where p: "pop q n = (q1, bs)" by (cases "pop q n")
    obtain q2 i2 o2 where r: "queue_run push pop ops q1 = (q2, i2, o2)" by (metis prod_cases3)
    have IH: "ok q2 \<and> contents q1 @ i2 = o2 @ contents q2"
      by (rule Cons.IH [OF pop_ok [OF Cons.prems(1) p] r])
    have "contents q = bs @ contents q1"
      using pop_bytes [OF Cons.prems(1) p] pop_contents [OF Cons.prems(1) p] by simp
    then show ?thesis using Cons.prems p r IH by (auto simp: Q_pop)
  qed
qed simp

lemma push_progress:
  "ok q \<Longrightarrow> push q bs = (q', n) \<Longrightarrow> length (contents q) < cap \<Longrightarrow> bs \<noteq> [] \<Longrightarrow> 0 < n"
  using push_count by fastforce

end

section \<open>The ring is a byte queue\<close>

definition ring_contents :: "nat \<Rightarrow> ring \<Rightarrow> byte list" where
  "ring_contents cap r = map (\<lambda>i. r_buf r ((r_rpos r + i) mod cap)) [0..<r_count r]"

definition ring_ok :: "nat \<Rightarrow> ring \<Rightarrow> bool" where
  "ring_ok cap r \<longleftrightarrow> r_rpos r < cap \<and> r_count r \<le> cap \<and> r_wpos r = (r_rpos r + r_count r) mod cap"

definition ring_empty :: ring where
  "ring_empty = \<lparr>r_buf = (\<lambda>_. 0), r_rpos = 0, r_wpos = 0, r_count = 0\<rparr>"

lemma length_ring_contents [simp]: "length (ring_contents cap r) = r_count r"
  by (simp add: ring_contents_def)

lemma ring_ok_empty [simp]: "0 < cap \<Longrightarrow> ring_ok cap ring_empty" "ring_contents cap ring_empty = []"
  by (simp_all add: ring_ok_def ring_empty_def ring_contents_def)

lemma mod_add_split:
  fixes a b cap :: nat
  assumes "a < cap" "b \<le> cap"
  shows "(a + b) mod cap = (if a + b < cap then a + b else a + b - cap)"
  using assms by (cases "a + b < cap") (simp_all add: mod_if)

lemma ring_read_bytes:
  assumes "ring_ok cap r" "lxp_ring_read cap r len = (r', bs)"
  shows "bs = take len (ring_contents cap r)"
proof (rule nth_equalityI)
  let ?l = "min len (r_count r)"
  have bs: "bs = mem_read (r_buf r) (r_rpos r) (min (cap - r_rpos r) ?l)
      @ mem_read (r_buf r) 0 (?l - min (cap - r_rpos r) ?l)"
    using assms(2) by (auto simp: lxp_ring_read_def Let_def min_def)
  then show "length bs = length (take len (ring_contents cap r))" by simp
  fix i assume "i < length bs"
  then have i: "i < ?l" using bs by (auto simp: min_def split: if_splits)
  have "(r_rpos r + i) mod cap = (if r_rpos r + i < cap then r_rpos r + i else r_rpos r + i - cap)"
    using assms(1) i by (intro mod_add_split) (auto simp: ring_ok_def)
  then show "bs ! i = take len (ring_contents cap r) ! i"
    using i assms(1)
    by (auto simp: bs ring_contents_def nth_append mem_read_nth ring_ok_def intro!: arg_cong [of _ _ "r_buf r"])
qed

lemma ring_read_contents:
  assumes "ring_ok cap r" "lxp_ring_read cap r len = (r', bs)"
  shows "ring_contents cap r' = drop len (ring_contents cap r)" "ring_ok cap r'"
proof -
  let ?l = "min len (r_count r)"
  have r': "r' = r\<lparr>r_rpos := (r_rpos r + ?l) mod cap, r_count := r_count r - ?l\<rparr>"
    using assms(2) by (auto simp: lxp_ring_read_def Let_def min_def)
  show "ring_contents cap r' = drop len (ring_contents cap r)"
  proof (rule nth_equalityI)
    fix i assume "i < length (ring_contents cap r')"
    then have "i < r_count r - ?l" using r' by simp
    then show "ring_contents cap r' ! i = drop len (ring_contents cap r) ! i"
      by (auto simp: r' ring_contents_def mod_add_left_eq add.assoc min_def)
  qed (use r' in auto)
  show "ring_ok cap r'"
    using assms(1) mod_add_left_eq [of "r_rpos r + ?l" cap "r_count r - ?l"]
    by (auto simp: r' ring_ok_def)
qed

lemma ring_write_bytes:
  assumes ok: "ring_ok cap r" and w: "lxp_ring_write cap r src = (r', n)"
  shows "n = min (length src) (cap - r_count r)" "ring_ok cap r'"
    "ring_contents cap r' = ring_contents cap r @ take n src"
proof -
  let ?n1 = "min (cap - r_wpos r) n"
  show n: "n = min (length src) (cap - r_count r)"
    using w by (auto simp: lxp_ring_write_def Let_def min_def)
  have len: "(if cap - r_count r < length src then cap - r_count r else length src) = n"
    using n by (simp add: min_def)
  have r': "r' = r\<lparr>r_buf := mem_write (mem_write (r_buf r) (r_wpos r) (take ?n1 src)) 0 (take (n - ?n1) (drop ?n1 src)),
      r_wpos := (r_wpos r + n) mod cap, r_count := r_count r + n\<rparr>"
    using w unfolding lxp_ring_write_def Let_def len by (auto simp: min_def)
  show "ring_ok cap r'"
    using ok n by (auto simp: r' ring_ok_def mod_add_left_eq add.assoc)
  have b: "r_rpos r < cap" "r_count r + n \<le> cap" "n \<le> length src" "r_wpos r < cap"
    using ok n by (auto simp: ring_ok_def)
  have w0: "r_wpos r = (if r_rpos r + r_count r < cap then r_rpos r + r_count r else r_rpos r + r_count r - cap)"
    using ok by (simp add: ring_ok_def mod_add_split)
  show "ring_contents cap r' = ring_contents cap r @ take n src"
  proof (rule nth_equalityI)
    show "length (ring_contents cap r') = length (ring_contents cap r @ take n src)"
      using b by (simp add: r')
    fix i assume "i < length (ring_contents cap r')"
    then have i: "i < r_count r + n" by (simp add: r')
    let ?k = "(r_rpos r + i) mod cap"
    have k: "?k = (if r_rpos r + i < cap then r_rpos r + i else r_rpos r + i - cap)"
      using b i by (intro mod_add_split) auto
    show "ring_contents cap r' ! i = (ring_contents cap r @ take n src) ! i"
    proof (cases "i < r_count r")
      case True
      have "\<not> (r_wpos r \<le> ?k \<and> ?k < r_wpos r + ?n1)" "\<not> ?k < n - ?n1"
        using True b w0 k by (auto simp: min_def split: if_splits)
      then show ?thesis
        using True i b by (auto simp: r' ring_contents_def nth_append mem_write_def)
    next
      case False
      define j where "j = i - r_count r"
      have j: "i = r_count r + j" "j < n" using False i by (auto simp: j_def)
      consider "j < ?n1" "?k = r_wpos r + j" "\<not> ?k < n - ?n1" | "?n1 \<le> j" "?k = j - ?n1" "?k < n - ?n1"
        using j b w0 k by (cases "j < ?n1") (auto simp: min_def split: if_splits)
      then show ?thesis
        using i b j by cases (simp_all add: r' ring_contents_def nth_append mem_write_def)
    qed
  qed
qed

interpretation ring: byte_queue "lxp_ring_write LXP_PIPE_BUF" "lxp_ring_read LXP_PIPE_BUF"
  "ring_ok LXP_PIPE_BUF" "ring_contents LXP_PIPE_BUF" LXP_PIPE_BUF
proof
  fix q :: ring and bs q' n
  assume ok: "ring_ok LXP_PIPE_BUF q"
  show "length (ring_contents LXP_PIPE_BUF q) \<le> LXP_PIPE_BUF" using ok by (simp add: ring_ok_def)
  assume w: "lxp_ring_write LXP_PIPE_BUF q bs = (q', n)"
  note W = ring_write_bytes [OF ok w]
  show "ring_ok LXP_PIPE_BUF q'" by (rule W)
  show "ring_contents LXP_PIPE_BUF q' = ring_contents LXP_PIPE_BUF q @ take n bs" by (rule W)
  show "n = min (length bs) (LXP_PIPE_BUF - length (ring_contents LXP_PIPE_BUF q))" using W(1) by simp
next
  fix q :: ring and n q' bs
  assume ok: "ring_ok LXP_PIPE_BUF q" and r: "lxp_ring_read LXP_PIPE_BUF q n = (q', bs)"
  show "ring_ok LXP_PIPE_BUF q'" by (rule ring_read_contents [OF ok r])
  show "bs = take n (ring_contents LXP_PIPE_BUF q)" by (rule ring_read_bytes [OF ok r])
  show "ring_contents LXP_PIPE_BUF q' = drop n (ring_contents LXP_PIPE_BUF q)"
    by (rule ring_read_contents [OF ok r])
qed

end
