(* ===== verification/Proc_Types.thy ===== *)
theory Proc_Types
  imports Lxp_Prelude
begin

text \<open>
  The records of \<^verbatim>\<open>src/src/proc/lxp_proc.h\<close> and \<^verbatim>\<open>src/include/lxp/lxp_identity.h\<close>:
  generation-bearing slot and region references, open-file descriptions, descriptor
  tables, the refcounted process resources, the typed intent and wait records and the
  task record itself, with the operations that publish and retire intents and waits.

  Pointers to pool objects (\<^verbatim>\<open>mm\<close>, \<^verbatim>\<open>files\<close>, \<^verbatim>\<open>fs_context\<close>,
  \<^verbatim>\<open>sighand\<close>, \<^verbatim>\<open>group\<close>) are pool indices, NULL being \<open>None\<close>.  The host
  callbacks and opaque host pointers of a task are kept as numbers: the core only copies
  and tests them.
\<close>

section \<open>Identities\<close>

record slot_ref =
  sr_index :: int
  sr_generation :: nat

record region_ref =
  rr_index :: int
  rr_generation :: nat

definition lxp_slot_ref :: "int \<Rightarrow> nat \<Rightarrow> slot_ref" where
  "lxp_slot_ref index gen = \<lparr>sr_index = index, sr_generation = gen\<rparr>"

definition lxp_slot_ref_none :: slot_ref where
  "lxp_slot_ref_none = lxp_slot_ref (- 1) 0"

definition lxp_region_ref_none :: region_ref where
  "lxp_region_ref_none = \<lparr>rr_index = - 1, rr_generation = 0\<rparr>"

definition lxp_slot_ref_equal :: "slot_ref \<Rightarrow> slot_ref \<Rightarrow> bool" where
  "lxp_slot_ref_equal a b \<longleftrightarrow> sr_index a = sr_index b \<and> sr_generation a = sr_generation b"

definition lxp_region_ref_equal :: "region_ref \<Rightarrow> region_ref \<Rightarrow> bool" where
  "lxp_region_ref_equal a b \<longleftrightarrow> rr_index a = rr_index b \<and> rr_generation a = rr_generation b"

lemma ref_equal_iff [simp]:
  "lxp_slot_ref_equal a b \<longleftrightarrow> a = b" "lxp_region_ref_equal c d \<longleftrightarrow> c = d"
  by (auto simp: lxp_slot_ref_equal_def lxp_region_ref_equal_def)

section \<open>Descriptors and process resources\<close>

datatype fd_kind = FD_FREE | FD_CONSOLE | FD_FILE | FD_PIPE | FD_TMPFS | FD_PROC | FD_DEV | FD_SOCKET
  | FD_EVENTFD | FD_PTY | FD_NET | FD_HOSTFS

record ofd =
  ofd_refs :: nat
  ofd_kind :: fd_kind
  ofd_rw :: nat
  ofd_nonblock :: bool
  ofd_accmode :: nat
  ofd_file_idx :: int
  ofd_offset :: nat

definition ofd_zero :: ofd where
  "ofd_zero = \<lparr>ofd_refs = 0, ofd_kind = FD_FREE, ofd_rw = 0, ofd_nonblock = False,
     ofd_accmode = 0, ofd_file_idx = 0, ofd_offset = 0\<rparr>"

text \<open>\<open>fd_ofd\<close> is the pool index plus one, zero when the entry is free.\<close>

record fd_entry =
  fd_ofd :: nat
  fd_cloexec :: bool

definition fd_zero :: fd_entry where
  "fd_zero = \<lparr>fd_ofd = 0, fd_cloexec = False\<rparr>"

record files =
  fl_refs :: nat
  fl_fd :: "nat \<Rightarrow> fd_entry"

definition files_zero :: files where
  "files_zero = \<lparr>fl_refs = 0, fl_fd = (\<lambda>_. fd_zero)\<rparr>"

record fs_context =
  fc_refs :: nat
  fc_umask :: nat
  fc_cwd :: string

definition fs_context_zero :: fs_context where
  "fs_context_zero = \<lparr>fc_refs = 0, fc_umask = 0, fc_cwd = []\<rparr>"

record sighand =
  sh_refs :: nat
  sh_handler :: "int \<Rightarrow> nat"
  sh_restorer :: nat
  sh_restart :: "64 word"

definition sighand_zero :: sighand where
  "sighand_zero = \<lparr>sh_refs = 0, sh_handler = (\<lambda>_. 0), sh_restorer = 0, sh_restart = 0\<rparr>"

record mm =
  mm_refs :: nat
  mm_device_generation :: nat
  mm_exec_generation :: nat
  mm_arena :: "nat option"
  mm_brk_base :: nat
  mm_brk_cur :: nat
  mm_brk_max :: nat
  mm_region :: region_ref
  mm_region_lo :: nat
  mm_region_hi :: nat
  mm_pool_lo :: nat
  mm_pool_hi :: nat
  mm_is_dynamic :: bool
  mm_copied_text_executable :: bool
  mm_copied_text_base :: nat
  mm_copied_text_size :: nat

definition mm_zero :: mm where
  "mm_zero = \<lparr>mm_refs = 0, mm_device_generation = 0, mm_exec_generation = 0, mm_arena = None,
     mm_brk_base = 0, mm_brk_cur = 0, mm_brk_max = 0,
     mm_region = \<lparr>rr_index = 0, rr_generation = 0\<rparr>, mm_region_lo = 0, mm_region_hi = 0,
     mm_pool_lo = 0, mm_pool_hi = 0, mm_is_dynamic = False, mm_copied_text_executable = False,
     mm_copied_text_base = 0, mm_copied_text_size = 0\<rparr>"

datatype child_kind = CHILD_EXITED | CHILD_STOPPED

record thread_group =
  tg_refs :: nat
  tg_tgid :: int
  tg_ppid :: int
  tg_pgid :: int
  tg_exiting :: bool
  tg_exit_status :: int
  tg_child_pid :: "nat \<Rightarrow> int"
  tg_child_status :: "nat \<Rightarrow> int"
  tg_child_kind :: "nat \<Rightarrow> child_kind"
  tg_child_count :: nat
  tg_live_children :: int

definition thread_group_zero :: thread_group where
  "thread_group_zero = \<lparr>tg_refs = 0, tg_tgid = 0, tg_ppid = 0, tg_pgid = 0, tg_exiting = False,
     tg_exit_status = 0, tg_child_pid = (\<lambda>_. 0), tg_child_status = (\<lambda>_. 0),
     tg_child_kind = (\<lambda>_. CHILD_EXITED), tg_child_count = 0, tg_live_children = 0\<rparr>"

section \<open>Intents and waits\<close>

datatype intent_kind = INTENT_NONE | INTENT_DEFERRED_SYSCALL | INTENT_FORK | INTENT_EXEC | INTENT_EXIT

datatype intent_data = ID_none | ID_fork nat nat | ID_exit bool

record intent =
  it_kind :: intent_kind
  it_data :: intent_data

definition intent_zero :: intent where
  "intent_zero = \<lparr>it_kind = INTENT_NONE, it_data = ID_none\<rparr>"

datatype wait_kind = WAIT_NONE | WAIT_TIMER | WAIT_CHILD | WAIT_FUTEX | WAIT_PIPE | WAIT_CONSOLE
  | WAIT_DEVICE | WAIT_SOCKET | WAIT_NETFS | WAIT_HOSTFS | WAIT_PTY | WAIT_SIGSUSPEND | WAIT_POLL

record io_wait =
  io_object :: int
  io_request :: int
  io_buffer :: nat
  io_length :: nat
  io_offset :: nat
  io_command :: nat
  io_deadline_us :: nat

definition io_zero :: io_wait where
  "io_zero = \<lparr>io_object = 0, io_request = 0, io_buffer = 0, io_length = 0, io_offset = 0,
     io_command = 0, io_deadline_us = 0\<rparr>"

text \<open>The payload union: \<open>WD_child pid options status\<close>, \<open>WD_futex uaddr deadline woken\<close>,
  \<open>WD_poll pollfds nfds deadline readfds writefds exceptfds\<close>.\<close>

datatype wait_data = WD_none | WD_timer nat | WD_child int int nat | WD_futex nat nat bool
  | WD_io io_wait | WD_poll nat int nat nat nat nat

record wait =
  wt_kind :: wait_kind
  wt_op :: nat
  wt_flags :: nat
  wt_enqueued_us :: nat
  wt_data :: wait_data

definition wait_zero :: wait where
  "wait_zero = \<lparr>wt_kind = WAIT_NONE, wt_op = 0, wt_flags = 0, wt_enqueued_us = 0, wt_data = WD_none\<rparr>"

fun wait_io :: "wait_data \<Rightarrow> io_wait" where
  "wait_io (WD_io io) = io"
| "wait_io _ = io_zero"

section \<open>The task record\<close>

datatype exit_reason = EXIT_NONE | EXIT_NORMAL | EXIT_SIGNAL | EXIT_SIGNAL_DEPTH | EXIT_MEMORY_FAULT
  | EXIT_EXEC_RESOURCE | EXIT_EXEC_LOAD | EXIT_STATE_CORRUPTION | EXIT_HOST_TRANSITION

datatype stop_kind = STOP_NONE | STOP_PARKED | STOP_READY

record guest_view =
  gv_active :: bool
  gv_mm :: nat
  gv_slot :: slot_ref
  gv_region :: region_ref
  gv_access :: nat

record proc =
  p_guest_view :: "guest_view option"
  p_mm :: "nat option"
  p_write_fn :: nat
  p_read_fn :: nat
  p_console_poll :: nat
  p_io_ctx :: nat
  p_fs :: nat
  p_fs_count :: int
  p_files :: "nat option"
  p_pid :: int
  p_nice :: int
  p_group :: "nat option"
  p_comm :: string
  p_fs_context :: "nat option"
  p_exit_status :: int
  p_exit_reason :: exit_reason
  p_exit_signal :: int
  p_exit_detail :: nat
  p_exit_address :: nat
  p_stopped :: bool
  p_stop_kind :: stop_kind
  p_stop_sig :: int
  p_stop_r0 :: int
  p_sighand :: "nat option"
  p_sig_blocked :: "64 word"
  p_sigsuspend_saved_mask :: "64 word"
  p_sigsuspend_active :: bool
  p_intent :: intent
  p_wait :: wait
  p_exec_file_idx :: int
  p_exec_capture :: nat
  p_alive :: bool
  p_vfork_parent :: slot_ref
  p_snapshot :: region_ref
  p_stack_lo :: nat
  p_is_fdpic :: bool
  p_pending_sigs :: "64 word"
  p_alarm_deadline_us :: nat
  p_alarm_interval_us :: nat

definition proc_zero :: proc where
  "proc_zero = \<lparr>p_guest_view = None, p_mm = None, p_write_fn = 0, p_read_fn = 0, p_console_poll = 0,
     p_io_ctx = 0, p_fs = 0, p_fs_count = 0, p_files = None, p_pid = 0, p_nice = 0, p_group = None,
     p_comm = [], p_fs_context = None, p_exit_status = 0, p_exit_reason = EXIT_NONE,
     p_exit_signal = 0, p_exit_detail = 0, p_exit_address = 0, p_stopped = False,
     p_stop_kind = STOP_NONE, p_stop_sig = 0, p_stop_r0 = 0, p_sighand = None, p_sig_blocked = 0,
     p_sigsuspend_saved_mask = 0, p_sigsuspend_active = False, p_intent = intent_zero,
     p_wait = wait_zero, p_exec_file_idx = 0, p_exec_capture = 0, p_alive = False,
     p_vfork_parent = \<lparr>sr_index = 0, sr_generation = 0\<rparr>,
     p_snapshot = \<lparr>rr_index = 0, rr_generation = 0\<rparr>, p_stack_lo = 0, p_is_fdpic = False,
     p_pending_sigs = 0, p_alarm_deadline_us = 0, p_alarm_interval_us = 0\<rparr>"

section \<open>Publishing and retiring intents and waits\<close>

definition lxp_intent_begin :: "proc \<Rightarrow> intent \<Rightarrow> proc \<times> int" where
  "lxp_intent_begin p it =
     (if it_kind it = INTENT_NONE then (p, - LXP_EINVAL)
      else if it_kind (p_intent p) \<noteq> INTENT_NONE \<or> wt_kind (p_wait p) \<noteq> WAIT_NONE then (p, - LXP_EAGAIN)
      else (p\<lparr>p_intent := it\<rparr>, 0))"

definition lxp_intent_complete :: "proc \<Rightarrow> intent_kind \<Rightarrow> proc \<times> int" where
  "lxp_intent_complete p expected =
     (if expected = INTENT_NONE \<or> it_kind (p_intent p) \<noteq> expected then (p, - LXP_EINVAL)
      else (p\<lparr>p_intent := intent_zero\<rparr>, 0))"

definition lxp_intent_exit :: "proc \<Rightarrow> bool \<Rightarrow> proc" where
  "lxp_intent_exit p grp = p\<lparr>p_intent := \<lparr>it_kind = INTENT_EXIT, it_data = ID_exit grp\<rparr>\<rparr>"

text \<open>\<open>now\<close> is the microsecond clock the host reports.\<close>

definition lxp_wait_begin :: "nat \<Rightarrow> proc \<Rightarrow> wait \<Rightarrow> proc \<times> int" where
  "lxp_wait_begin now p w =
     (if wt_kind w = WAIT_NONE then (p, - LXP_EINVAL)
      else if wt_kind (p_wait p) \<noteq> WAIT_NONE \<or> it_kind (p_intent p) \<noteq> INTENT_NONE then (p, - LXP_EAGAIN)
      else (p\<lparr>p_wait := w\<lparr>wt_enqueued_us := now\<rparr>\<rparr>, 0))"

definition lxp_wait_park :: "nat \<Rightarrow> proc \<Rightarrow> wait \<Rightarrow> proc \<times> int" where
  "lxp_wait_park now p w =
     (let (p', rc) = lxp_wait_begin now p w in (p', if rc = 0 then 0 else - LXP_EAGAIN))"

definition wait_finish :: "proc \<Rightarrow> wait_kind \<Rightarrow> proc \<times> int" where
  "wait_finish p expected =
     (if expected = WAIT_NONE \<or> wt_kind (p_wait p) \<noteq> expected then (p, - LXP_EINVAL)
      else (p\<lparr>p_wait := wait_zero\<rparr>, 0))"

definition lxp_wait_complete :: "proc \<Rightarrow> wait_kind \<Rightarrow> proc \<times> int" where
  "lxp_wait_complete p expected = wait_finish p expected"

definition lxp_wait_interrupt :: "proc \<Rightarrow> wait_kind \<Rightarrow> proc \<times> int" where
  "lxp_wait_interrupt p expected = wait_finish p expected"

definition lxp_wait_timeout :: "proc \<Rightarrow> wait_kind \<Rightarrow> proc \<times> int" where
  "lxp_wait_timeout p expected = wait_finish p expected"

definition lxp_wait_cancel :: "proc \<Rightarrow> proc" where
  "lxp_wait_cancel p = p\<lparr>p_wait := wait_zero\<rparr>"

section \<open>Signal masks\<close>

abbreviation (input) LXP_NSIG :: int where "LXP_NSIG \<equiv> 65"
abbreviation (input) LXP_SIG_DFL :: nat where "LXP_SIG_DFL \<equiv> 0"
abbreviation (input) LXP_SIG_IGN :: nat where "LXP_SIG_IGN \<equiv> 1"
abbreviation (input) LXP_SIGKILL :: int where "LXP_SIGKILL \<equiv> 9"
abbreviation (input) LXP_SIGPIPE :: int where "LXP_SIGPIPE \<equiv> 13"
abbreviation (input) LXP_SIGCHLD :: int where "LXP_SIGCHLD \<equiv> 17"
abbreviation (input) LXP_SIGCONT :: int where "LXP_SIGCONT \<equiv> 18"
abbreviation (input) LXP_SIGSTOP :: int where "LXP_SIGSTOP \<equiv> 19"
abbreviation (input) LXP_SIGTSTP :: int where "LXP_SIGTSTP \<equiv> 20"
abbreviation (input) LXP_SIGTTIN :: int where "LXP_SIGTTIN \<equiv> 21"
abbreviation (input) LXP_SIGTTOU :: int where "LXP_SIGTTOU \<equiv> 22"
abbreviation (input) LXP_SIGURG :: int where "LXP_SIGURG \<equiv> 23"
abbreviation (input) LXP_SIGWINCH :: int where "LXP_SIGWINCH \<equiv> 28"

definition lxp_sig_bit :: "int \<Rightarrow> 64 word" where
  "lxp_sig_bit sig = (if sig \<ge> 1 \<and> sig \<le> 64 then push_bit (nat (sig - 1)) 1 else 0)"

definition lxp_sig_blocked :: "proc \<Rightarrow> int \<Rightarrow> bool" where
  "lxp_sig_blocked p sig =
     (if sig = LXP_SIGKILL \<or> sig = LXP_SIGSTOP then False
      else p_sig_blocked p AND lxp_sig_bit sig \<noteq> 0)"

text \<open>The signal pool is indexed by \<open>p_sighand\<close>.\<close>

definition lxp_sig_handler_get :: "(nat \<Rightarrow> sighand) \<Rightarrow> proc \<Rightarrow> int \<Rightarrow> nat" where
  "lxp_sig_handler_get g p sig =
     (case p_sighand p of
        None \<Rightarrow> LXP_SIG_DFL
      | Some h \<Rightarrow> if sig \<ge> 0 \<and> sig < LXP_NSIG then sh_handler (g h) sig else LXP_SIG_DFL)"

definition lxp_sig_restorer_get :: "(nat \<Rightarrow> sighand) \<Rightarrow> proc \<Rightarrow> nat" where
  "lxp_sig_restorer_get g p = (case p_sighand p of None \<Rightarrow> 0 | Some h \<Rightarrow> sh_restorer (g h))"

definition lxp_sig_restarts :: "(nat \<Rightarrow> sighand) \<Rightarrow> proc \<Rightarrow> int \<Rightarrow> bool" where
  "lxp_sig_restarts g p sig =
     (case p_sighand p of None \<Rightarrow> False | Some h \<Rightarrow> sh_restart (g h) AND lxp_sig_bit sig \<noteq> 0)"

end
