(* ===== verification/Pipe.thy ===== *)
theory Pipe
  imports Ring Proc_Types
begin

text \<open>
  The pipe pool of \<^verbatim>\<open>src/src/fs/lxp_pipe.c\<close>: allocation, the counts of open read and
  write ends, the non-blocking transfer both the system calls and the coordinator use,
  and readiness.  A transfer works on the bytes themselves; the guest buffer it is copied
  from or to belongs to the callers (theory \<open>Vfs\<close>).
\<close>

section \<open>The model\<close>

record pipe =
  pp_ring :: ring
  pp_readers :: nat
  pp_writers :: nat
  pp_used :: bool

definition pipe_zero :: pipe where
  "pipe_zero = \<lparr>pp_ring = ring_empty, pp_readers = 0, pp_writers = 0, pp_used = False\<rparr>"

type_synonym pipes = "nat \<Rightarrow> pipe"

abbreviation (input) LXP_POLLIN :: nat where "LXP_POLLIN \<equiv> 1"
abbreviation (input) LXP_POLLOUT :: nat where "LXP_POLLOUT \<equiv> 4"

definition pipe_index_ok :: "pipes \<Rightarrow> int \<Rightarrow> bool" where
  "pipe_index_ok g pi \<longleftrightarrow> \<not> (pi < 0 \<or> pi \<ge> int LXP_NPIPE \<or> \<not> pp_used (g (nat pi)))"

definition lxp_pipe_alloc :: "pipes \<Rightarrow> pipes \<times> int" where
  "lxp_pipe_alloc g =
     (case scan (\<lambda>i. \<not> pp_used (g i)) 0 LXP_NPIPE of
        None \<Rightarrow> (g, - 1)
      | Some i \<Rightarrow> (g(i := pipe_zero\<lparr>pp_used := True\<rparr>), int i))"

definition lxp_pipe_end_open :: "pipes \<Rightarrow> int \<Rightarrow> bool \<Rightarrow> pipes" where
  "lxp_pipe_end_open g pi write_end =
     (if \<not> pipe_index_ok g pi then g
      else
        (let pp = g (nat pi) in
         if write_end then
           (if pp_writers pp \<noteq> UINT16_MAX then g(nat pi := pp\<lparr>pp_writers := pp_writers pp + 1\<rparr>) else g)
         else
           (if pp_readers pp \<noteq> UINT16_MAX then g(nat pi := pp\<lparr>pp_readers := pp_readers pp + 1\<rparr>) else g)))"

definition lxp_pipe_end_close :: "pipes \<Rightarrow> int \<Rightarrow> bool \<Rightarrow> pipes" where
  "lxp_pipe_end_close g pi write_end =
     (if \<not> pipe_index_ok g pi then g
      else
        (let pp = g (nat pi);
             pp1 = (if write_end then pp\<lparr>pp_writers := pp_writers pp - 1\<rparr>
                    else pp\<lparr>pp_readers := pp_readers pp - 1\<rparr>)
         in g(nat pi := (if pp_readers pp1 = 0 \<and> pp_writers pp1 = 0 then pipe_zero else pp1))))"

definition lxp_pipe_discard :: "pipes \<Rightarrow> int \<Rightarrow> pipes" where
  "lxp_pipe_discard g pi =
     (if pi \<ge> 0 \<and> pi < int LXP_NPIPE \<and> pp_readers (g (nat pi)) = 0 \<and> pp_writers (g (nat pi)) = 0
      then g(nat pi := pipe_zero) else g)"

definition lxp_pipe_runtime_reset :: "pipes \<Rightarrow> pipes" where
  "lxp_pipe_runtime_reset g = (\<lambda>i. if i < LXP_NPIPE then pipe_zero else g i)"

text \<open>A read returns a count (or a negated errno) and the bytes it moved.\<close>

definition lxp_pipe_try_read :: "pipes \<Rightarrow> int \<Rightarrow> nat \<Rightarrow> pipes \<times> int \<times> byte list" where
  "lxp_pipe_try_read g pi len =
     (let pp = g (nat pi) in
      if r_count (pp_ring pp) = 0 then (g, if pp_writers pp > 0 then - LXP_EAGAIN else 0, [])
      else
        (let (r, bs) = lxp_ring_read LXP_PIPE_BUF (pp_ring pp) len
         in (g(nat pi := pp\<lparr>pp_ring := r\<rparr>), int (length bs), bs)))"

definition lxp_pipe_try_write :: "pipes \<Rightarrow> int \<Rightarrow> byte list \<Rightarrow> pipes \<times> int" where
  "lxp_pipe_try_write g pi src =
     (let pp = g (nat pi) in
      if pp_readers pp = 0 then (g, - LXP_EPIPE)
      else if r_count (pp_ring pp) = LXP_PIPE_BUF then (g, - LXP_EAGAIN)
      else
        (let (r, n) = lxp_ring_write LXP_PIPE_BUF (pp_ring pp) src
         in (g(nat pi := pp\<lparr>pp_ring := r\<rparr>), int n)))"

definition lxp_pipe_poll :: "pipes \<Rightarrow> int \<Rightarrow> nat \<Rightarrow> nat" where
  "lxp_pipe_poll g pi rw =
     (let pp = g (nat pi) in
      if rw = 0 then (if r_count (pp_ring pp) > 0 \<or> pp_writers pp = 0 then LXP_POLLIN else 0)
      else (if r_count (pp_ring pp) < LXP_PIPE_BUF \<or> pp_readers pp = 0 then LXP_POLLOUT else 0))"

section \<open>Invariant\<close>

definition pipe_ok :: "pipe \<Rightarrow> bool" where
  "pipe_ok pp \<longleftrightarrow> ring_ok LXP_PIPE_BUF (pp_ring pp) \<and> pp_readers pp \<le> UINT16_MAX \<and> pp_writers pp \<le> UINT16_MAX
     \<and> (pp_used pp \<or> pp = pipe_zero)"

definition pipes_ok :: "pipes \<Rightarrow> bool" where
  "pipes_ok g \<longleftrightarrow> (\<forall>i < LXP_NPIPE. pipe_ok (g i))"

definition pipe_stream :: "pipes \<Rightarrow> int \<Rightarrow> byte list" where
  "pipe_stream g pi = ring_contents LXP_PIPE_BUF (pp_ring (g (nat pi)))"

lemma pipe_zero_ok [simp]: "pipe_ok pipe_zero" "pp_ring pipe_zero = ring_empty" "\<not> pp_used pipe_zero"
  "pp_readers pipe_zero = 0" "pp_writers pipe_zero = 0"
  by (simp_all add: pipe_ok_def pipe_zero_def)

lemma pipes_okD: "pipes_ok g \<Longrightarrow> 0 \<le> pi \<Longrightarrow> pi < int LXP_NPIPE \<Longrightarrow> pipe_ok (g (nat pi))"
  by (simp add: pipes_ok_def nat_less_iff)

lemma pipes_ok_upd: "pipes_ok g \<Longrightarrow> pipe_ok pp \<Longrightarrow> pipes_ok (g(i := pp))"
  by (simp add: pipes_ok_def)

lemma pipe_pool_ok:
  assumes "pipes_ok g"
  shows "pipes_ok (fst (lxp_pipe_alloc g))" "pipes_ok (lxp_pipe_end_open g pi w)"
    "pipes_ok (lxp_pipe_end_close g pi w)" "pipes_ok (lxp_pipe_discard g pi)"
    "pipes_ok (lxp_pipe_runtime_reset g)"
proof -
  have u: "pipe_ok (pipe_zero\<lparr>pp_used := True\<rparr>)" by (simp add: pipe_ok_def pipe_zero_def)
  show "pipes_ok (fst (lxp_pipe_alloc g))"
    using assms u by (auto simp: lxp_pipe_alloc_def pipes_ok_upd split: option.split)
  show "pipes_ok (lxp_pipe_discard g pi)"
    using assms by (simp add: lxp_pipe_discard_def pipes_ok_upd)
  show "pipes_ok (lxp_pipe_runtime_reset g)"
    by (simp add: lxp_pipe_runtime_reset_def pipes_ok_def)
  have p: "pipe_ok (g (nat pi))" "pp_used (g (nat pi))" if "pipe_index_ok g pi"
    using that pipes_okD [OF assms] by (auto simp: pipe_index_ok_def)
  show "pipes_ok (lxp_pipe_end_open g pi w)"
    using assms p by (auto simp: lxp_pipe_end_open_def Let_def pipe_ok_def intro!: pipes_ok_upd)
  show "pipes_ok (lxp_pipe_end_close g pi w)"
    using assms p by (auto simp: lxp_pipe_end_close_def Let_def pipe_ok_def intro!: pipes_ok_upd)
qed

lemma try_read_cases:
  assumes ok: "pipe_ok (g (nat pi))" and r: "lxp_pipe_try_read g pi len = (g', n, bs)"
  shows "pipe_stream g' pi = drop len (pipe_stream g pi)" "bs = take len (pipe_stream g pi)"
    "n = (if pipe_stream g pi = [] then (if pp_writers (g (nat pi)) > 0 then - LXP_EAGAIN else 0)
          else int (length bs))"
    "pipe_ok (g' (nat pi))"
    "pp_writers (g' (nat pi)) = pp_writers (g (nat pi))" "pp_readers (g' (nat pi)) = pp_readers (g (nat pi))"
    "\<And>j. j \<noteq> nat pi \<Longrightarrow> g' j = g j" "pp_used (g' (nat pi)) = pp_used (g (nat pi))"
proof -
  let ?R = "pp_ring (g (nat pi))"
  have R: "ring_ok LXP_PIPE_BUF ?R" using ok by (simp add: pipe_ok_def)
  obtain r' out where rd: "lxp_ring_read LXP_PIPE_BUF ?R len = (r', out)" by (metis surj_pair)
  note D = ring_read_bytes [OF R rd] ring_read_contents [OF R rd]
  have e: "pipe_stream g pi = [] \<longleftrightarrow> r_count ?R = 0"
    by (simp add: pipe_stream_def ring_contents_def)
  show "pipe_stream g' pi = drop len (pipe_stream g pi)" "bs = take len (pipe_stream g pi)"
    "n = (if pipe_stream g pi = [] then (if pp_writers (g (nat pi)) > 0 then - LXP_EAGAIN else 0)
          else int (length bs))"
    "pp_writers (g' (nat pi)) = pp_writers (g (nat pi))" "pp_readers (g' (nat pi)) = pp_readers (g (nat pi))"
    "\<And>j. j \<noteq> nat pi \<Longrightarrow> g' j = g j" "pp_used (g' (nat pi)) = pp_used (g (nat pi))"
    using r e D by (auto simp: lxp_pipe_try_read_def Let_def rd pipe_stream_def split: if_splits)
  show "pipe_ok (g' (nat pi))"
  proof (cases "r_count ?R = 0")
    case True
    then show ?thesis using r ok by (auto simp: lxp_pipe_try_read_def Let_def)
  next
    case False
    then have u: "pp_used (g (nat pi))" using ok by (auto simp: pipe_ok_def ring_empty_def)
    then show ?thesis
      using False r ok D by (auto simp: lxp_pipe_try_read_def Let_def rd pipe_ok_def)
  qed
qed

lemma try_write_cases:
  assumes ok: "pipe_ok (g (nat pi))" and w: "lxp_pipe_try_write g pi src = (g', n)"
  shows "pp_readers (g (nat pi)) = 0 \<Longrightarrow> n = - LXP_EPIPE \<and> g' = g"
    "pp_readers (g (nat pi)) > 0 \<Longrightarrow> length (pipe_stream g pi) = LXP_PIPE_BUF \<Longrightarrow> n = - LXP_EAGAIN \<and> g' = g"
    "pp_readers (g (nat pi)) > 0 \<Longrightarrow> length (pipe_stream g pi) < LXP_PIPE_BUF \<Longrightarrow>
       n = int (min (length src) (LXP_PIPE_BUF - length (pipe_stream g pi)))"
    "pipe_stream g' pi = pipe_stream g pi @ take (nat n) src"
    "pp_used (g (nat pi)) \<Longrightarrow> pipe_ok (g' (nat pi))"
    "pp_writers (g' (nat pi)) = pp_writers (g (nat pi))" "pp_readers (g' (nat pi)) = pp_readers (g (nat pi))"
    "\<And>j. j \<noteq> nat pi \<Longrightarrow> g' j = g j" "pp_used (g' (nat pi)) = pp_used (g (nat pi))"
proof -
  let ?R = "pp_ring (g (nat pi))"
  have R: "ring_ok LXP_PIPE_BUF ?R" using ok by (simp add: pipe_ok_def)
  obtain r' k where wr: "lxp_ring_write LXP_PIPE_BUF ?R src = (r', k)" by (metis surj_pair)
  note D = ring_write_bytes [OF R wr]
  have len: "length (pipe_stream g pi) = r_count ?R" by (simp add: pipe_stream_def)
  consider (epipe) "pp_readers (g (nat pi)) = 0" "n = - LXP_EPIPE" "g' = g"
    | (full) "pp_readers (g (nat pi)) > 0" "r_count ?R = LXP_PIPE_BUF" "n = - LXP_EAGAIN" "g' = g"
    | (moved) "pp_readers (g (nat pi)) > 0" "r_count ?R \<noteq> LXP_PIPE_BUF" "n = int k"
        "g' = g(nat pi := (g (nat pi))\<lparr>pp_ring := r'\<rparr>)"
    using w by (auto simp: lxp_pipe_try_write_def Let_def wr split: if_splits)
  note C = this
  show "pp_readers (g (nat pi)) = 0 \<Longrightarrow> n = - LXP_EPIPE \<and> g' = g" by (cases rule: C) simp_all
  show "pp_readers (g (nat pi)) > 0 \<Longrightarrow> length (pipe_stream g pi) = LXP_PIPE_BUF \<Longrightarrow> n = - LXP_EAGAIN \<and> g' = g"
    by (cases rule: C) (simp_all add: len)
  show "pp_readers (g (nat pi)) > 0 \<Longrightarrow> length (pipe_stream g pi) < LXP_PIPE_BUF \<Longrightarrow>
       n = int (min (length src) (LXP_PIPE_BUF - length (pipe_stream g pi)))"
    by (cases rule: C) (simp_all add: len D(1))
  show "pipe_stream g' pi = pipe_stream g pi @ take (nat n) src"
    by (cases rule: C) (simp_all add: pipe_stream_def D(3))
  show "pp_used (g (nat pi)) \<Longrightarrow> pipe_ok (g' (nat pi))"
    by (cases rule: C) (use ok D(2) in \<open>simp_all add: pipe_ok_def\<close>)
  show "pp_writers (g' (nat pi)) = pp_writers (g (nat pi))" "pp_readers (g' (nat pi)) = pp_readers (g (nat pi))"
    "pp_used (g' (nat pi)) = pp_used (g (nat pi))"
    by (cases rule: C; simp)+
  show "g' j = g j" if "j \<noteq> nat pi" for j
    using that by (cases rule: C) simp_all
qed

section \<open>A pipe with a reader is a byte queue\<close>

definition pipe_push :: "int \<Rightarrow> pipes \<Rightarrow> byte list \<Rightarrow> pipes \<times> nat" where
  "pipe_push pi g bs = (case lxp_pipe_try_write g pi bs of (g', n) \<Rightarrow> (g', nat n))"

definition pipe_pop :: "int \<Rightarrow> pipes \<Rightarrow> nat \<Rightarrow> pipes \<times> byte list" where
  "pipe_pop pi g n = (case lxp_pipe_try_read g pi n of (g', _, bs) \<Rightarrow> (g', bs))"

definition pipe_live :: "int \<Rightarrow> pipes \<Rightarrow> bool" where
  "pipe_live pi g \<longleftrightarrow> pipe_ok (g (nat pi)) \<and> pp_used (g (nat pi)) \<and> 0 < pp_readers (g (nat pi))"

lemma pipe_pushD:
  assumes "pipe_live pi g" "pipe_push pi g bs = (g', n)"
  shows "pipe_live pi g'" "pipe_stream g' pi = pipe_stream g pi @ take n bs"
    "n = min (length bs) (LXP_PIPE_BUF - length (pipe_stream g pi))"
proof -
  obtain k where w: "lxp_pipe_try_write g pi bs = (g', k)" "n = nat k"
    using assms(2) by (auto simp: pipe_push_def split: prod.splits)
  have ok: "pipe_ok (g (nat pi))" "pp_used (g (nat pi))" "0 < pp_readers (g (nat pi))"
    using assms(1) by (simp_all add: pipe_live_def)
  note W = try_write_cases [OF ok(1) w(1)]
  show "pipe_live pi g'" using W(5) [OF ok(2)] W(7,9) ok by (simp add: pipe_live_def)
  show "pipe_stream g' pi = pipe_stream g pi @ take n bs" using W(4) w(2) by simp
  have "length (pipe_stream g pi) \<le> LXP_PIPE_BUF"
    using ok(1) by (simp add: pipe_ok_def pipe_stream_def ring_ok_def)
  then show "n = min (length bs) (LXP_PIPE_BUF - length (pipe_stream g pi))"
    using W(2) [OF ok(3)] W(3) [OF ok(3)] w(2)
    by (cases "length (pipe_stream g pi) = LXP_PIPE_BUF") (simp_all add: nat_int)
qed

lemma pipe_popD:
  assumes "pipe_live pi g" "pipe_pop pi g n = (g', bs)"
  shows "pipe_live pi g'" "bs = take n (pipe_stream g pi)" "pipe_stream g' pi = drop n (pipe_stream g pi)"
proof -
  obtain k where r: "lxp_pipe_try_read g pi n = (g', k, bs)"
    using assms(2) by (auto simp: pipe_pop_def split: prod.splits)
  have ok: "pipe_ok (g (nat pi))" "pp_used (g (nat pi))" "0 < pp_readers (g (nat pi))"
    using assms(1) by (simp_all add: pipe_live_def)
  note R = try_read_cases [OF ok(1) r]
  show "pipe_live pi g'" using R(4,6,8) ok by (simp add: pipe_live_def)
  show "bs = take n (pipe_stream g pi)" "pipe_stream g' pi = drop n (pipe_stream g pi)" by (rule R)+
qed

interpretation pipeq: byte_queue "pipe_push pi" "pipe_pop pi" "pipe_live pi" "\<lambda>g. pipe_stream g pi" LXP_PIPE_BUF
  for pi
proof
  fix g
  assume "pipe_live pi g"
  then show "length (pipe_stream g pi) \<le> LXP_PIPE_BUF"
    by (simp add: pipe_live_def pipe_ok_def pipe_stream_def ring_ok_def)
qed (erule (1) pipe_pushD pipe_popD)+

section \<open>Properties\<close>

text \<open>C6.  Bytes leave a pipe in the order they were accepted, none lost, none invented:
  after any interleaving of (possibly refused or partial) writes and reads, what was
  buffered plus what was accepted is what was delivered plus what is still buffered, and
  the buffer never exceeds the pipe size.\<close>

theorem pipe_is_fifo:
  assumes "pipe_live pi g" "queue_run (pipe_push pi) (pipe_pop pi) ops g = (g', accepted, delivered)"
  shows "pipe_stream g pi @ accepted = delivered @ pipe_stream g' pi
    \<and> length (pipe_stream g' pi) \<le> LXP_PIPE_BUF"
  using pipeq.run_fifo [OF assms] pipeq.bounded by blast

theorem pipe_is_fifo_witness:
  "\<exists>g' accepted delivered.
     queue_run (pipe_push 0) (pipe_pop 0) [Q_push [1, 2, 3], Q_pop 2, Q_push [4], Q_pop 9]
       (lxp_pipe_end_open (fst (lxp_pipe_alloc (\<lambda>_. pipe_zero))) 0 False) = (g', accepted, delivered)
     \<and> accepted = delivered @ pipe_stream g' 0"
proof -
  let ?g = "lxp_pipe_end_open (fst (lxp_pipe_alloc (\<lambda>_. pipe_zero))) 0 False"
  have g: "?g 0 = pipe_zero\<lparr>pp_used := True, pp_readers := 1\<rparr>"
    by (simp add: lxp_pipe_alloc_def scan_def LXP_NPIPE_def upt_rec lxp_pipe_end_open_def pipe_index_ok_def
        UINT16_MAX_def pipe_zero_def)
  have live: "pipe_live 0 ?g" "pipe_stream ?g 0 = []"
    using g by (simp_all add: pipe_live_def pipe_ok_def pipe_stream_def UINT16_MAX_def)
  obtain g' accepted delivered where
    r: "queue_run (pipe_push 0) (pipe_pop 0) [Q_push [1, 2, 3], Q_pop 2, Q_push [4], Q_pop 9] ?g
      = (g', accepted, delivered)" by (metis prod_cases3)
  from pipe_is_fifo [OF live(1) r] live(2) r show ?thesis by auto
qed

text \<open>C25.  Blocking and readiness agree: a read would block (EAGAIN) exactly while the pipe
  is empty and a writer is open, sees end of file exactly when it is empty and no writer
  is left, a write would block exactly when the pipe is full and a reader is open, and
  fails with EPIPE exactly when no reader is left; poll reports a read end ready exactly
  when a read would not block, and a write end ready exactly when a write would not.\<close>

theorem pipe_blocking_and_poll_agree:
  assumes ok: "pipe_ok (g (nat pi))" and len: "0 < len" and src: "src \<noteq> []"
  shows "(fst (snd (lxp_pipe_try_read g pi len)) = - LXP_EAGAIN
        \<longleftrightarrow> pipe_stream g pi = [] \<and> 0 < pp_writers (g (nat pi)))
    \<and> (fst (snd (lxp_pipe_try_read g pi len)) = 0
        \<longleftrightarrow> pipe_stream g pi = [] \<and> pp_writers (g (nat pi)) = 0)
    \<and> (snd (lxp_pipe_try_write g pi src) = - LXP_EPIPE \<longleftrightarrow> pp_readers (g (nat pi)) = 0)
    \<and> (snd (lxp_pipe_try_write g pi src) = - LXP_EAGAIN
        \<longleftrightarrow> length (pipe_stream g pi) = LXP_PIPE_BUF \<and> 0 < pp_readers (g (nat pi)))
    \<and> (lxp_pipe_poll g pi 0 = LXP_POLLIN \<longleftrightarrow> fst (snd (lxp_pipe_try_read g pi len)) \<noteq> - LXP_EAGAIN)
    \<and> (lxp_pipe_poll g pi 1 = LXP_POLLOUT \<longleftrightarrow> snd (lxp_pipe_try_write g pi src) \<noteq> - LXP_EAGAIN)"
proof -
  obtain g1 n bs where r: "lxp_pipe_try_read g pi len = (g1, n, bs)" by (metis prod_cases3)
  obtain g2 k where w: "lxp_pipe_try_write g pi src = (g2, k)" by (metis surj_pair)
  note R = try_read_cases(2,3) [OF ok r] and W = try_write_cases(1,2,3) [OF ok w]
  have count: "r_count (pp_ring (g (nat pi))) = length (pipe_stream g pi)" by (simp add: pipe_stream_def)
  have full: "length (pipe_stream g pi) \<le> LXP_PIPE_BUF"
    using ok by (simp add: pipe_ok_def pipe_stream_def ring_ok_def)
  have rd: "n = - LXP_EAGAIN \<longleftrightarrow> pipe_stream g pi = [] \<and> 0 < pp_writers (g (nat pi))"
    "n = 0 \<longleftrightarrow> pipe_stream g pi = [] \<and> pp_writers (g (nat pi)) = 0"
    using R len by auto
  have wr: "k = - LXP_EPIPE \<longleftrightarrow> pp_readers (g (nat pi)) = 0"
    "k = - LXP_EAGAIN \<longleftrightarrow> length (pipe_stream g pi) = LXP_PIPE_BUF \<and> 0 < pp_readers (g (nat pi))"
    using W full by (cases "pp_readers (g (nat pi)) = 0"; cases "length (pipe_stream g pi) = LXP_PIPE_BUF"; simp)+
  have "lxp_pipe_poll g pi 0 = 1 \<longleftrightarrow> n \<noteq> - LXP_EAGAIN" "lxp_pipe_poll g pi 1 = 4 \<longleftrightarrow> k \<noteq> - LXP_EAGAIN"
    using rd(1) wr(2) full by (auto simp: lxp_pipe_poll_def Let_def count)
  with rd wr show ?thesis by (simp add: r w)
qed

theorem pipe_blocking_and_poll_agree_witness:
  "fst (snd (lxp_pipe_try_read (\<lambda>_. pipe_zero\<lparr>pp_used := True, pp_writers := 1\<rparr>) 2 16)) = - LXP_EAGAIN
   \<and> lxp_pipe_poll (\<lambda>_. pipe_zero\<lparr>pp_used := True, pp_writers := 1\<rparr>) 2 0 = 0"
  using pipe_blocking_and_poll_agree [of "\<lambda>_. pipe_zero\<lparr>pp_used := True, pp_writers := 1\<rparr>" 2 16 "[7]"]
  by (simp add: pipe_ok_def pipe_stream_def lxp_pipe_poll_def UINT16_MAX_def)
    (simp add: ring_empty_def)

end
