(* ===== verification/Signal.thy ===== *)
theory Signal
  imports Proc_Types
begin

text \<open>
  Signal policy (\<^verbatim>\<open>src/src/signal/lxp_signal_policy.c\<close>): which pending signal is
  delivered next, what a disposition means, the publication of a pending signal with its
  stop/continue ordering rule, and the record of a termination by signal.
\<close>

section \<open>The model\<close>

definition lxp_pending_deliverable :: "proc \<Rightarrow> int" where
  "lxp_pending_deliverable p =
     (if p_pending_sigs p = 0 then 0
      else case scan (\<lambda>i. p_pending_sigs p AND lxp_sig_bit (int i) \<noteq> 0 \<and> \<not> lxp_sig_blocked p (int i))
             1 (nat LXP_NSIG) of
        None \<Rightarrow> 0
      | Some i \<Rightarrow> int i)"

definition lxp_pending_take :: "proc \<Rightarrow> proc \<times> int" where
  "lxp_pending_take p =
     (let sig = lxp_pending_deliverable p in
      if sig \<noteq> 0 then (p\<lparr>p_pending_sigs := p_pending_sigs p AND NOT (lxp_sig_bit sig)\<rparr>, sig)
      else (p, sig))"

definition lxp_sig_default_ignore :: "int \<Rightarrow> bool" where
  "lxp_sig_default_ignore sig \<longleftrightarrow>
     sig = LXP_SIGCHLD \<or> sig = LXP_SIGCONT \<or> sig = LXP_SIGURG \<or> sig = LXP_SIGWINCH"

definition lxp_sig_swallowed :: "(nat \<Rightarrow> sighand) \<Rightarrow> proc \<Rightarrow> int \<Rightarrow> bool" where
  "lxp_sig_swallowed g p sig =
     (let h = lxp_sig_handler_get g p sig in
      if h = LXP_SIG_IGN then True
      else if h = LXP_SIG_DFL \<and> lxp_sig_default_ignore sig then True
      else False)"

definition lxp_sig_is_stop :: "int \<Rightarrow> bool" where
  "lxp_sig_is_stop sig \<longleftrightarrow>
     sig = LXP_SIGSTOP \<or> sig = LXP_SIGTSTP \<or> sig = LXP_SIGTTIN \<or> sig = LXP_SIGTTOU"

definition lxp_sig_stops_proc :: "(nat \<Rightarrow> sighand) \<Rightarrow> proc \<Rightarrow> int \<Rightarrow> bool" where
  "lxp_sig_stops_proc g p sig =
     (if \<not> lxp_sig_is_stop sig then False
      else if sig = LXP_SIGSTOP then True
      else lxp_sig_handler_get g p sig = LXP_SIG_DFL)"

definition lxp_signal_latch :: "proc \<Rightarrow> int \<Rightarrow> proc" where
  "lxp_signal_latch p sig =
     (if sig \<le> 0 \<or> sig \<ge> LXP_NSIG then p
      else
        (let stop_mask = lxp_sig_bit LXP_SIGSTOP OR lxp_sig_bit LXP_SIGTSTP
               OR lxp_sig_bit LXP_SIGTTIN OR lxp_sig_bit LXP_SIGTTOU;
             pending = (if sig = LXP_SIGCONT then p_pending_sigs p AND NOT stop_mask
               else if lxp_sig_is_stop sig then p_pending_sigs p AND NOT (lxp_sig_bit LXP_SIGCONT)
               else p_pending_sigs p)
         in p\<lparr>p_pending_sigs := pending OR lxp_sig_bit sig\<rparr>))"

definition lxp_signal_terminate :: "proc \<Rightarrow> int \<Rightarrow> exit_reason \<Rightarrow> nat \<Rightarrow> nat \<Rightarrow> proc" where
  "lxp_signal_terminate p sig reason detail address =
     (lxp_intent_exit p False)\<lparr>p_exit_status := 128 + sig, p_exit_reason := reason,
        p_exit_signal := sig mod 256, p_exit_detail := detail, p_exit_address := address\<rparr>"

section \<open>Signal sets\<close>

text \<open>Membership of a signal in a mask.\<close>

definition sig_in :: "int \<Rightarrow> 64 word \<Rightarrow> bool" where
  "sig_in sig w \<longleftrightarrow> 1 \<le> sig \<and> sig \<le> 64 \<and> bit w (nat (sig - 1))"

lemma bit_sig_bit: "bit (lxp_sig_bit sig) n \<longleftrightarrow> 1 \<le> sig \<and> sig \<le> 64 \<and> int n = sig - 1"
  unfolding lxp_sig_bit_def by (auto simp: bit_push_bit_iff bit_1_iff simp del: push_bit_of_1)

lemma sig_in_iff: "w AND lxp_sig_bit sig \<noteq> 0 \<longleftrightarrow> sig_in sig w"
proof (cases "1 \<le> sig \<and> sig \<le> 64")
  case True
  then show ?thesis
    using bit_iff_and_push_bit_not_eq_0 [of w "nat (sig - 1)"] by (simp add: sig_in_def lxp_sig_bit_def)
next
  case False
  then have "lxp_sig_bit sig = 0" by (auto simp: lxp_sig_bit_def)
  with False show ?thesis by (auto simp: sig_in_def)
qed

lemma sig_in_bit [simp]: "sig_in s (lxp_sig_bit t) \<longleftrightarrow> 1 \<le> t \<and> t \<le> 64 \<and> s = t"
  by (auto simp: sig_in_def bit_sig_bit)

lemma sig_in_ops [simp]:
  "sig_in s (a AND b) \<longleftrightarrow> sig_in s a \<and> sig_in s b"
  "sig_in s (a OR b) \<longleftrightarrow> sig_in s a \<or> sig_in s b"
  "sig_in s (NOT a) \<longleftrightarrow> 1 \<le> s \<and> s \<le> 64 \<and> \<not> sig_in s a"
  "\<not> sig_in s 0"
  by (auto simp: sig_in_def bit_and_iff bit_or_iff bit_not_iff)

lemma mask_eqI: "(\<And>s. sig_in s a = sig_in s b) \<Longrightarrow> a = b"
proof (rule bit_word_eqI)
  fix n assume h: "\<And>s. sig_in s a = sig_in s b" and "n < LENGTH(64)"
  then show "bit a n = bit b n" using h [of "int n + 1"] by (simp add: sig_in_def)
qed

definition deliverable :: "proc \<Rightarrow> int \<Rightarrow> bool" where
  "deliverable p sig \<longleftrightarrow> sig_in sig (p_pending_sigs p)
     \<and> (sig = LXP_SIGKILL \<or> sig = LXP_SIGSTOP \<or> \<not> sig_in sig (p_sig_blocked p))"

lemma scan_deliverable:
  "(\<lambda>i. p_pending_sigs p AND lxp_sig_bit (int i) \<noteq> 0 \<and> \<not> lxp_sig_blocked p (int i)) = (\<lambda>i. deliverable p (int i))"
  by (auto simp: sig_in_iff deliverable_def lxp_sig_blocked_def)

lemma pending_deliverable_cases:
  "(lxp_pending_deliverable p = 0 \<and> (\<forall>s. \<not> deliverable p s))
   \<or> (deliverable p (lxp_pending_deliverable p) \<and> (\<forall>s < lxp_pending_deliverable p. \<not> deliverable p s))"
proof -
  have range: "1 \<le> s \<and> s \<le> 64" if "deliverable p s" for s
    using that by (auto simp: deliverable_def sig_in_def)
  show ?thesis
  proof (cases "p_pending_sigs p = 0")
    case True
    then show ?thesis by (simp add: lxp_pending_deliverable_def deliverable_def)
  next
    case False
    show ?thesis
    proof (cases "scan (\<lambda>i. deliverable p (int i)) 1 65")
      case None
      then have "\<not> deliverable p s" for s
        using range [of s] by (auto simp: scan_simps dest!: spec [of _ "nat s"])
      with False None show ?thesis by (simp add: lxp_pending_deliverable_def scan_deliverable)
    next
      case (Some i)
      then have i: "deliverable p (int i)" "\<forall>j. 1 \<le> j \<longrightarrow> j < i \<longrightarrow> \<not> deliverable p (int j)"
        by (auto simp: scan_simps)
      have "\<not> deliverable p s" if "s < int i" for s
      proof
        assume d: "deliverable p s"
        with range [of s] that have "1 \<le> nat s" "nat s < i" "int (nat s) = s" by linarith+
        with i(2) d show False by metis
      qed
      with i(1) False Some show ?thesis by (simp add: lxp_pending_deliverable_def scan_deliverable)
    qed
  qed
qed

lemma latch_pending:
  assumes "1 \<le> sig" "sig \<le> 64"
  shows "sig_in s (p_pending_sigs (lxp_signal_latch p sig)) \<longleftrightarrow>
     s = sig \<or> (sig_in s (p_pending_sigs p)
       \<and> \<not> (sig = LXP_SIGCONT \<and> lxp_sig_is_stop s) \<and> \<not> (lxp_sig_is_stop sig \<and> s = LXP_SIGCONT))"
  using assms
  by (auto simp: lxp_signal_latch_def Let_def lxp_sig_is_stop_def sig_in_def bit_and_iff bit_or_iff
      bit_not_iff bit_sig_bit)

definition stop_cont_exclusive :: "proc \<Rightarrow> bool" where
  "stop_cont_exclusive p \<longleftrightarrow>
     \<not> (sig_in LXP_SIGCONT (p_pending_sigs p) \<and> (\<exists>s. lxp_sig_is_stop s \<and> sig_in s (p_pending_sigs p)))"

lemma stop_not_cont [simp]: "\<not> lxp_sig_is_stop LXP_SIGCONT"
  by (simp add: lxp_sig_is_stop_def)

lemma latch_exclusive:
  assumes "stop_cont_exclusive p" shows "stop_cont_exclusive (lxp_signal_latch p sig)"
proof (cases "1 \<le> sig \<and> sig \<le> 64")
  case True
  note L = latch_pending [of sig _ p, OF conjunct1 [OF True] conjunct2 [OF True]]
  show ?thesis
  proof (rule ccontr)
    assume "\<not> ?thesis"
    then obtain s where s: "lxp_sig_is_stop s" "sig_in s (p_pending_sigs (lxp_signal_latch p sig))"
      and c: "sig_in LXP_SIGCONT (p_pending_sigs (lxp_signal_latch p sig))"
      unfolding stop_cont_exclusive_def by blast
    have ex: "\<not> (sig_in LXP_SIGCONT (p_pending_sigs p) \<and> sig_in s (p_pending_sigs p))"
      using assms s(1) unfolding stop_cont_exclusive_def by blast
    have "s \<noteq> LXP_SIGCONT" using s(1) stop_not_cont by metis
    then show False
      using s(1) L [of s] L [of LXP_SIGCONT] s(2) c ex by (cases "sig = LXP_SIGCONT") simp_all
  qed
next
  case False
  then have "sig \<le> 0 \<or> sig \<ge> 65" by linarith
  then have "lxp_signal_latch p sig = p" unfolding lxp_signal_latch_def by (simp only: if_True)
  with assms show ?thesis by simp
qed

lemma take_pending:
  "sig_in s (p_pending_sigs (fst (lxp_pending_take p))) \<longleftrightarrow>
     sig_in s (p_pending_sigs p) \<and> s \<noteq> snd (lxp_pending_take p)"
  using pending_deliverable_cases [of p]
  by (auto simp: lxp_pending_take_def Let_def deliverable_def sig_in_def bit_and_iff bit_not_iff bit_sig_bit)

section \<open>Histories of publications and deliveries\<close>

text \<open>One event on a task: a signal is published, or the lowest deliverable one is taken.\<close>

datatype signal_event = SE_latch int | SE_take

fun signal_step :: "signal_event \<Rightarrow> proc \<Rightarrow> proc" where
  "signal_step (SE_latch sig) p = lxp_signal_latch p sig"
| "signal_step SE_take p = fst (lxp_pending_take p)"

lemma take_blocked [simp]: "p_sig_blocked (fst (lxp_pending_take p)) = p_sig_blocked p"
  by (simp add: lxp_pending_take_def Let_def)

lemma take_exclusive:
  assumes "stop_cont_exclusive p" shows "stop_cont_exclusive (fst (lxp_pending_take p))"
  using assms unfolding stop_cont_exclusive_def take_pending by blast

lemma history_exclusive:
  "stop_cont_exclusive p \<Longrightarrow> stop_cont_exclusive (fold signal_step es p)"
proof (induction es arbitrary: p)
  case (Cons e es)
  have "stop_cont_exclusive (signal_step e p)"
    using Cons.prems by (cases e) (simp_all only: signal_step.simps latch_exclusive take_exclusive)
  with Cons.IH show ?case by simp
qed simp

text \<open>Taking until nothing is deliverable, at most \<open>n\<close> times.\<close>

fun pending_drain :: "nat \<Rightarrow> proc \<Rightarrow> proc \<times> int list" where
  "pending_drain 0 p = (p, [])"
| "pending_drain (Suc n) p =
     (let (p', sig) = lxp_pending_take p in
      if sig = 0 then (p', []) else (let (p'', sigs) = pending_drain n p' in (p'', sig # sigs)))"

lemma deliverable_range: "{s. deliverable p s} \<subseteq> {1..64}"
  by (auto simp: deliverable_def sig_in_def)

lemma deliverable_card: "card {s. deliverable p s} \<le> 64"
  using card_mono [OF _ deliverable_range, of p] by simp

lemma deliverable_after_take:
  "deliverable (fst (lxp_pending_take p)) s \<longleftrightarrow> deliverable p s \<and> s \<noteq> snd (lxp_pending_take p)"
  using take_pending [of s p] by (auto simp: deliverable_def)

lemma take_snd: "snd (lxp_pending_take p) = lxp_pending_deliverable p"
  by (simp add: lxp_pending_take_def Let_def)

lemma pending_drain_spec:
  assumes "pending_drain n p = (p', sigs)" "card {s. deliverable p s} \<le> n"
  shows "set sigs = {s. deliverable p s}" "sorted sigs" "distinct sigs" "\<And>s. \<not> deliverable p' s"
proof -
  have fin: "finite {s. deliverable q s}" for q using deliverable_range finite_subset by blast
  have "set sigs = {s. deliverable p s} \<and> sorted sigs \<and> distinct sigs \<and> (\<forall>s. \<not> deliverable p' s)"
    using assms
  proof (induction n arbitrary: p p' sigs)
    case 0
    then have "{s. deliverable p s} = {}" using fin by simp
    with 0 show ?case by auto
  next
    case (Suc n)
    obtain q sig where t: "lxp_pending_take p = (q, sig)" by (metis surj_pair)
    have D: "deliverable q s \<longleftrightarrow> deliverable p s \<and> s \<noteq> sig" for s
      using deliverable_after_take [of p s] by (simp add: t)
    have sig: "sig = lxp_pending_deliverable p" using take_snd [of p] by (simp add: t)
    show ?case
    proof (cases "sig = 0")
      case True
      then have "\<not> deliverable p s" for s
        using pending_deliverable_cases [of p] sig by (auto simp: deliverable_def sig_in_def)
      with True Suc.prems(1) t D show ?thesis by auto
    next
      case False
      with sig have d: "deliverable p sig" "\<forall>s < sig. \<not> deliverable p s"
        using pending_deliverable_cases [of p] by auto
      obtain ss where r: "pending_drain n q = (p', ss)" "sigs = sig # ss"
        using Suc.prems(1) False by (auto simp: t split: prod.splits)
      have eq: "{s. deliverable q s} = {s. deliverable p s} - {sig}" using D by auto
      then have "card {s. deliverable q s} \<le> n" using Suc.prems(2) d(1) fin by simp
      note IH = Suc.IH [OF r(1) this]
      have "\<forall>s \<in> set ss. sig \<le> s" using IH eq d(2) by (metis DiffD1 leI mem_Collect_eq)
      then show ?thesis using IH eq d(1) r(2) by auto
    qed
  qed
  then show "set sigs = {s. deliverable p s}" "sorted sigs" "distinct sigs" "\<And>s. \<not> deliverable p' s"
    by blast+
qed

section \<open>Properties\<close>

text \<open>C18.  Delivery reaches every signal: taking signals until none is left ends after at
  most 64 steps, delivers exactly the pending signals that are not blocked (SIGKILL and
  SIGSTOP whatever the mask), each once and in increasing order, and leaves nothing
  deliverable.\<close>

theorem pending_signals_all_delivered:
  "\<exists>p' sigs. pending_drain 64 p = (p', sigs) \<and> set sigs = {s. deliverable p s} \<and> sorted sigs
     \<and> distinct sigs \<and> (\<forall>s. \<not> deliverable p' s)"
proof -
  obtain p' sigs where r: "pending_drain 64 p = (p', sigs)" by (metis surj_pair)
  from pending_drain_spec [OF r deliverable_card] r show ?thesis by blast
qed

text \<open>C28.  Stop and continue cancel each other: along every history of publications and
  deliveries SIGCONT and a stop signal are never pending together, and publishing one
  sort discards what is pending of the other while keeping every other signal.\<close>

theorem stop_and_continue_never_both_pending:
  assumes "p_pending_sigs p = 0"
  shows "stop_cont_exclusive (fold signal_step es p)
    \<and> (\<forall>sig s. 1 \<le> sig \<and> sig \<le> 64 \<longrightarrow>
        sig_in s (p_pending_sigs (lxp_signal_latch (fold signal_step es p) sig)) =
          (s = sig \<or> sig_in s (p_pending_sigs (fold signal_step es p))
             \<and> \<not> (sig = LXP_SIGCONT \<and> lxp_sig_is_stop s) \<and> \<not> (lxp_sig_is_stop sig \<and> s = LXP_SIGCONT)))"
proof -
  have "stop_cont_exclusive p" by (simp add: stop_cont_exclusive_def assms)
  from history_exclusive [OF this, of es] latch_pending show ?thesis by blast
qed

theorem stop_and_continue_never_both_pending_witness:
  "sig_in LXP_SIGCONT (p_pending_sigs (fold signal_step [SE_latch LXP_SIGTSTP, SE_latch LXP_SIGCONT] proc_zero))
   \<and> \<not> sig_in LXP_SIGTSTP (p_pending_sigs (fold signal_step [SE_latch LXP_SIGTSTP, SE_latch LXP_SIGCONT] proc_zero))"
proof -
  have z: "p_pending_sigs proc_zero = 0" by (simp add: proc_zero_def)
  have f: "fold signal_step [SE_latch LXP_SIGTSTP, SE_latch LXP_SIGCONT] proc_zero
      = lxp_signal_latch (fold signal_step [SE_latch LXP_SIGTSTP] proc_zero) LXP_SIGCONT" by simp
  show ?thesis
    unfolding f
    using stop_and_continue_never_both_pending [OF z, of "[SE_latch LXP_SIGTSTP]"]
    by (simp add: lxp_sig_is_stop_def)
qed

end
