(* ===== verification/Path.thy ===== *)
theory Path
  imports Lxp_Prelude
begin

text \<open>
  Path handling (\<^verbatim>\<open>src/src/fs/lxp_path.c\<close>) and the mount table
  (\<^verbatim>\<open>src/src/fs/lxp_mount.c\<close>).  A C string is a list of characters without NUL; a
  buffer with a length that is later used as a string is cut at its first NUL
  (\<open>cstr\<close>).  A path function that can fail returns \<open>Inl\<close> with the negated errno.
\<close>

section \<open>The model\<close>

abbreviation (input) SLASH :: char where "SLASH \<equiv> CHR ''/''"

type_synonym path_result = "int + string"

definition cstr :: "string \<Rightarrow> string" where
  "cstr = takeWhile (\<lambda>c. c \<noteq> CHR 0x00)"

text \<open>Drop the last component of the output and the slash before it.\<close>

definition drop_last :: "string \<Rightarrow> string" where
  "drop_last out = rev (drop 1 (dropWhile (\<lambda>c. c \<noteq> SLASH) (rev out)))"

function normalize_loop :: "nat \<Rightarrow> string \<Rightarrow> string \<Rightarrow> string option" where
  "normalize_loop outlen s out =
     (let s1 = dropWhile (\<lambda>c. c = SLASH) s in
      if s1 = [] then Some out
      else
        (let seg = takeWhile (\<lambda>c. c \<noteq> SLASH) s1; s2 = dropWhile (\<lambda>c. c \<noteq> SLASH) s1 in
         if seg = ''.'' then normalize_loop outlen s2 out
         else if seg = ''..'' then normalize_loop outlen s2 (drop_last out)
         else if length out + 1 + length seg \<ge> outlen then None
         else normalize_loop outlen s2 (out @ [SLASH] @ seg)))"
  by pat_completeness auto

lemma normalize_shrinks:
  assumes "dropWhile (\<lambda>c. c = SLASH) s \<noteq> []"
  shows "length (dropWhile (\<lambda>c. c \<noteq> SLASH) (dropWhile (\<lambda>c. c = SLASH) s)) < length s"
proof -
  obtain c t where d: "dropWhile (\<lambda>c. c = SLASH) s = c # t" using assms by (cases "dropWhile (\<lambda>c. c = SLASH) s") auto
  then have "c \<noteq> SLASH" by (metis (full_types) dropWhile_eq_Cons_conv)
  moreover have "length (c # t) \<le> length s" using length_dropWhile_le [of "\<lambda>c. c = SLASH" s] d by simp
  moreover have "length (dropWhile (\<lambda>c. c \<noteq> SLASH) t) \<le> length t" by (rule length_dropWhile_le)
  ultimately show ?thesis using d by simp
qed

termination normalize_loop
  by (relation "measure (\<lambda>(outlen, s, out). length s)") (auto simp: normalize_shrinks)

declare normalize_loop.simps [simp del]

definition normalize_abs :: "string \<Rightarrow> nat \<Rightarrow> path_result" where
  "normalize_abs s outlen =
     (case normalize_loop outlen s [] of
        None \<Rightarrow> Inl (- LXP_ENAMETOOLONG)
      | Some out \<Rightarrow> Inr (if out = [] then [SLASH] else out))"

text \<open>The copy loops of \<^verbatim>\<open>resolve_from\<close> into \<^verbatim>\<open>joined[LXP_PATH_MAX]\<close>, which stop
  when fewer than \<open>slack\<close> bytes remain.\<close>

fun join_chars :: "nat \<Rightarrow> string \<Rightarrow> string \<Rightarrow> string option" where
  "join_chars slack [] joined = Some joined"
| "join_chars slack (c # cs) joined =
     (if length joined + slack \<ge> LXP_PATH_MAX then None else join_chars slack cs (joined @ [c]))"

definition resolve_from :: "string \<Rightarrow> string \<Rightarrow> nat \<Rightarrow> path_result" where
  "resolve_from base s outlen =
     (case (if s = [] \<or> hd s \<noteq> SLASH then
              (case join_chars 2 base [] of None \<Rightarrow> None | Some j \<Rightarrow> Some (j @ [SLASH]))
            else Some []) of
        None \<Rightarrow> Inl (- LXP_ENAMETOOLONG)
      | Some j \<Rightarrow>
          (case join_chars 1 s j of
             None \<Rightarrow> Inl (- LXP_ENAMETOOLONG)
           | Some joined \<Rightarrow> normalize_abs joined outlen))"

definition lxp_resolve_path_trusted :: "string \<Rightarrow> nat \<Rightarrow> path_result" where
  "lxp_resolve_path_trusted s outlen =
     (if s = [] \<or> hd s \<noteq> SLASH then Inl (- LXP_EINVAL) else normalize_abs s outlen)"

text \<open>\<open>rf_addr\<close> is where the image holds the bytes \<open>rf_data\<close> (0: the pointer is null).\<close>

record rootfs_file =
  rf_path :: string
  rf_data :: string
  rf_mode :: nat
  rf_addr :: nat

abbreviation (input) LXP_S_IFMT :: nat where "LXP_S_IFMT \<equiv> 0xf000"
abbreviation (input) LXP_S_IFREG :: nat where "LXP_S_IFREG \<equiv> 0x8000"
abbreviation (input) LXP_S_IFDIR :: nat where "LXP_S_IFDIR \<equiv> 0x4000"
abbreviation (input) LXP_S_IFLNK :: nat where "LXP_S_IFLNK \<equiv> 0xa000"
abbreviation (input) LXP_SYMLOOP_MAX :: nat where "LXP_SYMLOOP_MAX \<equiv> 8"

text \<open>\<^verbatim>\<open>mode & S_IFMT\<close>.\<close>

definition file_type :: "nat \<Rightarrow> nat" where
  "file_type mode = mode AND LXP_S_IFMT"

definition fsx_lookup :: "rootfs_file list \<Rightarrow> string \<Rightarrow> int" where
  "fsx_lookup fs abspath =
     (case scan (\<lambda>i. rf_path (fs ! i) = abspath) 0 (length fs) of None \<Rightarrow> - 1 | Some i \<Rightarrow> int i)"

definition link_dir :: "string \<Rightarrow> string" where
  "link_dir link = rev (dropWhile (\<lambda>c. c \<noteq> SLASH) (rev link))"

definition lxp_path_link_target :: "string \<Rightarrow> string \<Rightarrow> nat \<Rightarrow> path_result" where
  "lxp_path_link_target link target outlen =
     (let raw0 = (if target = [] \<or> hd target \<noteq> SLASH then link_dir link else []) in
      if length raw0 \<ge> LXP_PATH_MAX then Inl (- LXP_ENAMETOOLONG)
      else if length raw0 + length target \<ge> LXP_PATH_MAX then Inl (- LXP_ENAMETOOLONG)
      else normalize_abs (cstr (raw0 @ target)) outlen)"

text \<open>A zero mode is a regular file; \<open>hops\<close> counts the remaining iterations.\<close>

definition lxp_file_mode :: "rootfs_file \<Rightarrow> nat" where
  "lxp_file_mode f = (if rf_mode f \<noteq> 0 then rf_mode f else LXP_S_IFREG OR 0x1a4)"

fun fsx_follow_loop :: "nat \<Rightarrow> rootfs_file list \<Rightarrow> int \<Rightarrow> int" where
  "fsx_follow_loop 0 fs idx = idx"
| "fsx_follow_loop (Suc hops) fs idx =
     (if idx < 0 then idx
      else
        (let lnk = fs ! nat idx in
         if file_type (lxp_file_mode lnk) \<noteq> LXP_S_IFLNK then idx
         else if rf_data lnk = [] then - 1
         else
           (case lxp_path_link_target (rf_path lnk) (rf_data lnk) LXP_PATH_MAX of
              Inl _ \<Rightarrow> - 1
            | Inr dst \<Rightarrow> fsx_follow_loop hops fs (fsx_lookup fs dst))))"

definition fsx_follow :: "rootfs_file list \<Rightarrow> int \<Rightarrow> int" where
  "fsx_follow fs idx = fsx_follow_loop LXP_SYMLOOP_MAX fs idx"

definition lxp_rootfs_resolve_index :: "rootfs_file list \<Rightarrow> string \<Rightarrow> int" where
  "lxp_rootfs_resolve_index fs abspath = fsx_follow fs (fsx_lookup fs abspath)"

definition lxp_rootfs_resolve :: "rootfs_file list \<Rightarrow> string \<Rightarrow> int + string" where
  "lxp_rootfs_resolve fs abspath =
     (let idx = lxp_rootfs_resolve_index fs abspath in
      if idx < 0 then Inl (- LXP_ENOENT) else Inr (rf_data (fs ! nat idx)))"

definition lxp_path_under :: "string \<Rightarrow> string \<Rightarrow> nat" where
  "lxp_path_under path prefix =
     (let n = length prefix in
      if prefix = [SLASH] then (if path \<noteq> [] \<and> hd path = SLASH then 1 else 0)
      else if n = 0 \<or> take n path \<noteq> prefix then 0
      else if length path = n \<or> path ! n = SLASH then n else 0)"

definition lxp_path_child_name :: "string \<Rightarrow> string \<Rightarrow> string option" where
  "lxp_path_child_name dir path =
     (if dir = [SLASH] then
        (if path = [] \<or> hd path \<noteq> SLASH \<or> length path = 1 then None
         else if SLASH \<in> set (tl path) then None else Some (tl path))
      else
        (let dl = length dir in
         if take dl path \<noteq> dir \<or> length path = dl \<or> path ! dl \<noteq> SLASH then None
         else
           (let name = drop (dl + 1) path in
            if name \<noteq> [] \<and> SLASH \<notin> set name then Some name else None)))"

definition lxp_path_hash :: "32 word \<Rightarrow> string \<Rightarrow> 32 word" where
  "lxp_path_hash hash0 text0 = fold (\<lambda>c hash. (hash XOR word_of_nat (of_char c)) * 16777619) text0 hash0"

subsection \<open>Mounts\<close>

text \<open>One row of \<^verbatim>\<open>g_mounts\<close>: the current mountpoint (NULL while it is not mounted), the
  optional \<^verbatim>\<open>holds\<close> operation and the identity of the operation table.\<close>

datatype mount_id = PROCFS | DEVFS | HOSTFS | NETFS | OVERLAY

record mount =
  mt_point :: "string option"
  mt_holds :: "(string \<Rightarrow> bool) option"
  mt_ops :: mount_id

text \<open>The console nodes of \<^verbatim>\<open>src/src/fs/lxp_devfs.c\<close>; without the device and pty
  subsystems they are all the names the \<^verbatim>\<open>/dev\<close> mount holds.\<close>

record console_node =
  cn_path :: string
  cn_idx :: int
  cn_major :: nat
  cn_minor :: nat

definition g_console :: "console_node list" where
  "g_console =
     [\<lparr>cn_path = ''/dev/console'', cn_idx = 2, cn_major = 5, cn_minor = 1\<rparr>,
      \<lparr>cn_path = ''/dev/tty'', cn_idx = 2, cn_major = 5, cn_minor = 0\<rparr>,
      \<lparr>cn_path = ''/dev/tty0'', cn_idx = 2, cn_major = 4, cn_minor = 0\<rparr>,
      \<lparr>cn_path = ''/dev/ttyS0'', cn_idx = 2, cn_major = 4, cn_minor = 64\<rparr>,
      \<lparr>cn_path = ''/dev/null'', cn_idx = 3, cn_major = 1, cn_minor = 3\<rparr>,
      \<lparr>cn_path = ''/dev/urandom'', cn_idx = 4, cn_major = 1, cn_minor = 9\<rparr>,
      \<lparr>cn_path = ''/dev/random'', cn_idx = 4, cn_major = 1, cn_minor = 8\<rparr>,
      \<lparr>cn_path = ''/dev/zero'', cn_idx = 5, cn_major = 1, cn_minor = 5\<rparr>]"

definition find_console_node :: "string \<Rightarrow> console_node option" where
  "find_console_node path = List.find (\<lambda>c. path = cn_path c) g_console"

definition devfs_holds :: "string \<Rightarrow> bool" where
  "devfs_holds path \<longleftrightarrow> find_console_node path \<noteq> None"

text \<open>The table of the core configuration.\<close>

definition g_mounts :: "mount list" where
  "g_mounts =
     [\<lparr>mt_point = Some ''/proc'', mt_holds = None, mt_ops = PROCFS\<rparr>,
      \<lparr>mt_point = Some ''/dev'', mt_holds = Some devfs_holds, mt_ops = DEVFS\<rparr>,
      \<lparr>mt_point = Some ''/'', mt_holds = None, mt_ops = OVERLAY\<rparr>]"

definition mount_len :: "mount \<Rightarrow> string \<Rightarrow> nat" where
  "mount_len mt path = (case mt_point mt of None \<Rightarrow> 0 | Some point \<Rightarrow> lxp_path_under path point)"

text \<open>The inner scan: the longest mountpoint shorter than \<open>below\<close>, the first on a tie.\<close>

fun mount_best :: "mount list \<Rightarrow> string \<Rightarrow> nat \<Rightarrow> mount option \<Rightarrow> nat \<Rightarrow> mount option \<times> nat" where
  "mount_best [] path below best best_len = (best, best_len)"
| "mount_best (mt # ms) path below best best_len =
     (let n = mount_len mt path in
      if n > best_len \<and> n < below then mount_best ms path below (Some mt) n
      else mount_best ms path below best best_len)"

lemma mount_best_less:
  "mount_best ms path below best l = (Some mt, n) \<Longrightarrow> best = None \<or> l < below \<Longrightarrow> n < below"
  by (induction ms arbitrary: best l) (auto simp: Let_def split: if_splits)

function mount_of_loop :: "mount list \<Rightarrow> string \<Rightarrow> nat \<Rightarrow> mount_id" where
  "mount_of_loop ms path below =
     (case mount_best ms path below None 0 of
        (None, _) \<Rightarrow> OVERLAY
      | (Some best, best_len) \<Rightarrow>
          (case mt_holds best of
             None \<Rightarrow> mt_ops best
           | Some holds \<Rightarrow>
               if holds path then mt_ops best else mount_of_loop ms path best_len))"
  by pat_completeness auto
termination
  by (relation "measure (\<lambda>(ms, path, below). below)") (auto dest!: mount_best_less [OF sym])

declare mount_of_loop.simps [simp del]

definition lxp_mount_of :: "mount list \<Rightarrow> string \<Rightarrow> mount_id" where
  "lxp_mount_of ms path = mount_of_loop ms path SIZE_MAX"

definition lxp_mount_occupied :: "mount list \<Rightarrow> string \<Rightarrow> bool" where
  "lxp_mount_occupied ms path =
     list_ex (\<lambda>mt. case mt_point mt of
        None \<Rightarrow> False
      | Some point \<Rightarrow> mt_ops mt \<noteq> OVERLAY \<and> mt_ops mt \<noteq> HOSTFS \<and> lxp_path_under path point \<noteq> 0) ms"

text \<open>\<^verbatim>\<open>lxp_mount_follow\<close>: \<open>foreign_link\<close> is \<^verbatim>\<open>lxp_overlay_foreign_link\<close>, the link
  text or the empty string; \<open>hops\<close> is the number of links that may still be followed.\<close>

definition foreign_target :: "mount list \<Rightarrow> (string \<Rightarrow> string) \<Rightarrow> string \<Rightarrow> string" where
  "foreign_target ms foreign_link abspath =
     (if lxp_mount_of ms abspath = OVERLAY then foreign_link abspath else [])"

fun mount_follow_loop :: "mount list \<Rightarrow> (string \<Rightarrow> string) \<Rightarrow> nat \<Rightarrow> string \<Rightarrow> path_result" where
  "mount_follow_loop ms foreign_link 0 abspath =
     (if foreign_target ms foreign_link abspath = [] then Inr abspath else Inl (- LXP_ELOOP))"
| "mount_follow_loop ms foreign_link (Suc hops) abspath =
     (if foreign_target ms foreign_link abspath = [] then Inr abspath
      else
        (case lxp_path_link_target abspath (foreign_target ms foreign_link abspath) LXP_PATH_MAX of
           Inl rc \<Rightarrow> Inl rc
         | Inr next \<Rightarrow> mount_follow_loop ms foreign_link hops next))"

definition lxp_mount_follow :: "mount list \<Rightarrow> (string \<Rightarrow> string) \<Rightarrow> string \<Rightarrow> path_result" where
  "lxp_mount_follow ms foreign_link abspath = mount_follow_loop ms foreign_link LXP_SYMLOOP_MAX abspath"

section \<open>Paths as lists of components\<close>

text \<open>The reference: the components between slashes, and the effect of each on the stack
  of directories walked so far.\<close>

function comps :: "string \<Rightarrow> string list" where
  "comps s =
     (let s1 = dropWhile (\<lambda>c. c = SLASH) s in
      if s1 = [] then []
      else takeWhile (\<lambda>c. c \<noteq> SLASH) s1 # comps (dropWhile (\<lambda>c. c \<noteq> SLASH) s1))"
  by pat_completeness auto
termination
  by (relation "measure length") (auto simp: normalize_shrinks)

declare comps.simps [simp del]

definition comp_step :: "string \<Rightarrow> string list \<Rightarrow> string list" where
  "comp_step c st = (if c = ''.'' then st else if c = ''..'' then butlast st else st @ [c])"

definition render :: "string list \<Rightarrow> string" where
  "render st = concat (map (\<lambda>c. SLASH # c) st)"

definition path_of :: "string list \<Rightarrow> string" where
  "path_of st = (if st = [] then [SLASH] else render st)"

definition seg_ok :: "string \<Rightarrow> bool" where
  "seg_ok c \<longleftrightarrow> c \<noteq> [] \<and> SLASH \<notin> set c"

definition name_ok :: "string \<Rightarrow> bool" where
  "name_ok c \<longleftrightarrow> seg_ok c \<and> c \<noteq> ''.'' \<and> c \<noteq> ''..''"

lemma render_simps [simp]:
  "render [] = []" "render (c # st) = SLASH # c @ render st" "render (xs @ ys) = render xs @ render ys"
  by (simp_all add: render_def)

lemma render_hd: "render st = [] \<or> hd (render st) = SLASH"
  by (cases st) simp_all

lemma render_Nil [simp]: "render st = [] \<longleftrightarrow> st = []"
  by (cases st) simp_all

lemma path_of_hd [simp]: "path_of st \<noteq> []" "hd (path_of st) = SLASH"
  by (cases st; simp add: path_of_def)+

lemma name_ok_seg: "name_ok c \<Longrightarrow> seg_ok c"
  by (simp add: name_ok_def)

lemma takeWhile_slashfree:
  "SLASH \<notin> set x \<Longrightarrow> T = [] \<or> hd T = SLASH \<Longrightarrow> takeWhile (\<lambda>c. c \<noteq> SLASH) (x @ T) = x"
  by (induction x) (auto, cases T, auto)

lemma dropWhile_slashfree:
  "SLASH \<notin> set x \<Longrightarrow> T = [] \<or> hd T = SLASH \<Longrightarrow> dropWhile (\<lambda>c. c \<noteq> SLASH) (x @ T) = T"
  by (induction x) (auto, cases T, auto)

lemma seg_append_eq:
  assumes "SLASH \<notin> set x" "SLASH \<notin> set y" "T = [] \<or> hd T = SLASH" "R = [] \<or> hd R = SLASH"
  shows "x @ T = y @ R \<longleftrightarrow> x = y \<and> T = R"
  using takeWhile_slashfree [OF assms(1,3)] takeWhile_slashfree [OF assms(2,4)] by auto

lemma comps_Cons_slash [simp]: "comps (SLASH # s) = comps s"
  by (subst comps.simps, subst (2) comps.simps) simp

lemma comps_Nil [simp]: "comps [] = []"
  by (simp add: comps.simps)

lemma comps_seg:
  "seg_ok x \<Longrightarrow> T = [] \<or> hd T = SLASH \<Longrightarrow> comps (x @ T) = x # comps T"
proof -
  assume x: "seg_ok x" and T: "T = [] \<or> hd T = SLASH"
  then obtain c x' where c: "x = c # x'" "c \<noteq> SLASH" by (cases x) (auto simp: seg_ok_def)
  have "dropWhile (\<lambda>c. c = SLASH) (x @ T) = x @ T" using c by simp
  then show ?thesis
    using x T c
    by (subst comps.simps) (simp add: takeWhile_slashfree dropWhile_slashfree seg_ok_def Let_def del: append.simps)
qed

lemma comps_render: "(\<And>c. c \<in> set st \<Longrightarrow> seg_ok c) \<Longrightarrow> comps (render st) = st"
proof (induction st)
  case (Cons c st)
  have "comps (c @ render st) = c # comps (render st)"
    by (rule comps_seg) (use Cons.prems render_hd in auto)
  with Cons show ?case by simp
qed simp

lemma comps_path_of: "(\<And>c. c \<in> set st \<Longrightarrow> seg_ok c) \<Longrightarrow> comps (path_of st) = st"
  by (simp add: path_of_def comps_render)

lemma first_seg_ok:
  assumes "dropWhile (\<lambda>c. c = SLASH) s \<noteq> []"
  shows "seg_ok (takeWhile (\<lambda>c. c \<noteq> SLASH) (dropWhile (\<lambda>c. c = SLASH) s))"
proof -
  obtain c t where d: "dropWhile (\<lambda>c. c = SLASH) s = c # t" using assms by (cases "dropWhile (\<lambda>c. c = SLASH) s") auto
  then have "c \<noteq> SLASH" by (metis (full_types) dropWhile_eq_Cons_conv)
  then show ?thesis unfolding d by (auto simp: seg_ok_def dest: set_takeWhileD)
qed

lemma comps_unfold:
  "dropWhile (\<lambda>c. c = SLASH) s = [] \<Longrightarrow> comps s = []"
  "dropWhile (\<lambda>c. c = SLASH) s \<noteq> [] \<Longrightarrow> comps s = takeWhile (\<lambda>c. c \<noteq> SLASH) (dropWhile (\<lambda>c. c = SLASH) s)
     # comps (dropWhile (\<lambda>c. c \<noteq> SLASH) (dropWhile (\<lambda>c. c = SLASH) s))"
  by (subst comps.simps; simp add: Let_def)+

lemma comps_seg_ok: "c \<in> set (comps s) \<Longrightarrow> seg_ok c"
proof (induction s rule: comps.induct)
  case (1 s)
  show ?case
  proof (cases "dropWhile (\<lambda>c. c = SLASH) s = []")
    case True
    with "1.prems" show ?thesis by (simp add: comps_unfold(1))
  next
    case False
    from "1.prems" "1.IH" [OF refl False] first_seg_ok [OF False] show ?thesis
      unfolding comps_unfold(2) [OF False] by auto
  qed
qed

lemma comps_append_slash: "comps (s @ SLASH # t) = comps s @ comps t"
proof (induction s rule: comps.induct)
  case (1 s)
  let ?s1 = "dropWhile (\<lambda>c. c = SLASH) s"
  show ?case
  proof (cases "?s1 = []")
    case True
    then have "\<forall>c \<in> set s. c = SLASH" by (simp add: dropWhile_eq_Nil_conv)
    then have "comps (s @ SLASH # t) = comps t" by (induction s) auto
    moreover have "comps s = []" using True by (subst comps.simps) simp
    ultimately show ?thesis by simp
  next
    case False
    let ?x = "takeWhile (\<lambda>c. c \<noteq> SLASH) ?s1" and ?s2 = "dropWhile (\<lambda>c. c \<noteq> SLASH) ?s1"
    note x = first_seg_ok [OF False] and s = comps_unfold(2) [OF False]
    have s2: "?s2 = [] \<or> hd ?s2 = SLASH" using hd_dropWhile [of "\<lambda>c. c \<noteq> SLASH" ?s1] by auto
    have e: "dropWhile (\<lambda>c. c = SLASH) (s @ SLASH # t) = ?x @ (?s2 @ SLASH # t)"
      using False by (auto simp: dropWhile_append simp flip: append_assoc)
    have drop: "comps (dropWhile (\<lambda>c. c = SLASH) u) = comps u" for u by (induction u) auto
    have "comps (s @ SLASH # t) = comps (dropWhile (\<lambda>c. c = SLASH) (s @ SLASH # t))"
      by (rule drop [symmetric])
    also have "\<dots> = ?x # comps (?s2 @ SLASH # t)"
      unfolding e using s2 by (intro comps_seg [OF x]) (auto simp: hd_append)
    also have "\<dots> = comps s @ comps t" using "1.IH" [OF refl False] s by simp
    finally show ?thesis .
  qed
qed

section \<open>Normalization\<close>

lemma drop_last_Nil [simp]: "drop_last [] = []"
  by (simp add: drop_last_def)

lemma drop_last_snoc: "SLASH \<notin> set c \<Longrightarrow> drop_last (out @ SLASH # c) = out"
  by (simp add: drop_last_def dropWhile_append)

lemma drop_last_length: "length (drop_last out) \<le> length out"
proof -
  have "length (drop_last out) \<le> length (dropWhile (\<lambda>c. c \<noteq> SLASH) (rev out))" by (simp add: drop_last_def)
  also have "\<dots> \<le> length out" using length_dropWhile_le [of _ "rev out"] by simp
  finally show ?thesis .
qed

lemma drop_last_render:
  assumes "\<And>c. c \<in> set st \<Longrightarrow> seg_ok c" shows "drop_last (render st) = render (butlast st)"
proof (cases st rule: rev_cases)
  case (snoc st' c)
  then show ?thesis using assms [of c] by (simp add: drop_last_snoc seg_ok_def)
qed simp

lemma normalize_loop_cases:
  "dropWhile (\<lambda>c. c = SLASH) s = [] \<Longrightarrow> normalize_loop outlen s out = Some out"
  "dropWhile (\<lambda>c. c = SLASH) s \<noteq> [] \<Longrightarrow> seg = takeWhile (\<lambda>c. c \<noteq> SLASH) (dropWhile (\<lambda>c. c = SLASH) s) \<Longrightarrow>
   s2 = dropWhile (\<lambda>c. c \<noteq> SLASH) (dropWhile (\<lambda>c. c = SLASH) s) \<Longrightarrow>
   normalize_loop outlen s out =
     (if seg = ''.'' then normalize_loop outlen s2 out
      else if seg = ''..'' then normalize_loop outlen s2 (drop_last out)
      else if length out + 1 + length seg \<ge> outlen then None
      else normalize_loop outlen s2 (out @ [SLASH] @ seg))"
  unfolding normalize_loop.simps [of outlen s out] by (simp_all add: Let_def del: dropWhile_eq_Nil_conv)

lemma normalize_loop_correct:
  assumes "\<And>c. c \<in> set st \<Longrightarrow> seg_ok c" "normalize_loop outlen s (render st) = Some out"
  shows "out = render (fold comp_step (comps s) st)"
  using assms
proof (induction "length s" arbitrary: s st rule: less_induct)
  case less
  show ?case
  proof (cases "dropWhile (\<lambda>c. c = SLASH) s = []")
    case True
    with less.prems(2) show ?thesis by (simp add: normalize_loop_cases(1) comps_unfold(1))
  next
    case False
    define seg s2 where "seg = takeWhile (\<lambda>c. c \<noteq> SLASH) (dropWhile (\<lambda>c. c = SLASH) s)"
      and "s2 = dropWhile (\<lambda>c. c \<noteq> SLASH) (dropWhile (\<lambda>c. c = SLASH) s)"
    note step = normalize_loop_cases(2) [OF False seg_def s2_def, of outlen "render st"]
    have c: "comps s = seg # comps s2" using comps_unfold(2) [OF False] by (simp add: seg_def s2_def)
    have seg: "seg_ok seg" using first_seg_ok [OF False] by (simp add: seg_def)
    have l: "length s2 < length s" using normalize_shrinks [OF False] by (simp add: s2_def)
    have r: "normalize_loop outlen s2 (render (comp_step seg st)) = Some out"
      using less.prems step
      by (auto simp: comp_step_def drop_last_render split: if_splits)
    have "seg_ok c" if "c \<in> set (comp_step seg st)" for c
      using that seg less.prems(1) by (auto simp: comp_step_def dest: in_set_butlastD split: if_splits)
    from less.hyps [OF l this r] show ?thesis by (simp add: c)
  qed
qed

lemma normalize_loop_total:
  assumes "s = [] \<or> hd s = SLASH" "length out + length s < outlen"
  shows "normalize_loop outlen s out \<noteq> None"
  using assms
proof (induction "length s" arbitrary: s out rule: less_induct)
  case less
  show ?case
  proof (cases "dropWhile (\<lambda>c. c = SLASH) s = []")
    case True
    then show ?thesis by (simp add: normalize_loop_cases(1))
  next
    case False
    define seg s2 where "seg = takeWhile (\<lambda>c. c \<noteq> SLASH) (dropWhile (\<lambda>c. c = SLASH) s)"
      and "s2 = dropWhile (\<lambda>c. c \<noteq> SLASH) (dropWhile (\<lambda>c. c = SLASH) s)"
    note step = normalize_loop_cases(2) [OF False seg_def s2_def, of outlen out]
    obtain s' where s': "s = SLASH # s'" using less.prems(1) False by (cases s) auto
    have "length seg + length s2 = length (dropWhile (\<lambda>c. c = SLASH) s')"
      by (simp add: seg_def s2_def s' flip: length_append)
    then have n: "length seg + length s2 + 1 \<le> length s"
      using length_dropWhile_le [of "\<lambda>c. c = SLASH" s'] by (simp add: s')
    have h: "s2 = [] \<or> hd s2 = SLASH"
      using hd_dropWhile [of "\<lambda>c. c \<noteq> SLASH" "dropWhile (\<lambda>c. c = SLASH) s"] by (auto simp: s2_def)
    have l: "length s2 < length s" using n by simp
    have IH: "length o2 + length s2 < outlen \<Longrightarrow> normalize_loop outlen s2 o2 \<noteq> None" for o2
      by (rule less.hyps [OF l h])
    have "normalize_loop outlen s2 out \<noteq> None" by (rule IH) (use less.prems(2) n in simp)
    moreover have "normalize_loop outlen s2 (drop_last out) \<noteq> None"
      by (rule IH) (use less.prems(2) n drop_last_length [of out] in simp)
    moreover have "normalize_loop outlen s2 (out @ [SLASH] @ seg) \<noteq> None"
      by (rule IH) (use less.prems(2) n in simp)
    moreover have "length out + 1 + length seg < outlen" using less.prems(2) n by simp
    ultimately show ?thesis unfolding step by simp
  qed
qed

lemma fold_step_names:
  "(\<And>c. c \<in> set cs \<Longrightarrow> seg_ok c) \<Longrightarrow> (\<And>c. c \<in> set st \<Longrightarrow> name_ok c) \<Longrightarrow>
   c \<in> set (fold comp_step cs st) \<Longrightarrow> name_ok c"
proof (induction cs arbitrary: st)
  case (Cons a cs)
  have "name_ok c" if "c \<in> set (comp_step a st)" for c
    using that Cons.prems(1,2) by (auto simp: comp_step_def name_ok_def dest: in_set_butlastD split: if_splits)
  then show ?case using Cons.IH [of "comp_step a st"] Cons.prems by simp
qed simp

lemma fold_step_id: "(\<And>c. c \<in> set cs \<Longrightarrow> name_ok c) \<Longrightarrow> fold comp_step cs st = st @ cs"
  by (induction cs arbitrary: st) (simp_all add: comp_step_def name_ok_def)

text \<open>The directory stack a string denotes.\<close>

definition walk :: "string list \<Rightarrow> string \<Rightarrow> string list" where
  "walk st s = fold comp_step (comps s) st"

lemma walk_names: "(\<And>c. c \<in> set st \<Longrightarrow> name_ok c) \<Longrightarrow> c \<in> set (walk st s) \<Longrightarrow> name_ok c"
  unfolding walk_def using fold_step_names comps_seg_ok by metis

lemma normalize_abs_walk:
  assumes "normalize_abs s outlen = Inr out" shows "out = path_of (walk [] s)"
proof (cases "normalize_loop outlen s []")
  case None
  with assms show ?thesis by (simp add: normalize_abs_def)
next
  case (Some o2)
  then have "o2 = render (walk [] s)"
    using normalize_loop_correct [of "[]" outlen s o2] by (simp add: walk_def)
  with assms Some show ?thesis by (auto simp: normalize_abs_def path_of_def)
qed

lemma normalize_abs_total:
  assumes "hd s = SLASH" "length s < outlen"
  shows "normalize_abs s outlen = Inr (path_of (walk [] s))"
proof -
  have "normalize_loop outlen s [] \<noteq> None" by (rule normalize_loop_total) (use assms in simp_all)
  then obtain out where "normalize_abs s outlen = Inr out" by (auto simp: normalize_abs_def)
  with normalize_abs_walk show ?thesis by blast
qed

lemma join_chars_eq:
  assumes "0 < slack"
  shows "join_chars slack cs j =
     (if cs = [] \<or> length j + length cs + slack \<le> LXP_PATH_MAX then Some (j @ cs) else None)"
proof (induction cs arbitrary: j)
  case (Cons c cs)
  show ?case
  proof (cases "length j + slack \<ge> LXP_PATH_MAX")
    case True
    then show ?thesis by simp
  next
    case False
    then show ?thesis using assms Cons.IH [of "j @ [c]"] by auto
  qed
qed simp

section \<open>Prefixes and children\<close>

lemma render_prefix_iff:
  assumes "\<And>c. c \<in> set a \<Longrightarrow> seg_ok c" "\<And>c. c \<in> set b \<Longrightarrow> seg_ok c" "rest = [] \<or> hd rest = SLASH"
  shows "render a = render b @ rest \<longleftrightarrow> (\<exists>c. a = b @ c \<and> rest = render c)"
  using assms
proof (induction b arbitrary: a)
  case (Cons x b)
  show ?case
  proof (cases a)
    case Nil
    then show ?thesis by simp
  next
    case (Cons y a')
    have "SLASH \<notin> set x" "SLASH \<notin> set y"
      using Cons.prems(1) [of y] Cons.prems(2) [of x] Cons by (auto simp: seg_ok_def)
    moreover have "render b @ rest = [] \<or> hd (render b @ rest) = SLASH"
      using render_hd [of b] Cons.prems(3) by (cases "render b") auto
    ultimately have "y @ render a' = x @ render b @ rest \<longleftrightarrow> y = x \<and> render a' = render b @ rest"
      by (intro seg_append_eq) (use render_hd in auto)
    moreover have "render a' = render b @ rest \<longleftrightarrow> (\<exists>c. a' = b @ c \<and> rest = render c)"
      by (rule Cons.IH) (use Cons.prems Cons in auto)
    ultimately show ?thesis using Cons by auto
  qed
qed auto

lemma render_inj:
  assumes "\<And>c. c \<in> set a \<Longrightarrow> seg_ok c" "\<And>c. c \<in> set b \<Longrightarrow> seg_ok c"
  shows "render a = render b \<longleftrightarrow> a = b"
  using comps_render [OF assms(1)] comps_render [OF assms(2)] by metis

lemma path_of_inj:
  assumes "\<And>c. c \<in> set a \<Longrightarrow> seg_ok c" "\<And>c. c \<in> set b \<Longrightarrow> seg_ok c"
  shows "path_of a = path_of b \<longleftrightarrow> a = b"
  using comps_path_of [OF assms(1)] comps_path_of [OF assms(2)] by metis

lemma render_not_root: "(\<And>c. c \<in> set a \<Longrightarrow> seg_ok c) \<Longrightarrow> render a \<noteq> [SLASH]"
  by (cases a) (auto simp: seg_ok_def)

lemma path_under_render:
  assumes "\<And>c. c \<in> set a \<Longrightarrow> seg_ok c" "\<And>c. c \<in> set b \<Longrightarrow> seg_ok c" "b \<noteq> []"
  shows "lxp_path_under (path_of a) (path_of b) = (if \<exists>c. a = b @ c then length (render b) else 0)"
proof -
  have b: "path_of b = render b" "render b \<noteq> [SLASH]" "render b \<noteq> []"
    using assms(3) render_not_root [OF assms(2)] by (simp_all add: path_of_def)
  show ?thesis
  proof (cases "a = []")
    case True
    have "take (length (render b)) [SLASH] \<noteq> render b"
      using b(2,3) by (cases "render b") auto
    then show ?thesis using True b assms(3) by (simp add: lxp_path_under_def path_of_def)
  next
    case False
    then have a: "path_of a = render a" by (simp add: path_of_def)
    have "take (length (render b)) (render a) = render b
        \<and> (length (render a) = length (render b) \<or> render a ! length (render b) = SLASH)
        \<longleftrightarrow> (\<exists>rest. render a = render b @ rest \<and> (rest = [] \<or> hd rest = SLASH))" (is "?L \<longleftrightarrow> ?R")
    proof
      assume L: ?L
      then have r: "render a = render b @ drop (length (render b)) (render a)"
        by (metis append_take_drop_id)
      show ?R
      proof (intro exI conjI)
        show "render a = render b @ drop (length (render b)) (render a)" by (rule r)
        show "drop (length (render b)) (render a) = [] \<or> hd (drop (length (render b)) (render a)) = SLASH"
          using L by (cases "length (render b) < length (render a)") (auto simp: hd_drop_conv_nth)
      qed
    next
      assume ?R
      then obtain rest where r: "render a = render b @ rest" "rest = [] \<or> hd rest = SLASH" by blast
      then show ?L by (cases rest) (auto simp: nth_append)
    qed
    also have "\<dots> \<longleftrightarrow> (\<exists>c. a = b @ c)"
      using render_prefix_iff [OF assms(1,2)] render_hd by metis
    finally have E: "?L \<longleftrightarrow> (\<exists>c. a = b @ c)" .
    show ?thesis
    proof (cases "\<exists>c. a = b @ c")
      case True
      with E have "take (length (render b)) (render a) = render b"
        "length (render a) = length (render b) \<or> render a ! length (render b) = SLASH" by blast+
      then show ?thesis using b True by (simp add: lxp_path_under_def a)
    next
      case False
      with E have "\<not> ?L" by blast
      then show ?thesis using b False by (auto simp: lxp_path_under_def a Let_def)
    qed
  qed
qed

lemma path_under_root [simp]: "lxp_path_under (path_of a) [SLASH] = 1"
  by (simp add: lxp_path_under_def)

lemma child_name_render:
  assumes a: "\<And>c. c \<in> set a \<Longrightarrow> seg_ok c" and d: "\<And>c. c \<in> set d \<Longrightarrow> seg_ok c"
  shows "lxp_path_child_name (path_of d) (path_of a) = Some n \<longleftrightarrow> a = d @ [n]"
proof (cases "d = []")
  case True
  have "SLASH \<in> set (c @ render cs) \<longleftrightarrow> cs \<noteq> []" if "a = c # cs" for c cs
    using a [of c] that by (cases cs) (auto simp: seg_ok_def)
  then show ?thesis using True a
    by (cases a) (auto simp: lxp_path_child_name_def path_of_def seg_ok_def)
next
  case False
  have D: "path_of d = render d" "render d \<noteq> [SLASH]"
    using False render_not_root [OF d] by (simp_all add: path_of_def)
  show ?thesis
  proof
    assume "a = d @ [n]"
    moreover then have "seg_ok n" using a by simp
    ultimately show "lxp_path_child_name (path_of d) (path_of a) = Some n"
      using False D by (simp add: lxp_path_child_name_def path_of_def Let_def seg_ok_def)
  next
    assume h: "lxp_path_child_name (path_of d) (path_of a) = Some n"
    let ?p = "path_of a" and ?l = "length (render d)"
    have h1: "take ?l ?p = render d" "length ?p \<noteq> ?l" "?p ! ?l = SLASH" "n = drop (?l + 1) ?p"
      "n \<noteq> []" "SLASH \<notin> set n"
      using h D by (auto simp: lxp_path_child_name_def Let_def split: if_splits)
    have "?l \<le> length ?p" using arg_cong [OF h1(1), of length] by simp
    with h1(2) have l: "?l < length ?p" by simp
    have e: "?p = render d @ SLASH # n"
      using id_take_nth_drop [OF l] h1(1,3,4) by simp
    have "seg_ok n" using h1(5,6) by (simp add: seg_ok_def)
    then have "path_of a = path_of (d @ [n])" using e by (simp add: path_of_def)
    moreover have "seg_ok c" if "c \<in> set (d @ [n])" for c using that d \<open>seg_ok n\<close> by auto
    ultimately show "a = d @ [n]" using comps_path_of [OF a] comps_path_of [of "d @ [n]"] by metis
  qed
qed

lemma normalize_loop_fits:
  "normalize_loop outlen s out = Some r \<Longrightarrow> length out < outlen \<Longrightarrow> length r < outlen"
proof (induction "length s" arbitrary: s out rule: less_induct)
  case less
  show ?case
  proof (cases "dropWhile (\<lambda>c. c = SLASH) s = []")
    case True
    with less.prems show ?thesis by (simp add: normalize_loop_cases(1))
  next
    case False
    note step = normalize_loop_cases(2) [OF False refl refl, of outlen out]
    note IH = less.hyps [OF normalize_shrinks [OF False]]
    show ?thesis
      using less.prems IH drop_last_length [of out] unfolding step by (auto split: if_splits)
  qed
qed

lemma walk_idem:
  assumes "\<And>c. c \<in> set st \<Longrightarrow> name_ok c" shows "walk [] (path_of st) = st"
proof -
  have "comps (path_of st) = st" by (rule comps_path_of) (use assms name_ok_seg in blast)
  then show ?thesis using fold_step_id [of st "[]"] assms by (simp add: walk_def)
qed

lemma walk_append: "walk st (s @ SLASH # t) = walk (walk st s) t"
  by (simp add: walk_def comps_append_slash)

lemma resolve_from_walk:
  assumes cwd: "\<And>c. c \<in> set cwd \<Longrightarrow> name_ok c" and r: "resolve_from (path_of cwd) s outlen = Inr out"
  shows "out = path_of (walk (if s \<noteq> [] \<and> hd s = SLASH then [] else cwd) s)"
proof (cases "s \<noteq> [] \<and> hd s = SLASH")
  case True
  then have "normalize_abs s outlen = Inr out"
    using r by (auto simp: resolve_from_def join_chars_eq split: if_splits)
  with True show ?thesis by (simp add: normalize_abs_walk)
next
  case False
  then have "normalize_abs (path_of cwd @ SLASH # s) outlen = Inr out"
    using r by (auto simp: resolve_from_def join_chars_eq split: if_splits)
  then have "out = path_of (walk [] (path_of cwd @ SLASH # s))" by (rule normalize_abs_walk)
  with False show ?thesis by (simp only: walk_append walk_idem [OF cwd] if_False)
qed

lemma resolve_from_total:
  assumes "length (path_of cwd) + 1 + length s < LXP_PATH_MAX" "LXP_PATH_MAX \<le> outlen"
  shows "\<exists>out. resolve_from (path_of cwd) s outlen = Inr out"
proof (cases "s \<noteq> [] \<and> hd s = SLASH")
  case True
  then show ?thesis
    using assms normalize_abs_total [of s outlen] by (auto simp: resolve_from_def join_chars_eq)
next
  case False
  have "normalize_abs (path_of cwd @ SLASH # s) outlen = Inr (path_of (walk [] (path_of cwd @ SLASH # s)))"
    by (rule normalize_abs_total) (use assms in auto)
  then show ?thesis using False assms by (auto simp: resolve_from_def join_chars_eq)
qed

section \<open>Mount selection\<close>

lemma mount_best_spec:
  assumes "mount_best ms path below best l = (r, n)"
  shows "l \<le> n" "\<And>mt. mt \<in> set ms \<Longrightarrow> mount_len mt path < below \<Longrightarrow> mount_len mt path \<le> n"
    "(r = best \<and> n = l) \<or> (\<exists>mt pre post. r = Some mt \<and> ms = pre @ mt # post \<and> n = mount_len mt path \<and> n < below \<and> l < n
        \<and> (\<forall>m \<in> set pre. mount_len m path \<noteq> n))"
proof -
  have "l \<le> n \<and> (\<forall>mt \<in> set ms. mount_len mt path < below \<longrightarrow> mount_len mt path \<le> n)
    \<and> ((r = best \<and> n = l) \<or> (\<exists>mt pre post. r = Some mt \<and> ms = pre @ mt # post \<and> n = mount_len mt path \<and> n < below \<and> l < n
        \<and> (\<forall>m \<in> set pre. mount_len m path \<noteq> n)))"
    using assms
  proof (induction ms arbitrary: best l)
    case (Cons mt ms)
    let ?k = "mount_len mt path"
    show ?case
    proof (cases "l < ?k \<and> ?k < below")
      case True
      then have "mount_best ms path below (Some mt) ?k = (r, n)" using Cons.prems by (simp add: Let_def)
      note IH = Cons.IH [OF this]
      then consider "r = Some mt" "n = ?k"
        | m pre post where "r = Some m" "ms = pre @ m # post" "n = mount_len m path" "n < below" "?k < n"
            "\<forall>m \<in> set pre. mount_len m path \<noteq> n" by blast
      then show ?thesis
      proof cases
        case 1
        have "\<exists>pre post. mt # ms = pre @ mt # post \<and> (\<forall>m \<in> set pre. mount_len m path \<noteq> n)"
          by (rule exI [of _ "[]"], rule exI [of _ ms]) simp
        then show ?thesis using IH True 1 by auto
      next
        case 2
        have "\<exists>pre post. mt # ms = pre @ m # post \<and> (\<forall>m \<in> set pre. mount_len m path \<noteq> n)"
          by (rule exI [of _ "mt # pre"], rule exI [of _ post]) (use 2 in auto)
        then show ?thesis using IH True 2 by auto
      qed
    next
      case False
      then have "mount_best ms path below best l = (r, n)" using Cons.prems by (auto simp: Let_def)
      note IH = Cons.IH [OF this]
      then consider "r = best" "n = l"
        | m pre post where "r = Some m" "ms = pre @ m # post" "n = mount_len m path" "n < below" "l < n"
            "\<forall>m \<in> set pre. mount_len m path \<noteq> n" by blast
      then show ?thesis
      proof cases
        case 1
        then show ?thesis using IH False by auto
      next
        case 2
        have "\<exists>pre post. mt # ms = pre @ m # post \<and> (\<forall>m \<in> set pre. mount_len m path \<noteq> n)"
          by (rule exI [of _ "mt # pre"], rule exI [of _ post]) (use 2 False in auto)
        then show ?thesis using IH False 2 by auto
      qed
    qed
  qed simp
  then show "l \<le> n" "\<And>mt. mt \<in> set ms \<Longrightarrow> mount_len mt path < below \<Longrightarrow> mount_len mt path \<le> n"
    "(r = best \<and> n = l) \<or> (\<exists>mt pre post. r = Some mt \<and> ms = pre @ mt # post \<and> n = mount_len mt path \<and> n < below \<and> l < n
        \<and> (\<forall>m \<in> set pre. mount_len m path \<noteq> n))" by blast+
qed

definition accepts :: "mount \<Rightarrow> string \<Rightarrow> bool" where
  "accepts mt path = (case mt_holds mt of None \<Rightarrow> True | Some h \<Rightarrow> h path)"

definition rejected :: "mount list \<Rightarrow> string \<Rightarrow> nat \<Rightarrow> bool" where
  "rejected ms path l = (\<exists>m \<in> set ms. mount_len m path = l \<and> \<not> accepts m path)"

lemma mount_of_loop_unfold:
  "mount_best ms path below None 0 = (r, n) \<Longrightarrow> mount_of_loop ms path below =
     (case r of None \<Rightarrow> OVERLAY | Some mt \<Rightarrow> if accepts mt path then mt_ops mt else mount_of_loop ms path n)"
  by (subst mount_of_loop.simps) (auto simp: accepts_def split: option.splits)

lemma mount_of_loop_spec:
  "(mount_of_loop ms path below = OVERLAY
      \<and> (\<forall>mt \<in> set ms. 0 < mount_len mt path \<longrightarrow> mount_len mt path < below \<longrightarrow> rejected ms path (mount_len mt path)))
   \<or> (\<exists>mt \<in> set ms. mount_of_loop ms path below = mt_ops mt \<and> 0 < mount_len mt path \<and> accepts mt path
      \<and> (\<forall>mt' \<in> set ms. mount_len mt path < mount_len mt' path \<longrightarrow> mount_len mt' path < below \<longrightarrow>
           rejected ms path (mount_len mt' path)))"
proof (induction below rule: less_induct)
  case (less below)
  obtain r n where b: "mount_best ms path below None 0 = (r, n)" by (metis surj_pair)
  note B = mount_best_spec [OF b]
  note step = mount_of_loop_unfold [OF b]
  show ?case
  proof (cases r)
    case None
    then have "n = 0" using B(3) by auto
    then have "\<forall>mt \<in> set ms. mount_len mt path < below \<longrightarrow> mount_len mt path = 0"
      using B(2) by auto
    then show ?thesis using step None by (intro disjI1) auto
  next
    case (Some mt)
    then obtain pre post where m: "ms = pre @ mt # post" "n = mount_len mt path" "n < below" "0 < n"
      using B(3) by auto
    have mt: "mt \<in> set ms" using m(1) by simp
    have covered: "mount_len mt' path < n \<or> mount_len mt' path = n"
      if "mt' \<in> set ms" "mount_len mt' path < below" for mt'
      using B(2) [OF that] by auto
    show ?thesis
    proof (cases "accepts mt path")
      case True
      then show ?thesis using step Some m covered mt by (intro disjI2 bexI [of _ mt]) force+
    next
      case False
      then have st: "mount_of_loop ms path below = mount_of_loop ms path n" using step Some by simp
      have rej: "rejected ms path n" unfolding rejected_def using False mt m(2) by blast
      show ?thesis unfolding st using less.IH [OF m(3)] covered rej by metis
    qed
  qed
qed

section \<open>Properties\<close>

lemma walk_Cons_slash [simp]: "walk st (SLASH # s) = walk st s"
  by (simp add: walk_def comps.simps [of "SLASH # s"] comps.simps [of s])

lemma normalize_loop_Cons_slash: "normalize_loop n (SLASH # s) out = normalize_loop n s out"
  by (simp add: normalize_loop.simps [of n "SLASH # s"] normalize_loop.simps [of n s])

lemma normalize_abs_total_rel:
  assumes "length s + 1 < outlen"
  shows "normalize_abs s outlen = Inr (path_of (walk [] s))"
  using normalize_abs_total [of "SLASH # s" outlen] assms
  by (simp add: normalize_abs_def normalize_loop_Cons_slash)

lemma path_of_length_bound:
  assumes "normalize_abs s outlen = Inr out" "1 < outlen" shows "length out < outlen"
  using assms normalize_loop_fits [of outlen s "[]"]
  by (auto simp: normalize_abs_def split: option.splits if_splits)

text \<open>C12.  Normalization is total, bounded and canonical: it fails only when the name is
  too long for the buffer, and otherwise gives, within the buffer, the absolute name of
  the directory stack one reaches by walking the components one by one (\<open>.\<close> stays,
  \<open>..\<close> goes up and stops at the root); that name holds no \<open>.\<close>, \<open>..\<close> or empty
  component and normalizing it again changes nothing.\<close>

theorem normalize_abs_canonical:
  assumes "1 < outlen"
  shows "case normalize_abs s outlen of
      Inl e \<Rightarrow> e = - LXP_ENAMETOOLONG \<and> outlen \<le> length s + 1
    | Inr out \<Rightarrow> out = path_of (walk [] s) \<and> list_all name_ok (walk [] s) \<and> length out < outlen
        \<and> normalize_abs out outlen = Inr out"
proof (cases "normalize_abs s outlen")
  case (Inl e)
  then have "e = - LXP_ENAMETOOLONG" by (auto simp: normalize_abs_def split: option.splits)
  moreover have "\<not> length s + 1 < outlen" using normalize_abs_total_rel Inl by fastforce
  ultimately show ?thesis using Inl by simp
next
  case (Inr out)
  have names: "name_ok c" if "c \<in> set (walk [] s)" for c using walk_names [of "[]" c s] that by simp
  have out: "out = path_of (walk [] s)" by (rule normalize_abs_walk [OF Inr])
  have fits: "length out < outlen" by (rule path_of_length_bound [OF Inr assms])
  have "walk [] out = walk [] s" unfolding out by (rule walk_idem) (rule names)
  moreover have "normalize_abs out outlen = Inr (path_of (walk [] out))"
    by (rule normalize_abs_total) (use out fits in simp_all)
  ultimately show ?thesis using Inr out fits names by (simp add: list_all_iff)
qed

theorem normalize_abs_canonical_witness:
  "normalize_abs ''/usr//./bin/../lib/'' 9 = Inr ''/usr/lib'' \<and> normalize_abs ''/usr/lib'' 9 = Inr ''/usr/lib''
   \<and> normalize_abs ''/usr/lib'' 8 = Inl (- LXP_ENAMETOOLONG)"
proof -
  have a: "normalize_abs ''/usr//./bin/../lib/'' 9 = Inr ''/usr/lib''"
    by (simp add: normalize_abs_def normalize_loop.simps drop_last_def)
  have b: "normalize_abs ''/usr/lib'' 8 = Inl (- LXP_ENAMETOOLONG)"
    by (simp add: normalize_abs_def normalize_loop.simps drop_last_def)
  have "(1 :: nat) < 9" by simp
  from normalize_abs_canonical [OF this, of "''/usr//./bin/../lib/''"] a b show ?thesis
    unfolding a sum.case by blast
qed

text \<open>C26.  Resolution against a working directory: when the directory is itself a
  normalized name, a path resolves to the stack reached by walking its components from
  that directory (from the root for an absolute path), the only failure is
  ENAMETOOLONG, and it cannot occur while directory, slash and path fit the path buffer.\<close>

theorem resolve_from_walks_from_cwd:
  assumes "list_all name_ok cwd" "LXP_PATH_MAX \<le> outlen"
  shows "case resolve_from (path_of cwd) s outlen of
      Inl e \<Rightarrow> e = - LXP_ENAMETOOLONG \<and> LXP_PATH_MAX \<le> length (path_of cwd) + 1 + length s
    | Inr out \<Rightarrow> out = path_of (walk (if s \<noteq> [] \<and> hd s = SLASH then [] else cwd) s)"
proof (cases "resolve_from (path_of cwd) s outlen")
  case (Inl e)
  then have "e = - LXP_ENAMETOOLONG"
    by (auto simp: resolve_from_def normalize_abs_def split: option.splits if_splits)
  moreover have "\<not> length (path_of cwd) + 1 + length s < LXP_PATH_MAX"
    using resolve_from_total [of cwd s outlen] assms(2) Inl by auto
  ultimately show ?thesis using Inl by simp
next
  case (Inr out)
  have "\<And>c. c \<in> set cwd \<Longrightarrow> name_ok c" using assms(1) by (simp add: list_all_iff)
  from resolve_from_walk [OF this Inr] Inr show ?thesis by simp
qed

theorem resolve_from_walks_from_cwd_witness:
  "resolve_from (path_of [''home'', ''u'']) ''../v/./x'' 256 = Inr ''/home/v/x''"
proof -
  have "walk [''home'', ''u''] ''../v/./x'' = [''home'', ''v'', ''x'']"
    by (simp add: walk_def comps.simps comp_step_def)
  then show ?thesis
    using resolve_from_walks_from_cwd [of "[''home'', ''u'']" 256 "''../v/./x''"]
    by (simp add: name_ok_def seg_ok_def path_of_def config_defs split: sum.splits)
qed

text \<open>C27.  The string tests agree with the tree: on names of component lists a path is
  at or below a directory (\<^verbatim>\<open>lxp_path_under\<close>, which returns the length of the
  prefix) exactly when the directory's components are a prefix of its own, never because
  of a partial component; and \<^verbatim>\<open>lxp_path_child_name\<close> gives exactly the name of a
  direct child.\<close>

theorem path_tests_agree_with_components:
  assumes "list_all seg_ok a" "list_all seg_ok d"
  shows "lxp_path_under (path_of a) (path_of d) =
      (if \<exists>rest. a = d @ rest then length (path_of d) else 0)
    \<and> lxp_path_child_name (path_of d) (path_of a) =
      (if a \<noteq> [] \<and> butlast a = d then Some (last a) else None)"
proof
  have A: "\<And>c. c \<in> set a \<Longrightarrow> seg_ok c" and D: "\<And>c. c \<in> set d \<Longrightarrow> seg_ok c"
    using assms by (simp_all add: list_all_iff)
  show "lxp_path_under (path_of a) (path_of d) = (if \<exists>rest. a = d @ rest then length (path_of d) else 0)"
  proof (cases "d = []")
    case True
    have "lxp_path_under (path_of a) [SLASH] = 1" by (rule path_under_root)
    then show ?thesis unfolding True by (simp add: path_of_def [of "[]"])
  next
    case False
    have d: "path_of d = render d" using False by (simp add: path_of_def)
    show ?thesis using path_under_render [OF A D False] unfolding d .
  qed
  note N = child_name_render [of a d, OF A D]
  show "lxp_path_child_name (path_of d) (path_of a) =
      (if a \<noteq> [] \<and> butlast a = d then Some (last a) else None)"
  proof (cases "a \<noteq> [] \<and> butlast a = d")
    case True
    then have "a = d @ [last a]" using append_butlast_last_id [of a] by simp
    with N have "lxp_path_child_name (path_of d) (path_of a) = Some (last a)" by blast
    with True show ?thesis by simp
  next
    case False
    have "lxp_path_child_name (path_of d) (path_of a) \<noteq> Some n" for n
    proof
      assume "lxp_path_child_name (path_of d) (path_of a) = Some n"
      then have "a = d @ [n]" by (simp only: N)
      with False show False by simp
    qed
    then show ?thesis unfolding if_not_P [OF False] by (rule not_Some_eq [THEN iffD1, rule_format])
  qed
qed

theorem path_tests_agree_with_components_witness:
  "lxp_path_under ''/tmp/ab'' ''/tmp/a'' = 0 \<and> lxp_path_under ''/tmp/a/b'' ''/tmp/a'' = 6
   \<and> lxp_path_child_name ''/tmp'' ''/tmp/a'' = Some ''a''"
  using path_tests_agree_with_components [of "[''tmp'', ''ab'']" "[''tmp'', ''a'']"]
    path_tests_agree_with_components [of "[''tmp'', ''a'', ''b'']" "[''tmp'', ''a'']"]
    path_tests_agree_with_components [of "[''tmp'', ''a'']" "[''tmp'']"]
  by (simp add: seg_ok_def path_of_def)

text \<open>C13.  Mount selection: the namespace that answers a path is that of a mountpoint at
  or above the path which accepts the name, and every longer mountpoint above the path
  has refused it; the root overlay answers only when no mountpoint is left.  The search
  ends because each refusal shortens the mountpoints still considered.\<close>

theorem lxp_mount_of_longest_accepting:
  assumes "\<forall>mt \<in> set ms. mount_len mt path < SIZE_MAX"
  shows "(lxp_mount_of ms path = OVERLAY
        \<and> (\<forall>mt \<in> set ms. 0 < mount_len mt path \<longrightarrow> rejected ms path (mount_len mt path)))
    \<or> (\<exists>mt \<in> set ms. lxp_mount_of ms path = mt_ops mt \<and> 0 < mount_len mt path \<and> accepts mt path
        \<and> (\<forall>mt' \<in> set ms. mount_len mt path < mount_len mt' path \<longrightarrow> rejected ms path (mount_len mt' path)))"
  using mount_of_loop_spec [of ms path SIZE_MAX] assms unfolding lxp_mount_of_def by blast

theorem lxp_mount_of_longest_accepting_witness:
  "\<exists>mt \<in> set g_mounts. lxp_mount_of g_mounts ''/dev/null'' = mt_ops mt \<and> accepts mt ''/dev/null''
     \<and> mount_len mt ''/dev/null'' = 4"
proof -
  have len: "mount_len \<lparr>mt_point = Some ''/proc'', mt_holds = None, mt_ops = PROCFS\<rparr> ''/dev/null'' = 0"
    "mount_len \<lparr>mt_point = Some ''/dev'', mt_holds = Some devfs_holds, mt_ops = DEVFS\<rparr> ''/dev/null'' = 4"
    "mount_len \<lparr>mt_point = Some ''/'', mt_holds = None, mt_ops = OVERLAY\<rparr> ''/dev/null'' = 1"
    by (simp_all add: mount_len_def lxp_path_under_def)
  have "devfs_holds ''/dev/null''" by (simp add: devfs_holds_def find_console_node_def g_console_def)
  then have "\<not> rejected g_mounts ''/dev/null'' 4"
    using len by (simp add: rejected_def g_mounts_def accepts_def)
  then show ?thesis
    using lxp_mount_of_longest_accepting [of g_mounts "''/dev/null''"] len
    by (simp add: g_mounts_def SIZE_MAX_def)
qed

text \<open>The core table: \<^verbatim>\<open>/proc\<close> and everything below it, the console nodes, and the
  root for all other names.\<close>

lemma core_mounts:
  assumes "length path < SIZE_MAX" "path \<noteq> []" "hd path = SLASH"
  shows "lxp_mount_of g_mounts path =
    (if lxp_path_under path ''/proc'' \<noteq> 0 then PROCFS else if devfs_holds path then DEVFS else OVERLAY)"
proof -
  have held: "lxp_path_under path ''/dev'' = 4" if "devfs_holds path"
    using that by (auto simp: devfs_holds_def find_console_node_def g_console_def lxp_path_under_def
        split: if_splits)
  have u: "lxp_path_under path ''/proc'' = 0 \<or> lxp_path_under path ''/proc'' = 5"
    "lxp_path_under path ''/dev'' = 0 \<or> lxp_path_under path ''/dev'' = 4"
    "lxp_path_under path ''/'' = 1"
    using assms(2,3) by (auto simp: lxp_path_under_def Let_def)
  have excl: "lxp_path_under path ''/dev'' = 0" if "lxp_path_under path ''/proc'' = 5"
  proof (rule ccontr)
    assume "lxp_path_under path ''/dev'' \<noteq> 0"
    then have "take 4 path = ''/dev''" by (simp add: lxp_path_under_def Let_def eval_nat_numeral split: if_splits)
    moreover have "take 5 path = ''/proc''" using that by (simp add: lxp_path_under_def Let_def eval_nat_numeral split: if_splits)
    then have "take 4 (take 5 path) = take 4 ''/proc''" by simp
    ultimately show False by simp
  qed
  let ?P = "\<lparr>mt_point = Some ''/proc'', mt_holds = None, mt_ops = PROCFS\<rparr>"
  let ?D = "\<lparr>mt_point = Some ''/dev'', mt_holds = Some devfs_holds, mt_ops = DEVFS\<rparr>"
  let ?O = "\<lparr>mt_point = Some ''/'', mt_holds = None, mt_ops = OVERLAY\<rparr>"
  have len: "mount_len ?P path = lxp_path_under path ''/proc''" "mount_len ?D path = lxp_path_under path ''/dev''"
    "mount_len ?O path = 1"
    using u(3) by (simp_all add: mount_len_def)
  consider (p) "lxp_path_under path ''/proc'' = 5" "lxp_path_under path ''/dev'' = 0"
    | (d) "lxp_path_under path ''/proc'' = 0" "lxp_path_under path ''/dev'' = 4"
    | (o) "lxp_path_under path ''/proc'' = 0" "lxp_path_under path ''/dev'' = 0"
    using u excl by auto
  then show ?thesis
  proof cases
    case p
    have "mount_best g_mounts path SIZE_MAX None 0 = (Some ?P, 5)"
      by (simp add: g_mounts_def len p SIZE_MAX_def)
    from mount_of_loop_unfold [OF this] p show ?thesis by (simp add: lxp_mount_of_def accepts_def)
  next
    case d
    have b: "mount_best g_mounts path SIZE_MAX None 0 = (Some ?D, 4)" "mount_best g_mounts path 4 None 0 = (Some ?O, 1)"
      by (simp_all add: g_mounts_def len d SIZE_MAX_def)
    from mount_of_loop_unfold [OF b(1)] mount_of_loop_unfold [OF b(2)] d show ?thesis
      by (simp add: lxp_mount_of_def accepts_def)
  next
    case o
    have "mount_best g_mounts path SIZE_MAX None 0 = (Some ?O, 1)"
      by (simp add: g_mounts_def len o SIZE_MAX_def)
    from mount_of_loop_unfold [OF this] o held show ?thesis by (auto simp: lxp_mount_of_def accepts_def)
  qed
qed

end
