(* ===== verification/Kernel.thy ===== *)
theory Kernel
  imports Arena Pipe Path
begin

text \<open>
  The state the system calls act on.  \<open>machine\<close> is what guest memory access needs: the
  flat memory, the address-space pool, the slot generations and the published rootfs span
  (\<^verbatim>\<open>src/src/lxp_guest.c\<close>, \<^verbatim>\<open>src/src/run/lxp_runtime_store.h\<close>).  \<open>kernel\<close> extends it
  with every static pool of the core: open-file descriptions, descriptor tables, the other
  refcounted process resources, pipes, eventfds, open \<^verbatim>\<open>/proc\<close> files, the writable
  file system, the rootfs tables the tasks point at, the console, the task arenas, the wall-clock
  offset and the halt request.
\<close>

section \<open>Pools\<close>

definition LXP_NEVENTFD :: nat where "LXP_NEVENTFD = 8"
definition LXP_NWNODE :: nat where "LXP_NWNODE = 32"
definition LXP_NPROCF :: nat where "LXP_NPROCF = 12"
definition LXP_MAX_OFD :: nat where "LXP_MAX_OFD = LXP_NSLOT * LXP_MAX_FDS"

lemmas pool_defs = LXP_NEVENTFD_def LXP_NWNODE_def LXP_NPROCF_def LXP_MAX_OFD_def

lemma pool_pos [simp]: "0 < LXP_NEVENTFD" "0 < LXP_NWNODE" "0 < LXP_NPROCF" "0 < LXP_MAX_OFD"
  by (simp_all add: pool_defs)

record efd =
  ef_ctr :: nat
  ef_flags :: nat
  ef_used :: bool

definition efd_zero :: efd where
  "efd_zero = \<lparr>ef_ctr = 0, ef_flags = 0, ef_used = False\<rparr>"

record procf =
  pf_path :: string
  pf_buf :: "byte list"
  pf_is_dir :: bool
  pf_used :: bool

definition procf_zero :: procf where
  "procf_zero = \<lparr>pf_path = [], pf_buf = [], pf_is_dir = False, pf_used = False\<rparr>"

text \<open>A writable node.  \<open>wn_data\<close> is an address in the file pool, 0 when empty.\<close>

record wnode =
  wn_path :: string
  wn_mode :: nat
  wn_data :: nat
  wn_size :: nat
  wn_cap :: nat
  wn_used :: bool
  wn_open_refs :: nat
  wn_linked :: bool

definition wnode_zero :: wnode where
  "wnode_zero = \<lparr>wn_path = [], wn_mode = 0, wn_data = 0, wn_size = 0, wn_cap = 0, wn_used = False,
     wn_open_refs = 0, wn_linked = False\<rparr>"

lemma wnode_zero_simps [simp]:
  "wn_path wnode_zero = []" "wn_data wnode_zero = 0" "wn_size wnode_zero = 0" "wn_cap wnode_zero = 0"
  "\<not> wn_used wnode_zero" "wn_open_refs wnode_zero = 0" "\<not> wn_linked wnode_zero" "wn_mode wnode_zero = 0"
  by (simp_all add: wnode_zero_def)

text \<open>The writable file system: its nodes, the arena over its pool, whether that arena has
  been initialised and where the pool lies.\<close>

record wfs =
  wf_nodes :: "nat \<Rightarrow> wnode"
  wf_arena :: arena
  wf_ready :: bool
  wf_pool :: nat

text \<open>A terminal: the raw bytes of its \<^verbatim>\<open>lxp_termios\<close> (36) and \<^verbatim>\<open>lxp_winsize\<close> (8) as the
  guest exchanges them, and the foreground process group.  The console's typeahead is a ring of
  bytes read while no task was reading.\<close>

record tty =
  tt_termios :: "byte list"
  tt_winsize :: "byte list"
  tt_fg_pgrp :: int

record typeahead =
  ta_buf :: "nat \<Rightarrow> byte"
  ta_head :: nat
  ta_count :: nat

section \<open>The state\<close>

record machine =
  mc_mem :: mem
  mc_mm :: "nat \<Rightarrow> mm"
  mc_slot_generation :: "int \<Rightarrow> nat"
  mc_rootfs_lo :: nat
  mc_rootfs_hi :: nat

record kernel = machine +
  k_ofd :: "nat \<Rightarrow> ofd"
  k_files :: "nat \<Rightarrow> files"
  k_fs_context :: "nat \<Rightarrow> fs_context"
  k_sighand :: "nat \<Rightarrow> sighand"
  k_groups :: "nat \<Rightarrow> thread_group"
  k_pipes :: pipes
  k_efd :: "nat \<Rightarrow> efd"
  k_procf :: "nat \<Rightarrow> procf"
  k_wfs :: wfs
  k_fs :: "nat \<Rightarrow> rootfs_file list"
  k_tty :: tty
  k_ta :: typeahead
  k_arena :: "nat \<Rightarrow> arena"
  k_realtime_offset_ns :: int
  k_halt_requested :: bool

text \<open>The rootfs table of a task.\<close>

definition proc_fs :: "'a kernel_scheme \<Rightarrow> proc \<Rightarrow> rootfs_file list" where
  "proc_fs k p = take (nat (p_fs_count p)) (k_fs k (p_fs p))"

definition bytes_of_string :: "string \<Rightarrow> byte list" where
  "bytes_of_string = map (\<lambda>c. word_of_nat (of_char c))"

definition string_of_bytes :: "byte list \<Rightarrow> string" where
  "string_of_bytes = map (\<lambda>b. char_of (unat b))"

lemma string_of_bytes_of_string [simp]: "string_of_bytes (bytes_of_string s) = s"
  by (induction s) (simp_all add: string_of_bytes_def bytes_of_string_def)

lemma length_bytes_of_string [simp]: "length (bytes_of_string s) = length s"
  "length (string_of_bytes b) = length b"
  by (simp_all add: bytes_of_string_def string_of_bytes_def)

section \<open>Open flags and modes\<close>

abbreviation (input) LXP_O_RDONLY :: nat where "LXP_O_RDONLY \<equiv> 0"
abbreviation (input) LXP_O_WRONLY :: nat where "LXP_O_WRONLY \<equiv> 1"
abbreviation (input) LXP_O_RDWR :: nat where "LXP_O_RDWR \<equiv> 2"
abbreviation (input) LXP_O_ACCMODE :: nat where "LXP_O_ACCMODE \<equiv> 3"
abbreviation (input) LXP_O_CREAT :: nat where "LXP_O_CREAT \<equiv> 0x40"
abbreviation (input) LXP_O_TRUNC :: nat where "LXP_O_TRUNC \<equiv> 0x200"
abbreviation (input) LXP_O_APPEND :: nat where "LXP_O_APPEND \<equiv> 0x400"
abbreviation (input) LXP_O_NONBLOCK :: nat where "LXP_O_NONBLOCK \<equiv> 0x800"
abbreviation (input) LXP_O_CLOEXEC :: nat where "LXP_O_CLOEXEC \<equiv> 0x80000"

text \<open>\<^verbatim>\<open>flags & mask\<close> as a truth value.\<close>

definition has_flag :: "nat \<Rightarrow> nat \<Rightarrow> bool" where
  "has_flag flags fl \<longleftrightarrow> flags AND fl \<noteq> 0"

end
