(* ===== verification/Guest.thy ===== *)
theory Guest
  imports Kernel
begin

text \<open>
  The boundary between kernel and guest memory (\<^verbatim>\<open>src/src/lxp_guest.c\<close>): the range check
  with its 32-bit wrap, the dispatch-local view that ties an access to one incarnation of a
  slot and of its address space, and the copy routines every system call uses.  A copy out
  of guest memory gives the bytes, or \<open>None\<close> for \<^verbatim>\<open>-EFAULT\<close>.  The mapped device
  windows exist only with the device subsystem and are not part of the core configuration.
\<close>

section \<open>The model\<close>

abbreviation (input) LXP_GUEST_READ :: nat where "LXP_GUEST_READ \<equiv> 1"
abbreviation (input) LXP_GUEST_WRITE :: nat where "LXP_GUEST_WRITE \<equiv> 2"
abbreviation (input) LXP_GUEST_READ_WRITE :: nat where "LXP_GUEST_READ_WRITE \<equiv> 3"

definition uptr :: "nat \<Rightarrow> nat" where
  "uptr a = a mod 4294967296"

definition guest_range_hi :: "'a machine_scheme \<Rightarrow> nat option \<Rightarrow> nat \<Rightarrow> nat \<Rightarrow> nat" where
  "guest_range_hi mc mmp address access =
     (case mmp of
        None \<Rightarrow> 0
      | Some i \<Rightarrow>
          (let mm = mc_mm mc i in
           if address \<ge> mm_region_lo mm \<and> address < mm_region_hi mm then mm_region_hi mm
           else if mm_pool_hi mm > mm_pool_lo mm \<and> address \<ge> mm_pool_lo mm \<and> address < mm_pool_hi mm
           then mm_pool_hi mm
           else if \<not> has_flag access LXP_GUEST_WRITE \<and> mc_rootfs_hi mc > mc_rootfs_lo mc
             \<and> address \<ge> mc_rootfs_lo mc \<and> address < mc_rootfs_hi mc
           then mc_rootfs_hi mc
           else 0))"

text \<open>The access bits other than read and write.\<close>

definition access_ok :: "nat \<Rightarrow> bool" where
  "access_ok access \<longleftrightarrow> \<not> (access div 4 \<noteq> 0 \<or> access = 0)"

definition lxp_guest_range_ok :: "'a machine_scheme \<Rightarrow> nat option \<Rightarrow> nat \<Rightarrow> nat \<Rightarrow> nat \<Rightarrow> bool" where
  "lxp_guest_range_ok mc mmp address len access =
     (if \<not> access_ok access then False
      else if len = 0 then True
      else
        (let end = uptr (address + len) in
         if end < address then False
         else (let hi = guest_range_hi mc mmp address access in hi \<noteq> 0 \<and> end \<le> hi)))"

definition lxp_guest_view_begin :: "'a machine_scheme \<Rightarrow> proc \<Rightarrow> slot_ref \<Rightarrow> nat \<Rightarrow> proc \<times> int" where
  "lxp_guest_view_begin mc p slot access =
     (case p_mm p of
        None \<Rightarrow> (p, - LXP_EINVAL)
      | Some i \<Rightarrow>
          if p_guest_view p \<noteq> None \<or> \<not> access_ok access then (p, - LXP_EINVAL)
          else if mc_slot_generation mc (sr_index slot) \<noteq> sr_generation slot then (p, - LXP_ESRCH)
          else
            (let region = mm_region (mc_mm mc i) in
             if rr_index region < 0 \<or> rr_generation region = 0 \<or> sr_index slot < 0 \<or> sr_generation slot = 0
             then (p, - LXP_EFAULT)
             else (p\<lparr>p_guest_view := Some \<lparr>gv_active = True, gv_mm = i, gv_slot = slot, gv_region = region,
                     gv_access = access\<rparr>\<rparr>, 0)))"

definition lxp_guest_view_is_current :: "'a machine_scheme \<Rightarrow> proc \<Rightarrow> guest_view \<Rightarrow> bool" where
  "lxp_guest_view_is_current mc p view \<longleftrightarrow>
     gv_active view \<and> p_guest_view p = Some view
     \<and> mc_slot_generation mc (sr_index (gv_slot view)) = sr_generation (gv_slot view)
     \<and> p_mm p = Some (gv_mm view)
     \<and> lxp_region_ref_equal (mm_region (mc_mm mc (gv_mm view))) (gv_region view)"

definition lxp_guest_view_slot :: "'a machine_scheme \<Rightarrow> proc \<Rightarrow> int + slot_ref" where
  "lxp_guest_view_slot mc p =
     (case p_guest_view p of
        None \<Rightarrow> Inl (- LXP_ESRCH)
      | Some view \<Rightarrow> if lxp_guest_view_is_current mc p view then Inr (gv_slot view) else Inl (- LXP_ESRCH))"

definition lxp_guest_view_end :: "proc \<Rightarrow> proc" where
  "lxp_guest_view_end p =
     (case p_guest_view p of
        None \<Rightarrow> p
      | Some view \<Rightarrow> if \<not> gv_active view then p else p\<lparr>p_guest_view := None\<rparr>)"

text \<open>The check both the range test and the string scan start with: an installed view must
  be current and grant the access.\<close>

definition view_grants :: "'a machine_scheme \<Rightarrow> proc \<Rightarrow> nat \<Rightarrow> bool" where
  "view_grants mc p access =
     (case p_guest_view p of
        None \<Rightarrow> True
      | Some view \<Rightarrow> lxp_guest_view_is_current mc p view \<and> gv_access view AND access = access)"

definition lxp_guest_access_ok :: "'a machine_scheme \<Rightarrow> proc \<Rightarrow> nat \<Rightarrow> nat \<Rightarrow> bool \<Rightarrow> bool" where
  "lxp_guest_access_ok mc p address len write =
     (let access = (if write then LXP_GUEST_WRITE else LXP_GUEST_READ) in
      if p_mm p = None then False
      else if \<not> view_grants mc p access then False
      else lxp_guest_range_ok mc (p_mm p) address len access)"

definition lxp_copy_from_guest :: "'a machine_scheme \<Rightarrow> proc \<Rightarrow> nat \<Rightarrow> nat \<Rightarrow> byte list option" where
  "lxp_copy_from_guest mc p src len =
     (if \<not> lxp_guest_access_ok mc p src len False then None else Some (mem_read (mc_mem mc) src len))"

definition lxp_copy_to_guest :: "'a machine_scheme \<Rightarrow> proc \<Rightarrow> nat \<Rightarrow> byte list \<Rightarrow> 'a machine_scheme \<times> int" where
  "lxp_copy_to_guest mc p dst bs =
     (if \<not> lxp_guest_access_ok mc p dst (length bs) True then (mc, - LXP_EFAULT)
      else (mc\<lparr>mc_mem := mem_write (mc_mem mc) dst bs\<rparr>, 0))"

definition u32_bytes :: "nat \<Rightarrow> byte list" where
  "u32_bytes v = map (\<lambda>i. word_of_nat (v div 256 ^ i)) [0..<4]"

definition bytes_u32 :: "byte list \<Rightarrow> nat" where
  "bytes_u32 bs = unat (bs ! 0) + 256 * unat (bs ! 1) + 65536 * unat (bs ! 2) + 16777216 * unat (bs ! 3)"

definition lxp_guest_get_u32 :: "'a machine_scheme \<Rightarrow> proc \<Rightarrow> nat \<Rightarrow> nat option" where
  "lxp_guest_get_u32 mc p src = map_option bytes_u32 (lxp_copy_from_guest mc p src 4)"

definition lxp_guest_put_u32 :: "'a machine_scheme \<Rightarrow> proc \<Rightarrow> nat \<Rightarrow> nat \<Rightarrow> 'a machine_scheme \<times> int" where
  "lxp_guest_put_u32 mc p dst v = lxp_copy_to_guest mc p dst (u32_bytes v)"

definition lxp_guest_strnlen :: "'a machine_scheme \<Rightarrow> proc \<Rightarrow> nat \<Rightarrow> nat \<Rightarrow> int" where
  "lxp_guest_strnlen mc p src maxlen =
     (if p_mm p = None then - LXP_EFAULT
      else if \<not> view_grants mc p LXP_GUEST_READ then - LXP_EFAULT
      else
        (let hi = guest_range_hi mc (p_mm p) src LXP_GUEST_READ in
         if hi = 0 then - LXP_EFAULT
         else
           (let available = hi - src; limit = (if available < maxlen then available else maxlen) in
            case scan (\<lambda>i. mc_mem mc (src + i) = 0) 0 limit of
              None \<Rightarrow> - LXP_EFAULT
            | Some i \<Rightarrow> int i)))"

text \<open>The string at a guest address (with its NUL removed), once its length is known.\<close>

definition guest_cstr :: "'a machine_scheme \<Rightarrow> nat \<Rightarrow> nat \<Rightarrow> string" where
  "guest_cstr mc src n = string_of_bytes (mem_read (mc_mem mc) src n)"

fun copy_string_loop :: "'a machine_scheme \<Rightarrow> proc \<Rightarrow> nat \<Rightarrow> nat \<Rightarrow> byte list \<Rightarrow> int + byte list" where
  "copy_string_loop mc p 0 src acc = Inl (- LXP_E2BIG)"
| "copy_string_loop mc p (Suc n) src acc =
     (case lxp_copy_from_guest mc p (uptr (src + length acc)) 1 of
        None \<Rightarrow> Inl (- LXP_EFAULT)
      | Some bs \<Rightarrow> if hd bs = 0 then Inr acc else copy_string_loop mc p n src (acc @ [hd bs]))"

definition lxp_copy_string_from_guest :: "'a machine_scheme \<Rightarrow> proc \<Rightarrow> nat \<Rightarrow> nat \<Rightarrow> int + byte list" where
  "lxp_copy_string_from_guest mc p capacity src =
     (if capacity = 0 then Inl (- LXP_E2BIG) else copy_string_loop mc p capacity src [])"

section \<open>What an accepted range is\<close>

text \<open>The windows of a task: its region and its private pool, and for reading the published
  rootfs span.\<close>

definition guest_windows :: "'a machine_scheme \<Rightarrow> proc \<Rightarrow> bool \<Rightarrow> (nat \<times> nat) set" where
  "guest_windows mc p write =
     (case p_mm p of
        None \<Rightarrow> {}
      | Some i \<Rightarrow> {(mm_region_lo (mc_mm mc i), mm_region_hi (mc_mm mc i)),
            (mm_pool_lo (mc_mm mc i), mm_pool_hi (mc_mm mc i))}
          \<union> (if write then {} else {(mc_rootfs_lo mc, mc_rootfs_hi mc)}))"

definition in_window :: "'a machine_scheme \<Rightarrow> proc \<Rightarrow> bool \<Rightarrow> nat \<Rightarrow> nat \<Rightarrow> bool" where
  "in_window mc p write a n \<longleftrightarrow> (\<exists>(lo, hi) \<in> guest_windows mc p write. lo \<le> a \<and> a + n \<le> hi)"

lemma has_flag_simps [simp]: "has_flag 2 2" "\<not> has_flag 1 2"
  by (simp_all add: has_flag_def)

lemma access_ok_simps [simp]: "access_ok 1" "access_ok 2" "access_ok 3" "access_ok (Suc 0)"
  by (simp_all add: access_ok_def)

lemma uptr_no_wrap:
  assumes "a \<le> SIZE_MAX" "n \<le> SIZE_MAX" "\<not> uptr (a + n) < a" shows "uptr (a + n) = a + n"
proof (cases "a + n \<le> SIZE_MAX")
  case True
  then show ?thesis by (simp add: uptr_def SIZE_MAX_def)
next
  case False
  then have "(a + n) mod 4294967296 = a + n - 4294967296"
    using assms(1,2) by (simp add: SIZE_MAX_def mod_if)
  then show ?thesis using assms False by (simp add: uptr_def SIZE_MAX_def)
qed

lemma range_hi_window:
  assumes "guest_range_hi mc (p_mm p) a (if write then 2 else 1) = hi" "hi \<noteq> 0"
  shows "\<exists>lo. (lo, hi) \<in> guest_windows mc p write \<and> lo \<le> a \<and> a < hi"
proof (cases "p_mm p")
  case None
  with assms show ?thesis by (simp add: guest_range_hi_def)
next
  case (Some i)
  with assms show ?thesis
    by (auto simp: guest_range_hi_def guest_windows_def Let_def split: if_splits)
qed

lemma access_in_window:
  assumes "lxp_guest_access_ok mc p a n write" "0 < n" "a \<le> SIZE_MAX" "n \<le> SIZE_MAX"
  shows "in_window mc p write a n"
proof -
  let ?acc = "if write then 2 else 1 :: nat"
  have r: "lxp_guest_range_ok mc (p_mm p) a n ?acc"
    using assms(1) by (simp add: lxp_guest_access_ok_def Let_def split: if_splits)
  then have w: "\<not> uptr (a + n) < a"
    and hi: "guest_range_hi mc (p_mm p) a ?acc \<noteq> 0" "uptr (a + n) \<le> guest_range_hi mc (p_mm p) a ?acc"
    using assms(2) by (auto simp: lxp_guest_range_ok_def Let_def split: if_splits)
  obtain lo where "(lo, guest_range_hi mc (p_mm p) a ?acc) \<in> guest_windows mc p write" "lo \<le> a"
    using range_hi_window [OF refl hi(1)] by auto
  then show ?thesis
    using hi(2) uptr_no_wrap [OF assms(3,4) w] unfolding in_window_def by auto
qed

lemma write_access_read:
  assumes "lxp_guest_access_ok mc p a n True" "view_grants mc p 1"
  shows "lxp_guest_access_ok mc p a n False"
proof -
  have "guest_range_hi mc (p_mm p) a 2 \<noteq> 0 \<Longrightarrow> guest_range_hi mc (p_mm p) a 1 = guest_range_hi mc (p_mm p) a 2"
    by (auto simp: guest_range_hi_def Let_def split: option.splits)
  then show ?thesis
    using assms by (auto simp: lxp_guest_access_ok_def lxp_guest_range_ok_def Let_def split: if_splits)
qed

lemma copy_to_cases:
  obtains (ok) "lxp_guest_access_ok mc p dst (length bs) True"
      "lxp_copy_to_guest mc p dst bs = (mc\<lparr>mc_mem := mem_write (mc_mem mc) dst bs\<rparr>, 0)"
    | (fault) "\<not> lxp_guest_access_ok mc p dst (length bs) True" "lxp_copy_to_guest mc p dst bs = (mc, - LXP_EFAULT)"
  by (cases "lxp_guest_access_ok mc p dst (length bs) True") (simp_all add: lxp_copy_to_guest_def)

lemma length_u32_bytes [simp]: "length (u32_bytes v) = 4"
  by (simp add: u32_bytes_def)

lemma u32_bytes_eq:
  "u32_bytes v = [word_of_nat v, word_of_nat (v div 256), word_of_nat (v div 65536), word_of_nat (v div 16777216)]"
  by (simp add: u32_bytes_def upt_rec)

lemma bytes_u32_inverse: "v \<le> SIZE_MAX \<Longrightarrow> bytes_u32 (u32_bytes v) = v"
  using nat_le_bytes [of v] by (simp add: bytes_u32_def u32_bytes_eq SIZE_MAX_def)

lemma range_hi_mem_update [simp]:
  "guest_range_hi (mc\<lparr>mc_mem := m\<rparr>) mmp a acc = guest_range_hi mc mmp a acc"
  by (cases mmp) (simp_all add: guest_range_hi_def Let_def)

lemma access_mem_update [simp]:
  "view_grants (mc\<lparr>mc_mem := m\<rparr>) p acc = view_grants mc p acc"
  "lxp_guest_access_ok (mc\<lparr>mc_mem := m\<rparr>) p a n w = lxp_guest_access_ok mc p a n w"
proof -
  show v: "view_grants (mc\<lparr>mc_mem := m\<rparr>) p acc = view_grants mc p acc" for acc
    by (cases "p_guest_view p") (simp_all add: view_grants_def lxp_guest_view_is_current_def)
  show "lxp_guest_access_ok (mc\<lparr>mc_mem := m\<rparr>) p a n w = lxp_guest_access_ok mc p a n w"
    by (simp add: lxp_guest_access_ok_def lxp_guest_range_ok_def v)
qed

section \<open>Properties\<close>

text \<open>C29.  The kernel writes to guest memory only inside the task's own writable windows:
  a copy either stores exactly the given bytes, in a range that lies without 32-bit wrap
  inside the task's region or private pool, and changes no other byte and no other state;
  or it answers EFAULT and changes nothing.\<close>

theorem copy_to_guest_confined:
  assumes "lxp_copy_to_guest mc p dst bs = (mc', rc)" "dst \<le> SIZE_MAX" "length bs \<le> SIZE_MAX" "bs \<noteq> []"
  shows "rc = 0 \<and> in_window mc p True dst (length bs)
        \<and> (\<exists>m. mc' = mc\<lparr>mc_mem := m\<rparr> \<and> mem_read m dst (length bs) = bs
             \<and> (\<forall>x. x < dst \<or> dst + length bs \<le> x \<longrightarrow> m x = mc_mem mc x))
      \<or> rc = - LXP_EFAULT \<and> mc' = mc"
proof (cases rule: copy_to_cases [of mc p dst bs])
  case ok
  then have "in_window mc p True dst (length bs)" using access_in_window assms by fastforce
  moreover have "\<exists>m. mc\<lparr>mc_mem := mem_write (mc_mem mc) dst bs\<rparr> = mc\<lparr>mc_mem := m\<rparr> \<and> mem_read m dst (length bs) = bs
             \<and> (\<forall>x. x < dst \<or> dst + length bs \<le> x \<longrightarrow> m x = mc_mem mc x)"
    by (intro exI [of _ "mem_write (mc_mem mc) dst bs"]) (auto simp: mem_simps)
  ultimately show ?thesis using ok assms(1) by auto
next
  case fault
  with assms(1) show ?thesis by simp
qed

definition demo_mm :: mm where
  "demo_mm = mm_zero\<lparr>mm_region := \<lparr>rr_index = 2, rr_generation = 5\<rparr>, mm_region_lo := 4096, mm_region_hi := 8192\<rparr>"

definition demo_machine :: machine where
  "demo_machine = \<lparr>mc_mem = (\<lambda>_. 0), mc_mm = (\<lambda>_. demo_mm), mc_slot_generation = (\<lambda>_. 7),
     mc_rootfs_lo = 100000, mc_rootfs_hi = 200000\<rparr>"

lemma demo_access [simp]:
  "lxp_guest_access_ok demo_machine (proc_zero\<lparr>p_mm := Some 0\<rparr>) 8188 4 True"
  "\<not> lxp_guest_access_ok demo_machine (proc_zero\<lparr>p_mm := Some 0\<rparr>) 8190 4 True"
  by (simp_all add: lxp_guest_access_ok_def view_grants_def lxp_guest_range_ok_def guest_range_hi_def
      uptr_def demo_machine_def demo_mm_def mm_zero_def proc_zero_def)

theorem copy_to_guest_confined_witness:
  "in_window demo_machine (proc_zero\<lparr>p_mm := Some 0\<rparr>) True 8188 4
   \<and> lxp_copy_to_guest demo_machine (proc_zero\<lparr>p_mm := Some 0\<rparr>) 8190 [1, 2, 3, 4] = (demo_machine, - LXP_EFAULT)"
proof -
  have len: "length [1, 2, 3, 4 :: byte] = 4" by simp
  have ok: "lxp_copy_to_guest demo_machine (proc_zero\<lparr>p_mm := Some 0\<rparr>) 8188 [1, 2, 3, 4]
      = (demo_machine\<lparr>mc_mem := mem_write (mc_mem demo_machine) 8188 [1, 2, 3, 4]\<rparr>, 0)"
    by (simp only: lxp_copy_to_guest_def len demo_access if_False not_True_eq_False)
  have f: "lxp_copy_to_guest demo_machine (proc_zero\<lparr>p_mm := Some 0\<rparr>) 8190 [1, 2, 3, 4] = (demo_machine, - LXP_EFAULT)"
    by (simp only: lxp_copy_to_guest_def len demo_access if_True not_False_eq_True)
  show ?thesis using copy_to_guest_confined [OF ok, unfolded len] f by (simp add: SIZE_MAX_def)
qed

text \<open>C30.  A stale view grants nothing: after a view was installed for one incarnation of a
  slot and its address space, every access through it is refused as soon as the slot's
  generation or the region of the address space has changed, whatever range is asked for;
  no copy takes place and no string is scanned.\<close>

theorem stale_view_denies_access:
  assumes "lxp_guest_view_begin mc p slot access = (p', 0)" "p_mm p = Some i"
    "mc_slot_generation mc' (sr_index slot) \<noteq> mc_slot_generation mc (sr_index slot)
     \<or> mm_region (mc_mm mc' i) \<noteq> mm_region (mc_mm mc i)"
  shows "\<not> lxp_guest_access_ok mc' p' a n w \<and> lxp_copy_from_guest mc' p' a n = None
    \<and> lxp_copy_to_guest mc' p' a bs = (mc', - LXP_EFAULT) \<and> lxp_guest_strnlen mc' p' a n = - LXP_EFAULT
    \<and> lxp_guest_view_slot mc' p' = Inl (- LXP_ESRCH)"
proof -
  have p': "p_guest_view p' = Some \<lparr>gv_active = True, gv_mm = i, gv_slot = slot, gv_region = mm_region (mc_mm mc i),
                     gv_access = access\<rparr>"
    and g: "mc_slot_generation mc (sr_index slot) = sr_generation slot"
    using assms(1,2) by (auto simp: lxp_guest_view_begin_def Let_def split: if_splits)
  have st: "\<not> lxp_guest_view_is_current mc' p' \<lparr>gv_active = True, gv_mm = i, gv_slot = slot,
      gv_region = mm_region (mc_mm mc i), gv_access = access\<rparr>"
    using assms(3) g by (auto simp: lxp_guest_view_is_current_def)
  then have deny: "\<not> lxp_guest_access_ok mc' p' b k v" for b k v
    by (simp add: lxp_guest_access_ok_def view_grants_def p')
  then show ?thesis
    using st by (simp add: lxp_copy_from_guest_def lxp_copy_to_guest_def lxp_guest_strnlen_def
        lxp_guest_view_slot_def view_grants_def p')
qed

theorem stale_view_denies_access_witness:
  "\<exists>p'. lxp_guest_view_begin demo_machine (proc_zero\<lparr>p_mm := Some 0\<rparr>) (lxp_slot_ref 3 7) 3 = (p', 0)
     \<and> lxp_guest_access_ok demo_machine p' 4096 16 True
     \<and> \<not> lxp_guest_access_ok (demo_machine\<lparr>mc_slot_generation := (\<lambda>_. 8)\<rparr>) p' 4096 16 True"
proof -
  obtain p' where b: "lxp_guest_view_begin demo_machine (proc_zero\<lparr>p_mm := Some 0\<rparr>) (lxp_slot_ref 3 7) 3 = (p', 0)"
    and p: "p' = (proc_zero\<lparr>p_mm := Some 0\<rparr>)\<lparr>p_guest_view := Some \<lparr>gv_active = True, gv_mm = 0, gv_slot = lxp_slot_ref 3 7,
      gv_region = \<lparr>rr_index = 2, rr_generation = 5\<rparr>, gv_access = 3\<rparr>\<rparr>"
    by (simp add: lxp_guest_view_begin_def demo_machine_def demo_mm_def proc_zero_def lxp_slot_ref_def Let_def)
  have "lxp_guest_access_ok demo_machine p' 4096 16 True"
    by (simp add: p lxp_guest_access_ok_def view_grants_def lxp_guest_view_is_current_def lxp_guest_range_ok_def
        guest_range_hi_def uptr_def demo_machine_def demo_mm_def mm_zero_def lxp_slot_ref_def)
  moreover have "\<not> lxp_guest_access_ok (demo_machine\<lparr>mc_slot_generation := (\<lambda>_. 8)\<rparr>) p' 4096 16 True"
    using stale_view_denies_access [OF b, of 0 "demo_machine\<lparr>mc_slot_generation := (\<lambda>_. 8)\<rparr>" 4096 16 True "[]"]
    by (simp add: demo_machine_def lxp_slot_ref_def proc_zero_def)
  ultimately show ?thesis using b by blast
qed

text \<open>C31.  A word stored in guest memory reads back: when the store succeeds and the view
  also grants reading, fetching the address gives the value that was stored.\<close>

theorem guest_word_round_trip:
  assumes "lxp_guest_put_u32 mc p a v = (mc', 0)" "view_grants mc p LXP_GUEST_READ" "v \<le> SIZE_MAX"
  shows "lxp_guest_get_u32 mc' p a = Some v"
proof (cases rule: copy_to_cases [of mc p a "u32_bytes v"])
  case ok
  then have mc': "mc' = mc\<lparr>mc_mem := mem_write (mc_mem mc) a (u32_bytes v)\<rparr>"
    using assms(1) by (simp add: lxp_guest_put_u32_def)
  have "lxp_guest_access_ok mc' p a 4 False"
    using write_access_read [of mc p a 4] ok(1) assms(2) by (simp add: mc')
  then show ?thesis
    using bytes_u32_inverse [OF assms(3)]
    by (simp add: lxp_guest_get_u32_def lxp_copy_from_guest_def mc' mem_simps)
next
  case fault
  with assms(1) show ?thesis by (simp add: lxp_guest_put_u32_def)
qed

theorem guest_word_round_trip_witness:
  "\<exists>mc'. lxp_guest_put_u32 demo_machine (proc_zero\<lparr>p_mm := Some 0\<rparr>) 8188 305419896 = (mc', 0)
     \<and> lxp_guest_get_u32 mc' (proc_zero\<lparr>p_mm := Some 0\<rparr>) 8188 = Some 305419896"
proof -
  obtain mc' where w: "lxp_guest_put_u32 demo_machine (proc_zero\<lparr>p_mm := Some 0\<rparr>) 8188 305419896 = (mc', 0)"
    by (simp add: lxp_guest_put_u32_def lxp_copy_to_guest_def)
  have "view_grants demo_machine (proc_zero\<lparr>p_mm := Some 0\<rparr>) 1" by (simp add: view_grants_def proc_zero_def)
  from guest_word_round_trip [OF w this] w show ?thesis by (auto simp: SIZE_MAX_def)
qed

end
