(* ===== verification/Tmpfs.thy ===== *)
theory Tmpfs
  imports Guest
begin

text \<open>
  The writable file system (\<^verbatim>\<open>src/src/fs/lxp_tmpfs.c\<close>): its table of nodes, the growth of
  a node's block in the pool arena, open counts, removal of names and renaming.  The
  operations work on the flat memory and the \<open>wfs\<close> part of the kernel; the file operations
  that also touch guest memory are in theory \<open>Vfs\<close>.
\<close>

section \<open>The model\<close>

definition wnode_at :: "wfs \<Rightarrow> int \<Rightarrow> wnode" where
  "wnode_at w i = wf_nodes w (nat i)"

definition wnode_put :: "wfs \<Rightarrow> int \<Rightarrow> wnode \<Rightarrow> wfs" where
  "wnode_put w i n = w\<lparr>wf_nodes := (wf_nodes w)(nat i := n)\<rparr>"

definition wnode_is_dir :: "wnode \<Rightarrow> bool" where
  "wnode_is_dir n \<longleftrightarrow> file_type (wn_mode n) = LXP_S_IFDIR"

definition lxp_wfs_find :: "wfs \<Rightarrow> string \<Rightarrow> int" where
  "lxp_wfs_find w abspath =
     (case scan (\<lambda>i. wn_used (wf_nodes w i) \<and> wn_linked (wf_nodes w i) \<and> wn_path (wf_nodes w i) = abspath)
             0 LXP_NWNODE of
        None \<Rightarrow> - 1
      | Some i \<Rightarrow> int i)"

definition lxp_wfs_create :: "wfs \<Rightarrow> string \<Rightarrow> nat \<Rightarrow> wfs \<times> int" where
  "lxp_wfs_create w abspath mode =
     (if length abspath \<ge> LXP_PATH_MAX then (w, - 1)
      else
        (case scan (\<lambda>i. \<not> wn_used (wf_nodes w i)) 0 LXP_NWNODE of
           None \<Rightarrow> (w, - 1)
         | Some i \<Rightarrow>
             (wnode_put w (int i) \<lparr>wn_path = abspath, wn_mode = mode, wn_data = 0, wn_size = 0, wn_cap = 0,
                wn_used = True, wn_open_refs = 0, wn_linked = True\<rparr>, int i)))"

text \<open>The capacity a growing node asks for: at least what is needed, rounded to 256, and
  twice what it has, within the pool.\<close>

definition wfs_max_payload :: nat where
  "wfs_max_payload = LXP_WFS_POOL - LXP_ARENA_ALIGN"

definition wfs_mincap :: "nat \<Rightarrow> nat" where
  "wfs_mincap need = 256 * ((need + 255) div 256)"

definition wfs_newcap :: "nat \<Rightarrow> nat \<Rightarrow> nat" where
  "wfs_newcap cap need =
     (let ncap = (if cap > wfs_max_payload div 2 then wfs_max_payload
                  else if cap * 2 > wfs_mincap need then cap * 2 else wfs_mincap need)
      in if ncap > wfs_max_payload then wfs_max_payload else ncap)"

definition wfs_prepare :: "mem \<Rightarrow> wfs \<Rightarrow> mem \<times> wfs" where
  "wfs_prepare m w =
     (if wf_ready w then (m, w)
      else (case lxp_arena_init m (wf_arena w) (wf_pool w) LXP_WFS_POOL of
              (m', ar', _) \<Rightarrow> (m', w\<lparr>wf_arena := ar', wf_ready := True\<rparr>)))"

definition lxp_wfs_reserve :: "mem \<Rightarrow> wfs \<Rightarrow> int \<Rightarrow> nat \<Rightarrow> mem \<times> wfs \<times> int" where
  "lxp_wfs_reserve m w i need =
     (let n = wnode_at w i in
      if need \<le> wn_cap n then (m, w, 0)
      else if need > wfs_max_payload then (m, w, - 1)
      else if need > SIZE_MAX - 255 then (m, w, - 1)
      else
        (let mincap = wfs_mincap need; ncap = wfs_newcap (wn_cap n) need;
             (m1, w1) = wfs_prepare m w;
             (m2, ar2, nd) = lxp_arena_realloc m1 (wf_arena w1) (wn_data n) ncap;
             (m3, ar3, nd3, ncap3) =
               (if nd = 0 \<and> ncap \<noteq> mincap
                then (case lxp_arena_realloc m2 ar2 (wn_data n) mincap of (m', ar', nd') \<Rightarrow> (m', ar', nd', mincap))
                else (m2, ar2, nd, ncap));
             w3 = w1\<lparr>wf_arena := ar3\<rparr>
         in if nd3 = 0 then (m3, w3, - 1)
            else (m3, wnode_put w3 i (n\<lparr>wn_data := nd3, wn_cap := ncap3\<rparr>), 0)))"

definition wfs_reclaim :: "mem \<Rightarrow> wfs \<Rightarrow> int \<Rightarrow> mem \<times> wfs" where
  "wfs_reclaim m w i =
     (let n = wnode_at w i;
          (m', ar') = (if wn_data n \<noteq> 0 then lxp_arena_free m (wf_arena w) (wn_data n) else (m, wf_arena w))
      in (m', wnode_put (w\<lparr>wf_arena := ar'\<rparr>) i wnode_zero))"

definition lxp_wfs_open :: "wfs \<Rightarrow> int \<Rightarrow> wfs \<times> int" where
  "lxp_wfs_open w i =
     (if i < 0 \<or> i \<ge> int LXP_NWNODE \<or> \<not> wn_used (wnode_at w i) \<or> wn_open_refs (wnode_at w i) = UINT16_MAX
      then (w, - 1)
      else (wnode_put w i ((wnode_at w i)\<lparr>wn_open_refs := wn_open_refs (wnode_at w i) + 1\<rparr>), 0))"

definition lxp_wfs_close :: "mem \<Rightarrow> wfs \<Rightarrow> int \<Rightarrow> mem \<times> wfs" where
  "lxp_wfs_close m w i =
     (if i < 0 \<or> i \<ge> int LXP_NWNODE \<or> \<not> wn_used (wnode_at w i) \<or> wn_open_refs (wnode_at w i) = 0
      then (m, w)
      else
        (let n = (wnode_at w i)\<lparr>wn_open_refs := wn_open_refs (wnode_at w i) - 1\<rparr>; w1 = wnode_put w i n
         in if wn_open_refs n = 0 \<and> \<not> wn_linked n then wfs_reclaim m w1 i else (m, w1)))"

definition wfs_has_descendant :: "wfs \<Rightarrow> string \<Rightarrow> bool" where
  "wfs_has_descendant w dir \<longleftrightarrow>
     scan (\<lambda>j. wn_used (wf_nodes w j) \<and> wn_linked (wf_nodes w j) \<and> wn_path (wf_nodes w j) \<noteq> dir
        \<and> lxp_path_under (wn_path (wf_nodes w j)) dir \<noteq> 0) 0 LXP_NWNODE \<noteq> None"

definition lxp_wfs_free :: "mem \<Rightarrow> wfs \<Rightarrow> int \<Rightarrow> mem \<times> wfs" where
  "lxp_wfs_free m w i =
     (if i < 0 \<or> i \<ge> int LXP_NWNODE \<or> \<not> wn_used (wnode_at w i) then (m, w)
      else
        (let w1 = wnode_put w i ((wnode_at w i)\<lparr>wn_linked := False, wn_path := []\<rparr>)
         in if wn_open_refs (wnode_at w i) = 0 then wfs_reclaim m w1 i else (m, w1)))"

text \<open>The nodes a directory carries along: linked ones below it other than itself.\<close>

definition wfs_carried :: "wfs \<Rightarrow> int \<Rightarrow> nat \<Rightarrow> bool" where
  "wfs_carried w i j \<longleftrightarrow> j \<noteq> nat i \<and> wn_used (wf_nodes w j) \<and> wn_linked (wf_nodes w j)
     \<and> lxp_path_under (wn_path (wf_nodes w j)) (wn_path (wnode_at w i)) \<noteq> 0"

definition wfs_move :: "wfs \<Rightarrow> int \<Rightarrow> bool \<Rightarrow> string \<Rightarrow> wfs" where
  "wfs_move w i is_dir newabs =
     (let old_len = length (wn_path (wnode_at w i));
          moved = (\<lambda>j. if is_dir \<and> j < LXP_NWNODE \<and> wfs_carried w i j
             then (wf_nodes w j)\<lparr>wn_path := newabs @ drop old_len (wn_path (wf_nodes w j))\<rparr> else wf_nodes w j)
      in w\<lparr>wf_nodes := moved(nat i := (moved (nat i))\<lparr>wn_path := newabs\<rparr>)\<rparr>)"

definition lxp_wfs_rename :: "mem \<Rightarrow> wfs \<Rightarrow> int \<Rightarrow> string \<Rightarrow> mem \<times> wfs \<times> int" where
  "lxp_wfs_rename m w i newabs =
     (let node = wnode_at w i; old_len = length (wn_path node); new_len = length newabs in
      if wn_path node = newabs then (m, w, 0)
      else if new_len \<ge> LXP_PATH_MAX then (m, w, - LXP_ENAMETOOLONG)
      else
        (let is_dir = wnode_is_dir node in
         if is_dir \<and> lxp_path_under newabs (wn_path node) \<noteq> 0 then (m, w, - LXP_EINVAL)
         else
           (let di = lxp_wfs_find w newabs in
            if di \<ge> 0 \<and> wfs_has_descendant w newabs then (m, w, - LXP_ENOTEMPTY)
            else if is_dir \<and> scan (\<lambda>j. wfs_carried w i j
                 \<and> length (wn_path (wf_nodes w j)) - old_len + new_len \<ge> LXP_PATH_MAX) 0 LXP_NWNODE \<noteq> None
            then (m, w, - LXP_ENAMETOOLONG)
            else
              (let (m1, w1) = (if di \<ge> 0 then lxp_wfs_free m w di else (m, w))
               in (m1, wfs_move w1 i is_dir newabs, 0)))))"

section \<open>Invariant\<close>

definition wnode_fine :: "wnode \<Rightarrow> bool" where
  "wnode_fine n \<longleftrightarrow> (\<not> wn_used n \<longrightarrow> n = wnode_zero) \<and> wn_size n \<le> wn_cap n \<and> (wn_data n = 0 \<longrightarrow> wn_cap n = 0)
     \<and> wn_open_refs n \<le> UINT16_MAX \<and> (wn_linked n \<longrightarrow> wn_used n) \<and> (wn_used n \<and> \<not> wn_linked n \<longrightarrow> 0 < wn_open_refs n)
     \<and> length (wn_path n) < LXP_PATH_MAX"

definition wfs_region :: "wfs \<Rightarrow> nat set" where
  "wfs_region w = {wf_pool w..<wf_pool w + LXP_WFS_POOL}"

definition wfs_heap_ok :: "mem \<Rightarrow> wfs \<Rightarrow> bool" where
  "wfs_heap_ok m w \<longleftrightarrow> wf_pool w \<noteq> 0 \<and> wf_pool w mod LXP_ARENA_ALIGN = 0 \<and> wf_pool w + LXP_WFS_POOL \<le> SIZE_MAX
     \<and> (wf_ready w \<longrightarrow> arena_good (m, wf_arena w) \<and> arena_region (m, wf_arena w) = wfs_region w)"

definition wfs_blocks_ok :: "mem \<Rightarrow> wfs \<Rightarrow> bool" where
  "wfs_blocks_ok m w \<longleftrightarrow>
     (\<forall>i < LXP_NWNODE. wn_data (wf_nodes w i) \<noteq> 0 \<longrightarrow>
        wf_ready w \<and> (\<exists>l. (wn_data (wf_nodes w i), l) \<in> arena_live (m, wf_arena w) \<and> wn_cap (wf_nodes w i) \<le> l))
     \<and> (\<forall>i < LXP_NWNODE. \<forall>j < LXP_NWNODE. i \<noteq> j \<longrightarrow> wn_data (wf_nodes w i) \<noteq> 0 \<longrightarrow>
          wn_data (wf_nodes w i) \<noteq> wn_data (wf_nodes w j))"

definition wfs_ok :: "mem \<Rightarrow> wfs \<Rightarrow> bool" where
  "wfs_ok m w \<longleftrightarrow> wfs_heap_ok m w \<and> wfs_blocks_ok m w \<and> (\<forall>i < LXP_NWNODE. wnode_fine (wf_nodes w i))"

text \<open>The bytes of a file.\<close>

definition wfs_bytes :: "mem \<Rightarrow> wfs \<Rightarrow> nat \<Rightarrow> byte list" where
  "wfs_bytes m w i = mem_read m (wn_data (wf_nodes w i)) (wn_size (wf_nodes w i))"

lemma wnode_zero_fine [simp]: "wnode_fine wnode_zero"
  by (simp add: wnode_fine_def config_defs)

lemma wnode_put_simps [simp]:
  "wf_nodes (wnode_put w i n) = (wf_nodes w)(nat i := n)" "wf_arena (wnode_put w i n) = wf_arena w"
  "wf_ready (wnode_put w i n) = wf_ready w" "wf_pool (wnode_put w i n) = wf_pool w"
  by (simp_all add: wnode_put_def)

lemma wfs_region_simps [simp]:
  "wfs_region (wnode_put w i n) = wfs_region w" "wfs_region (w\<lparr>wf_arena := ar\<rparr>) = wfs_region w"
  "wfs_region (w\<lparr>wf_nodes := ns\<rparr>) = wfs_region w" "wfs_region (w\<lparr>wf_arena := ar, wf_ready := b\<rparr>) = wfs_region w"
  by (simp_all add: wfs_region_def)

lemma wfs_blockE:
  assumes "wfs_blocks_ok m w" "i < LXP_NWNODE" "wn_data (wf_nodes w i) \<noteq> 0"
  obtains l where "wf_ready w" "(wn_data (wf_nodes w i), l) \<in> arena_live (m, wf_arena w)" "wn_cap (wf_nodes w i) \<le> l"
  using assms unfolding wfs_blocks_ok_def by blast

lemma wfs_heapD:
  assumes "wfs_heap_ok m w" "wf_ready w"
  shows "arena_good (m, wf_arena w)" "arena_region (m, wf_arena w) = wfs_region w"
  using assms by (simp_all add: wfs_heap_ok_def)

text \<open>Memory changed only outside the pool.\<close>

lemma wfs_outside:
  assumes ok: "wfs_ok m w" and out: "\<And>x. x \<in> wfs_region w \<Longrightarrow> m' x = m x"
  shows "wfs_ok m' w" "\<And>i. i < LXP_NWNODE \<Longrightarrow> wfs_bytes m' w i = wfs_bytes m w i"
proof -
  have heap: "wfs_heap_ok m w" and blk: "wfs_blocks_ok m w" using ok by (simp_all add: wfs_ok_def)
  have L: "arena_good (m', wf_arena w)" "arena_live (m', wf_arena w) = arena_live (m, wf_arena w)" if r: "wf_ready w"
    using arena_heap.outside_ok [OF wfs_heapD(1) [OF heap r], of m'] out wfs_heapD(2) [OF heap r]
    by (auto simp: arena_put_def)
  have "wfs_heap_ok m' w" using heap L by (auto simp: wfs_heap_ok_def arena_region_def)
  moreover have "wfs_blocks_ok m' w" using blk L unfolding wfs_blocks_ok_def by metis
  ultimately show "wfs_ok m' w" using ok by (simp add: wfs_ok_def)
  show "wfs_bytes m' w i = wfs_bytes m w i" if i: "i < LXP_NWNODE" for i
  proof (cases "wn_data (wf_nodes w i) = 0")
    case True
    then have "wn_size (wf_nodes w i) = 0" using ok i by (auto simp: wfs_ok_def wnode_fine_def)
    then show ?thesis by (simp add: wfs_bytes_def)
  next
    case False
    then obtain l where l: "wf_ready w" "(wn_data (wf_nodes w i), l) \<in> arena_live (m, wf_arena w)"
      "wn_cap (wf_nodes w i) \<le> l" using wfs_blockE [OF blk i] by metis
    have "wn_size (wf_nodes w i) \<le> l" using ok i l(3) by (auto simp: wfs_ok_def wnode_fine_def)
    then show ?thesis
      using arena_heap.outside_reads [OF wfs_heapD(1) [OF heap l(1)] _ l(2), of m'] out wfs_heapD(2) [OF heap l(1)]
      by (simp add: wfs_bytes_def)
  qed
qed

section \<open>Growing a node\<close>

lemma arena_init_pool:
  assumes "pool \<noteq> 0" "pool mod LXP_ARENA_ALIGN = 0" "pool + LXP_WFS_POOL \<le> SIZE_MAX"
  obtains m' ar' where "lxp_arena_init m ar pool LXP_WFS_POOL = (m', ar', LXP_OK)"
    "a_base ar' = pool" "a_size ar' = LXP_WFS_POOL" "\<forall>x. x \<notin> {pool..<pool + LXP_WFS_POOL} \<longrightarrow> m' x = m x"
proof -
  have al: "align_down (pool + 15) = pool" "align_down 65536 = 65536"
    using assms(2) by (auto simp: align_down_def mod_add_left_eq [of pool, symmetric])
  obtain m' ar' r where i: "lxp_arena_init m ar pool LXP_WFS_POOL = (m', ar', r)" by (metis prod_cases3)
  then have "r = LXP_OK \<and> a_base ar' = pool \<and> a_size ar' = LXP_WFS_POOL
      \<and> (\<forall>x. x \<notin> {pool..<pool + LXP_WFS_POOL} \<longrightarrow> m' x = m x)"
    using assms(1,3) al
    by (auto simp: lxp_arena_init_def Let_def arena_lay_first_def arena_clear_mappings_def LXP_WFS_POOL_def
        SIZE_MAX_def hdr_simps)
  then show thesis using that i by blast
qed

lemma wfs_prepare_ok:
  assumes ok: "wfs_ok m w" and p: "wfs_prepare m w = (m1, w1)"
  shows "wfs_ok m1 w1" "wf_ready w1" "wf_nodes w1 = wf_nodes w" "wf_pool w1 = wf_pool w"
    "\<And>x. x \<notin> wfs_region w \<Longrightarrow> m1 x = m x" "\<And>i. i < LXP_NWNODE \<Longrightarrow> wfs_bytes m1 w1 i = wfs_bytes m w i"
proof -
  have goal: "wfs_ok m1 w1 \<and> wf_ready w1 \<and> wf_nodes w1 = wf_nodes w \<and> wf_pool w1 = wf_pool w
    \<and> (\<forall>x. x \<notin> wfs_region w \<longrightarrow> m1 x = m x) \<and> (\<forall>i < LXP_NWNODE. wfs_bytes m1 w1 i = wfs_bytes m w i)"
  proof (cases "wf_ready w")
    case True
    with ok p show ?thesis by (simp add: wfs_prepare_def)
  next
    case False
    have h: "wf_pool w \<noteq> 0" "wf_pool w mod LXP_ARENA_ALIGN = 0" "wf_pool w + LXP_WFS_POOL \<le> SIZE_MAX"
      using ok by (simp_all add: wfs_ok_def wfs_heap_ok_def)
    obtain m' ar' where i: "lxp_arena_init m (wf_arena w) (wf_pool w) LXP_WFS_POOL = (m', ar', LXP_OK)"
      "a_base ar' = wf_pool w" "a_size ar' = LXP_WFS_POOL"
      "\<forall>x. x \<notin> {wf_pool w..<wf_pool w + LXP_WFS_POOL} \<longrightarrow> m' x = m x"
      using arena_init_pool [OF h] .
    have w1: "m1 = m'" "w1 = w\<lparr>wf_arena := ar', wf_ready := True\<rparr>"
      using p False i(1) by (simp_all add: wfs_prepare_def)
    have none: "wn_data (wf_nodes w i) = 0" if "i < LXP_NWNODE" for i
      using ok that False unfolding wfs_ok_def wfs_blocks_ok_def by blast
    then have zero: "wn_size (wf_nodes w i) = 0" if "i < LXP_NWNODE" for i
      using ok that unfolding wfs_ok_def wnode_fine_def by fastforce
    have "arena_good (m', ar')" using arena_init_good(1) [OF i(1) h(3)] .
    then have "wfs_ok m1 w1"
      using ok none i(2,3) h
      by (simp add: wfs_ok_def wfs_heap_ok_def wfs_blocks_ok_def w1 arena_region_def wfs_region_def)
    then show ?thesis using i(4) zero by (simp add: w1 wfs_region_def wfs_bytes_def)
  qed
  then show "wfs_ok m1 w1" "wf_ready w1" "wf_nodes w1 = wf_nodes w" "wf_pool w1 = wf_pool w"
    "\<And>x. x \<notin> wfs_region w \<Longrightarrow> m1 x = m x" "\<And>i. i < LXP_NWNODE \<Longrightarrow> wfs_bytes m1 w1 i = wfs_bytes m w i"
    by blast+
qed

lemma arena_grow_s:
  assumes g: "arena_good s" and d: "d = 0 \<or> (d, l) \<in> arena_live s"
    and r: "arena_realloc_s s d n = (s', q)" and q: "q \<noteq> 0"
  obtains k where "arena_good s'" "n \<le> k" "arena_live s' = insert (q, k) (arena_live s - {(d, l)})"
    "keeps (arena_live s - {(d, l)}) (fst s) (fst s')"
    "d \<noteq> 0 \<longrightarrow> mem_read (fst s') q (min l n) = mem_read (fst s) d (min l n)"
    "\<forall>a j. (a, j) \<in> arena_live s - {(d, l)} \<longrightarrow> a \<noteq> q"
proof (cases "d = 0")
  case True
  have a: "arena_alloc_s s n = (s', q)" using r by (simp add: True arena_realloc_s_null)
  note A = arena_alloc_s_cases [OF g a]
  then obtain k where k: "n \<le> k" "arena_live s' = insert (q, k) (arena_live s)"
    "\<forall>(a, j) \<in> arena_live s. a + j \<le> q \<or> q + k \<le> a" using q by blast
  have no: "arena_live s - {(d, l)} = arena_live s" using arena_heap.live_nonzero [OF g] True by blast
  have good: "arena_good s'" using A by blast
  have "a \<noteq> q" if "(a, j) \<in> arena_live s" for a j
    using k(3) that arena_heap.live_nonzero [OF g that] arena_heap.live_nonzero [OF good, of q k] k(2) by fastforce
  then show thesis using that [OF good k(1)] A k(2) True unfolding no by blast
next
  case False
  with d have l: "(d, l) \<in> arena_live s" by simp
  note R = arena_realloc_s_cases [OF g l r]
  then obtain k where k: "n \<le> k" "arena_live s' = insert (q, k) (arena_live s - {(d, l)})"
    "mem_read (fst s') q (min l n) = mem_read (fst s) d (min l n)" using q by blast
  have "a \<noteq> q" if "(a, j) \<in> arena_live s - {(d, l)}" for a j
    using R q that arena_heap.live_unique [OF g, of d j l] l by auto
  then show thesis using that k R q by blast
qed

lemma wfs_resize:
  assumes ok: "wfs_ok m w" and rdy: "wf_ready w" and i: "i < LXP_NWNODE" "wn_used (wf_nodes w i)"
    and r: "arena_realloc_s (m, wf_arena w) (wn_data (wf_nodes w i)) n = ((m2, ar2), q)" and q: "q \<noteq> 0"
    and n: "wn_cap (wf_nodes w i) \<le> n"
    and w': "w' = wnode_put (w\<lparr>wf_arena := ar2\<rparr>) (int i) ((wf_nodes w i)\<lparr>wn_data := q, wn_cap := n\<rparr>)"
  shows "wfs_ok m2 w' \<and> (\<forall>j < LXP_NWNODE. wfs_bytes m2 w' j = wfs_bytes m w j)"
proof -
  let ?d = "wn_data (wf_nodes w i)" and ?s = "(m, wf_arena w)"
  have heap: "wfs_heap_ok m w" and blk: "wfs_blocks_ok m w" and fine: "\<And>j. j < LXP_NWNODE \<Longrightarrow> wnode_fine (wf_nodes w j)"
    using ok by (simp_all add: wfs_ok_def)
  note g = wfs_heapD(1) [OF heap rdy]
  obtain l where l: "?d = 0 \<or> (?d, l) \<in> arena_live ?s" "?d \<noteq> 0 \<longrightarrow> wn_cap (wf_nodes w i) \<le> l"
    using wfs_blockE [OF blk i(1)] by metis
  obtain k where k: "arena_good (m2, ar2)" "n \<le> k" "arena_live (m2, ar2) = insert (q, k) (arena_live ?s - {(?d, l)})"
    "keeps (arena_live ?s - {(?d, l)}) m m2"
    "?d \<noteq> 0 \<longrightarrow> mem_read m2 q (min l n) = mem_read m ?d (min l n)"
    "\<forall>a j. (a, j) \<in> arena_live ?s - {(?d, l)} \<longrightarrow> a \<noteq> q"
    using arena_grow_s [OF g l(1) r q] by auto
  have region: "arena_region (m2, ar2) = wfs_region w"
    using arena_heap.realloc_region [OF g l(1), of n] r wfs_heapD(2) [OF heap rdy] by simp
  have other: "\<exists>lj. (wn_data (wf_nodes w j), lj) \<in> arena_live ?s - {(?d, l)} \<and> wn_cap (wf_nodes w j) \<le> lj"
    if j: "j < LXP_NWNODE" "j \<noteq> i" "wn_data (wf_nodes w j) \<noteq> 0" for j
  proof -
    obtain lj where "(wn_data (wf_nodes w j), lj) \<in> arena_live ?s" "wn_cap (wf_nodes w j) \<le> lj"
      using wfs_blockE [OF blk j(1,3)] by metis
    moreover have "wn_data (wf_nodes w j) \<noteq> ?d" using blk i(1) j unfolding wfs_blocks_ok_def by blast
    ultimately show ?thesis by auto
  qed
  have heap': "wfs_heap_ok m2 w'" using heap k(1) region by (simp add: w' wfs_heap_ok_def)
  have fresh: "wn_data (wf_nodes w j) \<noteq> q" if j: "j < LXP_NWNODE" "j \<noteq> i" for j
  proof
    assume "wn_data (wf_nodes w j) = q"
    with other [OF j] q k(6) show False by blast
  qed
  have live': "\<exists>lj. (wn_data (wf_nodes w' j), lj) \<in> arena_live (m2, ar2) \<and> wn_cap (wf_nodes w' j) \<le> lj"
    if j: "j < LXP_NWNODE" "wn_data (wf_nodes w' j) \<noteq> 0" for j
  proof (cases "j = i")
    case True
    then show ?thesis using k(2,3) by (auto simp: w')
  next
    case False
    with j other [of j] k(3) show ?thesis by (auto simp: w')
  qed
  have dist: "wn_data (wf_nodes w' j) \<noteq> wn_data (wf_nodes w' j')"
    if "j < LXP_NWNODE" "j' < LXP_NWNODE" "j \<noteq> j'" "wn_data (wf_nodes w' j) \<noteq> 0" for j j'
  proof -
    have "wn_data (wf_nodes w j) \<noteq> wn_data (wf_nodes w j')" if "wn_data (wf_nodes w j) \<noteq> 0"
      using blk \<open>j < LXP_NWNODE\<close> \<open>j' < LXP_NWNODE\<close> \<open>j \<noteq> j'\<close> that unfolding wfs_blocks_ok_def by blast
    then show ?thesis using that fresh [of j] fresh [of j'] by (auto simp: w')
  qed
  have blk': "wfs_blocks_ok m2 w'"
    unfolding wfs_blocks_ok_def using live' dist rdy by (simp add: w')
  have fine': "wnode_fine (wf_nodes w' j)" if "j < LXP_NWNODE" for j
    using fine [OF that] fine [OF i(1)] n q i(2) by (auto simp: w' wnode_fine_def)
  have bytes: "wfs_bytes m2 w' j = wfs_bytes m w j" if j: "j < LXP_NWNODE" for j
  proof (cases "j = i")
    case True
    have sz: "wn_size (wf_nodes w i) \<le> wn_cap (wf_nodes w i)" "?d = 0 \<longrightarrow> wn_cap (wf_nodes w i) = 0"
      using fine [OF i(1)] by (auto simp: wnode_fine_def)
    show ?thesis
    proof (cases "?d = 0")
      case True
      with sz have "wn_size (wf_nodes w i) = 0" by simp
      then show ?thesis using \<open>j = i\<close> by (simp add: wfs_bytes_def w')
    next
      case False
      then have "mem_read m2 q (wn_size (wf_nodes w i)) = mem_read m ?d (wn_size (wf_nodes w i))"
        using k(5) l(2) sz(1) n mem_read_prefix [of m2 q "min l n" m ?d "wn_size (wf_nodes w i)"] by auto
      then show ?thesis using \<open>j = i\<close> by (simp add: wfs_bytes_def w')
    qed
  next
    case False
    show ?thesis
    proof (cases "wn_data (wf_nodes w j) = 0")
      case True
      then have "wn_size (wf_nodes w j) = 0" using fine [OF j] by (auto simp: wnode_fine_def)
      then show ?thesis using False by (simp add: wfs_bytes_def w')
    next
      case nz: False
      from other [OF j False nz] obtain lj where lj: "(wn_data (wf_nodes w j), lj) \<in> arena_live ?s - {(?d, l)}"
        "wn_cap (wf_nodes w j) \<le> lj" by blast
      have "wn_size (wf_nodes w j) \<le> lj" using fine [OF j] lj(2) by (auto simp: wnode_fine_def)
      from mem_read_prefix [OF keepsD [OF k(4) lj(1)] this] False show ?thesis by (simp add: wfs_bytes_def w')
    qed
  qed
  show ?thesis using heap' blk' fine' bytes by (simp add: wfs_ok_def)
qed

lemma wfs_mincap_ge: "need \<le> wfs_mincap need"
proof -
  have "256 * ((need + 255) div 256) + (need + 255) mod 256 = need + 255" by simp
  moreover have "(need + 255) mod 256 \<le> 255" using mod_less_divisor [of 256 "need + 255"] by linarith
  ultimately show ?thesis unfolding wfs_mincap_def by linarith
qed

lemma wfs_newcap_ge: "need \<le> wfs_max_payload \<Longrightarrow> need \<le> wfs_newcap cap need"
  using wfs_mincap_ge [of need] by (simp add: wfs_newcap_def Let_def)

lemma wfs_reserve_ok:
  assumes ok: "wfs_ok m w" and i: "i < LXP_NWNODE" "wn_used (wf_nodes w i)"
    and r: "lxp_wfs_reserve m w (int i) need = (m', w', rc)"
  shows "wfs_ok m' w' \<and> (\<forall>j < LXP_NWNODE. wfs_bytes m' w' j = wfs_bytes m w j)
    \<and> (\<forall>x. x \<notin> wfs_region w \<longrightarrow> m' x = m x) \<and> wf_pool w' = wf_pool w
    \<and> (\<exists>q c. wf_nodes w' = (wf_nodes w)(i := (wf_nodes w i)\<lparr>wn_data := q, wn_cap := c\<rparr>)
         \<and> (rc = 0 \<and> need \<le> c \<or> rc = - 1 \<and> q = wn_data (wf_nodes w i) \<and> c = wn_cap (wf_nodes w i)))"
proof -
  let ?n = "wf_nodes w i"
  have same: "wf_nodes w = (wf_nodes w)(i := ?n\<lparr>wn_data := wn_data ?n, wn_cap := wn_cap ?n\<rparr>)" by simp
  consider (fits) "need \<le> wn_cap ?n" "m' = m" "w' = w" "rc = 0"
    | (big) "wn_cap ?n < need" "m' = m" "w' = w" "rc = - 1"
    | (grow) "wn_cap ?n < need" "need \<le> wfs_max_payload" "\<not> need > SIZE_MAX - 255"
    using r by (auto simp: lxp_wfs_reserve_def Let_def wnode_at_def split: if_splits)
  then show ?thesis
  proof cases
    case fits
    then show ?thesis using ok same by (metis order_refl)
  next
    case big
    then show ?thesis using ok same by metis
  next
    case grow
    obtain m1 w1 where p: "wfs_prepare m w = (m1, w1)" by (metis surj_pair)
    note P = wfs_prepare_ok [OF ok p]
    let ?d = "wn_data ?n" and ?big = "wfs_newcap (wn_cap ?n) need" and ?min = "wfs_mincap need"
    have used1: "wn_used (wf_nodes w1 i)" using i(2) P(3) by simp
    have cap: "wn_cap (wf_nodes w1 i) \<le> ?big" "wn_cap (wf_nodes w1 i) \<le> ?min"
      using grow wfs_newcap_ge [OF grow(2)] wfs_mincap_ge [of need] P(3) by (auto intro: order_trans less_imp_le)
    have heap1: "wfs_heap_ok m1 w1" and blk1: "wfs_blocks_ok m1 w1" using P(1) by (simp_all add: wfs_ok_def)
    note g1 = wfs_heapD(1) [OF heap1 P(2)]
    obtain l where l: "?d = 0 \<or> (?d, l) \<in> arena_live (m1, wf_arena w1)"
      using wfs_blockE [OF blk1 i(1)] P(3) by metis
    have region: "arena_region (m1, wf_arena w1) = wfs_region w"
      using wfs_heapD(2) [OF heap1 P(2)] P(4) by (simp add: wfs_region_def)
    have out: "m2 x = m x" if "arena_realloc_s (m1, wf_arena w1) ?d c = ((m2, ar2), nd)" "x \<notin> wfs_region w" for c m2 ar2 nd x
      using arena_heap.realloc_outside [OF g1, of x ?d c] that P(5) region by simp
    have finish: ?thesis
      if a: "arena_realloc_s (m1, wf_arena w1) ?d c = ((m2, ar2), nd)" "nd \<noteq> 0" "wn_cap (wf_nodes w1 i) \<le> c" "need \<le> c"
        and e: "m' = m2" "w' = wnode_put (w1\<lparr>wf_arena := ar2\<rparr>) (int i) (?n\<lparr>wn_data := nd, wn_cap := c\<rparr>)" "rc = 0"
      for c m2 ar2 nd
    proof -
      have "wfs_ok m' w' \<and> (\<forall>j < LXP_NWNODE. wfs_bytes m' w' j = wfs_bytes m1 w1 j)"
        unfolding e(1) by (rule wfs_resize [OF P(1,2) i(1) used1 _ a(2,3)]) (use a(1) e(2) P(3) in simp_all)
      then show ?thesis using P(3,4,6) out [OF a(1)] e a(4) by auto
    qed
    have stuck: ?thesis
      if e: "m' = m1" "w' = w1" "rc = - 1"
      using e P same by auto
    obtain m2 ar2 nd where r2: "lxp_arena_realloc m1 (wf_arena w1) ?d ?big = (m2, ar2, nd)" by (metis prod_cases3)
    then have s2: "arena_realloc_s (m1, wf_arena w1) ?d ?big = ((m2, ar2), nd)" by (simp add: arena_realloc_s_def)
    have w1_id: "w1\<lparr>wf_arena := wf_arena w1\<rparr> = w1" by simp
    show ?thesis
    proof (cases "nd = 0")
      case False
      then have "m' = m2" "w' = wnode_put (w1\<lparr>wf_arena := ar2\<rparr>) (int i) (?n\<lparr>wn_data := nd, wn_cap := ?big\<rparr>)" "rc = 0"
        using r grow by (auto simp: lxp_wfs_reserve_def Let_def wnode_at_def p r2)
      with finish [OF s2 False cap(1) wfs_newcap_ge [OF grow(2)]] show ?thesis by blast
    next
      case True
      then have f: "m2 = m1" "ar2 = wf_arena w1"
        using arena_heap.realloc_fails [OF g1 l] s2 by auto
      show ?thesis
      proof (cases "?big = ?min")
        case True
        then have "m' = m1" "w' = w1" "rc = - 1"
          using r grow f \<open>nd = 0\<close> r2 by (auto simp: lxp_wfs_reserve_def Let_def wnode_at_def p)
        then show ?thesis by (rule stuck)
      next
        case False
        obtain m3 ar3 nd3 where r3: "lxp_arena_realloc m1 (wf_arena w1) ?d ?min = (m3, ar3, nd3)" by (metis prod_cases3)
        then have s3: "arena_realloc_s (m1, wf_arena w1) ?d ?min = ((m3, ar3), nd3)" by (simp add: arena_realloc_s_def)
        show ?thesis
        proof (cases "nd3 = 0")
          case True
          then have "m3 = m1" "ar3 = wf_arena w1" using arena_heap.realloc_fails [OF g1 l] s3 by auto
          then have "m' = m1" "w' = w1" "rc = - 1"
            using r grow f \<open>nd = 0\<close> r2 r3 True False by (auto simp: lxp_wfs_reserve_def Let_def wnode_at_def p)
          then show ?thesis by (rule stuck)
        next
          case nz: False
          then have "m' = m3" "w' = wnode_put (w1\<lparr>wf_arena := ar3\<rparr>) (int i) (?n\<lparr>wn_data := nd3, wn_cap := ?min\<rparr>)" "rc = 0"
            using r grow f \<open>nd = 0\<close> r2 r3 False by (auto simp: lxp_wfs_reserve_def Let_def wnode_at_def p)
          with finish [OF s3 nz cap(2) wfs_mincap_ge] show ?thesis by blast
        qed
      qed
    qed
  qed
qed

section \<open>Storing bytes\<close>

lemma mem_fill_write: "mem_fill m a n v = mem_write m a (replicate n v)"
  by (rule ext) (auto simp: mem_fill_def mem_write_def)

lemma mem_read_take: "n \<le> k \<Longrightarrow> mem_read m a n = take n (mem_read m a k)"
  by (auto simp: mem_read_def take_map)

lemma mem_read_write_inside:
  assumes "off + length bs \<le> n"
  shows "mem_read (mem_write m (a + off) bs) a n
    = take off (mem_read m a n) @ bs @ drop (off + length bs) (mem_read m a n)"
  by (rule nth_equalityI) (use assms in \<open>auto simp: mem_simps nth_append mem_write_def\<close>)

text \<open>What a write at an offset makes of the bytes of a file: the gap up to the offset reads
  as zeros, what follows the written bytes stays.\<close>

definition file_write :: "byte list \<Rightarrow> nat \<Rightarrow> byte list \<Rightarrow> byte list" where
  "file_write c off bs = take off (c @ replicate (off - length c) 0) @ bs @ drop (off + length bs) c"

definition file_truncate :: "byte list \<Rightarrow> nat \<Rightarrow> byte list" where
  "file_truncate c n = take n c @ replicate (n - length c) 0"

lemma length_file_write: "length (file_write c off bs) = max (length c) (off + length bs)"
  by (auto simp: file_write_def)

lemma length_file_truncate [simp]: "length (file_truncate c n) = n"
  by (auto simp: file_truncate_def)

lemma wfs_store:
  assumes ok: "wfs_ok m w" and i: "i < LXP_NWNODE" and fit: "off + length bs \<le> wn_cap (wf_nodes w i)"
    and m': "m' = mem_write m (wn_data (wf_nodes w i) + off) bs"
  shows "wfs_ok m' w" "\<And>j. j < LXP_NWNODE \<Longrightarrow> j \<noteq> i \<Longrightarrow> wfs_bytes m' w j = wfs_bytes m w j"
    "\<And>x. x \<notin> wfs_region w \<Longrightarrow> m' x = m x"
proof -
  let ?d = "wn_data (wf_nodes w i)"
  have heap: "wfs_heap_ok m w" and blk: "wfs_blocks_ok m w" and fine: "\<And>j. j < LXP_NWNODE \<Longrightarrow> wnode_fine (wf_nodes w j)"
    using ok by (simp_all add: wfs_ok_def)
  have goal: "wfs_ok m' w \<and> (\<forall>j. j < LXP_NWNODE \<longrightarrow> j \<noteq> i \<longrightarrow> wfs_bytes m' w j = wfs_bytes m w j)
    \<and> (\<forall>x. x \<notin> wfs_region w \<longrightarrow> m' x = m x)"
  proof (cases "?d = 0")
    case True
    then have "bs = []" using fine [OF i] fit by (simp add: wnode_fine_def)
    then show ?thesis using ok m' by simp
  next
    case False
    then obtain l where l: "wf_ready w" "(?d, l) \<in> arena_live (m, wf_arena w)" "wn_cap (wf_nodes w i) \<le> l"
      using wfs_blockE [OF blk i] by metis
    note g = wfs_heapD [OF heap l(1)]
    have b: "?d \<le> ?d + off" "?d + off + length bs \<le> ?d + l" using fit l(3) by simp_all
    have put: "arena_put (m, wf_arena w) (mem_write m (?d + off) bs) = (m', wf_arena w)"
      by (simp add: arena_put_def m')
    have good: "arena_good (m', wf_arena w)" and live: "arena_live (m', wf_arena w) = arena_live (m, wf_arena w)"
      using arena_heap.store_ok [OF g(1) l(2) b] put by simp_all
    have "wfs_ok m' w"
      using ok good live g(2) by (simp add: wfs_ok_def wfs_heap_ok_def wfs_blocks_ok_def arena_region_def)
    moreover have "wfs_bytes m' w j = wfs_bytes m w j" if j: "j < LXP_NWNODE" "j \<noteq> i" for j
    proof (cases "wn_data (wf_nodes w j) = 0")
      case True
      then have "wn_size (wf_nodes w j) = 0" using fine [OF j(1)] by (auto simp: wnode_fine_def)
      then show ?thesis by (simp add: wfs_bytes_def)
    next
      case nz: False
      then obtain lj where lj: "(wn_data (wf_nodes w j), lj) \<in> arena_live (m, wf_arena w)" "wn_cap (wf_nodes w j) \<le> lj"
        using wfs_blockE [OF blk j(1)] by metis
      have "wn_data (wf_nodes w j) \<noteq> ?d" using blk i j nz unfolding wfs_blocks_ok_def by metis
      then have "mem_read m' (wn_data (wf_nodes w j)) lj = mem_read m (wn_data (wf_nodes w j)) lj"
        using arena_heap.store_keeps [OF g(1) l(2) b lj(1)] by (simp add: m')
      moreover have "wn_size (wf_nodes w j) \<le> lj" using fine [OF j(1)] lj(2) by (auto simp: wnode_fine_def)
      ultimately show ?thesis unfolding wfs_bytes_def by (rule mem_read_prefix)
    qed
    moreover have "m' x = m x" if "x \<notin> wfs_region w" for x
      using arena_heap.live_region [OF g(1) l(2), of x] g(2) that b by (auto simp: m' mem_write_def)
    ultimately show ?thesis by blast
  qed
  then show "wfs_ok m' w" "\<And>j. j < LXP_NWNODE \<Longrightarrow> j \<noteq> i \<Longrightarrow> wfs_bytes m' w j = wfs_bytes m w j"
    "\<And>x. x \<notin> wfs_region w \<Longrightarrow> m' x = m x" by blast+
qed

lemma wfs_set_size:
  assumes "wfs_ok m w" "i < LXP_NWNODE" "n \<le> wn_cap (wf_nodes w i)" "wn_used (wf_nodes w i)"
  shows "wfs_ok m (wnode_put w (int i) ((wf_nodes w i)\<lparr>wn_size := n\<rparr>))"
proof -
  have f: "wnode_fine (wf_nodes w i)" using assms by (simp add: wfs_ok_def)
  have "wnode_fine ((wf_nodes w i)\<lparr>wn_size := n\<rparr>)" using f assms(3,4) by (auto simp: wnode_fine_def)
  then show ?thesis using assms(1) by (auto simp: wfs_ok_def wfs_heap_ok_def wfs_blocks_ok_def)
qed

text \<open>The hole up to an offset is zeroed; this changes no file yet.\<close>

lemma wfs_zero_hole:
  assumes ok: "wfs_ok m w" and i: "i < LXP_NWNODE" and fit: "n \<le> wn_cap (wf_nodes w i)"
    and m': "m' = mem_fill m (wn_data (wf_nodes w i) + wn_size (wf_nodes w i)) (n - wn_size (wf_nodes w i)) 0"
  shows "wfs_ok m' w" "\<And>j. j < LXP_NWNODE \<Longrightarrow> wfs_bytes m' w j = wfs_bytes m w j"
    "\<And>x. x \<notin> wfs_region w \<Longrightarrow> m' x = m x"
    "k \<le> n \<Longrightarrow> mem_read m' (wn_data (wf_nodes w i)) k = file_truncate (wfs_bytes m w i) k"
proof -
  let ?n = "wf_nodes w i" and ?z = "replicate (n - wn_size (wf_nodes w i)) (0 :: byte)"
  have m2: "m' = mem_write m (wn_data ?n + wn_size ?n) ?z" by (simp add: m' mem_fill_write)
  have sz: "wn_size ?n \<le> wn_cap ?n" using ok i by (auto simp: wfs_ok_def wnode_fine_def)
  have "wn_size ?n + length ?z \<le> wn_cap ?n" using fit sz by auto
  note S = wfs_store [OF ok i this m2]
  show "wfs_ok m' w" "\<And>x. x \<notin> wfs_region w \<Longrightarrow> m' x = m x" by (rule S)+ simp
  show "wfs_bytes m' w j = wfs_bytes m w j" if "j < LXP_NWNODE" for j
  proof (cases "j = i")
    case True
    have "mem_read m' (wn_data ?n) (wn_size ?n) = mem_read m (wn_data ?n) (wn_size ?n)"
      unfolding m2 by (rule mem_read_write_other) simp
    then show ?thesis by (simp add: True wfs_bytes_def)
  next
    case False
    then show ?thesis using S(2) that by blast
  qed
  show "mem_read m' (wn_data ?n) k = file_truncate (wfs_bytes m w i) k" if "k \<le> n"
    by (rule nth_equalityI)
      (use that in \<open>auto simp: m2 mem_simps file_truncate_def wfs_bytes_def nth_append mem_write_def\<close>)
qed

lemma wfs_write_bytes:
  assumes ok: "wfs_ok m w" and i: "i < LXP_NWNODE" "wn_used (wf_nodes w i)"
    and fit: "off + length bs \<le> wn_cap (wf_nodes w i)"
    and m1: "m1 = (if off > wn_size (wf_nodes w i)
      then mem_fill m (wn_data (wf_nodes w i) + wn_size (wf_nodes w i)) (off - wn_size (wf_nodes w i)) 0 else m)"
    and m2: "m2 = mem_write m1 (wn_data (wf_nodes w i) + off) bs"
    and w': "w' = (if off + length bs > wn_size (wf_nodes w i)
      then wnode_put w (int i) ((wf_nodes w i)\<lparr>wn_size := off + length bs\<rparr>) else w)"
  shows "wfs_ok m2 w'" "wfs_bytes m2 w' i = file_write (wfs_bytes m w i) off bs"
    "\<And>j. j < LXP_NWNODE \<Longrightarrow> j \<noteq> i \<Longrightarrow> wfs_bytes m2 w' j = wfs_bytes m w j"
    "\<And>x. x \<notin> wfs_region w \<Longrightarrow> m2 x = m x"
proof -
  let ?n = "wf_nodes w i"
  have "off \<le> wn_cap ?n" using fit by simp
  note H = wfs_zero_hole [OF ok i(1) this refl]
  have h: "m1 = mem_fill m (wn_data ?n + wn_size ?n) (off - wn_size ?n) 0" by (simp add: m1)
  note H1 = H [folded h]
  note S = wfs_store [OF H1(1) i(1) fit m2]
  have w'eq: "w' = wnode_put w (int i) (?n\<lparr>wn_size := max (wn_size ?n) (off + length bs)\<rparr>)"
    by (cases "off + length bs > wn_size ?n") (simp_all add: w' max_def wnode_put_def)
  have sz: "wn_size ?n \<le> wn_cap ?n" using ok i by (auto simp: wfs_ok_def wnode_fine_def)
  show "wfs_ok m2 w'" unfolding w'eq by (rule wfs_set_size [OF S(1) i(1) _ i(2)]) (use sz fit in simp)
  show "wfs_bytes m2 w' j = wfs_bytes m w j" if "j < LXP_NWNODE" "j \<noteq> i" for j
    using S(2) [OF that] H1(2) [OF that(1)] that(2) by (simp add: w'eq wfs_bytes_def)
  show "m2 x = m x" if "x \<notin> wfs_region w" for x using S(3) [OF that] H1(3) [OF that] by simp
  let ?N = "max (wn_size ?n) (off + length bs)"
  have tk: "take off (mem_read m1 (wn_data ?n) ?N) = take off (wfs_bytes m w i @ replicate (off - wn_size ?n) 0)"
  proof -
    have "take off (mem_read m1 (wn_data ?n) ?N) = mem_read m1 (wn_data ?n) off"
      by (rule mem_read_take [symmetric]) simp
    then show ?thesis using H1(4) [of off] by (simp add: file_truncate_def wfs_bytes_def)
  qed
  have dr: "drop (off + length bs) (mem_read m1 (wn_data ?n) ?N) = drop (off + length bs) (wfs_bytes m w i)"
  proof (cases "wn_size ?n \<le> off + length bs")
    case True
    then show ?thesis by (simp add: wfs_bytes_def max_def)
  next
    case False
    then have "mem_read m1 (wn_data ?n) ?N = wfs_bytes m w i"
      using H1(2) [OF i(1)] by (simp add: wfs_bytes_def max_def)
    then show ?thesis by simp
  qed
  have "wfs_bytes m2 w' i = mem_read (mem_write m1 (wn_data ?n + off) bs) (wn_data ?n) ?N"
    by (simp add: w'eq wfs_bytes_def m2)
  also have "\<dots> = take off (mem_read m1 (wn_data ?n) ?N) @ bs @ drop (off + length bs) (mem_read m1 (wn_data ?n) ?N)"
    by (rule mem_read_write_inside) simp
  also have "\<dots> = file_write (wfs_bytes m w i) off bs"
    unfolding tk dr file_write_def by (simp add: wfs_bytes_def)
  finally show "wfs_bytes m2 w' i = file_write (wfs_bytes m w i) off bs" .
qed

section \<open>Nodes come and go\<close>

lemma wfs_okI:
  "wfs_heap_ok m w \<Longrightarrow> wfs_blocks_ok m w \<Longrightarrow> (\<And>i. i < LXP_NWNODE \<Longrightarrow> wnode_fine (wf_nodes w i)) \<Longrightarrow> wfs_ok m w"
  by (simp add: wfs_ok_def)

lemma wfs_okD:
  assumes "wfs_ok m w"
  shows "wfs_heap_ok m w" "wfs_blocks_ok m w" "\<And>i. i < LXP_NWNODE \<Longrightarrow> wnode_fine (wf_nodes w i)"
  using assms by (simp_all add: wfs_ok_def)

lemma wfs_blocks_distinct:
  assumes "wfs_blocks_ok m w" "j < LXP_NWNODE" "k < LXP_NWNODE" "j \<noteq> k" "wn_data (wf_nodes w j) \<noteq> 0"
  shows "wn_data (wf_nodes w j) \<noteq> wn_data (wf_nodes w k)"
  using assms unfolding wfs_blocks_ok_def by metis

text \<open>Changing a node but not its block.\<close>

lemma wfs_put_same_block:
  assumes ok: "wfs_heap_ok m w" "wfs_blocks_ok m w" and n: "wn_data n = wn_data (wf_nodes w (nat i))"
    "wn_cap n = wn_cap (wf_nodes w (nat i))"
  shows "wfs_heap_ok m (wnode_put w i n)" "wfs_blocks_ok m (wnode_put w i n)"
proof -
  show "wfs_heap_ok m (wnode_put w i n)" using ok(1) by (simp add: wfs_heap_ok_def)
  have "wn_data (wf_nodes (wnode_put w i n) j) = wn_data (wf_nodes w j)
      \<and> wn_cap (wf_nodes (wnode_put w i n) j) = wn_cap (wf_nodes w j)" for j
    using n by simp
  then show "wfs_blocks_ok m (wnode_put w i n)" using ok(2) unfolding wfs_blocks_ok_def by simp
qed

lemma wfs_reclaim_ok:
  assumes heap: "wfs_heap_ok m w" and blk: "wfs_blocks_ok m w" and i: "i < LXP_NWNODE"
    and fine: "\<And>j. j < LXP_NWNODE \<Longrightarrow> j \<noteq> i \<Longrightarrow> wnode_fine (wf_nodes w j)"
    and r: "wfs_reclaim m w (int i) = (m', w')"
  shows "wfs_ok m' w' \<and> wf_nodes w' = (wf_nodes w)(i := wnode_zero) \<and> wf_pool w' = wf_pool w
    \<and> (\<forall>j < LXP_NWNODE. j \<noteq> i \<longrightarrow> wfs_bytes m' w' j = wfs_bytes m w j) \<and> (\<forall>x. x \<notin> wfs_region w \<longrightarrow> m' x = m x)
    \<and> (\<forall>l. wn_data (wf_nodes w i) \<noteq> 0 \<longrightarrow> (wn_data (wf_nodes w i), l) \<notin> arena_live (m', wf_arena w'))"
proof -
  let ?d = "wn_data (wf_nodes w i)"
  have bytes0: "wfs_bytes x (wnode_put w2 (int i) wnode_zero) j = mem_read x (wn_data (wf_nodes w j)) (wn_size (wf_nodes w j))"
    if "j \<noteq> i" "wf_nodes w2 = wf_nodes w" for x w2 j
    using that by (simp add: wfs_bytes_def)
  show ?thesis
  proof (cases "?d = 0")
    case True
    then have e: "m' = m" "w' = wnode_put w (int i) wnode_zero"
      using r by (simp_all add: wfs_reclaim_def wnode_at_def Let_def)
    have "wfs_blocks_ok m w'" using blk unfolding wfs_blocks_ok_def by (simp add: e)
    then have "wfs_ok m' w'" using heap fine by (intro wfs_okI) (auto simp: e wfs_heap_ok_def)
    then show ?thesis using True by (auto simp: e wfs_bytes_def)
  next
    case False
    then obtain l where l: "wf_ready w" "(?d, l) \<in> arena_live (m, wf_arena w)" using wfs_blockE [OF blk i] by metis
    note g = wfs_heapD [OF heap l(1)]
    obtain m2 ar2 where f: "lxp_arena_free m (wf_arena w) ?d = (m2, ar2)" by (metis surj_pair)
    then have fs: "arena_free_s (m, wf_arena w) ?d = (m2, ar2)" by (simp add: arena_free_s_def)
    have e: "m' = m2" "w' = wnode_put (w\<lparr>wf_arena := ar2\<rparr>) (int i) wnode_zero"
      using r f False by (simp_all add: wfs_reclaim_def wnode_at_def Let_def)
    have good: "arena_good (m2, ar2)" and keep: "keeps (arena_live (m, wf_arena w)) m m2"
      and live: "arena_live (m2, ar2) = {b \<in> arena_live (m, wf_arena w). fst b \<noteq> ?d}"
      using arena_free_s_cases [OF g(1), of ?d] by (simp_all add: fs)
    have region: "arena_region (m2, ar2) = wfs_region w"
      using arena_heap.free_region [of "(m, wf_arena w)" ?d] g(2) by (simp add: fs)
    have out: "m2 x = m x" if "x \<notin> wfs_region w" for x
      using arena_heap.free_outside [OF g(1), of x ?d] g(2) that by (simp add: fs)
    have dj: "wn_data (wf_nodes w j) \<noteq> ?d" if "j < LXP_NWNODE" "j \<noteq> i" for j
      using blk i that False unfolding wfs_blocks_ok_def by metis
    have heap': "wfs_heap_ok m2 w'" using heap good region by (simp add: e wfs_heap_ok_def)
    have blk': "wfs_blocks_ok m2 w'"
      unfolding wfs_blocks_ok_def
    proof (intro conjI allI impI)
      fix j assume j: "j < LXP_NWNODE" "wn_data (wf_nodes w' j) \<noteq> 0"
      then have ji: "j \<noteq> i" "wn_data (wf_nodes w j) \<noteq> 0" by (auto simp: e split: if_splits)
      obtain lj where "(wn_data (wf_nodes w j), lj) \<in> arena_live (m, wf_arena w)" "wn_cap (wf_nodes w j) \<le> lj"
        using wfs_blockE [OF blk j(1) ji(2)] by metis
      then show "wf_ready w'" "\<exists>l. (wn_data (wf_nodes w' j), l) \<in> arena_live (m2, wf_arena w') \<and> wn_cap (wf_nodes w' j) \<le> l"
        using ji dj [OF j(1) ji(1)] live l(1) by (auto simp: e)
    next
      fix j k assume "j < LXP_NWNODE" "k < LXP_NWNODE" "j \<noteq> k" "wn_data (wf_nodes w' j) \<noteq> 0"
      then show "wn_data (wf_nodes w' j) \<noteq> wn_data (wf_nodes w' k)"
        using wfs_blocks_distinct [OF blk, of j k] wfs_blocks_distinct [OF blk, of k j]
        by (auto simp: e split: if_splits)
    qed
    have ok': "wfs_ok m' w'" using heap' blk' fine by (intro wfs_okI) (auto simp: e)
    have "wfs_bytes m' w' j = wfs_bytes m w j" if j: "j < LXP_NWNODE" "j \<noteq> i" for j
    proof (cases "wn_data (wf_nodes w j) = 0")
      case True
      then have "wn_size (wf_nodes w j) = 0" using fine [OF j] by (auto simp: wnode_fine_def)
      then show ?thesis using j by (simp add: wfs_bytes_def e)
    next
      case nz: False
      then obtain lj where lj: "(wn_data (wf_nodes w j), lj) \<in> arena_live (m, wf_arena w)" "wn_cap (wf_nodes w j) \<le> lj"
        using wfs_blockE [OF blk j(1)] by metis
      have "wn_size (wf_nodes w j) \<le> lj" using fine [OF j] lj(2) by (auto simp: wnode_fine_def)
      from mem_read_prefix [OF keepsD [OF keep lj(1)] this] j show ?thesis by (simp add: wfs_bytes_def e)
    qed
    then show ?thesis using ok' out live by (auto simp: e)
  qed
qed

lemma wfs_create_ok:
  assumes ok: "wfs_ok m w" and r: "lxp_wfs_create w path mode = (w', rc)"
  shows "wfs_ok m w' \<and> (\<forall>j < LXP_NWNODE. wn_used (wf_nodes w j) \<longrightarrow> wf_nodes w' j = wf_nodes w j)
    \<and> (rc = - 1 \<and> w' = w \<or>
       (\<exists>i. rc = int i \<and> i < LXP_NWNODE \<and> \<not> wn_used (wf_nodes w i) \<and>
        w' = wnode_put w (int i) \<lparr>wn_path = path, wn_mode = mode, wn_data = 0, wn_size = 0, wn_cap = 0,
                wn_used = True, wn_open_refs = 0, wn_linked = True\<rparr>))"
proof (cases "length path \<ge> LXP_PATH_MAX \<or> scan (\<lambda>i. \<not> wn_used (wf_nodes w i)) 0 LXP_NWNODE = None")
  case True
  then have "w' = w" "rc = - 1" using r by (auto simp: lxp_wfs_create_def split: if_splits)
  then show ?thesis using ok by simp
next
  case False
  then obtain i where i: "scan (\<lambda>i. \<not> wn_used (wf_nodes w i)) 0 LXP_NWNODE = Some i" by auto
  let ?n = "\<lparr>wn_path = path, wn_mode = mode, wn_data = 0, wn_size = 0, wn_cap = 0,
                wn_used = True, wn_open_refs = 0, wn_linked = True\<rparr>"
  have e: "w' = wnode_put w (int i) ?n" "rc = int i"
    using r False i by (auto simp: lxp_wfs_create_def)
  have u: "i < LXP_NWNODE" "\<not> wn_used (wf_nodes w i)" using i by (auto simp: scan_simps)
  have z: "wf_nodes w i = wnode_zero" using wfs_okD(3) [OF ok u(1)] u(2) by (simp add: wnode_fine_def)
  have "wfs_heap_ok m w'" "wfs_blocks_ok m w'"
    unfolding e by (rule wfs_put_same_block [OF wfs_okD(1,2) [OF ok]]; simp add: z)+
  moreover have "wnode_fine ?n" using False by (simp add: wnode_fine_def)
  ultimately have "wfs_ok m w'" using wfs_okD(3) [OF ok] by (intro wfs_okI) (auto simp: e)
  then show ?thesis using e u by auto
qed

lemma wfs_open_ok:
  assumes ok: "wfs_ok m w" and r: "lxp_wfs_open w i = (w', rc)"
  shows "wfs_ok m w' \<and> (\<forall>j. wfs_bytes m w' j = wfs_bytes m w j)"
proof (cases "rc = 0")
  case False
  then have "w' = w" using r by (auto simp: lxp_wfs_open_def split: if_splits)
  then show ?thesis using ok by simp
next
  case True
  let ?n = "(wnode_at w i)\<lparr>wn_open_refs := wn_open_refs (wnode_at w i) + 1\<rparr>"
  have e: "0 \<le> i" "i < int LXP_NWNODE" "wn_used (wnode_at w i)" "wn_open_refs (wnode_at w i) \<noteq> UINT16_MAX"
    "w' = wnode_put w i ?n"
    using r True by (auto simp: lxp_wfs_open_def split: if_splits)
  have ni: "nat i < LXP_NWNODE" using e by linarith
  have "wfs_heap_ok m w'" "wfs_blocks_ok m w'"
    unfolding e(5) by (rule wfs_put_same_block [OF wfs_okD(1,2) [OF ok]]; simp add: wnode_at_def)+
  moreover have "wnode_fine ?n" using wfs_okD(3) [OF ok ni] e(3,4) by (auto simp: wnode_fine_def wnode_at_def)
  ultimately have "wfs_ok m w'" using wfs_okD(3) [OF ok] by (intro wfs_okI) (auto simp: e(5))
  moreover have "wfs_bytes m w' j = wfs_bytes m w j" for j by (simp add: e(5) wfs_bytes_def wnode_at_def)
  ultimately show ?thesis by blast
qed

lemma wfs_close_cases:
  assumes ok: "wfs_ok m w" and i: "i < LXP_NWNODE" "wn_used (wf_nodes w i)" and refs: "wn_open_refs (wf_nodes w i) = Suc k"
    and r: "lxp_wfs_close m w (int i) = (m', w')"
  shows "wfs_ok m' w' \<and> wf_pool w' = wf_pool w \<and> (\<forall>x. x \<notin> wfs_region w \<longrightarrow> m' x = m x)
    \<and> (\<forall>j < LXP_NWNODE. j \<noteq> i \<longrightarrow> wf_nodes w' j = wf_nodes w j \<and> wfs_bytes m' w' j = wfs_bytes m w j)
    \<and> (if k = 0 \<and> \<not> wn_linked (wf_nodes w i)
       then wf_nodes w' i = wnode_zero
         \<and> (\<forall>l. wn_data (wf_nodes w i) \<noteq> 0 \<longrightarrow> (wn_data (wf_nodes w i), l) \<notin> arena_live (m', wf_arena w'))
       else wf_nodes w' i = (wf_nodes w i)\<lparr>wn_open_refs := k\<rparr> \<and> wfs_bytes m' w' i = wfs_bytes m w i)"
proof -
  let ?n = "(wf_nodes w i)\<lparr>wn_open_refs := k\<rparr>"
  let ?w = "wnode_put w (int i) ?n"
  have heap: "wfs_heap_ok m ?w" and blk: "wfs_blocks_ok m ?w"
    by (rule wfs_put_same_block [OF wfs_okD(1,2) [OF ok]]; simp)+
  have fine: "wnode_fine (wf_nodes ?w j)" if "j < LXP_NWNODE" "j \<noteq> i" for j
    using wfs_okD(3) [OF ok that(1)] that(2) by simp
  have bytes: "wfs_bytes m ?w j = wfs_bytes m w j" for j by (simp add: wfs_bytes_def)
  show ?thesis
  proof (cases "k = 0 \<and> \<not> wn_linked (wf_nodes w i)")
    case True
    then have rc: "wfs_reclaim m ?w (int i) = (m', w')"
      using r i refs by (simp add: lxp_wfs_close_def wnode_at_def Let_def)
    show ?thesis using wfs_reclaim_ok [OF heap blk i(1) fine rc] bytes unfolding if_P [OF True] by simp
  next
    case False
    then have e: "m' = m" "w' = ?w"
      using r i refs by (auto simp: lxp_wfs_close_def wnode_at_def Let_def)
    have "wnode_fine ?n" using wfs_okD(3) [OF ok i(1)] False i(2) refs by (auto simp: wnode_fine_def)
    then have "wfs_ok m ?w" using heap blk fine by (intro wfs_okI) (auto simp: fine)
    then show ?thesis unfolding if_not_P [OF False] using e bytes by simp
  qed
qed

lemma wfs_free_cases:
  assumes ok: "wfs_ok m w" and i: "i < LXP_NWNODE" "wn_used (wf_nodes w i)"
    and r: "lxp_wfs_free m w (int i) = (m', w')"
  shows "wfs_ok m' w' \<and> wf_pool w' = wf_pool w \<and> (\<forall>x. x \<notin> wfs_region w \<longrightarrow> m' x = m x)
    \<and> (\<forall>j < LXP_NWNODE. j \<noteq> i \<longrightarrow> wf_nodes w' j = wf_nodes w j \<and> wfs_bytes m' w' j = wfs_bytes m w j)
    \<and> (if wn_open_refs (wf_nodes w i) = 0 then wf_nodes w' i = wnode_zero
       else wf_nodes w' i = (wf_nodes w i)\<lparr>wn_linked := False, wn_path := []\<rparr> \<and> wfs_bytes m' w' i = wfs_bytes m w i)"
proof -
  let ?n = "(wf_nodes w i)\<lparr>wn_linked := False, wn_path := []\<rparr>"
  let ?w = "wnode_put w (int i) ?n"
  have heap: "wfs_heap_ok m ?w" and blk: "wfs_blocks_ok m ?w"
    by (rule wfs_put_same_block [OF wfs_okD(1,2) [OF ok]]; simp)+
  have fine: "wnode_fine (wf_nodes ?w j)" if "j < LXP_NWNODE" "j \<noteq> i" for j
    using wfs_okD(3) [OF ok that(1)] that(2) by simp
  have bytes: "wfs_bytes m ?w j = wfs_bytes m w j" for j by (simp add: wfs_bytes_def)
  show ?thesis
  proof (cases "wn_open_refs (wf_nodes w i) = 0")
    case True
    then have rc: "wfs_reclaim m ?w (int i) = (m', w')"
      using r i by (simp add: lxp_wfs_free_def wnode_at_def Let_def)
    show ?thesis using wfs_reclaim_ok [OF heap blk i(1) fine rc] bytes unfolding if_P [OF True] by simp
  next
    case False
    then have e: "m' = m" "w' = ?w"
      using r i by (auto simp: lxp_wfs_free_def wnode_at_def Let_def)
    have "wnode_fine ?n" using wfs_okD(3) [OF ok i(1)] False i(2) by (auto simp: wnode_fine_def)
    then have "wfs_ok m ?w" using heap blk fine by (intro wfs_okI) (auto simp: fine)
    then show ?thesis unfolding if_not_P [OF False] using e bytes by simp
  qed
qed

text \<open>Closing one node \<open>c\<close> times.\<close>

primrec wfs_close_times :: "mem \<Rightarrow> wfs \<Rightarrow> int \<Rightarrow> nat \<Rightarrow> mem \<times> wfs" where
  "wfs_close_times m w i 0 = (m, w)"
| "wfs_close_times m w i (Suc c) = (case wfs_close_times m w i c of (m', w') \<Rightarrow> lxp_wfs_close m' w' i)"

lemma wfs_close_times_unlinked:
  assumes ok: "wfs_ok m w" and i: "i < LXP_NWNODE" "wn_used (wf_nodes w i)" "\<not> wn_linked (wf_nodes w i)"
    and refs: "wn_open_refs (wf_nodes w i) = Suc k"
  shows "c \<le> Suc k \<Longrightarrow> wfs_close_times m w (int i) c = (m', w') \<Longrightarrow>
    wfs_ok m' w' \<and> (\<forall>j < LXP_NWNODE. j \<noteq> i \<longrightarrow> wf_nodes w' j = wf_nodes w j \<and> wfs_bytes m' w' j = wfs_bytes m w j)
    \<and> (if c = Suc k
       then wf_nodes w' i = wnode_zero
         \<and> (\<forall>l. wn_data (wf_nodes w i) \<noteq> 0 \<longrightarrow> (wn_data (wf_nodes w i), l) \<notin> arena_live (m', wf_arena w'))
       else wf_nodes w' i = (wf_nodes w i)\<lparr>wn_open_refs := Suc k - c\<rparr> \<and> wfs_bytes m' w' i = wfs_bytes m w i)"
proof (induction c arbitrary: m' w')
  case 0
  then show ?case using ok refs by simp
next
  case (Suc c)
  obtain m1 w1 where s: "wfs_close_times m w (int i) c = (m1, w1)" by (metis surj_pair)
  have c: "c \<le> Suc k" "c \<noteq> Suc k" using Suc.prems(1) by simp_all
  note ih = Suc.IH [OF c(1) s, unfolded if_not_P [OF c(2)]]
  have cl: "lxp_wfs_close m1 w1 (int i) = (m', w')" using Suc.prems(2) s by simp
  have ok1: "wfs_ok m1 w1" and n1: "wf_nodes w1 i = (wf_nodes w i)\<lparr>wn_open_refs := Suc (k - c)\<rparr>"
    and b1: "wfs_bytes m1 w1 i = wfs_bytes m w i"
    using ih c by (simp_all add: Suc_diff_le)
  have u1: "wn_used (wf_nodes w1 i)" "wn_open_refs (wf_nodes w1 i) = Suc (k - c)" using n1 i by simp_all
  note C = wfs_close_cases [OF ok1 i(1) u1 cl]
  show ?case using C ih n1 b1 i(3) c Suc.prems(1) by auto
qed

section \<open>Names\<close>

definition wfs_names_ok :: "wfs \<Rightarrow> bool" where
  "wfs_names_ok w \<longleftrightarrow> (\<forall>i < LXP_NWNODE. \<forall>j < LXP_NWNODE. i \<noteq> j \<longrightarrow> wn_linked (wf_nodes w i) \<longrightarrow>
     wn_linked (wf_nodes w j) \<longrightarrow> wn_path (wf_nodes w i) \<noteq> wn_path (wf_nodes w j))"

lemma wfs_namesD:
  "wfs_names_ok w \<Longrightarrow> i < LXP_NWNODE \<Longrightarrow> j < LXP_NWNODE \<Longrightarrow> wn_linked (wf_nodes w i) \<Longrightarrow> wn_linked (wf_nodes w j) \<Longrightarrow>
   wn_path (wf_nodes w i) = wn_path (wf_nodes w j) \<Longrightarrow> i = j"
  unfolding wfs_names_ok_def by metis

lemma wfs_find_cases:
  assumes "wfs_names_ok w"
  shows "lxp_wfs_find w p = int i \<longleftrightarrow>
    i < LXP_NWNODE \<and> wn_used (wf_nodes w i) \<and> wn_linked (wf_nodes w i) \<and> wn_path (wf_nodes w i) = p"
proof
  assume "lxp_wfs_find w p = int i"
  then show "i < LXP_NWNODE \<and> wn_used (wf_nodes w i) \<and> wn_linked (wf_nodes w i) \<and> wn_path (wf_nodes w i) = p"
    by (auto simp: lxp_wfs_find_def scan_simps split: option.splits)
next
  assume a: "i < LXP_NWNODE \<and> wn_used (wf_nodes w i) \<and> wn_linked (wf_nodes w i) \<and> wn_path (wf_nodes w i) = p"
  let ?P = "\<lambda>i. wn_used (wf_nodes w i) \<and> wn_linked (wf_nodes w i) \<and> wn_path (wf_nodes w i) = p"
  obtain j where j: "scan ?P 0 LXP_NWNODE = Some j" using a scan_ex [of 0 i LXP_NWNODE ?P] by auto
  note J = scan_SomeD [OF j]
  have "j = i" by (rule wfs_namesD [OF assms]) (use J a in auto)
  then show "lxp_wfs_find w p = int i" using j by (simp add: lxp_wfs_find_def)
qed

lemma wfs_findD:
  "lxp_wfs_find w p = int i \<Longrightarrow>
    i < LXP_NWNODE \<and> wn_used (wf_nodes w i) \<and> wn_linked (wf_nodes w i) \<and> wn_path (wf_nodes w i) = p"
  by (auto simp: lxp_wfs_find_def scan_simps split: option.splits)

lemma wfs_find_neg:
  "lxp_wfs_find w p < 0 \<longleftrightarrow>
    (\<forall>i < LXP_NWNODE. wn_used (wf_nodes w i) \<longrightarrow> wn_linked (wf_nodes w i) \<longrightarrow> wn_path (wf_nodes w i) \<noteq> p)"
  by (auto simp: lxp_wfs_find_def scan_simps split: option.splits)

lemma path_under_iff:
  assumes "q \<noteq> [SLASH]" "q \<noteq> []"
  shows "lxp_path_under p q \<noteq> 0 \<longleftrightarrow> (\<exists>r. p = q @ r \<and> (r = [] \<or> hd r = SLASH))"
proof
  assume u: "lxp_path_under p q \<noteq> 0"
  then have t: "take (length q) p = q" "length p = length q \<or> p ! length q = SLASH"
    using assms by (auto simp: lxp_path_under_def Let_def split: if_splits)
  then have p: "p = q @ drop (length q) p" by (metis append_take_drop_id)
  have "drop (length q) p = [] \<or> hd (drop (length q) p) = SLASH"
  proof (cases "length p \<le> length q")
    case False
    then show ?thesis using t(2) by (simp add: hd_drop_conv_nth)
  qed simp
  then show "\<exists>r. p = q @ r \<and> (r = [] \<or> hd r = SLASH)" using p by blast
next
  assume "\<exists>r. p = q @ r \<and> (r = [] \<or> hd r = SLASH)"
  then obtain r where "p = q @ r" "r = [] \<or> hd r = SLASH" by blast
  then show "lxp_path_under p q \<noteq> 0" using assms
    by (cases r) (auto simp: lxp_path_under_def Let_def nth_append)
qed

lemma wfs_create_names:
  assumes ok: "wfs_ok m w" and names: "wfs_names_ok w" and new: "lxp_wfs_find w path < 0"
    and r: "lxp_wfs_create w path mode = (w', rc)"
  shows "wfs_names_ok w'"
proof -
  have lu: "wn_linked (wf_nodes w j) \<Longrightarrow> wn_used (wf_nodes w j)" if "j < LXP_NWNODE" for j
    using wfs_okD(3) [OF ok that] by (simp add: wnode_fine_def)
  consider "w' = w" | i where "i < LXP_NWNODE" "w' = wnode_put w (int i) \<lparr>wn_path = path, wn_mode = mode, wn_data = 0, wn_size = 0, wn_cap = 0,
                wn_used = True, wn_open_refs = 0, wn_linked = True\<rparr>"
    using wfs_create_ok [OF ok r] by blast
  then show ?thesis
  proof cases
    case 1 then show ?thesis using names by simp
  next
    case 2
    have no: "wn_path (wf_nodes w j) \<noteq> path" if "j < LXP_NWNODE" "wn_linked (wf_nodes w j)" for j
      using new that lu [OF that] unfolding wfs_find_neg by blast
    show ?thesis unfolding wfs_names_ok_def
    proof (intro allI impI)
      fix a b assume ab: "a < LXP_NWNODE" "b < LXP_NWNODE" "a \<noteq> b" "wn_linked (wf_nodes w' a)" "wn_linked (wf_nodes w' b)"
      show "wn_path (wf_nodes w' a) \<noteq> wn_path (wf_nodes w' b)"
        using ab no [OF ab(1)] no [OF ab(2)] wfs_namesD [OF names ab(1,2)] by (auto simp: 2 split: if_splits)
    qed
  qed
qed

section \<open>Renaming\<close>

text \<open>Where a successful rename leaves the nodes: the replaced one (\<open>di\<close>) has lost its name,
  the renamed one has the new path, a renamed directory carries what is below it.\<close>

definition wfs_renamed :: "wfs \<Rightarrow> int \<Rightarrow> string \<Rightarrow> nat \<Rightarrow> string" where
  "wfs_renamed w i newabs j =
     (if j = nat i then newabs
      else if wnode_is_dir (wnode_at w i) \<and> wfs_carried w i j
      then newabs @ drop (length (wn_path (wnode_at w i))) (wn_path (wf_nodes w j))
      else wn_path (wf_nodes w j))"

lemma wfs_move_nodes:
  "j < LXP_NWNODE \<Longrightarrow> wf_nodes (wfs_move w i (wnode_is_dir (wnode_at w i)) newabs) j =
     (wf_nodes w j)\<lparr>wn_path := wfs_renamed w i newabs j\<rparr>"
  by (auto simp: wfs_move_def wfs_renamed_def Let_def wfs_carried_def wnode_at_def)

lemma wfs_move_rest [simp]:
  "wf_pool (wfs_move w i d p) = wf_pool w" "wf_arena (wfs_move w i d p) = wf_arena w"
  "wf_ready (wfs_move w i d p) = wf_ready w"
  by (simp_all add: wfs_move_def Let_def)

lemma wfs_move_ok:
  assumes ok: "wfs_ok m w" and i: "i < LXP_NWNODE"
    and len: "\<And>j. j < LXP_NWNODE \<Longrightarrow> length (wfs_renamed w (int i) newabs j) < LXP_PATH_MAX"
    and used: "\<And>j. j < LXP_NWNODE \<Longrightarrow> wfs_renamed w (int i) newabs j \<noteq> wn_path (wf_nodes w j) \<Longrightarrow> wn_used (wf_nodes w j)"
    and w': "w' = wfs_move w (int i) (wnode_is_dir (wnode_at w (int i))) newabs"
  shows "wfs_ok m w'" "\<And>j. j < LXP_NWNODE \<Longrightarrow> wfs_bytes m w' j = wfs_bytes m w j"
proof -
  have n: "wf_nodes w' j = (wf_nodes w j)\<lparr>wn_path := wfs_renamed w (int i) newabs j\<rparr>" if "j < LXP_NWNODE" for j
    unfolding w' using wfs_move_nodes [OF that, of w "int i" newabs] by simp
  have d: "wn_data (wf_nodes w' j) = wn_data (wf_nodes w j)" "wn_cap (wf_nodes w' j) = wn_cap (wf_nodes w j)"
    if "j < LXP_NWNODE" for j using n [OF that] by simp_all
  have r: "wfs_region w' = wfs_region w" "wf_arena w' = wf_arena w" "wf_pool w' = wf_pool w" "wf_ready w' = wf_ready w"
    by (simp_all add: w' wfs_region_def)
  have "wfs_heap_ok m w'" using wfs_okD(1) [OF ok] by (simp add: wfs_heap_ok_def r)
  moreover have "wfs_blocks_ok m w'"
    using wfs_okD(2) [OF ok] unfolding wfs_blocks_ok_def r by (simp add: d)
  moreover have "wnode_fine (wf_nodes w' j)" if j: "j < LXP_NWNODE" for j
  proof (cases "wfs_renamed w (int i) newabs j = wn_path (wf_nodes w j)")
    case True
    then show ?thesis using wfs_okD(3) [OF ok j] n [OF j] by simp
  next
    case False
    then show ?thesis using wfs_okD(3) [OF ok j] used [OF j False] len [OF j] n [OF j] by (simp add: wnode_fine_def)
  qed
  ultimately show "wfs_ok m w'" by (rule wfs_okI)
  show "wfs_bytes m w' j = wfs_bytes m w j" if "j < LXP_NWNODE" for j
    using n [OF that] by (simp add: wfs_bytes_def)
qed

text \<open>The state after the replaced node is gone still has the same nodes to carry.\<close>

lemma wfs_rename_cases:
  assumes ok: "wfs_ok m w" and i: "i < LXP_NWNODE" "wn_linked (wf_nodes w i)"
    and r: "lxp_wfs_rename m w (int i) newabs = (m', w', 0)" and ne: "wn_path (wf_nodes w i) \<noteq> newabs"
  shows "wfs_ok m' w' \<and> length newabs < LXP_PATH_MAX
    \<and> (wnode_is_dir (wf_nodes w i) \<longrightarrow> lxp_path_under newabs (wn_path (wf_nodes w i)) = 0)
    \<and> (lxp_wfs_find w newabs \<ge> 0 \<longrightarrow> \<not> wfs_has_descendant w newabs)
    \<and> (\<forall>j < LXP_NWNODE. int j \<noteq> lxp_wfs_find w newabs \<longrightarrow>
         wf_nodes w' j = (wf_nodes w j)\<lparr>wn_path := wfs_renamed w (int i) newabs j\<rparr> \<and> wfs_bytes m' w' j = wfs_bytes m w j)
    \<and> (\<forall>j < LXP_NWNODE. int j = lxp_wfs_find w newabs \<longrightarrow> \<not> wn_linked (wf_nodes w' j))
    \<and> wf_pool w' = wf_pool w \<and> (\<forall>x. x \<notin> wfs_region w \<longrightarrow> m' x = m x)
    \<and> (\<forall>j < LXP_NWNODE. wn_open_refs (wf_nodes w' j) = wn_open_refs (wf_nodes w j))"
proof -
  let ?n = "wf_nodes w i" and ?di = "lxp_wfs_find w newabs"
  let ?m1 = "fst (if ?di \<ge> 0 then lxp_wfs_free m w ?di else (m, w))"
  let ?w1 = "snd (if ?di \<ge> 0 then lxp_wfs_free m w ?di else (m, w))"
  have iu: "wn_used ?n" using wfs_okD(3) [OF ok i(1)] i(2) by (simp add: wnode_fine_def)
  have len: "length newabs < LXP_PATH_MAX" and dir: "wnode_is_dir ?n \<Longrightarrow> lxp_path_under newabs (wn_path ?n) = 0"
    and desc: "?di \<ge> 0 \<Longrightarrow> \<not> wfs_has_descendant w newabs"
    and scn: "wnode_is_dir ?n \<Longrightarrow> scan (\<lambda>j. wfs_carried w (int i) j
       \<and> length (wn_path (wf_nodes w j)) - length (wn_path ?n) + length newabs \<ge> LXP_PATH_MAX) 0 LXP_NWNODE = None"
    and e: "m' = ?m1" "w' = wfs_move ?w1 (int i) (wnode_is_dir ?n) newabs"
    using r ne by (auto simp: lxp_wfs_rename_def wnode_at_def Let_def not_le split: if_splits prod.splits)
  note dn = wfs_findD [of w newabs]
  have di_i: "?di \<noteq> int i" using dn [of i] ne by blast
  have F: "wfs_ok ?m1 ?w1 \<and> (\<forall>j < LXP_NWNODE. int j \<noteq> ?di \<longrightarrow> wf_nodes ?w1 j = wf_nodes w j \<and> wfs_bytes ?m1 ?w1 j = wfs_bytes m w j)
    \<and> (\<forall>j < LXP_NWNODE. int j = ?di \<longrightarrow> \<not> wn_linked (wf_nodes ?w1 j) \<and> wn_path (wf_nodes ?w1 j) = []
         \<and> wn_open_refs (wf_nodes ?w1 j) = wn_open_refs (wf_nodes w j))
    \<and> wf_pool ?w1 = wf_pool w \<and> (\<forall>x. x \<notin> wfs_region w \<longrightarrow> ?m1 x = m x)"
  proof (cases "?di \<ge> 0")
    case False
    then show ?thesis using ok by auto
  next
    case True
    then obtain d where d: "?di = int d" using nonneg_int_cases by blast
    have u: "d < LXP_NWNODE" "wn_used (wf_nodes w d)" using dn [of d] d by simp_all
    obtain m1 w1 where f: "lxp_wfs_free m w (int d) = (m1, w1)" by (metis surj_pair)
    show ?thesis using wfs_free_cases [OF ok u f] d f by (auto split: if_splits)
  qed
  have same: "wf_nodes ?w1 i = ?n" using F i(1) di_i by simp
  have ren: "wfs_renamed ?w1 (int i) newabs j = wfs_renamed w (int i) newabs j" if "j < LXP_NWNODE" "int j \<noteq> ?di" for j
    using F that same by (simp add: wfs_renamed_def wfs_carried_def wnode_at_def)
  have rend: "wfs_renamed ?w1 (int i) newabs j = []" if "j < LXP_NWNODE" "int j = ?di" for j
    using F that same di_i by (auto simp: wfs_renamed_def wfs_carried_def wnode_at_def)
  have rlen: "length (wfs_renamed ?w1 (int i) newabs j) < LXP_PATH_MAX" if j: "j < LXP_NWNODE" for j
  proof (cases "int j = ?di")
    case True
    then show ?thesis using rend [OF j] by simp
  next
    case False
    have "length (newabs @ drop (length (wn_path ?n)) (wn_path (wf_nodes w j))) < LXP_PATH_MAX"
      if "wnode_is_dir ?n" "wfs_carried w (int i) j"
      using scn [OF that(1)] that(2) j by (fastforce simp: scan_simps)
    then show ?thesis using ren [OF j False] len wfs_okD(3) [OF ok j]
      by (auto simp: wfs_renamed_def wnode_at_def wnode_fine_def)
  qed
  have rused: "wn_used (wf_nodes ?w1 j)"
    if j: "j < LXP_NWNODE" "wfs_renamed ?w1 (int i) newabs j \<noteq> wn_path (wf_nodes ?w1 j)" for j
    using j(2) same iu by (auto simp: wfs_renamed_def wfs_carried_def split: if_splits)
  have w': "w' = wfs_move ?w1 (int i) (wnode_is_dir (wnode_at ?w1 (int i))) newabs" using e same by (simp add: wnode_at_def)
  note M = wfs_move_ok [OF conjunct1 [OF F] i(1) rlen rused w']
  have nodes: "wf_nodes w' j = (wf_nodes ?w1 j)\<lparr>wn_path := wfs_renamed ?w1 (int i) newabs j\<rparr>" if "j < LXP_NWNODE" for j
    unfolding w' by (rule wfs_move_nodes [OF that])
  have refs: "wn_open_refs (wf_nodes w' j) = wn_open_refs (wf_nodes w j)" if "j < LXP_NWNODE" for j
    using F nodes [OF that] that by (cases "int j = ?di") simp_all
  have pool: "wf_pool w' = wf_pool w" "\<And>x. x \<notin> wfs_region w \<Longrightarrow> m' x = m x" using F w' e(1) by auto
  show ?thesis using M F nodes len dir desc e(1) ren refs pool by auto
qed

text \<open>A directory's name is a proper prefix of the names it carries.\<close>

lemma wfs_carriedD:
  assumes names: "wfs_names_ok w" and i: "i < LXP_NWNODE" "wn_linked (wf_nodes w i)" and j: "j < LXP_NWNODE"
    and p: "wn_path (wf_nodes w i) \<noteq> [SLASH]" "wn_path (wf_nodes w i) \<noteq> []" and c: "wfs_carried w (int i) j"
  obtains rest where "wn_path (wf_nodes w j) = wn_path (wf_nodes w i) @ rest" "rest \<noteq> []" "hd rest = SLASH"
proof -
  have l: "wn_linked (wf_nodes w j)" "j \<noteq> i" using c by (auto simp: wfs_carried_def)
  obtain rest where r: "wn_path (wf_nodes w j) = wn_path (wf_nodes w i) @ rest" "rest = [] \<or> hd rest = SLASH"
    using c path_under_iff [OF p] by (auto simp: wfs_carried_def wnode_at_def)
  moreover have "rest \<noteq> []" using wfs_namesD [OF names i(1) j i(2) l(1)] r(1) l(2) by auto
  ultimately show thesis using that by blast
qed

text \<open>What a renamed name may collide with: names below the new one that do not move.\<close>

definition wfs_clear_below :: "wfs \<Rightarrow> nat \<Rightarrow> string \<Rightarrow> bool" where
  "wfs_clear_below w i newabs \<longleftrightarrow>
     (\<forall>j < LXP_NWNODE. wn_linked (wf_nodes w j) \<longrightarrow> wn_path (wf_nodes w j) \<noteq> newabs
        \<longrightarrow> lxp_path_under (wn_path (wf_nodes w j)) newabs \<noteq> 0 \<longrightarrow> j = i \<or> wfs_carried w (int i) j)"

lemma wfs_renamed_inj:
  assumes ok: "wfs_ok m w" and names: "wfs_names_ok w" and i: "i < LXP_NWNODE" "wn_linked (wf_nodes w i)"
    and p: "wn_path (wf_nodes w i) \<noteq> [SLASH]" "wn_path (wf_nodes w i) \<noteq> []" and new: "newabs \<noteq> [SLASH]" "newabs \<noteq> []"
    and clear: "wnode_is_dir (wf_nodes w i) \<Longrightarrow> wfs_clear_below w i newabs"
    and a: "a < LXP_NWNODE" "wn_linked (wf_nodes w a)" "wn_path (wf_nodes w a) \<noteq> newabs \<or> a = i"
    and b: "b < LXP_NWNODE" "wn_linked (wf_nodes w b)" "wn_path (wf_nodes w b) \<noteq> newabs \<or> b = i"
    and eq: "wfs_renamed w (int i) newabs a = wfs_renamed w (int i) newabs b"
  shows "a = b"
proof -
  let ?mv = "\<lambda>j. wnode_is_dir (wf_nodes w i) \<and> wfs_carried w (int i) j"
  have moved: "\<exists>rest. wn_path (wf_nodes w j) = wn_path (wf_nodes w i) @ rest \<and> rest \<noteq> [] \<and> hd rest = SLASH
      \<and> wfs_renamed w (int i) newabs j = newabs @ rest \<and> j \<noteq> i" if "?mv j" "j < LXP_NWNODE" for j
    using wfs_carriedD [OF names i that(2) p] that(1)
    by (metis append_eq_conv_conj nat_int wfs_carried_def wfs_renamed_def wnode_at_def)
  have stay: "wfs_renamed w (int i) newabs j = wn_path (wf_nodes w j)" if "\<not> ?mv j" "j \<noteq> i" for j
    using that by (auto simp add: wfs_renamed_def wnode_at_def)
  have self: "wfs_renamed w (int i) newabs i = newabs" by (simp add: wfs_renamed_def)
  have mix: False if x: "?mv x" "x < LXP_NWNODE" and y: "\<not> ?mv y" "y \<noteq> i" "y < LXP_NWNODE" "wn_linked (wf_nodes w y)"
    and xy: "wfs_renamed w (int i) newabs x = wfs_renamed w (int i) newabs y" for x y
  proof -
    obtain rest where rest: "rest \<noteq> []" "hd rest = SLASH" "wn_path (wf_nodes w y) = newabs @ rest"
      using moved [OF x] stay [OF y(1,2)] xy by auto
    then have "lxp_path_under (wn_path (wf_nodes w y)) newabs \<noteq> 0" "wn_path (wf_nodes w y) \<noteq> newabs"
      using path_under_iff [OF new] by auto
    then show False using clear x(1) y unfolding wfs_clear_below_def by blast
  qed
  have both: "x = y" if x: "?mv x" "x < LXP_NWNODE" "wn_linked (wf_nodes w x)" and y: "?mv y" "y < LXP_NWNODE" "wn_linked (wf_nodes w y)"
    and xy: "wfs_renamed w (int i) newabs x = wfs_renamed w (int i) newabs y" for x y
    using moved [OF x(1,2)] moved [OF y(1,2)] xy wfs_namesD [OF names x(2) y(2) x(3) y(3)] by auto
  show ?thesis
  proof (cases "?mv a")
    case ma: True
    show ?thesis
    proof (cases "?mv b")
      case True then show ?thesis using both [OF ma a(1,2) True b(1,2) eq] by simp
    next
      case False
      then show ?thesis using mix [OF ma a(1) False _ b(1,2) eq] moved [OF ma a(1)] eq self by (cases "b = i") auto
    qed
  next
    case na: False
    show ?thesis
    proof (cases "?mv b")
      case True
      then show ?thesis using mix [OF True b(1) na _ a(1,2) eq [symmetric]] moved [OF True b(1)] eq self by (cases "a = i") auto
    next
      case False
      show ?thesis using stay [OF na] stay [OF False] self eq a b wfs_namesD [OF names a(1) b(1) a(2) b(2)]
        by (cases "a = i"; cases "b = i") auto
    qed
  qed
qed

lemma wfs_rename_names:
  assumes ok: "wfs_ok m w" and names: "wfs_names_ok w" and i: "i < LXP_NWNODE" "wn_linked (wf_nodes w i)"
    and p: "wn_path (wf_nodes w i) \<noteq> [SLASH]" "wn_path (wf_nodes w i) \<noteq> []" and new: "newabs \<noteq> [SLASH]" "newabs \<noteq> []"
    and clear: "wnode_is_dir (wf_nodes w i) \<Longrightarrow> lxp_wfs_find w newabs < 0 \<Longrightarrow> wfs_clear_below w i newabs"
    and r: "lxp_wfs_rename m w (int i) newabs = (m', w', 0)" and ne: "wn_path (wf_nodes w i) \<noteq> newabs"
  shows "wfs_names_ok w'"
proof -
  note C = wfs_rename_cases [OF ok i r ne]
  have lu: "wn_linked (wf_nodes w j) \<Longrightarrow> wn_used (wf_nodes w j)" if "j < LXP_NWNODE" for j
    using wfs_okD(3) [OF ok that] by (simp add: wnode_fine_def)
  have cl: "wfs_clear_below w i newabs" if "wnode_is_dir (wf_nodes w i)"
  proof (cases "lxp_wfs_find w newabs < 0")
    case False
    then have "\<not> wfs_has_descendant w newabs" using C by simp
    then show ?thesis unfolding wfs_clear_below_def using lu
      by (auto simp: wfs_has_descendant_def scan_simps)
  qed (use clear that in auto)
  have kept: "wn_linked (wf_nodes w j) \<and> wn_path (wf_nodes w j) \<noteq> newabs \<and> wn_path (wf_nodes w' j) = wfs_renamed w (int i) newabs j"
    if j: "j < LXP_NWNODE" "wn_linked (wf_nodes w' j)" for j
  proof -
    have nd: "int j \<noteq> lxp_wfs_find w newabs" using C j by metis
    then have n: "wf_nodes w' j = (wf_nodes w j)\<lparr>wn_path := wfs_renamed w (int i) newabs j\<rparr>" using C j(1) by metis
    then have l: "wn_linked (wf_nodes w j)" using j(2) by simp
    moreover have "wn_path (wf_nodes w j) \<noteq> newabs"
      using wfs_find_cases [OF names, of newabs j] nd l lu [OF j(1)] j(1) by auto
    ultimately show ?thesis using n by simp
  qed
  show ?thesis unfolding wfs_names_ok_def
    using wfs_renamed_inj [OF ok names i p new cl] kept by metis
qed

section \<open>Properties\<close>

text \<open>An empty file system over a pool at 64 KiB, and one with two directories' worth of
  names whose second directory has no node of its own.\<close>

definition demo_wfs :: wfs where
  "demo_wfs = \<lparr>wf_nodes = (\<lambda>_. wnode_zero), wf_arena = \<lparr>a_base = 0, a_size = 0, a_used = 0,
     a_high_water = 0, a_first = 0, a_mappings = (\<lambda>_. \<lparr>map_addr = 0, map_len = 0\<rparr>)\<rparr>, wf_ready = False, wf_pool = 65536\<rparr>"

definition demo_tree :: wfs where
  "demo_tree = fst (lxp_wfs_create (fst (lxp_wfs_create (fst (lxp_wfs_create demo_wfs ''/d'' 0x41ed)) ''/d/x'' 0x81a4)) ''/e/x'' 0x81a4)"

lemma demo_wfs_ok: "wfs_ok m demo_wfs"
  by (simp add: wfs_ok_def wfs_heap_ok_def wfs_blocks_ok_def demo_wfs_def SIZE_MAX_def config_defs pool_defs)

definition demo_file :: "string \<Rightarrow> nat \<Rightarrow> wnode" where
  "demo_file p mode = \<lparr>wn_path = p, wn_mode = mode, wn_data = 0, wn_size = 0, wn_cap = 0,
                wn_used = True, wn_open_refs = 0, wn_linked = True\<rparr>"

lemma demo_tree_eq: "demo_tree = demo_wfs\<lparr>wf_nodes := (\<lambda>_. wnode_zero)
   (0 := demo_file ''/d'' 0x41ed, Suc 0 := demo_file ''/d/x'' 0x81a4, 2 := demo_file ''/e/x'' 0x81a4)\<rparr>"
  by (simp add: demo_tree_def demo_wfs_def lxp_wfs_create_def scan_def pool_defs upt_conv_Cons wnode_put_def
      demo_file_def config_defs)

lemma demo_tree_ok: "wfs_ok m demo_tree" "wfs_names_ok demo_tree"
proof -
  have n: "wf_nodes demo_tree j = wnode_zero \<or> j = 0 \<and> wf_nodes demo_tree j = demo_file ''/d'' 0x41ed
     \<or> j = 1 \<and> wf_nodes demo_tree j = demo_file ''/d/x'' 0x81a4 \<or> j = 2 \<and> wf_nodes demo_tree j = demo_file ''/e/x'' 0x81a4" for j
    by (simp add: demo_tree_eq demo_wfs_def)
  have d: "wn_data (wf_nodes demo_tree j) = 0" "wnode_fine (wf_nodes demo_tree j)" for j
    using n [of j] by (auto simp: demo_file_def wnode_fine_def config_defs)
  have "wfs_heap_ok m demo_tree"
    by (simp add: demo_tree_eq demo_wfs_def wfs_heap_ok_def SIZE_MAX_def config_defs pool_defs)
  then show "wfs_ok m demo_tree" by (intro wfs_okI) (simp_all add: d wfs_blocks_ok_def)
  show "wfs_names_ok demo_tree"
    unfolding wfs_names_ok_def
  proof (intro allI impI)
    have p: "j = 0 \<and> wn_path (wf_nodes demo_tree j) = ''/d'' \<or> j = 1 \<and> wn_path (wf_nodes demo_tree j) = ''/d/x''
        \<or> j = 2 \<and> wn_path (wf_nodes demo_tree j) = ''/e/x''" if "wn_linked (wf_nodes demo_tree j)" for j
      using n [of j] that by (auto simp: demo_file_def)
    fix i j assume "i \<noteq> j" "wn_linked (wf_nodes demo_tree i)" "wn_linked (wf_nodes demo_tree j)"
    then show "wn_path (wf_nodes demo_tree i) \<noteq> wn_path (wf_nodes demo_tree j)"
      using p [of i] p [of j] by auto
  qed
qed

text \<open>C17.  Removing the name of an open file does not remove the file.  From the removal until
  the last of its descriptions is closed its bytes are unchanged and its node stays in use,
  but no name leads to it; with the last close its node is free again and its block is
  no longer allocated.  The other files keep their nodes and their bytes throughout.\<close>

theorem unlinked_file_lives_until_last_close:
  assumes "wfs_ok m w" "i < LXP_NWNODE" "wn_used (wf_nodes w i)" "wn_open_refs (wf_nodes w i) = Suc k"
    and "lxp_wfs_free m w (int i) = (m0, w0)" "c \<le> Suc k" "wfs_close_times m0 w0 (int i) c = (m', w')"
  shows "wfs_ok m' w' \<and> lxp_wfs_find w' p \<noteq> int i
    \<and> (if c \<le> k then wn_used (wf_nodes w' i) \<and> wfs_bytes m' w' i = wfs_bytes m w i
       else wf_nodes w' i = wnode_zero
         \<and> (\<forall>l. wn_data (wf_nodes w i) \<noteq> 0 \<longrightarrow> (wn_data (wf_nodes w i), l) \<notin> arena_live (m', wf_arena w')))
    \<and> (\<forall>j < LXP_NWNODE. j \<noteq> i \<longrightarrow> wf_nodes w' j = wf_nodes w j \<and> wfs_bytes m' w' j = wfs_bytes m w j)"
proof -
  note F = wfs_free_cases [OF assms(1-3,5)]
  have n0: "wf_nodes w0 i = (wf_nodes w i)\<lparr>wn_linked := False, wn_path := []\<rparr>" "wfs_bytes m0 w0 i = wfs_bytes m w i"
    using F assms(4) by simp_all
  have "wfs_ok m0 w0" "wn_used (wf_nodes w0 i)" "\<not> wn_linked (wf_nodes w0 i)" "wn_open_refs (wf_nodes w0 i) = Suc k"
    "wn_data (wf_nodes w0 i) = wn_data (wf_nodes w i)"
    using F n0 assms(3,4) by simp_all
  note C = wfs_close_times_unlinked [OF this(1) assms(2) this(2,3,4) assms(6,7)] this(5)
  have "\<not> wn_linked (wf_nodes w' i)" using C n0 by (auto split: if_splits)
  then have "lxp_wfs_find w' p \<noteq> int i" by (auto simp: lxp_wfs_find_def scan_simps split: option.splits)
  then show ?thesis using C F n0 assms(3,6) by auto
qed

theorem unlinked_file_lives_until_last_close_witness:
  "\<exists>m' w'. wfs_close_times (\<lambda>_. 0) (snd (lxp_wfs_free (\<lambda>_. 0) (fst (lxp_wfs_open demo_tree 1)) 1)) 1 1 = (m', w')
     \<and> wf_nodes w' 1 = wnode_zero \<and> wf_nodes w' 2 = demo_file ''/e/x'' 0x81a4"
proof -
  obtain w1 rc where o1: "lxp_wfs_open demo_tree 1 = (w1, rc)" by (metis surj_pair)
  have ok1: "wfs_ok (\<lambda>_. 0) w1" using wfs_open_ok [OF demo_tree_ok(1) o1] by blast
  have w1: "w1 = wnode_put demo_tree 1 ((demo_file ''/d/x'' 0x81a4)\<lparr>wn_open_refs := 1\<rparr>)"
    using o1 by (simp add: lxp_wfs_open_def wnode_at_def demo_tree_eq pool_defs demo_file_def UINT16_MAX_def split: if_splits)
  obtain m0 w0 where f: "lxp_wfs_free (\<lambda>_. 0) w1 (int 1) = (m0, w0)" by (metis surj_pair)
  have m0: "m0 = (\<lambda>_. 0)" using f by (simp add: lxp_wfs_free_def w1 wnode_at_def demo_file_def pool_defs Let_def)
  obtain m' w' where c: "wfs_close_times m0 w0 (int 1) 1 = (m', w')" by (metis surj_pair)
  have "1 < LXP_NWNODE" "wn_used (wf_nodes w1 1)" "wn_open_refs (wf_nodes w1 1) = Suc 0"
    by (simp_all add: pool_defs w1 demo_file_def)
  from unlinked_file_lives_until_last_close [OF ok1 this f _ c]
  have "wf_nodes w' 1 = wnode_zero \<and> (2 < LXP_NWNODE \<longrightarrow> wf_nodes w' 2 = wf_nodes w1 2)" by simp
  then show ?thesis using c f o1 m0 by (simp add: w1 demo_tree_eq pool_defs)
qed

lemma demo_tree_nodes:
  "wf_nodes demo_tree 0 = demo_file ''/d'' 0x41ed" "wf_nodes demo_tree (Suc 0) = demo_file ''/d/x'' 0x81a4"
  "wf_nodes demo_tree 2 = demo_file ''/e/x'' 0x81a4"
  by (simp_all add: demo_tree_eq)

lemma demo_tree_dir: "wnode_is_dir (demo_file ''/d'' 0x41ed)"
  by (simp add: wnode_is_dir_def demo_file_def file_type_def)

lemma demo_tree_carried: "wfs_carried demo_tree 0 j \<longleftrightarrow> j = 1"
proof -
  have "lxp_path_under ''/d/x'' ''/d'' \<noteq> 0" "lxp_path_under ''/e/x'' ''/d'' = 0"
    by (simp_all add: lxp_path_under_def)
  then show ?thesis by (auto simp: wfs_carried_def wnode_at_def demo_tree_eq demo_file_def split: if_splits)
qed

lemma demo_tree_rename:
  assumes "new = ''/e'' \<or> new = ''/f''"
  shows "lxp_wfs_rename m demo_tree 0 new = (m, wfs_move demo_tree 0 True new, 0)"
proof -
  have find: "\<not> 0 \<le> lxp_wfs_find demo_tree new"
    unfolding not_le wfs_find_neg
  proof (intro allI impI)
    fix j assume "wn_used (wf_nodes demo_tree j)"
    then show "wn_path (wf_nodes demo_tree j) \<noteq> new" using assms by (auto simp: demo_tree_eq demo_file_def split: if_splits)
  qed
  have under: "lxp_path_under new ''/d'' = 0" "''/d'' \<noteq> new" and len: "length new = 2"
    using assms by (auto simp: lxp_path_under_def)
  have p: "wn_path (demo_file q n) = q" for q n by (simp add: demo_file_def)
  have scn: "scan (\<lambda>j. wfs_carried demo_tree 0 j \<and> length (wn_path (wf_nodes demo_tree j)) - length ''/d'' + 2 \<ge> LXP_PATH_MAX)
      0 LXP_NWNODE = None"
    unfolding scan_None demo_tree_carried by (auto simp: demo_tree_nodes demo_file_def config_defs)
  have small: "\<not> LXP_PATH_MAX \<le> 2" by (simp add: config_defs)
  show ?thesis
    unfolding lxp_wfs_rename_def wnode_at_def nat_0 demo_tree_nodes p Let_def len
    using find under scn small demo_tree_dir by (simp only: if_False if_True simp_thms prod.case)
qed


text \<open>C38.  The condition on the new name is needed.  Let a directory be renamed onto a name that has no
  node of its own, and let a file below the directory and a file below the new name that does not
  move have the same rest of path.  The rename (whose names all fit) succeeds, and then two different linked
  files have one path, so that names are no longer unique and no path leads to the one in the later node.\<close>

theorem rename_onto_orphans_duplicates_a_name:
  assumes "wfs_ok m w" "i < LXP_NWNODE" "wnode_is_dir (wf_nodes w i)"
    and old: "wn_path (wf_nodes w i) \<noteq> [SLASH]" "wn_path (wf_nodes w i) \<noteq> []"
    and new: "lxp_wfs_find w newabs < 0" "lxp_path_under newabs (wn_path (wf_nodes w i)) = 0" "length newabs < LXP_PATH_MAX"
    and fit: "\<And>j. j < LXP_NWNODE \<Longrightarrow> wfs_carried w (int i) j \<Longrightarrow>
        length (wn_path (wf_nodes w j)) - length (wn_path (wf_nodes w i)) + length newabs < LXP_PATH_MAX"
    and a: "a < LXP_NWNODE" "wn_linked (wf_nodes w a)" "wn_path (wf_nodes w a) = wn_path (wf_nodes w i) @ SLASH # rest"
    and b: "b < LXP_NWNODE" "wn_linked (wf_nodes w b)" "wn_path (wf_nodes w b) = newabs @ SLASH # rest"
      "lxp_path_under (wn_path (wf_nodes w b)) (wn_path (wf_nodes w i)) = 0"
  shows "\<exists>w'. lxp_wfs_rename m w (int i) newabs = (m, w', 0) \<and> a \<noteq> b \<and> wn_linked (wf_nodes w' a) \<and> wn_linked (wf_nodes w' b)
     \<and> wn_path (wf_nodes w' a) = newabs @ SLASH # rest \<and> wn_path (wf_nodes w' b) = newabs @ SLASH # rest
     \<and> \<not> wfs_names_ok w' \<and> (\<forall>p. lxp_wfs_find w' p \<noteq> int (max a b))"
proof -
  let ?w = "wfs_move w (int i) True newabs"
  have used: "wn_used (wf_nodes w j)" if "j < LXP_NWNODE" "wn_linked (wf_nodes w j)" for j
    using wfs_okD(3) [OF assms(1) that(1)] that(2) by (simp add: wnode_fine_def)
  have self: "lxp_path_under (wn_path (wf_nodes w i)) (wn_path (wf_nodes w i)) \<noteq> 0" unfolding path_under_iff [OF old] by simp
  have ua: "lxp_path_under (wn_path (wf_nodes w a)) (wn_path (wf_nodes w i)) \<noteq> 0" unfolding path_under_iff [OF old] a(3) by simp
  have ne: "a \<noteq> b" "b \<noteq> i" "a \<noteq> i" "wn_path (wf_nodes w i) \<noteq> newabs" using ua self b(4) new(2) a(3) by auto
  have ca: "wfs_carried w (int i) a" "\<not> wfs_carried w (int i) b"
    using ua b(4) ne used [OF a(1,2)] a(2) by (simp_all add: wfs_carried_def wnode_at_def)
  have none: "scan (\<lambda>j. wfs_carried w (int i) j
      \<and> length (wn_path (wf_nodes w j)) - length (wn_path (wf_nodes w i)) + length newabs \<ge> LXP_PATH_MAX) 0 LXP_NWNODE = None"
    unfolding scan_None using fit by (meson not_le)
  have r: "lxp_wfs_rename m w (int i) newabs = (m, ?w, 0)"
    using assms(3) new ne(4) none by (simp add: lxp_wfs_rename_def wnode_at_def Let_def)
  have n: "wf_nodes ?w a = (wf_nodes w a)\<lparr>wn_path := newabs @ SLASH # rest\<rparr>" "wf_nodes ?w b = wf_nodes w b"
    using ca ne a by (simp_all add: wfs_move_def Let_def wnode_at_def)
  have nf: "lxp_wfs_find ?w p \<noteq> int (max a b)" for p
  proof
    assume f: "lxp_wfs_find ?w p = int (max a b)"
    have "wn_path (wf_nodes ?w (max a b)) = p" using wfs_findD [OF f] by blast
    then have p: "p = newabs @ SLASH # rest" using n b(3) by (auto simp: max_def split: if_splits)
    have "min a b < max a b" using ne(1) by (auto simp: min_def max_def)
    moreover have "\<not> (wn_used (wf_nodes ?w j) \<and> wn_linked (wf_nodes ?w j) \<and> wn_path (wf_nodes ?w j) = p)" if "j < max a b" for j
      using f that by (auto simp: lxp_wfs_find_def scan_simps split: option.splits)
    ultimately have "\<not> (wn_used (wf_nodes ?w (min a b)) \<and> wn_linked (wf_nodes ?w (min a b)) \<and> wn_path (wf_nodes ?w (min a b)) = p)" by blast
    then show False using n p a b used [OF a(1,2)] used [OF b(1,2)] by (auto simp: min_def split: if_splits)
  qed
  have "\<not> wfs_names_ok ?w" using wfs_namesD [of ?w a b] n a b ne by auto
  then show ?thesis using r n a b ne nf by auto
qed

theorem rename_onto_orphans_duplicates_a_name_witness:
  "\<exists>w'. lxp_wfs_rename (\<lambda>_. 0) demo_tree 0 ''/e'' = (\<lambda>_. 0, w', 0) \<and> wfs_names_ok demo_tree
     \<and> wn_path (wf_nodes w' 1) = ''/e/x'' \<and> wn_path (wf_nodes w' 2) = ''/e/x'' \<and> \<not> wfs_names_ok w' \<and> lxp_wfs_find w' ''/e/x'' \<noteq> 2"
proof -
  note N = demo_tree_nodes
  have find: "lxp_wfs_find demo_tree ''/e'' < 0"
    unfolding wfs_find_neg by (auto simp: demo_tree_eq demo_file_def split: if_splits)
  have u: "lxp_path_under ''/e'' (wn_path (wf_nodes demo_tree 0)) = 0"
      "lxp_path_under (wn_path (wf_nodes demo_tree 2)) (wn_path (wf_nodes demo_tree 0)) = 0"
    by (simp_all add: N demo_file_def lxp_path_under_def)
  have p: "wn_path (wf_nodes demo_tree 0) \<noteq> [SLASH]" "wn_path (wf_nodes demo_tree 0) \<noteq> []" "wnode_is_dir (wf_nodes demo_tree 0)"
    using demo_tree_dir by (simp_all add: N demo_file_def)
  have fit: "length (wn_path (wf_nodes demo_tree j)) - length (wn_path (wf_nodes demo_tree 0)) + length ''/e'' < LXP_PATH_MAX"
    if "wfs_carried demo_tree (int 0) j" for j
    using that demo_tree_carried [of j] by (simp add: N demo_file_def config_defs)
  have nodes: "wn_linked (wf_nodes demo_tree 1)" "wn_path (wf_nodes demo_tree 1) = wn_path (wf_nodes demo_tree 0) @ SLASH # ''x''"
    "wn_linked (wf_nodes demo_tree 2)" "wn_path (wf_nodes demo_tree 2) = ''/e'' @ SLASH # ''x''"
    by (simp_all add: N demo_file_def)
  have sz: "0 < LXP_NWNODE" "1 < LXP_NWNODE" "2 < LXP_NWNODE" "length ''/e'' < LXP_PATH_MAX" by (simp_all add: pool_defs config_defs)
  obtain w' where w: "lxp_wfs_rename (\<lambda>_. 0) demo_tree (int 0) ''/e'' = (\<lambda>_. 0, w', 0)"
      "wn_path (wf_nodes w' 1) = ''/e'' @ SLASH # ''x''" "wn_path (wf_nodes w' 2) = ''/e'' @ SLASH # ''x''" "\<not> wfs_names_ok w'"
      "\<forall>q. lxp_wfs_find w' q \<noteq> int (max 1 2)"
    using rename_onto_orphans_duplicates_a_name [OF demo_tree_ok(1) sz(1) p(3,1,2) find u(1) sz(4) fit sz(2) nodes(1,2) sz(3) nodes(3,4) u(2)]
    by blast
  then have "lxp_wfs_find w' ''/e/x'' \<noteq> 2" by (metis max_def of_nat_numeral one_le_numeral)
  then show ?thesis using w demo_tree_ok(2) by (intro exI [of _ w']) simp
qed


end
