(* ===== verification/Fd.thy ===== *)
theory Fd
  imports Tmpfs
begin

text \<open>
  Descriptors (\<^verbatim>\<open>src/src/fs/lxp_fd.c\<close>): the pool of open-file descriptions shared by
  all tasks and the operations on a task's descriptor table, with the close hooks of the
  file kinds (\<^verbatim>\<open>lxp_pipe.c\<close>, \<^verbatim>\<open>lxp_tmpfs.c\<close>, \<^verbatim>\<open>lxp_procfs.c\<close>,
  \<^verbatim>\<open>lxp_eventfd.c\<close>) that a last close runs, and the installer of
  \<^verbatim>\<open>src/src/sys/lxp_sys_fd.c\<close>.

  The invariant \<open>kernel_ok\<close> says that every reference count is exact: a description's is
  the number of descriptors that name it, an object's the number of descriptions of it.
\<close>

section \<open>The model\<close>

subsection \<open>Close hooks\<close>

definition fop_close_pipe :: "kernel \<Rightarrow> ofd \<Rightarrow> kernel" where
  "fop_close_pipe k s = k\<lparr>k_pipes := lxp_pipe_end_close (k_pipes k) (ofd_file_idx s) (ofd_rw s \<noteq> 0)\<rparr>"

definition fop_close_tmpfs :: "kernel \<Rightarrow> ofd \<Rightarrow> kernel" where
  "fop_close_tmpfs k s =
     (case lxp_wfs_close (mc_mem k) (k_wfs k) (ofd_file_idx s) of (m', w') \<Rightarrow> k\<lparr>mc_mem := m', k_wfs := w'\<rparr>)"

definition fop_close_proc :: "kernel \<Rightarrow> ofd \<Rightarrow> kernel" where
  "fop_close_proc k s =
     k\<lparr>k_procf := (k_procf k)(nat (ofd_file_idx s) := (k_procf k (nat (ofd_file_idx s)))\<lparr>pf_used := False\<rparr>)\<rparr>"

definition efd_close :: "(nat \<Rightarrow> efd) \<Rightarrow> int \<Rightarrow> (nat \<Rightarrow> efd)" where
  "efd_close g ei =
     (if ei \<ge> 0 \<and> ei < int LXP_NEVENTFD then g(nat ei := (g (nat ei))\<lparr>ef_used := False\<rparr>) else g)"

definition fop_close_eventfd :: "kernel \<Rightarrow> ofd \<Rightarrow> kernel" where
  "fop_close_eventfd k s = k\<lparr>k_efd := efd_close (k_efd k) (ofd_file_idx s)\<rparr>"

text \<open>The kinds with a row in \<^verbatim>\<open>g_lxp_file_ops\<close>, and its \<^verbatim>\<open>close\<close> column.\<close>

fun lxp_file_ops :: "fd_kind \<Rightarrow> bool" where
  "lxp_file_ops FD_CONSOLE = True"
| "lxp_file_ops FD_FILE = True"
| "lxp_file_ops FD_PIPE = True"
| "lxp_file_ops FD_TMPFS = True"
| "lxp_file_ops FD_PROC = True"
| "lxp_file_ops FD_EVENTFD = True"
| "lxp_file_ops _ = False"

definition vfs_close :: "kernel \<Rightarrow> ofd \<Rightarrow> kernel" where
  "vfs_close k s =
     (case ofd_kind s of
        FD_PIPE \<Rightarrow> fop_close_pipe k s
      | FD_TMPFS \<Rightarrow> fop_close_tmpfs k s
      | FD_PROC \<Rightarrow> fop_close_proc k s
      | FD_EVENTFD \<Rightarrow> fop_close_eventfd k s
      | _ \<Rightarrow> k)"

subsection \<open>Lookup\<close>

text \<open>The entry of a descriptor, and the pool index of the description it names.\<close>

definition fd_entry_at :: "kernel \<Rightarrow> nat \<Rightarrow> int \<Rightarrow> fd_entry" where
  "fd_entry_at k f fd = fl_fd (k_files k f) (nat fd)"

definition fd_entry_put :: "kernel \<Rightarrow> nat \<Rightarrow> int \<Rightarrow> fd_entry \<Rightarrow> kernel" where
  "fd_entry_put k f fd e =
     k\<lparr>k_files := (k_files k)(f := (k_files k f)\<lparr>fl_fd := (fl_fd (k_files k f))(nat fd := e)\<rparr>)\<rparr>"

definition ofd_put :: "kernel \<Rightarrow> nat \<Rightarrow> ofd \<Rightarrow> kernel" where
  "ofd_put k oi s = k\<lparr>k_ofd := (k_ofd k)(oi := s)\<rparr>"

definition fd_lookup :: "kernel \<Rightarrow> proc \<Rightarrow> int \<Rightarrow> nat option" where
  "fd_lookup k p fd =
     (case p_files p of
        None \<Rightarrow> None
      | Some f \<Rightarrow>
          if fd < 0 \<or> fd \<ge> int LXP_MAX_FDS \<or> fd_ofd (fd_entry_at k f fd) = 0
             \<or> fd_ofd (fd_entry_at k f fd) > LXP_MAX_OFD then None
          else
            (let oi = fd_ofd (fd_entry_at k f fd) - 1
             in if ofd_refs (k_ofd k oi) \<noteq> 0 then Some oi else None))"

definition lxp_fd_kind :: "kernel \<Rightarrow> proc \<Rightarrow> int \<Rightarrow> fd_kind" where
  "lxp_fd_kind k p fd = (case fd_lookup k p fd of None \<Rightarrow> FD_FREE | Some oi \<Rightarrow> ofd_kind (k_ofd k oi))"

definition lxp_fd_backing :: "kernel \<Rightarrow> proc \<Rightarrow> int \<Rightarrow> int" where
  "lxp_fd_backing k p fd = (case fd_lookup k p fd of None \<Rightarrow> - 1 | Some oi \<Rightarrow> ofd_file_idx (k_ofd k oi))"

subsection \<open>Opening and closing\<close>

definition lxp_fd_open :: "kernel \<Rightarrow> proc \<Rightarrow> fd_kind \<Rightarrow> int \<Rightarrow> nat \<Rightarrow> nat \<Rightarrow> kernel \<times> int" where
  "lxp_fd_open k p kind backing off flags =
     (case p_files p of
        None \<Rightarrow> (k, - LXP_EMFILE)
      | Some f \<Rightarrow>
          if \<not> lxp_file_ops kind then (k, - LXP_EMFILE)
          else
            (case scan (\<lambda>i. ofd_refs (k_ofd k i) = 0) 0 LXP_MAX_OFD of
               None \<Rightarrow> (k, - LXP_EMFILE)
             | Some oi \<Rightarrow>
                 (case scan (\<lambda>fd. fd_ofd (fl_fd (k_files k f) fd) = 0) 0 LXP_MAX_FDS of
                    None \<Rightarrow> (k, - LXP_EMFILE)
                  | Some fd \<Rightarrow>
                      (let k1 = ofd_put k oi \<lparr>ofd_refs = 1, ofd_kind = kind, ofd_rw = 0,
                                   ofd_nonblock = has_flag flags LXP_O_NONBLOCK, ofd_accmode = flags AND LXP_O_ACCMODE,
                                   ofd_file_idx = backing, ofd_offset = off\<rparr>
                       in (fd_entry_put k1 f (int fd) \<lparr>fd_ofd = oi + 1, fd_cloexec = has_flag flags LXP_O_CLOEXEC\<rparr>,
                           int fd)))))"

definition lxp_fd_set_end :: "kernel \<Rightarrow> proc \<Rightarrow> int \<Rightarrow> bool \<Rightarrow> kernel \<times> int" where
  "lxp_fd_set_end k p fd en =
     (case fd_lookup k p fd of
        None \<Rightarrow> (k, - LXP_EBADF)
      | Some oi \<Rightarrow> (ofd_put k oi ((k_ofd k oi)\<lparr>ofd_rw := if en then 1 else 0\<rparr>), 0))"

definition lxp_fd_set_cloexec :: "kernel \<Rightarrow> proc \<Rightarrow> int \<Rightarrow> bool \<Rightarrow> kernel \<times> int" where
  "lxp_fd_set_cloexec k p fd enabled =
     (case (fd_lookup k p fd, p_files p) of
        (Some _, Some f) \<Rightarrow> (fd_entry_put k f fd ((fd_entry_at k f fd)\<lparr>fd_cloexec := enabled\<rparr>), 0)
      | _ \<Rightarrow> (k, - LXP_EBADF))"

definition lxp_fd_get_cloexec :: "kernel \<Rightarrow> proc \<Rightarrow> int \<Rightarrow> int" where
  "lxp_fd_get_cloexec k p fd =
     (case (fd_lookup k p fd, p_files p) of
        (Some _, Some f) \<Rightarrow> if fd_cloexec (fd_entry_at k f fd) then 1 else 0
      | _ \<Rightarrow> - LXP_EBADF)"

definition lxp_fd_free_count :: "kernel \<Rightarrow> proc \<Rightarrow> nat" where
  "lxp_fd_free_count k p =
     (case p_files p of
        None \<Rightarrow> 0
      | Some f \<Rightarrow> length (filter (\<lambda>fd. fd_ofd (fl_fd (k_files k f) fd) = 0) [0..<LXP_MAX_FDS]))"

text \<open>Drop one reference of a description: the last one runs the close hook and clears it.\<close>

definition ofd_release :: "kernel \<Rightarrow> nat \<Rightarrow> kernel" where
  "ofd_release k oi =
     (let s = (k_ofd k oi)\<lparr>ofd_refs := ofd_refs (k_ofd k oi) - 1\<rparr>; k1 = ofd_put k oi s
      in if ofd_refs s = 0 then ofd_put (vfs_close k1 s) oi ofd_zero else k1)"

definition lxp_fd_close :: "kernel \<Rightarrow> proc \<Rightarrow> int \<Rightarrow> kernel \<times> int" where
  "lxp_fd_close k p fd =
     (case (fd_lookup k p fd, p_files p) of
        (Some oi, Some f) \<Rightarrow> (ofd_release (fd_entry_put k f fd fd_zero) oi, 0)
      | _ \<Rightarrow> (k, - LXP_EBADF))"

primrec fd_close_loop :: "kernel \<Rightarrow> proc \<Rightarrow> (kernel \<Rightarrow> int \<Rightarrow> bool) \<Rightarrow> nat \<Rightarrow> kernel" where
  "fd_close_loop k p P 0 = k"
| "fd_close_loop k p P (Suc n) =
     (let k1 = fd_close_loop k p P n in if P k1 (int n) then fst (lxp_fd_close k1 p (int n)) else k1)"

definition lxp_fd_close_all :: "kernel \<Rightarrow> proc \<Rightarrow> kernel" where
  "lxp_fd_close_all k p = (if p_files p = None then k else fd_close_loop k p (\<lambda>_ _. True) LXP_MAX_FDS)"

definition lxp_fd_close_on_exec :: "kernel \<Rightarrow> proc \<Rightarrow> kernel" where
  "lxp_fd_close_on_exec k p =
     (if p_files p = None then k else fd_close_loop k p (\<lambda>k fd. lxp_fd_get_cloexec k p fd > 0) LXP_MAX_FDS)"

definition lxp_fd_runtime_reset :: "kernel \<Rightarrow> kernel" where
  "lxp_fd_runtime_reset k = k\<lparr>k_ofd := (\<lambda>i. if i < LXP_MAX_OFD then ofd_zero else k_ofd k i)\<rparr>"

subsection \<open>Sharing\<close>

definition ofd_ref_inc :: "kernel \<Rightarrow> nat \<Rightarrow> kernel" where
  "ofd_ref_inc k oi = ofd_put k oi ((k_ofd k oi)\<lparr>ofd_refs := ofd_refs (k_ofd k oi) + 1\<rparr>)"

primrec fd_retain_loop :: "kernel \<Rightarrow> proc \<Rightarrow> nat \<Rightarrow> kernel" where
  "fd_retain_loop k p 0 = k"
| "fd_retain_loop k p (Suc n) =
     (let k1 = fd_retain_loop k p n
      in case fd_lookup k1 p (int n) of None \<Rightarrow> k1 | Some oi \<Rightarrow> ofd_ref_inc k1 oi)"

definition lxp_fd_table_retain :: "kernel \<Rightarrow> proc \<Rightarrow> kernel \<times> int" where
  "lxp_fd_table_retain k p =
     (if p_files p = None then (k, - 1)
      else if scan (\<lambda>fd. case fd_lookup k p (int fd) of None \<Rightarrow> False
                          | Some oi \<Rightarrow> ofd_refs (k_ofd k oi) = UINT16_MAX) 0 LXP_MAX_FDS \<noteq> None
      then (k, - 1)
      else (fd_retain_loop k p LXP_MAX_FDS, 0))"

definition fd_retain :: "kernel \<Rightarrow> nat \<Rightarrow> kernel \<times> int" where
  "fd_retain k oi = (if ofd_refs (k_ofd k oi) = UINT16_MAX then (k, - 1) else (ofd_ref_inc k oi, 0))"

definition lxp_fd_dup_to :: "kernel \<Rightarrow> proc \<Rightarrow> int \<Rightarrow> int \<Rightarrow> bool \<Rightarrow> kernel \<times> int" where
  "lxp_fd_dup_to k p oldfd newfd cloexec =
     (case (fd_lookup k p oldfd, p_files p) of
        (Some oi, Some f) \<Rightarrow>
          if newfd < 0 \<or> newfd \<ge> int LXP_MAX_FDS then (k, - LXP_EBADF)
          else if oldfd = newfd then (k, newfd)
          else
            (let old_ofd = fd_ofd (fd_entry_at k f oldfd); (k1, rc) = fd_retain k oi in
             if rc \<noteq> 0 then (k1, - LXP_EMFILE)
             else
               (let k2 = (if fd_ofd (fd_entry_at k1 f newfd) \<noteq> 0 then fst (lxp_fd_close k1 p newfd) else k1)
                in (fd_entry_put k2 f newfd \<lparr>fd_ofd = old_ofd, fd_cloexec = cloexec\<rparr>, newfd)))
      | _ \<Rightarrow> (k, - LXP_EBADF))"

definition lxp_fd_dup_min :: "kernel \<Rightarrow> proc \<Rightarrow> int \<Rightarrow> int \<Rightarrow> bool \<Rightarrow> kernel \<times> int" where
  "lxp_fd_dup_min k p oldfd minfd cloexec =
     (case (fd_lookup k p oldfd, p_files p) of
        (Some oi, Some f) \<Rightarrow>
          if minfd < 0 \<or> minfd \<ge> int LXP_MAX_FDS then (k, - LXP_EMFILE)
          else
            (case scan (\<lambda>fd. fd_ofd (fl_fd (k_files k f) fd) = 0) (nat minfd) LXP_MAX_FDS of
               None \<Rightarrow> (k, - LXP_EMFILE)
             | Some fd \<Rightarrow>
                 (let (k1, rc) = fd_retain k oi in
                  if rc \<noteq> 0 then (k1, - LXP_EMFILE)
                  else (fd_entry_put k1 f (int fd)
                          \<lparr>fd_ofd = fd_ofd (fd_entry_at k1 f oldfd), fd_cloexec = cloexec\<rparr>, int fd)))
      | _ \<Rightarrow> (k, - LXP_EBADF))"

subsection \<open>Installing an object\<close>

definition lxp_sys_fd_alloc :: "kernel \<Rightarrow> proc \<Rightarrow> fd_kind \<Rightarrow> int \<Rightarrow> nat \<Rightarrow> nat \<Rightarrow> kernel \<times> int" where
  "lxp_sys_fd_alloc k p kind idx off flags =
     (if kind = FD_TMPFS then
        (let (w1, rc) = lxp_wfs_open (k_wfs k) idx in
         if rc \<noteq> 0 then (k, - LXP_EMFILE)
         else
           (let (k2, fd) = lxp_fd_open (k\<lparr>k_wfs := w1\<rparr>) p kind idx off flags in
            if fd < 0 then
              (case lxp_wfs_close (mc_mem k2) (k_wfs k2) idx of (m', w') \<Rightarrow> (k2\<lparr>mc_mem := m', k_wfs := w'\<rparr>, fd))
            else (k2, fd)))
      else lxp_fd_open k p kind idx off flags)"

definition lxp_fd_install :: "kernel \<Rightarrow> proc \<Rightarrow> fd_kind \<Rightarrow> int \<Rightarrow> nat \<Rightarrow> kernel \<times> int" where
  "lxp_fd_install k p kind idx flags = lxp_sys_fd_alloc k p kind idx 0 flags"

section \<open>Reference counts\<close>

lemma sum_fun_upd_nat:
  fixes h :: "'b \<Rightarrow> nat" and i n :: nat
  assumes "i < n"
  shows "(\<Sum>j<n. h ((g(i := x)) j)) + h (g i) = (\<Sum>j<n. h (g j)) + h x"
proof -
  have "(\<Sum>j<n. h ((g(i := x)) j)) = h x + (\<Sum>j\<in>{..<n} - {i}. h (g j))"
    using assms by (subst sum.remove [of _ i]) auto
  moreover have "(\<Sum>j<n. h (g j)) = h (g i) + (\<Sum>j\<in>{..<n} - {i}. h (g j))"
    using assms by (subst sum.remove [of _ i]) auto
  ultimately show ?thesis by simp
qed

text \<open>How many descriptors name a description, and how many live descriptions satisfy \<open>P\<close>.\<close>

definition table_refs :: "files \<Rightarrow> nat \<Rightarrow> nat" where
  "table_refs t oi = (\<Sum>d<LXP_MAX_FDS. of_bool (fd_ofd (fl_fd t d) = Suc oi))"

definition entry_refs :: "(nat \<Rightarrow> files) \<Rightarrow> nat \<Rightarrow> nat" where
  "entry_refs g oi = (\<Sum>f<LXP_RESOURCE_POOL_COUNT. table_refs (g f) oi)"

definition ofd_count :: "(nat \<Rightarrow> ofd) \<Rightarrow> (ofd \<Rightarrow> bool) \<Rightarrow> nat" where
  "ofd_count g P = (\<Sum>oi<LXP_MAX_OFD. of_bool (ofd_refs (g oi) \<noteq> 0 \<and> P (g oi)))"

definition pipe_end_of :: "nat \<Rightarrow> bool \<Rightarrow> ofd \<Rightarrow> bool" where
  "pipe_end_of i e s \<longleftrightarrow> ofd_kind s = FD_PIPE \<and> ofd_file_idx s = int i \<and> (ofd_rw s \<noteq> 0) = e"

definition ofd_names :: "fd_kind \<Rightarrow> nat \<Rightarrow> ofd \<Rightarrow> bool" where
  "ofd_names kind i s \<longleftrightarrow> ofd_kind s = kind \<and> ofd_file_idx s = int i"

fun kind_bound :: "fd_kind \<Rightarrow> nat option" where
  "kind_bound FD_PIPE = Some LXP_NPIPE"
| "kind_bound FD_TMPFS = Some LXP_NWNODE"
| "kind_bound FD_PROC = Some LXP_NPROCF"
| "kind_bound FD_EVENTFD = Some LXP_NEVENTFD"
| "kind_bound _ = None"

definition ofd_fine :: "ofd \<Rightarrow> bool" where
  "ofd_fine s \<longleftrightarrow> (ofd_refs s = 0 \<longrightarrow> s = ofd_zero) \<and> (ofd_refs s \<noteq> 0 \<longrightarrow> lxp_file_ops (ofd_kind s)
     \<and> (\<forall>n. kind_bound (ofd_kind s) = Some n \<longrightarrow> 0 \<le> ofd_file_idx s \<and> ofd_file_idx s < int n))"

text \<open>Counts that are exact up to references in flight: \<open>ex oi\<close> of description \<open>oi\<close>.\<close>

definition fd_refs_ok :: "(nat \<Rightarrow> ofd) \<Rightarrow> (nat \<Rightarrow> files) \<Rightarrow> (nat \<Rightarrow> nat) \<Rightarrow> bool" where
  "fd_refs_ok g t ex \<longleftrightarrow> (\<forall>oi < LXP_MAX_OFD. ofd_refs (g oi) = entry_refs t oi + ex oi \<and> ofd_fine (g oi))
     \<and> (\<forall>f < LXP_RESOURCE_POOL_COUNT. \<forall>d < LXP_MAX_FDS. fd_ofd (fl_fd (t f) d) \<le> LXP_MAX_OFD)"

definition pipe_refs_ok :: "(nat \<Rightarrow> ofd) \<Rightarrow> pipes \<Rightarrow> bool" where
  "pipe_refs_ok g pp \<longleftrightarrow> (\<forall>i < LXP_NPIPE. pp_readers (pp i) = ofd_count g (pipe_end_of i False)
     \<and> pp_writers (pp i) = ofd_count g (pipe_end_of i True))"

text \<open>No slot is held by a pipe that has lost both ends.\<close>

definition pipe_slots_ok :: "pipes \<Rightarrow> bool" where
  "pipe_slots_ok pp \<longleftrightarrow> (\<forall>i < LXP_NPIPE. pp_used (pp i) \<longrightarrow> pp_readers (pp i) \<noteq> 0 \<or> pp_writers (pp i) \<noteq> 0)"

definition wfs_refs_ok :: "(nat \<Rightarrow> ofd) \<Rightarrow> wfs \<Rightarrow> bool" where
  "wfs_refs_ok g w \<longleftrightarrow> (\<forall>i < LXP_NWNODE. wn_open_refs (wf_nodes w i) = ofd_count g (ofd_names FD_TMPFS i))"

definition efd_refs_ok :: "(nat \<Rightarrow> ofd) \<Rightarrow> (nat \<Rightarrow> efd) \<Rightarrow> bool" where
  "efd_refs_ok g e \<longleftrightarrow> (\<forall>i < LXP_NEVENTFD. of_bool (ef_used (e i)) = ofd_count g (ofd_names FD_EVENTFD i))"

definition procf_refs_ok :: "(nat \<Rightarrow> ofd) \<Rightarrow> (nat \<Rightarrow> procf) \<Rightarrow> bool" where
  "procf_refs_ok g e \<longleftrightarrow> (\<forall>i < LXP_NPROCF. of_bool (pf_used (e i)) = ofd_count g (ofd_names FD_PROC i))"

definition objects_ok :: "kernel \<Rightarrow> bool" where
  "objects_ok k \<longleftrightarrow> pipe_refs_ok (k_ofd k) (k_pipes k) \<and> wfs_refs_ok (k_ofd k) (k_wfs k)
     \<and> efd_refs_ok (k_ofd k) (k_efd k) \<and> procf_refs_ok (k_ofd k) (k_procf k)
     \<and> pipes_ok (k_pipes k) \<and> pipe_slots_ok (k_pipes k) \<and> wfs_ok (mc_mem k) (k_wfs k)"

definition kernel_inv :: "kernel \<Rightarrow> (nat \<Rightarrow> nat) \<Rightarrow> bool" where
  "kernel_inv k ex \<longleftrightarrow> fd_refs_ok (k_ofd k) (k_files k) ex \<and> objects_ok k"

definition kernel_ok :: "kernel \<Rightarrow> bool" where
  "kernel_ok k \<longleftrightarrow> kernel_inv k (\<lambda>_. 0)"

lemma ofd_count_upd:
  assumes "oi < LXP_MAX_OFD"
  shows "ofd_count (g(oi := s)) P + of_bool (ofd_refs (g oi) \<noteq> 0 \<and> P (g oi))
    = ofd_count g P + of_bool (ofd_refs s \<noteq> 0 \<and> P s)"
  unfolding ofd_count_def by (rule sum_fun_upd_nat [OF assms])

lemma table_refs_upd:
  assumes "d < LXP_MAX_FDS"
  shows "table_refs (t\<lparr>fl_fd := (fl_fd t)(d := e)\<rparr>) oi + of_bool (fd_ofd (fl_fd t d) = Suc oi)
    = table_refs t oi + of_bool (fd_ofd e = Suc oi)"
  unfolding table_refs_def using sum_fun_upd_nat [OF assms, of "\<lambda>e. of_bool (fd_ofd e = Suc oi)" "fl_fd t" e] by simp

lemma entry_refs_upd:
  assumes "f < LXP_RESOURCE_POOL_COUNT" "d < LXP_MAX_FDS"
  shows "entry_refs (g(f := (g f)\<lparr>fl_fd := (fl_fd (g f))(d := e)\<rparr>)) oi + of_bool (fd_ofd (fl_fd (g f) d) = Suc oi)
    = entry_refs g oi + of_bool (fd_ofd e = Suc oi)"
  unfolding entry_refs_def
  using sum_fun_upd_nat [OF assms(1), of "\<lambda>t. table_refs t oi" g "(g f)\<lparr>fl_fd := (fl_fd (g f))(d := e)\<rparr>"]
    table_refs_upd [OF assms(2), of "g f" e oi] by linarith

lemma put_simps [simp]:
  "k_files (ofd_put k oi s) = k_files k" "k_ofd (ofd_put k oi s) = (k_ofd k)(oi := s)"
  "k_ofd (fd_entry_put k f fd e) = k_ofd k"
  "k_files (fd_entry_put k f fd e) = (k_files k)(f := (k_files k f)\<lparr>fl_fd := (fl_fd (k_files k f))(nat fd := e)\<rparr>)"
  by (simp_all add: ofd_put_def fd_entry_put_def)

lemma put_rest [simp]:
  "k_pipes (ofd_put k oi s) = k_pipes k" "k_wfs (ofd_put k oi s) = k_wfs k" "k_efd (ofd_put k oi s) = k_efd k"
  "k_procf (ofd_put k oi s) = k_procf k" "mc_mem (ofd_put k oi s) = mc_mem k"
  "k_pipes (fd_entry_put k f fd e) = k_pipes k" "k_wfs (fd_entry_put k f fd e) = k_wfs k" "k_efd (fd_entry_put k f fd e) = k_efd k"
  "k_procf (fd_entry_put k f fd e) = k_procf k" "mc_mem (fd_entry_put k f fd e) = mc_mem k"
  by (simp_all add: ofd_put_def fd_entry_put_def)

text \<open>Taking a descriptor away puts its reference in flight; naming a description uses one up.\<close>

lemma fd_entry_clear_inv:
  assumes k: "kernel_inv k ex" and f: "f < LXP_RESOURCE_POOL_COUNT" "0 \<le> fd" "fd < int LXP_MAX_FDS"
    and e: "fd_ofd (fd_entry_at k f fd) = Suc oi"
  shows "kernel_inv (fd_entry_put k f fd fd_zero) (ex(oi := Suc (ex oi)))"
proof -
  have d: "nat fd < LXP_MAX_FDS" using f by linarith
  have z: "fd_ofd fd_zero = 0" by (simp add: fd_zero_def)
  have "entry_refs (k_files k) x = entry_refs (k_files (fd_entry_put k f fd fd_zero)) x + of_bool (x = oi)" for x
    using entry_refs_upd [OF f(1) d, of "k_files k" fd_zero x] e by (cases "x = oi") (simp_all add: z fd_entry_at_def)
  then show ?thesis using k z by (auto simp: kernel_inv_def fd_refs_ok_def objects_ok_def)
qed

lemma fd_entry_set_inv:
  assumes k: "kernel_inv k (ex(oi := Suc n))" and f: "f < LXP_RESOURCE_POOL_COUNT" "0 \<le> fd" "fd < int LXP_MAX_FDS"
    and free: "fd_ofd (fd_entry_at k f fd) = 0" and e: "fd_ofd e = Suc oi" "oi < LXP_MAX_OFD"
  shows "kernel_inv (fd_entry_put k f fd e) (ex(oi := n))"
proof -
  have d: "nat fd < LXP_MAX_FDS" using f by linarith
  have "entry_refs (k_files (fd_entry_put k f fd e)) x = entry_refs (k_files k) x + of_bool (x = oi)" for x
    using entry_refs_upd [OF f(1) d, of "k_files k" e x] e free by (cases "x = oi") (simp_all add: fd_entry_at_def)
  then show ?thesis using k e by (auto simp: kernel_inv_def fd_refs_ok_def objects_ok_def)
qed

lemma fd_entry_flag_inv:
  assumes k: "kernel_inv k ex" and e: "fd_ofd e = fd_ofd (fd_entry_at k f fd)"
  shows "kernel_inv (fd_entry_put k f fd e) ex"
proof -
  have "fd_ofd (fl_fd (k_files (fd_entry_put k f fd e) g) d) = fd_ofd (fl_fd (k_files k g) d)" for g d
    using e by (simp add: fd_entry_at_def)
  then show ?thesis using k unfolding kernel_inv_def fd_refs_ok_def entry_refs_def table_refs_def objects_ok_def by simp
qed

lemma ofd_pred_refs [simp]:
  "pipe_end_of i e (s\<lparr>ofd_refs := r\<rparr>) = pipe_end_of i e s" "ofd_names kind i (s\<lparr>ofd_refs := r\<rparr>) = ofd_names kind i s"
  by (simp_all add: pipe_end_of_def ofd_names_def)

lemma ofd_count_same:
  assumes "oi < LXP_MAX_OFD" "ofd_refs (g oi) \<noteq> 0" "ofd_refs s \<noteq> 0" "P s = P (g oi)"
  shows "ofd_count (g(oi := s)) P = ofd_count g P"
  using ofd_count_upd [OF assms(1), of g s P] assms(2-4) by simp

lemma ofd_count_gone:
  assumes "oi < LXP_MAX_OFD" "ofd_refs (g oi) \<noteq> 0"
  shows "ofd_count g P = ofd_count (g(oi := ofd_zero)) P + of_bool (P (g oi))"
  using ofd_count_upd [OF assms(1), of g ofd_zero P] assms(2) by (simp add: ofd_zero_def)

lemma ofd_count_new:
  assumes "oi < LXP_MAX_OFD" "ofd_refs (g oi) = 0" "ofd_refs s \<noteq> 0"
  shows "ofd_count (g(oi := s)) P = ofd_count g P + of_bool (P s)"
  using ofd_count_upd [OF assms(1), of g s P] assms(2,3) by simp

lemma ofd_count_pos:
  assumes "oi < LXP_MAX_OFD" "ofd_refs (g oi) \<noteq> 0" "P (g oi)"
  shows "0 < ofd_count g P"
  using ofd_count_gone [where g = g, OF assms(1,2), of P] assms(3) by simp

lemma objects_ofd_same:
  assumes k: "objects_ok k" and oi: "oi < LXP_MAX_OFD" "ofd_refs (k_ofd k oi) \<noteq> 0" "ofd_refs s \<noteq> 0"
    and s: "ofd_kind s = ofd_kind (k_ofd k oi)" "ofd_file_idx s = ofd_file_idx (k_ofd k oi)" "ofd_rw s = ofd_rw (k_ofd k oi)"
  shows "objects_ok (ofd_put k oi s)"
proof -
  have "ofd_count ((k_ofd k)(oi := s)) (pipe_end_of i e) = ofd_count (k_ofd k) (pipe_end_of i e)"
    "ofd_count ((k_ofd k)(oi := s)) (ofd_names kd i) = ofd_count (k_ofd k) (ofd_names kd i)" for i e kd
    using s by (simp_all add: ofd_count_same [where g = "k_ofd k", OF oi] pipe_end_of_def ofd_names_def)
  then show ?thesis using k
    by (simp add: objects_ok_def pipe_refs_ok_def wfs_refs_ok_def efd_refs_ok_def procf_refs_ok_def)
qed

lemma ofd_ref_inc_inv:
  assumes k: "kernel_inv k ex" and oi: "oi < LXP_MAX_OFD" "ofd_refs (k_ofd k oi) \<noteq> 0"
  shows "kernel_inv (ofd_ref_inc k oi) (ex(oi := Suc (ex oi)))"
proof -
  have "objects_ok (ofd_ref_inc k oi)"
    unfolding ofd_ref_inc_def by (rule objects_ofd_same [OF _ oi]) (use k in \<open>simp_all add: kernel_inv_def\<close>)
  moreover have "ofd_fine ((k_ofd k oi)\<lparr>ofd_refs := Suc r\<rparr>)" for r
    using k oi by (auto simp: kernel_inv_def fd_refs_ok_def ofd_fine_def)
  ultimately show ?thesis using k by (auto simp: kernel_inv_def ofd_ref_inc_def fd_refs_ok_def)
qed

subsection \<open>The last reference\<close>

lemma close_pipe_refs:
  assumes pp: "pipes_ok pp" "pipe_refs_ok g pp" and oi: "oi < LXP_MAX_OFD" "ofd_refs (g oi) \<noteq> 0"
    and s: "ofd_kind (g oi) = FD_PIPE" "ofd_file_idx (g oi) = int i" "i < LXP_NPIPE"
  shows "pipe_refs_ok (g(oi := ofd_zero)) (lxp_pipe_end_close pp (int i) (ofd_rw (g oi) \<noteq> 0))"
proof -
  let ?g = "g(oi := ofd_zero)" and ?e = "ofd_rw (g oi) \<noteq> 0"
  have c: "ofd_count g (pipe_end_of j e) = ofd_count ?g (pipe_end_of j e) + of_bool (j = i \<and> e = ?e)" for j e
    using ofd_count_gone [where g = g, OF oi, of "pipe_end_of j e"] s(1,2) by (auto simp: pipe_end_of_def)
  have r: "pp_readers (pp j) = ofd_count ?g (pipe_end_of j False) + of_bool (j = i \<and> \<not> ?e)"
    "pp_writers (pp j) = ofd_count ?g (pipe_end_of j True) + of_bool (j = i \<and> ?e)" if "j < LXP_NPIPE" for j
    using pp(2) c [of j False] c [of j True] that by (auto simp: pipe_refs_ok_def)
  have used: "pp_used (pp i)"
    using pp(1) r [OF s(3)] s(3) by (cases ?e) (auto simp: pipes_ok_def pipe_ok_def)
  then have "pipe_index_ok pp (int i)" using s(3) by (simp add: pipe_index_ok_def)
  then show ?thesis using r s(3)
    by (cases ?e) (auto simp: pipe_refs_ok_def lxp_pipe_end_close_def Let_def)
qed

lemma close_pipe_slots: "pipe_slots_ok pp \<Longrightarrow> pipe_slots_ok (lxp_pipe_end_close pp pi w)"
  by (auto simp: pipe_slots_ok_def lxp_pipe_end_close_def pipe_zero_def Let_def)

lemma close_wfs_refs:
  assumes ok: "wfs_ok m w" "wfs_refs_ok g w" and oi: "oi < LXP_MAX_OFD" "ofd_refs (g oi) \<noteq> 0"
    and s: "ofd_kind (g oi) = FD_TMPFS" "ofd_file_idx (g oi) = int i" "i < LXP_NWNODE"
    and c: "lxp_wfs_close m w (int i) = (m', w')"
  shows "wfs_ok m' w'" "wfs_refs_ok (g(oi := ofd_zero)) w'"
proof -
  have cnt: "ofd_count g (ofd_names FD_TMPFS j) = ofd_count (g(oi := ofd_zero)) (ofd_names FD_TMPFS j) + of_bool (j = i)" for j
    using ofd_count_gone [where g = g, OF oi, of "ofd_names FD_TMPFS j"] s(1,2) by (auto simp: ofd_names_def)
  obtain r where r: "wn_open_refs (wf_nodes w i) = Suc r" "ofd_count (g(oi := ofd_zero)) (ofd_names FD_TMPFS i) = r"
    using ok(2) cnt [of i] s(3) by (auto simp: wfs_refs_ok_def)
  have u: "wn_used (wf_nodes w i)" using wfs_okD(3) [OF ok(1) s(3)] r(1) by (auto simp: wnode_fine_def)
  note C = wfs_close_cases [OF ok(1) s(3) u r(1) c]
  show "wfs_ok m' w'" using C by blast
  have "wn_open_refs (wf_nodes w' i) = r" using C by (auto split: if_splits)
  moreover have "wf_nodes w' j = wf_nodes w j" if "j < LXP_NWNODE" "j \<noteq> i" for j using C that by blast
  ultimately show "wfs_refs_ok (g(oi := ofd_zero)) w'"
    using ok(2) cnt r(2) unfolding wfs_refs_ok_def by (metis add.right_neutral of_bool_eq(1))
qed

text \<open>The objects a kind's close hook leaves alone.\<close>

lemma close_other_refs:
  assumes oi: "oi < LXP_MAX_OFD" "ofd_refs (g oi) \<noteq> 0"
  shows "ofd_kind (g oi) \<noteq> FD_PIPE \<Longrightarrow> pipe_refs_ok g pp \<Longrightarrow> pipe_refs_ok (g(oi := ofd_zero)) pp"
    "ofd_kind (g oi) \<noteq> FD_TMPFS \<Longrightarrow> wfs_refs_ok g w \<Longrightarrow> wfs_refs_ok (g(oi := ofd_zero)) w"
    "ofd_kind (g oi) \<noteq> FD_EVENTFD \<Longrightarrow> efd_refs_ok g e \<Longrightarrow> efd_refs_ok (g(oi := ofd_zero)) e"
    "ofd_kind (g oi) \<noteq> FD_PROC \<Longrightarrow> procf_refs_ok g q \<Longrightarrow> procf_refs_ok (g(oi := ofd_zero)) q"
proof -
  have c: "\<not> P (g oi) \<Longrightarrow> ofd_count (g(oi := ofd_zero)) P = ofd_count g P" for P
    using ofd_count_gone [where g = g, OF oi, of P] by simp
  show "ofd_kind (g oi) \<noteq> FD_PIPE \<Longrightarrow> pipe_refs_ok g pp \<Longrightarrow> pipe_refs_ok (g(oi := ofd_zero)) pp"
    by (simp add: pipe_refs_ok_def c pipe_end_of_def)
  show "ofd_kind (g oi) \<noteq> FD_TMPFS \<Longrightarrow> wfs_refs_ok g w \<Longrightarrow> wfs_refs_ok (g(oi := ofd_zero)) w"
    by (simp add: wfs_refs_ok_def c ofd_names_def)
  show "ofd_kind (g oi) \<noteq> FD_EVENTFD \<Longrightarrow> efd_refs_ok g e \<Longrightarrow> efd_refs_ok (g(oi := ofd_zero)) e"
    by (simp add: efd_refs_ok_def c ofd_names_def)
  show "ofd_kind (g oi) \<noteq> FD_PROC \<Longrightarrow> procf_refs_ok g q \<Longrightarrow> procf_refs_ok (g(oi := ofd_zero)) q"
    by (simp add: procf_refs_ok_def c ofd_names_def)
qed

lemma close_efd_refs:
  assumes "efd_refs_ok g e" "oi < LXP_MAX_OFD" "ofd_refs (g oi) \<noteq> 0"
    and s: "ofd_kind (g oi) = FD_EVENTFD" "ofd_file_idx (g oi) = int i" "i < LXP_NEVENTFD"
  shows "efd_refs_ok (g(oi := ofd_zero)) (efd_close e (int i))"
proof -
  have c: "ofd_count g (ofd_names FD_EVENTFD j) = ofd_count (g(oi := ofd_zero)) (ofd_names FD_EVENTFD j) + of_bool (j = i)" for j
    using ofd_count_gone [where g = g, OF assms(2,3), of "ofd_names FD_EVENTFD j"] s by (auto simp: ofd_names_def)
  show ?thesis unfolding efd_refs_ok_def
  proof (intro allI impI)
    fix j assume j: "j < LXP_NEVENTFD"
    then have "of_bool (ef_used (e j)) = ofd_count (g(oi := ofd_zero)) (ofd_names FD_EVENTFD j) + of_bool (j = i)"
      using assms(1) c by (simp add: efd_refs_ok_def)
    then show "of_bool (ef_used (efd_close e (int i) j)) = ofd_count (g(oi := ofd_zero)) (ofd_names FD_EVENTFD j)"
      using s(3) by (cases "j = i"; cases "ef_used (e j)") (simp_all add: efd_close_def)
  qed
qed

lemma close_procf_refs:
  assumes "procf_refs_ok g e" "oi < LXP_MAX_OFD" "ofd_refs (g oi) \<noteq> 0"
    and s: "ofd_kind (g oi) = FD_PROC" "ofd_file_idx (g oi) = int i" "i < LXP_NPROCF"
  shows "procf_refs_ok (g(oi := ofd_zero)) (e(i := (e i)\<lparr>pf_used := False\<rparr>))"
proof -
  have c: "ofd_count g (ofd_names FD_PROC j) = ofd_count (g(oi := ofd_zero)) (ofd_names FD_PROC j) + of_bool (j = i)" for j
    using ofd_count_gone [where g = g, OF assms(2,3), of "ofd_names FD_PROC j"] s by (auto simp: ofd_names_def)
  show ?thesis unfolding procf_refs_ok_def
  proof (intro allI impI)
    fix j assume j: "j < LXP_NPROCF"
    then have "of_bool (pf_used (e j)) = ofd_count (g(oi := ofd_zero)) (ofd_names FD_PROC j) + of_bool (j = i)"
      using assms(1) c by (simp add: procf_refs_ok_def)
    then show "of_bool (pf_used ((e(i := (e i)\<lparr>pf_used := False\<rparr>)) j)) = ofd_count (g(oi := ofd_zero)) (ofd_names FD_PROC j)"
      using s(3) by (cases "j = i"; cases "pf_used (e j)") simp_all
  qed
qed

lemma vfs_close_frame [simp]:
  "k_ofd (vfs_close k s) = k_ofd k" "k_files (vfs_close k s) = k_files k"
  by (auto simp: vfs_close_def fop_close_pipe_def fop_close_tmpfs_def fop_close_proc_def fop_close_eventfd_def
      split: fd_kind.splits prod.splits)

lemma ofd_last_close:
  assumes k: "objects_ok k" and oi: "oi < LXP_MAX_OFD" "ofd_refs (k_ofd k oi) \<noteq> 0" and fine: "ofd_fine (k_ofd k oi)"
    and k': "k' = ofd_put (vfs_close (ofd_put k oi s) s) oi ofd_zero"
    and s: "s = (k_ofd k oi)\<lparr>ofd_refs := r\<rparr>"
  shows "objects_ok k'"
proof -
  let ?o = "k_ofd k oi"
  have g': "k_ofd k' = (k_ofd k)(oi := ofd_zero)" by (simp add: k')
  note o = k [unfolded objects_ok_def]
  note oth = close_other_refs [where g = "k_ofd k", OF oi]
  have idx: "\<exists>i < n. ofd_file_idx ?o = int i" if "kind_bound (ofd_kind ?o) = Some n" for n
    using fine oi(2) that unfolding ofd_fine_def by (metis nonneg_int_cases of_nat_less_iff)
  have kd: "ofd_kind s = ofd_kind ?o" "ofd_file_idx s = ofd_file_idx ?o" "ofd_rw s = ofd_rw ?o" by (simp_all add: s)
  show ?thesis
  proof (cases "ofd_kind ?o")
    case FD_PIPE
    then obtain i where i: "i < LXP_NPIPE" "ofd_file_idx ?o = int i" using idx by auto
    show ?thesis using o oth FD_PIPE close_pipe_refs [where g = "k_ofd k", OF _ _ oi FD_PIPE i(2,1)] i pipe_pool_ok(3) close_pipe_slots
      by (simp add: objects_ok_def g') (simp add: k' vfs_close_def kd FD_PIPE fop_close_pipe_def)
  next
    case FD_TMPFS
    then obtain i where i: "i < LXP_NWNODE" "ofd_file_idx ?o = int i" using idx by auto
    obtain m' w' where c: "lxp_wfs_close (mc_mem k) (k_wfs k) (int i) = (m', w')" by (metis surj_pair)
    show ?thesis using o oth FD_TMPFS close_wfs_refs [where g = "k_ofd k", OF _ _ oi FD_TMPFS i(2,1) c] i c
      by (simp add: objects_ok_def g') (simp add: k' vfs_close_def kd FD_TMPFS fop_close_tmpfs_def)
  next
    case FD_PROC
    then obtain i where i: "i < LXP_NPROCF" "ofd_file_idx ?o = int i" using idx by auto
    show ?thesis using o oth FD_PROC close_procf_refs [where g = "k_ofd k", OF _ oi FD_PROC i(2,1)] i
      by (simp add: objects_ok_def g') (simp add: k' vfs_close_def kd FD_PROC fop_close_proc_def)
  next
    case FD_EVENTFD
    then obtain i where i: "i < LXP_NEVENTFD" "ofd_file_idx ?o = int i" using idx by auto
    show ?thesis using o oth FD_EVENTFD close_efd_refs [where g = "k_ofd k", OF _ oi FD_EVENTFD i(2,1)] i
      by (simp add: objects_ok_def g') (simp add: k' vfs_close_def kd FD_EVENTFD fop_close_eventfd_def)
  qed (use o oth in \<open>simp_all add: objects_ok_def g', simp_all add: k' vfs_close_def kd\<close>)
qed

lemma ofd_release_inv:
  assumes k: "kernel_inv k ex" and ex: "ex oi = Suc n" and oi: "oi < LXP_MAX_OFD"
  shows "kernel_inv (ofd_release k oi) (ex(oi := n))"
proof -
  let ?s = "(k_ofd k oi)\<lparr>ofd_refs := ofd_refs (k_ofd k oi) - 1\<rparr>"
  have refs: "ofd_refs (k_ofd k oi) = Suc (entry_refs (k_files k) oi + n)" and fine: "ofd_fine (k_ofd k oi)"
    using k ex oi by (auto simp: kernel_inv_def fd_refs_ok_def)
  have obj: "objects_ok k" using k by (simp add: kernel_inv_def)
  show ?thesis
  proof (cases "entry_refs (k_files k) oi + n = 0")
    case True
    then have r: "ofd_release k oi = ofd_put (vfs_close (ofd_put k oi ?s) ?s) oi ofd_zero"
      using refs by (simp add: ofd_release_def Let_def)
    have "objects_ok (ofd_release k oi)"
      by (rule ofd_last_close [OF obj oi _ fine r refl]) (use refs in simp)
    moreover have "ofd_fine ofd_zero" by (simp add: ofd_fine_def ofd_zero_def)
    moreover have "ofd_refs ofd_zero = 0" by (simp add: ofd_zero_def)
    ultimately show ?thesis using k True by (auto simp: kernel_inv_def r fd_refs_ok_def)
  next
    case False
    then have r: "ofd_release k oi = ofd_put k oi ?s" using refs by (auto simp: ofd_release_def Let_def)
    have "objects_ok (ofd_release k oi)" unfolding r
      by (rule objects_ofd_same [OF obj oi]) (use refs False in simp_all)
    moreover have "ofd_fine ?s" using fine refs False by (auto simp: ofd_fine_def)
    ultimately show ?thesis using k refs by (auto simp: kernel_inv_def r fd_refs_ok_def)
  qed
qed

section \<open>The operations keep the counts\<close>

definition proc_ok :: "proc \<Rightarrow> bool" where
  "proc_ok p \<longleftrightarrow> (\<forall>f. p_files p = Some f \<longrightarrow> f < LXP_RESOURCE_POOL_COUNT)"

lemma fd_lookupE:
  assumes "fd_lookup k p fd = Some oi"
  obtains f where "p_files p = Some f" "0 \<le> fd" "fd < int LXP_MAX_FDS" "fd_ofd (fd_entry_at k f fd) = Suc oi"
    "oi < LXP_MAX_OFD" "ofd_refs (k_ofd k oi) \<noteq> 0"
  using assms by (auto simp: fd_lookup_def Let_def split: option.splits if_splits)

lemma fd_close_files [simp]: "k_files (ofd_release k oi) = k_files k"
  by (simp add: ofd_release_def Let_def)

lemma fd_close_inv:
  assumes k: "kernel_inv k ex" and p: "proc_ok p" and c: "lxp_fd_close k p fd = (k', rc)"
  shows "kernel_inv k' ex"
proof (cases "fd_lookup k p fd")
  case None
  then show ?thesis using c k by (simp add: lxp_fd_close_def)
next
  case (Some oi)
  then obtain f where f: "p_files p = Some f" "0 \<le> fd" "fd < int LXP_MAX_FDS" "fd_ofd (fd_entry_at k f fd) = Suc oi"
    "oi < LXP_MAX_OFD" by (rule fd_lookupE)
  have fl: "f < LXP_RESOURCE_POOL_COUNT" using p f(1) by (simp add: proc_ok_def)
  have k': "k' = ofd_release (fd_entry_put k f fd fd_zero) oi" using c f Some by (simp add: lxp_fd_close_def)
  have "kernel_inv k' ((ex(oi := Suc (ex oi)))(oi := ex oi))"
    unfolding k' by (rule ofd_release_inv [OF fd_entry_clear_inv [OF k fl f(2-4)] _ f(5)]) simp
  then show ?thesis by simp
qed

lemma fd_close_loop_inv:
  assumes "kernel_inv k ex" "proc_ok p"
  shows "kernel_inv (fd_close_loop k p P n) ex"
proof (induction n)
  case (Suc n)
  then show ?case using fd_close_inv [OF Suc.IH assms(2)] by (auto simp: Let_def) (metis prod.collapse)
qed (use assms in simp)

lemma fd_entry_refs_pos:
  assumes "f < LXP_RESOURCE_POOL_COUNT" "0 \<le> fd" "fd < int LXP_MAX_FDS" "fd_ofd (fd_entry_at k f fd) = Suc oi"
  shows "0 < entry_refs (k_files k) oi"
proof -
  have d: "nat fd < LXP_MAX_FDS" using assms by linarith
  show ?thesis using entry_refs_upd [OF assms(1) d, of "k_files k" fd_zero oi] assms(4)
    by (simp add: fd_entry_at_def fd_zero_def)
qed

text \<open>Under the invariant a descriptor that names a description reaches it.\<close>

lemma fd_lookup_iff:
  assumes k: "kernel_inv k ex" and f: "p_files p = Some f" "f < LXP_RESOURCE_POOL_COUNT" and fd: "0 \<le> fd" "fd < int LXP_MAX_FDS"
  shows "fd_lookup k p fd = (if fd_ofd (fd_entry_at k f fd) = 0 then None else Some (fd_ofd (fd_entry_at k f fd) - 1))"
proof (cases "fd_ofd (fd_entry_at k f fd)")
  case 0
  then show ?thesis by (simp add: fd_lookup_def f)
next
  case (Suc oi)
  have "nat fd < LXP_MAX_FDS" using fd by linarith
  then have le: "Suc oi \<le> LXP_MAX_OFD"
    using k f(2) Suc unfolding kernel_inv_def fd_refs_ok_def fd_entry_at_def by (metis (no_types))
  have "0 < entry_refs (k_files k) oi" by (rule fd_entry_refs_pos [OF f(2) fd Suc])
  then have "ofd_refs (k_ofd k oi) \<noteq> 0" using k le by (auto simp: kernel_inv_def fd_refs_ok_def)
  then show ?thesis using Suc le fd by (simp add: fd_lookup_def f Let_def)
qed

lemma fd_close_frees:
  assumes "kernel_inv k ex" "p_files p = Some f" "f < LXP_RESOURCE_POOL_COUNT" "0 \<le> fd" "fd < int LXP_MAX_FDS"
    and "lxp_fd_close k p fd = (k', rc)"
  shows "fd_ofd (fd_entry_at k' f fd) = 0" "fd_ofd (fd_entry_at k f fd) \<noteq> 0 \<Longrightarrow> rc = 0"
    "\<And>g e. g \<noteq> f \<or> nat e \<noteq> nat fd \<Longrightarrow> fd_entry_at k' g e = fd_entry_at k g e"
proof -
  note l = fd_lookup_iff [OF assms(1-5)]
  show "fd_ofd (fd_entry_at k' f fd) = 0" "fd_ofd (fd_entry_at k f fd) \<noteq> 0 \<Longrightarrow> rc = 0"
    "\<And>g e. g \<noteq> f \<or> nat e \<noteq> nat fd \<Longrightarrow> fd_entry_at k' g e = fd_entry_at k g e"
    using assms(2,6) by (auto simp: lxp_fd_close_def l fd_entry_at_def fd_zero_def split: if_splits)
qed

lemma fd_dup_to_inv:
  assumes k: "kernel_inv k ex" and p: "proc_ok p" and c: "lxp_fd_dup_to k p oldfd newfd ce = (k', rc)"
  shows "kernel_inv k' ex"
proof (cases "fd_lookup k p oldfd")
  case None
  then show ?thesis using c k by (simp add: lxp_fd_dup_to_def)
next
  case (Some oi)
  then obtain f where f: "p_files p = Some f" "0 \<le> oldfd" "oldfd < int LXP_MAX_FDS" "fd_ofd (fd_entry_at k f oldfd) = Suc oi"
    "oi < LXP_MAX_OFD" "ofd_refs (k_ofd k oi) \<noteq> 0" by (rule fd_lookupE)
  have fl: "f < LXP_RESOURCE_POOL_COUNT" using p f(1) by (simp add: proc_ok_def)
  show ?thesis
  proof (cases "newfd < 0 \<or> newfd \<ge> int LXP_MAX_FDS \<or> oldfd = newfd \<or> ofd_refs (k_ofd k oi) = UINT16_MAX")
    case True
    then show ?thesis using c k f Some by (auto simp: lxp_fd_dup_to_def fd_retain_def Let_def split: if_splits)
  next
    case False
    let ?k1 = "ofd_ref_inc k oi"
    let ?k2 = "if fd_ofd (fd_entry_at ?k1 f newfd) \<noteq> 0 then fst (lxp_fd_close ?k1 p newfd) else ?k1"
    have n: "0 \<le> newfd" "newfd < int LXP_MAX_FDS" using False by simp_all
    have k': "k' = fd_entry_put ?k2 f newfd \<lparr>fd_ofd = Suc oi, fd_cloexec = ce\<rparr>"
      using c f Some False by (auto simp: lxp_fd_dup_to_def fd_retain_def Let_def)
    have i1: "kernel_inv ?k1 (ex(oi := Suc (ex oi)))" by (rule ofd_ref_inc_inv [OF k f(5,6)])
    obtain kc rcc where cl: "lxp_fd_close ?k1 p newfd = (kc, rcc)" by (metis surj_pair)
    have i2: "kernel_inv ?k2 (ex(oi := Suc (ex oi)))" and z: "fd_ofd (fd_entry_at ?k2 f newfd) = 0"
      using i1 fd_close_inv [OF i1 p cl] fd_close_frees(1) [OF i1 f(1) fl n cl] cl by auto
    have "kernel_inv k' (ex(oi := ex oi))"
      unfolding k' by (rule fd_entry_set_inv [OF i2 fl n z]) (simp_all add: f)
    then show ?thesis by simp
  qed
qed

lemma fd_dup_min_inv:
  assumes k: "kernel_inv k ex" and p: "proc_ok p" and c: "lxp_fd_dup_min k p oldfd minfd ce = (k', rc)"
  shows "kernel_inv k' ex"
proof (cases "fd_lookup k p oldfd")
  case None
  then show ?thesis using c k by (simp add: lxp_fd_dup_min_def)
next
  case (Some oi)
  then obtain f where f: "p_files p = Some f" "0 \<le> oldfd" "oldfd < int LXP_MAX_FDS" "fd_ofd (fd_entry_at k f oldfd) = Suc oi"
    "oi < LXP_MAX_OFD" "ofd_refs (k_ofd k oi) \<noteq> 0" by (rule fd_lookupE)
  have fl: "f < LXP_RESOURCE_POOL_COUNT" using p f(1) by (simp add: proc_ok_def)
  let ?sc = "scan (\<lambda>fd. fd_ofd (fl_fd (k_files k f) fd) = 0) (nat minfd) LXP_MAX_FDS"
  show ?thesis
  proof (cases "minfd < 0 \<or> minfd \<ge> int LXP_MAX_FDS \<or> ofd_refs (k_ofd k oi) = UINT16_MAX \<or> ?sc = None")
    case True
    then show ?thesis using c k f Some
      by (auto simp: lxp_fd_dup_min_def fd_retain_def Let_def split: if_splits option.splits)
  next
    case False
    then obtain d where d: "?sc = Some d" by auto
    note D = scan_SomeD [OF d]
    have k': "k' = fd_entry_put (ofd_ref_inc k oi) f (int d) \<lparr>fd_ofd = Suc oi, fd_cloexec = ce\<rparr>"
      using c f Some False d by (auto simp: lxp_fd_dup_min_def fd_retain_def Let_def fd_entry_at_def ofd_ref_inc_def)
    have i1: "kernel_inv (ofd_ref_inc k oi) (ex(oi := Suc (ex oi)))" by (rule ofd_ref_inc_inv [OF k f(5,6)])
    have "kernel_inv k' (ex(oi := ex oi))"
      unfolding k' by (rule fd_entry_set_inv [OF i1 fl]) (use D f in \<open>simp_all add: fd_entry_at_def ofd_ref_inc_def\<close>)
    then show ?thesis by simp
  qed
qed

subsection \<open>Opening\<close>

definition new_ofd :: "fd_kind \<Rightarrow> int \<Rightarrow> nat \<Rightarrow> nat \<Rightarrow> ofd" where
  "new_ofd kind backing off flags =
     \<lparr>ofd_refs = 1, ofd_kind = kind, ofd_rw = 0, ofd_nonblock = has_flag flags LXP_O_NONBLOCK,
      ofd_accmode = flags AND LXP_O_ACCMODE, ofd_file_idx = backing, ofd_offset = off\<rparr>"

lemma new_ofd_simps [simp]:
  "ofd_refs (new_ofd kd b off fl) = 1" "ofd_kind (new_ofd kd b off fl) = kd" "ofd_rw (new_ofd kd b off fl) = 0"
  "ofd_file_idx (new_ofd kd b off fl) = b" "ofd_offset (new_ofd kd b off fl) = off"
  "ofd_accmode (new_ofd kd b off fl) = (fl AND LXP_O_ACCMODE)"
  by (simp_all add: new_ofd_def)

lemma fd_openE:
  assumes "lxp_fd_open k p kind backing off flags = (k', fd)"
  obtains (fail) "fd = - LXP_EMFILE" "k' = k"
  | (ok) f d oi where "p_files p = Some f" "lxp_file_ops kind" "fd = int d" "d < LXP_MAX_FDS" "fd_ofd (fl_fd (k_files k f) d) = 0"
      "\<And>e. e < d \<Longrightarrow> fd_ofd (fl_fd (k_files k f) e) \<noteq> 0"
      "oi < LXP_MAX_OFD" "ofd_refs (k_ofd k oi) = 0"
      "k' = fd_entry_put (ofd_put k oi (new_ofd kind backing off flags)) f fd
              \<lparr>fd_ofd = Suc oi, fd_cloexec = has_flag flags LXP_O_CLOEXEC\<rparr>"
proof (cases "p_files p")
  case None
  then show thesis using assms fail by (simp add: lxp_fd_open_def)
next
  case (Some f)
  let ?a = "scan (\<lambda>i. ofd_refs (k_ofd k i) = 0) 0 LXP_MAX_OFD"
  let ?b = "scan (\<lambda>fd. fd_ofd (fl_fd (k_files k f) fd) = 0) 0 LXP_MAX_FDS"
  show thesis
  proof (cases "lxp_file_ops kind \<and> ?a \<noteq> None \<and> ?b \<noteq> None")
    case True
    then obtain oi d where s: "?a = Some oi" "?b = Some d" by auto
    note A = scan_SomeD [OF s(1)] and B = scan_SomeD [OF s(2)]
    show thesis
      by (rule ok [OF Some]) (use assms A B True in \<open>auto simp: lxp_fd_open_def Some s new_ofd_def Let_def\<close>)
  next
    case False
    then show thesis using assms fail by (auto simp: lxp_fd_open_def Some split: option.splits if_splits)
  qed
qed

text \<open>The counts of descriptors after an open; those of objects are the caller's to restore.\<close>

lemma fd_open_refs:
  assumes k: "fd_refs_ok (k_ofd k) (k_files k) ex" and p: "proc_ok p" and f: "p_files p = Some f"
    and d: "fd = int d" "d < LXP_MAX_FDS" "fd_ofd (fl_fd (k_files k f) d) = 0"
    and oi: "oi < LXP_MAX_OFD" "ofd_refs (k_ofd k oi) = 0"
    and s: "ofd_refs s = 1" "ofd_fine s"
    and k': "k' = fd_entry_put (ofd_put k oi s) f fd \<lparr>fd_ofd = Suc oi, fd_cloexec = ce\<rparr>"
  shows "fd_refs_ok (k_ofd k') (k_files k') ex"
proof -
  have fl: "f < LXP_RESOURCE_POOL_COUNT" using p f by (simp add: proc_ok_def)
  have e: "entry_refs (k_files k') x = entry_refs (k_files k) x + of_bool (x = oi)" for x
    using entry_refs_upd [OF fl d(2), of "k_files k" "\<lparr>fd_ofd = Suc oi, fd_cloexec = ce\<rparr>" x] d
    by (cases "x = oi") (simp_all add: k')
  have "entry_refs (k_files k) oi = 0" "ex oi = 0" using k oi by (auto simp: fd_refs_ok_def)
  then have "ofd_refs (k_ofd k' x) = entry_refs (k_files k') x + ex x \<and> ofd_fine (k_ofd k' x)" if "x < LXP_MAX_OFD" for x
    unfolding e using k that s by (cases "x = oi") (simp_all add: k' fd_refs_ok_def)
  moreover have "fd_ofd (fl_fd (k_files k' g) x) \<le> LXP_MAX_OFD" if "g < LXP_RESOURCE_POOL_COUNT" "x < LXP_MAX_FDS" for g x
    using k that oi(1) by (auto simp: k' fd_refs_ok_def)
  ultimately show ?thesis by (simp add: fd_refs_ok_def)
qed

lemma fd_open_plain_inv:
  assumes k: "kernel_inv k ex" and p: "proc_ok p" and kd: "kind_bound kind = None"
    and c: "lxp_fd_open k p kind backing off flags = (k', fd)"
  shows "kernel_inv k' ex"
  using c
proof (cases rule: fd_openE)
  case (ok f d oi)
  let ?s = "new_ofd kind backing off flags"
  have refs: "fd_refs_ok (k_ofd k') (k_files k') ex"
    by (rule fd_open_refs [OF _ p ok(1,3,4,5,7,8) _ _ ok(9)])
      (use k kd ok(2) in \<open>auto simp: kernel_inv_def ofd_fine_def\<close>)
  have cnt: "ofd_count (k_ofd k') P = ofd_count (k_ofd k) P" if "\<not> P ?s" for P
    using ofd_count_new [where g = "k_ofd k" and s = ?s and P = P, OF ok(7,8)] that by (simp add: ok(9))
  have "\<not> pipe_end_of i e ?s" "\<not> ofd_names FD_TMPFS i ?s" "\<not> ofd_names FD_EVENTFD i ?s" "\<not> ofd_names FD_PROC i ?s" for i e
    using kd by (auto simp: pipe_end_of_def ofd_names_def)
  then have cnts: "ofd_count (k_ofd k') (pipe_end_of i e) = ofd_count (k_ofd k) (pipe_end_of i e)"
    "ofd_count (k_ofd k') (ofd_names FD_TMPFS i) = ofd_count (k_ofd k) (ofd_names FD_TMPFS i)"
    "ofd_count (k_ofd k') (ofd_names FD_EVENTFD i) = ofd_count (k_ofd k) (ofd_names FD_EVENTFD i)"
    "ofd_count (k_ofd k') (ofd_names FD_PROC i) = ofd_count (k_ofd k) (ofd_names FD_PROC i)" for i e
    by (simp_all add: cnt)
  have pools: "k_pipes k' = k_pipes k" "k_wfs k' = k_wfs k" "k_efd k' = k_efd k" "k_procf k' = k_procf k" "mc_mem k' = mc_mem k"
    by (simp_all add: ok(9))
  show ?thesis using k refs
    unfolding kernel_inv_def objects_ok_def pipe_refs_ok_def wfs_refs_ok_def efd_refs_ok_def procf_refs_ok_def cnts pools
    by blast
qed (use k in simp)

subsection \<open>Room\<close>

lemma entry_refs_total:
  assumes f: "f < LXP_RESOURCE_POOL_COUNT" "d < LXP_MAX_FDS" "fd_ofd (fl_fd (t f) d) = 0"
  shows "(\<Sum>oi<LXP_MAX_OFD. entry_refs t oi) < LXP_MAX_OFD"
proof -
  let ?e = "\<lambda>x y. fd_ofd (fl_fd (t x) y)"
  have one: "(\<Sum>oi<LXP_MAX_OFD. of_bool (?e x y = Suc oi)) \<le> (of_bool (?e x y \<noteq> 0) :: nat)" for x y
  proof -
    have "(\<Sum>oi<LXP_MAX_OFD. of_bool (?e x y = Suc oi)) = (\<Sum>oi<LXP_MAX_OFD. if oi = ?e x y - 1 then of_bool (?e x y \<noteq> 0) else (0::nat))"
      by (rule sum.cong) auto
    also have "\<dots> \<le> of_bool (?e x y \<noteq> 0)" by simp
    finally show ?thesis .
  qed
  have "(\<Sum>oi<LXP_MAX_OFD. entry_refs t oi)
      = (\<Sum>x<LXP_RESOURCE_POOL_COUNT. \<Sum>y<LXP_MAX_FDS. \<Sum>oi<LXP_MAX_OFD. of_bool (?e x y = Suc oi))"
    unfolding entry_refs_def table_refs_def
    by (subst sum.swap, rule sum.cong [OF refl], rule sum.swap)
  also have "\<dots> \<le> (\<Sum>x<LXP_RESOURCE_POOL_COUNT. \<Sum>y<LXP_MAX_FDS. of_bool (?e x y \<noteq> 0))"
    by (intro sum_mono one)
  also have "\<dots> < (\<Sum>x<LXP_RESOURCE_POOL_COUNT. \<Sum>y<LXP_MAX_FDS. 1)"
  proof (rule sum_strict_mono_ex1)
    show "\<exists>x\<in>{..<LXP_RESOURCE_POOL_COUNT}. (\<Sum>y<LXP_MAX_FDS. of_bool (?e x y \<noteq> 0)) < (\<Sum>y<LXP_MAX_FDS. (1::nat))"
    proof (rule bexI [of _ f])
      show "(\<Sum>y<LXP_MAX_FDS. of_bool (?e f y \<noteq> 0)) < (\<Sum>y<LXP_MAX_FDS. (1::nat))"
      proof (rule sum_strict_mono_ex1)
        show "\<exists>y\<in>{..<LXP_MAX_FDS}. of_bool (?e f y \<noteq> 0) < (1::nat)" using f by (intro bexI [of _ d]) simp_all
      qed auto
    qed (use f in simp)
    show "\<forall>x\<in>{..<LXP_RESOURCE_POOL_COUNT}. (\<Sum>y<LXP_MAX_FDS. of_bool (?e x y \<noteq> 0)) \<le> (\<Sum>y<LXP_MAX_FDS. (1::nat))"
      by (intro ballI sum_mono) simp
  qed simp
  also have "\<dots> = LXP_MAX_OFD" by (simp add: pool_defs config_defs)
  finally show ?thesis .
qed

lemma free_ofd_exists:
  assumes k: "fd_refs_ok (k_ofd k) (k_files k) (\<lambda>_. 0)" and f: "f < LXP_RESOURCE_POOL_COUNT" "d < LXP_MAX_FDS" "fd_ofd (fl_fd (k_files k f) d) = 0"
  shows "\<exists>oi < LXP_MAX_OFD. ofd_refs (k_ofd k oi) = 0"
proof (rule ccontr)
  assume "\<not> ?thesis"
  then have "1 \<le> entry_refs (k_files k) oi" if "oi < LXP_MAX_OFD" for oi
    using k that by (auto simp: fd_refs_ok_def Suc_le_eq)
  then have "(\<Sum>oi<LXP_MAX_OFD. (1::nat)) \<le> (\<Sum>oi<LXP_MAX_OFD. entry_refs (k_files k) oi)" by (intro sum_mono) simp
  then show False using entry_refs_total [where t = "k_files k", OF f] by simp
qed

lemma entry_refs_le: "entry_refs t oi \<le> LXP_MAX_OFD"
proof -
  have "entry_refs t oi \<le> (\<Sum>x<LXP_RESOURCE_POOL_COUNT. \<Sum>y<LXP_MAX_FDS. 1)"
    unfolding entry_refs_def table_refs_def by (intro sum_mono) simp
  then show ?thesis by (simp add: pool_defs config_defs)
qed

lemma ofd_refs_small:
  assumes "kernel_ok k" "oi < LXP_MAX_OFD"
  shows "ofd_refs (k_ofd k oi) < UINT16_MAX"
proof -
  have "ofd_refs (k_ofd k oi) \<le> LXP_MAX_OFD"
    using assms entry_refs_le by (simp add: kernel_ok_def kernel_inv_def fd_refs_ok_def)
  then show ?thesis by (simp add: pool_defs config_defs UINT16_MAX_def)
qed

lemma ofd_release_ofd:
  "oj \<noteq> oi \<Longrightarrow> k_ofd (ofd_release k oi) oj = k_ofd k oj"
  "1 < ofd_refs (k_ofd k oi) \<Longrightarrow> k_ofd (ofd_release k oi) oi = (k_ofd k oi)\<lparr>ofd_refs := ofd_refs (k_ofd k oi) - 1\<rparr>"
  by (auto simp: ofd_release_def Let_def)

text \<open>What a close does to a description that some other descriptor still names.\<close>

lemma fd_close_keeps_named:
  assumes k: "kernel_inv k ex" and p: "p_files p = Some f" "f < LXP_RESOURCE_POOL_COUNT"
    and c: "lxp_fd_close k p fd = (k', rc)" and oi: "oi < LXP_MAX_OFD"
    and still: "0 < entry_refs (k_files k') oi + ex oi"
  shows "(k_ofd k' oi)\<lparr>ofd_refs := 0\<rparr> = (k_ofd k oi)\<lparr>ofd_refs := 0\<rparr>"
proof (cases "fd_lookup k p fd")
  case None
  then show ?thesis using c by (simp add: lxp_fd_close_def)
next
  case (Some oj)
  then obtain g where g: "p_files p = Some g" "0 \<le> fd" "fd < int LXP_MAX_FDS" "fd_ofd (fd_entry_at k g fd) = Suc oj"
    "oj < LXP_MAX_OFD" by (rule fd_lookupE)
  have gf: "g = f" using g p by simp
  let ?k = "fd_entry_put k f fd fd_zero"
  have k': "k' = ofd_release ?k oj" using c Some p by (simp add: lxp_fd_close_def)
  have "kernel_inv ?k (ex(oj := Suc (ex oj)))" using fd_entry_clear_inv [OF k p(2) g(2,3)] g(4) gf by simp
  then have refs: "ofd_refs (k_ofd k oj) = entry_refs (k_files k') oj + Suc (ex oj)"
    using g(5) by (auto simp: kernel_inv_def fd_refs_ok_def k')
  show ?thesis
  proof (cases "oi = oj")
    case True
    have "1 < ofd_refs (k_ofd ?k oj)" using refs still True by simp
    from ofd_release_ofd(2) [OF this] show ?thesis by (simp add: k' True)
  next
    case False
    then show ?thesis by (simp add: k' ofd_release_ofd(1))
  qed
qed

lemma fd_retain_always:
  assumes "kernel_ok k" "oi < LXP_MAX_OFD"
  shows "fd_retain k oi = (ofd_ref_inc k oi, 0)"
  using ofd_refs_small [OF assms] by (simp add: fd_retain_def)

lemma fd_lookup_None_range: "fd < 0 \<or> fd \<ge> int LXP_MAX_FDS \<Longrightarrow> fd_lookup k p fd = None"
  by (auto simp: fd_lookup_def split: option.splits)

lemma fd_dup_to_names:
  assumes k: "kernel_ok k" and p: "p_files p = Some f" "f < LXP_RESOURCE_POOL_COUNT" and l: "fd_lookup k p oldfd = Some oi"
    and n: "0 \<le> newfd" "newfd < int LXP_MAX_FDS" "oldfd \<noteq> newfd" and d: "lxp_fd_dup_to k p oldfd newfd ce = (k1, rc)"
  shows "rc = newfd" "fd_ofd (fd_entry_at k1 f newfd) = Suc oi" "fd_ofd (fd_entry_at k1 f oldfd) = Suc oi"
    "(k_ofd k1 oi)\<lparr>ofd_refs := 0\<rparr> = (k_ofd k oi)\<lparr>ofd_refs := 0\<rparr>" "fd_cloexec (fd_entry_at k1 f newfd) = ce"
    "\<And>g fd. g \<noteq> f \<or> nat fd \<noteq> nat newfd \<Longrightarrow> fd_entry_at k1 g fd = fd_entry_at k g fd"
proof -
  obtain g where g: "p_files p = Some g" "0 \<le> oldfd" "oldfd < int LXP_MAX_FDS" "fd_ofd (fd_entry_at k g oldfd) = Suc oi"
    "oi < LXP_MAX_OFD" "ofd_refs (k_ofd k oi) \<noteq> 0" using l by (rule fd_lookupE)
  have gf: "g = f" using g p by simp
  have nn: "nat oldfd \<noteq> nat newfd" using g n by auto
  have pok: "proc_ok p" using p by (simp add: proc_ok_def)
  let ?k = "ofd_ref_inc k oi"
  have i: "kernel_inv ?k ((\<lambda>_. 0)(oi := Suc 0))"
    using ofd_ref_inc_inv [OF k [unfolded kernel_ok_def] g(5,6)] by simp
  obtain kc rcc where cl: "lxp_fd_close ?k p newfd = (kc, rcc)" by (metis surj_pair)
  let ?k2 = "if fd_ofd (fd_entry_at ?k f newfd) \<noteq> 0 then kc else ?k"
  have k1: "k1 = fd_entry_put ?k2 f newfd \<lparr>fd_ofd = Suc oi, fd_cloexec = ce\<rparr>" "rc = newfd"
    using d l p n g(4) cl fd_retain_always [OF k g(5)] by (auto simp: lxp_fd_dup_to_def Let_def gf)
  have e: "fd_entry_at ?k x y = fd_entry_at k x y" for x y by (simp add: fd_entry_at_def ofd_ref_inc_def)
  note F = fd_close_frees [OF i p n(1,2) cl, unfolded e]
  have o2: "fd_entry_at ?k2 x y = fd_entry_at k x y" if "x \<noteq> f \<or> nat y \<noteq> nat newfd" for x y
    using F(3) [OF that] by (simp add: e)
  have "(k_ofd kc oi)\<lparr>ofd_refs := 0\<rparr> = (k_ofd ?k oi)\<lparr>ofd_refs := 0\<rparr>"
    by (rule fd_close_keeps_named [OF i p cl g(5)]) simp
  then have od: "(k_ofd ?k2 oi)\<lparr>ofd_refs := 0\<rparr> = (k_ofd k oi)\<lparr>ofd_refs := 0\<rparr>" by (simp add: ofd_ref_inc_def)
  show "rc = newfd" by (simp add: k1)
  show "fd_ofd (fd_entry_at k1 f newfd) = Suc oi" "fd_cloexec (fd_entry_at k1 f newfd) = ce" by (simp_all add: k1 fd_entry_at_def)
  show oth: "fd_entry_at k1 x y = fd_entry_at k x y" if "x \<noteq> f \<or> nat y \<noteq> nat newfd" for x y
    using o2 [OF that] that unfolding k1 fd_entry_at_def by (auto simp: )
  show "fd_ofd (fd_entry_at k1 f oldfd) = Suc oi" using oth [of f oldfd] nn g(4) gf by simp
  show "(k_ofd k1 oi)\<lparr>ofd_refs := 0\<rparr> = (k_ofd k oi)\<lparr>ofd_refs := 0\<rparr>" using od by (simp add: k1)
qed

section \<open>Properties\<close>

definition kernel_boot :: kernel where
  "kernel_boot = \<lparr>mc_mem = (\<lambda>_. 0), mc_mm = (\<lambda>_. mm_zero), mc_slot_generation = (\<lambda>_. 0), mc_rootfs_lo = 0, mc_rootfs_hi = 0,
     k_ofd = (\<lambda>_. ofd_zero), k_files = (\<lambda>_. files_zero), k_fs_context = (\<lambda>_. fs_context_zero), k_sighand = (\<lambda>_. sighand_zero),
     k_groups = (\<lambda>_. thread_group_zero), k_pipes = (\<lambda>_. pipe_zero), k_efd = (\<lambda>_. efd_zero), k_procf = (\<lambda>_. procf_zero),
     k_wfs = demo_wfs, k_fs = (\<lambda>_. []), k_tty = \<lparr>tt_termios = replicate 36 0, tt_winsize = replicate 8 0, tt_fg_pgrp = 0\<rparr>,
     k_ta = \<lparr>ta_buf = (\<lambda>_. 0), ta_head = 0, ta_count = 0\<rparr>, k_arena = (\<lambda>_. arena_bss),
     k_realtime_offset_ns = 0, k_halt_requested = False\<rparr>"

lemma kernel_boot_ok: "kernel_ok kernel_boot"
  by (simp add: kernel_ok_def kernel_inv_def kernel_boot_def fd_refs_ok_def objects_ok_def entry_refs_def table_refs_def
      ofd_count_def pipe_refs_ok_def wfs_refs_ok_def efd_refs_ok_def procf_refs_ok_def pipes_ok_def pipe_slots_ok_def ofd_fine_def
      ofd_zero_def files_zero_def fd_zero_def efd_zero_def procf_zero_def demo_wfs_ok)
    (simp add: demo_wfs_def)

text \<open>C14.  An open succeeds whenever the task has a free descriptor.  The description pool
  cannot run out first: while some descriptor is free fewer descriptions are in use than
  the pool has.  The lowest free descriptor is given, it leads to a fresh description of
  the object with the access mode of the flags, no other descriptor changes, and when the table is
  full nothing changes and the answer is \<open>EMFILE\<close>.\<close>

theorem fd_open_fails_only_when_full:
  assumes "kernel_ok k" "p_files p = Some f" "f < LXP_RESOURCE_POOL_COUNT" "lxp_file_ops kind"
    and "lxp_fd_open k p kind backing off flags = (k', fd)"
  shows "if lxp_fd_free_count k p = 0 then fd = - LXP_EMFILE \<and> k' = k
    else 0 \<le> fd \<and> fd < int LXP_MAX_FDS \<and> fd_lookup k p fd = None
      \<and> (\<forall>e. 0 \<le> e \<longrightarrow> e < fd \<longrightarrow> fd_lookup k p e \<noteq> None)
      \<and> (\<exists>oi. fd_lookup k' p fd = Some oi \<and> k_ofd k' oi = new_ofd kind backing off flags)
      \<and> (\<forall>e. e \<noteq> fd \<longrightarrow> fd_lookup k' p e = fd_lookup k p e)"
proof -
  have cnt: "lxp_fd_free_count k p = 0 \<longleftrightarrow> (\<forall>d < LXP_MAX_FDS. fd_ofd (fl_fd (k_files k f) d) \<noteq> 0)"
    using assms(2) by (auto simp: lxp_fd_free_count_def filter_empty_conv)
  note L = fd_lookup_iff [OF assms(1) [unfolded kernel_ok_def] assms(2,3)]
  from assms(5) show ?thesis
  proof (cases rule: fd_openE)
    case fail
    have "\<forall>d < LXP_MAX_FDS. fd_ofd (fl_fd (k_files k f) d) \<noteq> 0"
    proof (rule ccontr)
      assume "\<not> ?thesis"
      then obtain d where d: "d < LXP_MAX_FDS" "fd_ofd (fl_fd (k_files k f) d) = 0" by auto
      obtain oi where oi: "oi < LXP_MAX_OFD" "ofd_refs (k_ofd k oi) = 0" using free_ofd_exists [OF _ assms(3) d] assms(1) by (auto simp: kernel_ok_def kernel_inv_def)
      obtain a where a: "scan (\<lambda>i. ofd_refs (k_ofd k i) = 0) 0 LXP_MAX_OFD = Some a"
        using scan_ex [of 0 oi LXP_MAX_OFD "\<lambda>i. ofd_refs (k_ofd k i) = 0"] oi by auto
      obtain b where b: "scan (\<lambda>fd. fd_ofd (fl_fd (k_files k f) fd) = 0) 0 LXP_MAX_FDS = Some b"
        using scan_ex [of 0 d LXP_MAX_FDS "\<lambda>fd. fd_ofd (fl_fd (k_files k f) fd) = 0"] d by auto
      have "0 \<le> fd" using assms(5) by (auto simp: lxp_fd_open_def assms(2,4) a b Let_def)
      then show False using fail by simp
    qed
    then show ?thesis using cnt fail by simp
  next
    case (ok g d oi)
    have g: "g = f" using ok(1) assms(2) by simp
    have c: "lxp_fd_free_count k p \<noteq> 0" using cnt ok(4,5) g by blast
    have ent: "fd_entry_at k' f e = (if nat e = d then \<lparr>fd_ofd = Suc oi, fd_cloexec = has_flag flags LXP_O_CLOEXEC\<rparr> else fd_entry_at k f e)" for e
      using ok(3) by (simp add: ok(9) fd_entry_at_def g)
    have new: "fd_lookup k' p fd = Some oi"
      using ok(3,4,7) ent [of fd] by (simp add: fd_lookup_def assms(2) Let_def) (simp add: ok(9))
    have other: "fd_lookup k' p e = fd_lookup k p e" if "e \<noteq> fd" for e
    proof (cases "0 \<le> e \<and> e < int LXP_MAX_FDS")
      case False then show ?thesis by (auto simp: fd_lookup_None_range)
    next
      case True
      then have ne: "nat e \<noteq> d" using that ok(3) by auto
      have "ofd_refs (k_ofd k (fd_ofd (fd_entry_at k f e) - 1)) \<noteq> 0" if "fd_ofd (fd_entry_at k f e) \<noteq> 0"
        using L [of e] True that by (auto elim: fd_lookupE)
      then have "fd_ofd (fd_entry_at k f e) \<noteq> 0 \<Longrightarrow> fd_ofd (fd_entry_at k f e) - 1 \<noteq> oi" using ok(8) by metis
      then show ?thesis using True ne ent [of e] by (auto simp: fd_lookup_def assms(2) Let_def ok(9))
    qed
    have low: "fd_lookup k p e \<noteq> None" if "0 \<le> e" "e < fd" for e
      using L [of e] ok(6) [of "nat e"] that ok(3,4) by (auto simp: fd_entry_at_def g)
    have "fd_lookup k p fd = None" using L [of fd] ok(3-5) by (simp add: fd_entry_at_def g)
    then show ?thesis using c new other low ok(3,4) by (auto simp: ok(9))
  qed
qed

definition demo_task :: proc where
  "demo_task = proc_zero\<lparr>p_files := Some 0\<rparr>"

lemma demo_task_files [simp]: "p_files demo_task = Some 0" "proc_ok demo_task"
  by (simp_all add: demo_task_def proc_zero_def proc_ok_def)

theorem fd_open_fails_only_when_full_witness:
  "\<exists>k' oi. lxp_fd_open kernel_boot demo_task FD_CONSOLE 1 0 LXP_O_RDWR = (k', 0) \<and> fd_lookup k' demo_task 0 = Some oi
     \<and> k_ofd k' oi = new_ofd FD_CONSOLE 1 0 LXP_O_RDWR"
proof -
  obtain k' fd where o1: "lxp_fd_open kernel_boot demo_task FD_CONSOLE 1 0 LXP_O_RDWR = (k', fd)" by (metis surj_pair)
  have c: "lxp_fd_free_count kernel_boot demo_task \<noteq> 0"
    by (simp add: lxp_fd_free_count_def kernel_boot_def files_zero_def fd_zero_def)
  have f: "fd = 0"
    using o1 by (simp add: lxp_fd_open_def kernel_boot_def files_zero_def fd_zero_def ofd_zero_def scan_def upt_conv_Cons Let_def)
  show ?thesis
    using fd_open_fails_only_when_full [OF kernel_boot_ok demo_task_files(1) _ _ o1] c o1 f by auto
qed

text \<open>C32.  A duplicated descriptor shares its description and outlives the original.  For a
  valid descriptor and a target in range \<^verbatim>\<open>dup2\<close> cannot fail; afterwards
  both descriptors lead to the same description.  Closing the original leaves the copy leading
  to it, with its offset, flags and object as they were, and all counts exact.\<close>

theorem dup_outlives_the_original:
  assumes "kernel_ok k" "p_files p = Some f" "f < LXP_RESOURCE_POOL_COUNT" "fd_lookup k p oldfd = Some oi"
    and "0 \<le> newfd" "newfd < int LXP_MAX_FDS" "oldfd \<noteq> newfd"
    and "lxp_fd_dup_to k p oldfd newfd ce = (k1, rc)" "lxp_fd_close k1 p oldfd = (k2, rc2)"
  shows "rc = newfd \<and> rc2 = 0 \<and> fd_lookup k1 p newfd = Some oi \<and> fd_lookup k1 p oldfd = Some oi
    \<and> fd_lookup k2 p newfd = Some oi \<and> fd_lookup k2 p oldfd = None
    \<and> (k_ofd k2 oi)\<lparr>ofd_refs := 0\<rparr> = (k_ofd k oi)\<lparr>ofd_refs := 0\<rparr> \<and> kernel_ok k2"
proof -
  have pok: "proc_ok p" using assms(2,3) by (simp add: proc_ok_def)
  have oo: "0 \<le> oldfd" "oldfd < int LXP_MAX_FDS" "oi < LXP_MAX_OFD" using assms(4) by (auto elim: fd_lookupE)
  have nn: "nat oldfd \<noteq> nat newfd" using oo assms(5,7) by auto
  note D = fd_dup_to_names [OF assms(1-8)]
  have i1: "kernel_inv k1 (\<lambda>_. 0)" using fd_dup_to_inv [OF assms(1) [unfolded kernel_ok_def] pok assms(8)] .
  have i2: "kernel_inv k2 (\<lambda>_. 0)" using fd_close_inv [OF i1 pok assms(9)] .
  note C = fd_close_frees [OF i1 assms(2,3) oo(1,2) assms(9)]
  have e2: "fd_ofd (fd_entry_at k2 f newfd) = Suc oi" using C(3) [of f newfd] nn D(2) by simp
  have "0 < entry_refs (k_files k2) oi" by (rule fd_entry_refs_pos [OF assms(3,5,6) e2])
  then have "(k_ofd k2 oi)\<lparr>ofd_refs := 0\<rparr> = (k_ofd k1 oi)\<lparr>ofd_refs := 0\<rparr>"
    using fd_close_keeps_named [OF i1 assms(2,3,9) oo(3)] by simp
  then show ?thesis
    using D C e2 i2 fd_lookup_iff [OF i1 assms(2,3) assms(5,6)] fd_lookup_iff [OF i1 assms(2,3) oo(1,2)]
      fd_lookup_iff [OF i2 assms(2,3) assms(5,6)] fd_lookup_iff [OF i2 assms(2,3) oo(1,2)]
    by (simp add: kernel_ok_def)
qed

definition demo_open :: kernel where
  "demo_open = fst (lxp_fd_open kernel_boot demo_task FD_CONSOLE 1 0 LXP_O_RDWR)"

lemma demo_open_facts:
  "kernel_ok demo_open" "fd_lookup demo_open demo_task 0 = Some 0"
proof -
  obtain k' fd where o1: "lxp_fd_open kernel_boot demo_task FD_CONSOLE 1 0 LXP_O_RDWR = (k', fd)" by (metis surj_pair)
  then show "kernel_ok demo_open"
    using fd_open_plain_inv [OF kernel_boot_ok [unfolded kernel_ok_def] demo_task_files(2) _ o1]
    by (simp add: kernel_ok_def demo_open_def)
  have up: "[0..<LXP_MAX_OFD] = 0 # [1..<LXP_MAX_OFD]" "[0..<LXP_MAX_FDS] = 0 # [1..<LXP_MAX_FDS]" by (simp_all add: upt_conv_Cons)
  show "fd_lookup demo_open demo_task 0 = Some 0"
    by (simp add: demo_open_def fd_lookup_def lxp_fd_open_def kernel_boot_def files_zero_def fd_zero_def ofd_zero_def scan_def up
        Let_def fd_entry_at_def Suc_le_eq)
qed

theorem dup_outlives_the_original_witness:
  "\<exists>k1 k2. lxp_fd_dup_to demo_open demo_task 0 7 True = (k1, 7) \<and> lxp_fd_close k1 demo_task 0 = (k2, 0)
     \<and> fd_lookup k2 demo_task 7 = Some 0 \<and> fd_lookup k2 demo_task 0 = None"
proof -
  obtain k1 rc where d: "lxp_fd_dup_to demo_open demo_task 0 7 True = (k1, rc)" by (metis surj_pair)
  obtain k2 rc2 where c: "lxp_fd_close k1 demo_task 0 = (k2, rc2)" by (metis surj_pair)
  show ?thesis
    using dup_outlives_the_original [OF demo_open_facts(1) demo_task_files(1) _ demo_open_facts(2) _ _ _ d c] d c
    by (auto simp: config_defs)
qed

subsection \<open>Closing on exec and on exit\<close>

lemma fd_close_loop_entries:
  assumes k: "kernel_inv k ex" and p: "p_files p = Some f" "f < LXP_RESOURCE_POOL_COUNT" and n: "n \<le> LXP_MAX_FDS"
    and P: "\<And>k1 d. d < LXP_MAX_FDS \<Longrightarrow> kernel_inv k1 ex \<Longrightarrow> fd_entry_at k1 f (int d) = fd_entry_at k f (int d) \<Longrightarrow> P k1 (int d) = Q d"
  shows "fd_ofd (fd_entry_at (fd_close_loop k p P n) g (int d)) = (if g = f \<and> d < n \<and> Q d then 0 else fd_ofd (fd_entry_at k g (int d)))
    \<and> (\<not> (g = f \<and> d < n \<and> Q d) \<longrightarrow> fd_entry_at (fd_close_loop k p P n) g (int d) = fd_entry_at k g (int d))"
  using n
proof (induction n arbitrary: g d)
  case 0
  then show ?case by simp
next
  case (Suc n)
  let ?k = "fd_close_loop k p P n"
  have pok: "proc_ok p" using p by (simp add: proc_ok_def)
  have i: "kernel_inv ?k ex" by (rule fd_close_loop_inv [OF k pok])
  have nl: "n < LXP_MAX_FDS" using Suc.prems by simp
  note ih = Suc.IH [OF Suc_leD [OF Suc.prems]]
  have pq: "P ?k (int n) = Q n" by (rule P [OF nl i]) (use ih [of f n] in simp)
  obtain k2 rc where c: "lxp_fd_close ?k p (int n) = (k2, rc)" by (metis surj_pair)
  have F: "fd_ofd (fd_entry_at k2 f (int n)) = 0"
    "\<And>g e. g \<noteq> f \<or> nat e \<noteq> nat (int n) \<Longrightarrow> fd_entry_at k2 g e = fd_entry_at ?k g e"
    using fd_close_frees(1,3) [OF i p _ _ c] nl by simp_all
  show ?case
  proof (cases "Q n")
    case True
    then have step: "fd_close_loop k p P (Suc n) = k2" using pq c by (simp add: Let_def)
    show ?thesis unfolding step using F(1) F(2) [of g "int d"] ih [of g d] True less_Suc_eq [of d n] by (cases "g = f \<and> d = n") auto
  next
    case False
    then have step: "fd_close_loop k p P (Suc n) = ?k" using pq by (simp add: Let_def)
    show ?thesis unfolding step using ih [of g d] False less_Suc_eq [of d n] by auto
  qed
qed

text \<open>C33.  \<^verbatim>\<open>execve\<close> closes exactly the descriptors marked close-on-exec: each marked one
  is closed, each other one leads to the description it led to, the tables of other tasks
  are unchanged, and all counts are exact.\<close>

theorem close_on_exec_is_exact:
  assumes "kernel_ok k" "p_files p = Some f" "f < LXP_RESOURCE_POOL_COUNT"
  shows "kernel_ok (lxp_fd_close_on_exec k p)
    \<and> (\<forall>fd. fd_lookup (lxp_fd_close_on_exec k p) p fd = (if lxp_fd_get_cloexec k p fd > 0 then None else fd_lookup k p fd))
    \<and> (\<forall>g fd. g \<noteq> f \<longrightarrow> 0 \<le> fd \<longrightarrow> fd_entry_at (lxp_fd_close_on_exec k p) g fd = fd_entry_at k g fd)"
proof -
  have pok: "proc_ok p" using assms(2,3) by (simp add: proc_ok_def)
  note k = assms(1) [unfolded kernel_ok_def]
  let ?P = "\<lambda>k fd. lxp_fd_get_cloexec k p fd > 0"
  let ?Q = "\<lambda>d. lxp_fd_get_cloexec k p (int d) > 0"
  have k': "lxp_fd_close_on_exec k p = fd_close_loop k p ?P LXP_MAX_FDS"
    by (simp add: lxp_fd_close_on_exec_def assms(2))
  have ok: "kernel_inv (lxp_fd_close_on_exec k p) (\<lambda>_. 0)" unfolding k' by (rule fd_close_loop_inv [OF k pok])
  have get: "lxp_fd_get_cloexec k1 p (int d) > 0 \<longleftrightarrow> fd_ofd (fd_entry_at k1 f (int d)) \<noteq> 0 \<and> fd_cloexec (fd_entry_at k1 f (int d))"
    if "d < LXP_MAX_FDS" "kernel_inv k1 (\<lambda>_. 0)" for k1 d
    using fd_lookup_iff [OF that(2) assms(2,3), of "int d"] that(1) by (auto simp: lxp_fd_get_cloexec_def assms(2))
  have P: "?P k1 (int d) = ?Q d"
    if "d < LXP_MAX_FDS" "kernel_inv k1 (\<lambda>_. 0)" "fd_entry_at k1 f (int d) = fd_entry_at k f (int d)" for k1 d
    using get [OF that(1,2)] get [OF that(1) k] that(3) by simp
  have E: "fd_ofd (fd_entry_at (lxp_fd_close_on_exec k p) g (int d)) = (if g = f \<and> d < LXP_MAX_FDS \<and> ?Q d then 0 else fd_ofd (fd_entry_at k g (int d)))
    \<and> (\<not> (g = f \<and> d < LXP_MAX_FDS \<and> ?Q d) \<longrightarrow> fd_entry_at (lxp_fd_close_on_exec k p) g (int d) = fd_entry_at k g (int d))" for g d
    unfolding k' by (rule fd_close_loop_entries [OF k assms(2,3) order_refl]) (rule P)
  have "fd_lookup (lxp_fd_close_on_exec k p) p fd = (if lxp_fd_get_cloexec k p fd > 0 then None else fd_lookup k p fd)" for fd
  proof (cases "0 \<le> fd \<and> fd < int LXP_MAX_FDS")
    case False
    then show ?thesis by (auto simp: fd_lookup_None_range)
  next
    case True
    then obtain d where d: "fd = int d" "d < LXP_MAX_FDS" using nonneg_int_cases [of fd] by auto
    show ?thesis
      using E [of f d] fd_lookup_iff [OF ok assms(2,3), of fd] fd_lookup_iff [OF k assms(2,3), of fd] d by auto
  qed
  moreover have "fd_entry_at (lxp_fd_close_on_exec k p) g fd = fd_entry_at k g fd" if "g \<noteq> f" "0 \<le> fd" for g fd
    using E [of g "nat fd"] that by simp
  ultimately show ?thesis using ok by (simp add: kernel_ok_def)
qed

theorem close_on_exec_is_exact_witness:
  "\<exists>k. lxp_fd_dup_to demo_open demo_task 0 7 True = (k, 7) \<and> fd_lookup (lxp_fd_close_on_exec k demo_task) demo_task 0 = Some 0
     \<and> fd_lookup (lxp_fd_close_on_exec k demo_task) demo_task 7 = None"
proof -
  obtain k rc where d: "lxp_fd_dup_to demo_open demo_task 0 7 True = (k, rc)" by (metis surj_pair)
  have r: "0 \<le> (7::int)" "7 < int LXP_MAX_FDS" "(0::int) \<noteq> 7" by (simp_all add: config_defs)
  note D = fd_dup_to_names [OF demo_open_facts(1) demo_task_files(1) _ demo_open_facts(2) r d]
  have i: "kernel_inv k (\<lambda>_. 0)" by (rule fd_dup_to_inv [OF demo_open_facts(1) [unfolded kernel_ok_def] demo_task_files(2) d])
  have l: "fd_lookup k demo_task 0 = Some 0" "fd_lookup k demo_task 7 = Some 0"
    using fd_lookup_iff [OF i demo_task_files(1)] D r by simp_all
  have z: "fd_entry_at k 0 0 = fd_entry_at demo_open 0 0" using D(6) [of 0 0] by simp
  have "\<not> fd_cloexec (fd_entry_at demo_open 0 0)"
    by (simp add: demo_open_def lxp_fd_open_def kernel_boot_def files_zero_def fd_zero_def ofd_zero_def scan_def
        upt_conv_Cons Let_def fd_entry_at_def has_flag_def)
  then have g: "\<not> lxp_fd_get_cloexec k demo_task 0 > 0" "lxp_fd_get_cloexec k demo_task 7 > 0"
    using l z D(5) by (simp_all add: lxp_fd_get_cloexec_def)
  have "fd_lookup (lxp_fd_close_on_exec k demo_task) demo_task fd
      = (if lxp_fd_get_cloexec k demo_task fd > 0 then None else fd_lookup k demo_task fd)" for fd
    using close_on_exec_is_exact [OF i [folded kernel_ok_def] demo_task_files(1)] by simp
  then show ?thesis using d D(1) g l by simp
qed

subsection \<open>Copying a table\<close>

lemma fd_retain_loop_inv:
  assumes k: "kernel_inv k ex" and p: "p_files p = Some f" "f < LXP_RESOURCE_POOL_COUNT" and n: "n \<le> LXP_MAX_FDS"
  shows "kernel_inv (fd_retain_loop k p n) (\<lambda>oi. ex oi + (\<Sum>d<n. of_bool (fd_ofd (fl_fd (k_files k f) d) = Suc oi)))
    \<and> k_files (fd_retain_loop k p n) = k_files k"
  using n
proof (induction n)
  case 0
  then show ?case using k by simp
next
  case (Suc n)
  let ?k = "fd_retain_loop k p n" and ?ex = "\<lambda>n oi. ex oi + (\<Sum>d<n. of_bool (fd_ofd (fl_fd (k_files k f) d) = Suc oi))"
  have i: "kernel_inv ?k (?ex n)" "k_files ?k = k_files k" using Suc by simp_all
  note L = fd_lookup_iff [OF i(1) p, of "int n"]
  show ?case
  proof (cases "fd_ofd (fl_fd (k_files k f) n)")
    case 0
    then have "fd_lookup ?k p (int n) = None" using L Suc.prems i(2) by (simp add: fd_entry_at_def)
    then show ?thesis using i 0 by (simp add: Let_def)
  next
    case (Suc oi)
    then have l: "fd_lookup ?k p (int n) = Some oi" using L Suc.prems i(2) by (simp add: fd_entry_at_def)
    then have o: "oi < LXP_MAX_OFD" "ofd_refs (k_ofd ?k oi) \<noteq> 0" by (auto elim: fd_lookupE)
    have "?ex (Suc n) = (?ex n)(oi := Suc (?ex n oi))" using Suc by (auto simp: fun_eq_iff)
    then show ?thesis using ofd_ref_inc_inv [OF i(1) o] i(2) l by (simp add: ofd_ref_inc_def Let_def)
  qed
qed

lemma fd_table_retain_inv:
  assumes k: "kernel_inv k ex" and p: "p_files p = Some f" "f < LXP_RESOURCE_POOL_COUNT"
    and r: "lxp_fd_table_retain k p = (k', rc)"
  shows "if rc = 0 then kernel_inv k' (\<lambda>oi. ex oi + table_refs (k_files k f) oi) \<and> k_files k' = k_files k else k' = k"
  using r fd_retain_loop_inv [OF k p order_refl]
  by (auto simp: lxp_fd_table_retain_def p table_refs_def split: if_splits)

lemma fd_table_retain_ok:
  assumes "kernel_ok k" "p_files p = Some f" "f < LXP_RESOURCE_POOL_COUNT"
  shows "snd (lxp_fd_table_retain k p) = 0"
proof -
  have "ofd_refs (k_ofd k oi) \<noteq> UINT16_MAX" if "fd_lookup k p fd = Some oi" for fd oi
    using ofd_refs_small [OF assms(1), of oi] that by (auto elim: fd_lookupE)
  then have "scan (\<lambda>fd. case fd_lookup k p (int fd) of None \<Rightarrow> False | Some oi \<Rightarrow> ofd_refs (k_ofd k oi) = UINT16_MAX) 0 LXP_MAX_FDS = None"
    by (auto simp: scan_None split: option.splits)
  then show ?thesis by (simp add: lxp_fd_table_retain_def assms(2))
qed

text \<open>Storing a copy of a table in a free one uses up the references taken for it.\<close>

lemma entry_refs_table:
  assumes "f < LXP_RESOURCE_POOL_COUNT"
  shows "entry_refs (g(f := t)) oi + table_refs (g f) oi = entry_refs g oi + table_refs t oi"
  unfolding entry_refs_def using sum_fun_upd_nat [OF assms, of "\<lambda>t. table_refs t oi" g t] by simp

lemma files_put_table_inv:
  assumes k: "kernel_inv k (\<lambda>oi. ex oi + table_refs t oi)" and f: "f < LXP_RESOURCE_POOL_COUNT"
    and free: "\<And>oi. table_refs (k_files k f) oi = 0" and t: "\<And>d. d < LXP_MAX_FDS \<Longrightarrow> fd_ofd (fl_fd t d) \<le> LXP_MAX_OFD"
  shows "kernel_inv (k\<lparr>k_files := (k_files k)(f := t)\<rparr>) ex"
proof -
  have "entry_refs ((k_files k)(f := t)) oi = entry_refs (k_files k) oi + table_refs t oi" for oi
    using entry_refs_table [OF f, of "k_files k" t oi] free by simp
  then show ?thesis using k t by (simp add: kernel_inv_def fd_refs_ok_def objects_ok_def)
qed

lemma fd_close_all_spec:
  assumes k: "kernel_inv k ex" and p: "p_files p = Some f" "f < LXP_RESOURCE_POOL_COUNT"
  shows "kernel_inv (lxp_fd_close_all k p) ex" "table_refs (k_files (lxp_fd_close_all k p) f) oi = 0"
    "\<And>g d. g \<noteq> f \<Longrightarrow> fl_fd (k_files (lxp_fd_close_all k p) g) d = fl_fd (k_files k g) d"
proof -
  have pok: "proc_ok p" using p by (simp add: proc_ok_def)
  have e: "lxp_fd_close_all k p = fd_close_loop k p (\<lambda>_ _. True) LXP_MAX_FDS" by (simp add: lxp_fd_close_all_def p)
  show "kernel_inv (lxp_fd_close_all k p) ex" unfolding e by (rule fd_close_loop_inv [OF k pok])
  have E: "fd_ofd (fd_entry_at (lxp_fd_close_all k p) g (int d)) = (if g = f \<and> d < LXP_MAX_FDS \<and> True then 0 else fd_ofd (fd_entry_at k g (int d)))
    \<and> (\<not> (g = f \<and> d < LXP_MAX_FDS \<and> True) \<longrightarrow> fd_entry_at (lxp_fd_close_all k p) g (int d) = fd_entry_at k g (int d))" for g d
    unfolding e by (rule fd_close_loop_entries [OF k p order_refl]) (rule refl)
  show "table_refs (k_files (lxp_fd_close_all k p) f) oi = 0"
    using E [of f] by (simp add: table_refs_def fd_entry_at_def)
  show "fl_fd (k_files (lxp_fd_close_all k p) g) d = fl_fd (k_files k g) d" if "g \<noteq> f" for g d
    using E [of g d] that by (simp add: fd_entry_at_def)
qed

lemma fd_close_loop_refs: "fl_refs (k_files (fd_close_loop k p P n) f) = fl_refs (k_files k f)"
proof (induction n)
  case (Suc n)
  have "fl_refs (k_files (fst (lxp_fd_close k1 p fd)) f) = fl_refs (k_files k1 f)" for k1 fd
    by (auto simp: lxp_fd_close_def split: option.splits)
  then show ?case using Suc by (simp add: Let_def)
qed simp

end
