(* ===== verification/Process.thy ===== *)
theory Process
  imports Fd Arena
begin

text \<open>
  Process resources (\<^verbatim>\<open>src/src/proc/lxp_process.c\<close>): the five refcounted pools (descriptor
  tables, file-system contexts, signal handler tables, address spaces, thread groups), the
  construction of the initial task and of fork and clone children, and their release; and
  the staging buffer of \<^verbatim>\<open>src/src/proc/lxp_exec_stage.c\<close>.

  The invariant \<open>sys_ok\<close> relates the pools to the task records: each object's count is the
  number of tasks that point to it.
\<close>

section \<open>The model\<close>

abbreviation (input) LXP_CLONE_VM :: nat where "LXP_CLONE_VM \<equiv> 0x100"
abbreviation (input) LXP_CLONE_FS :: nat where "LXP_CLONE_FS \<equiv> 0x200"
abbreviation (input) LXP_CLONE_FILES :: nat where "LXP_CLONE_FILES \<equiv> 0x400"
abbreviation (input) LXP_CLONE_SIGHAND :: nat where "LXP_CLONE_SIGHAND \<equiv> 0x800"
abbreviation (input) LXP_CLONE_THREAD :: nat where "LXP_CLONE_THREAD \<equiv> 0x10000"

subsection \<open>Pools\<close>

text \<open>\<open>refs\<close> reads the leading count of an object; \<open>fresh\<close> is a cleared object with one
  reference and the constructor's defaults.\<close>

definition resource_new :: "('r \<Rightarrow> nat) \<Rightarrow> 'r \<Rightarrow> (nat \<Rightarrow> 'r) \<Rightarrow> (nat \<Rightarrow> 'r) \<times> nat option" where
  "resource_new refs fresh g =
     (case scan (\<lambda>i. refs (g i) = 0) 0 LXP_RESOURCE_POOL_COUNT of
        None \<Rightarrow> (g, None)
      | Some i \<Rightarrow> (g(i := fresh), Some i))"

definition files_new :: "kernel \<Rightarrow> kernel \<times> nat option" where
  "files_new k = (case resource_new fl_refs (files_zero\<lparr>fl_refs := 1\<rparr>) (k_files k) of (g, r) \<Rightarrow> (k\<lparr>k_files := g\<rparr>, r))"

definition fs_context_new :: "kernel \<Rightarrow> kernel \<times> nat option" where
  "fs_context_new k =
     (case resource_new fc_refs (fs_context_zero\<lparr>fc_refs := 1, fc_umask := 0x12, fc_cwd := [SLASH]\<rparr>) (k_fs_context k) of
        (g, r) \<Rightarrow> (k\<lparr>k_fs_context := g\<rparr>, r))"

definition sighand_new :: "kernel \<Rightarrow> kernel \<times> nat option" where
  "sighand_new k =
     (case resource_new sh_refs (sighand_zero\<lparr>sh_refs := 1\<rparr>) (k_sighand k) of (g, r) \<Rightarrow> (k\<lparr>k_sighand := g\<rparr>, r))"

definition mm_new :: "kernel \<Rightarrow> kernel \<times> nat option" where
  "mm_new k =
     (case resource_new mm_refs (mm_zero\<lparr>mm_refs := 1, mm_region := lxp_region_ref_none, mm_device_generation := 1,
                                    mm_exec_generation := 1\<rparr>) (mc_mm k) of
        (g, r) \<Rightarrow> (k\<lparr>mc_mm := g\<rparr>, r))"

definition group_new :: "kernel \<Rightarrow> kernel \<times> nat option" where
  "group_new k =
     (case resource_new tg_refs (thread_group_zero\<lparr>tg_refs := 1\<rparr>) (k_groups k) of (g, r) \<Rightarrow> (k\<lparr>k_groups := g\<rparr>, r))"

text \<open>Dropping a reference clears the object with the last one.\<close>

definition resource_put :: "('r \<Rightarrow> nat) \<Rightarrow> ((nat \<Rightarrow> nat) \<Rightarrow> 'r \<Rightarrow> 'r) \<Rightarrow> 'r \<Rightarrow> (nat \<Rightarrow> 'r) \<Rightarrow> nat option \<Rightarrow> (nat \<Rightarrow> 'r)" where
  "resource_put refs upd zero g ptr =
     (case ptr of
        None \<Rightarrow> g
      | Some i \<Rightarrow>
          if refs (g i) > 0
          then (let r = upd (\<lambda>n. n - 1) (g i) in g(i := (if refs r = 0 then zero else r)))
          else g)"

definition lxp_proc_runtime_reset :: "kernel \<Rightarrow> kernel" where
  "lxp_proc_runtime_reset k =
     k\<lparr>k_files := (\<lambda>i. if i < LXP_RESOURCE_POOL_COUNT then files_zero else k_files k i),
       k_fs_context := (\<lambda>i. if i < LXP_RESOURCE_POOL_COUNT then fs_context_zero else k_fs_context k i),
       k_sighand := (\<lambda>i. if i < LXP_RESOURCE_POOL_COUNT then sighand_zero else k_sighand k i),
       mc_mm := (\<lambda>i. if i < LXP_RESOURCE_POOL_COUNT then mm_zero else mc_mm k i),
       k_groups := (\<lambda>i. if i < LXP_RESOURCE_POOL_COUNT then thread_group_zero else k_groups k i)\<rparr>"

subsection \<open>Releasing\<close>

definition files_put :: "proc \<Rightarrow> kernel \<Rightarrow> proc \<times> kernel" where
  "files_put p k =
     (case p_files p of
        None \<Rightarrow> (p, k)
      | Some f \<Rightarrow>
          if fl_refs (k_files k f) = 0 then (p\<lparr>p_files := None\<rparr>, k)
          else
            (let k1 = k\<lparr>k_files := (k_files k)(f := (k_files k f)\<lparr>fl_refs := fl_refs (k_files k f) - 1\<rparr>)\<rparr> in
             if fl_refs (k_files k1 f) = 0 then
               (let k2 = fd_close_loop k1 p (\<lambda>_ _. True) LXP_MAX_FDS
                in (p\<lparr>p_files := None\<rparr>, k2\<lparr>k_files := (k_files k2)(f := files_zero)\<rparr>))
             else (p\<lparr>p_files := None\<rparr>, k1)))"

definition lxp_proc_resources_put :: "proc \<Rightarrow> kernel \<Rightarrow> proc \<times> kernel" where
  "lxp_proc_resources_put p k =
     (case files_put p k of (p1, k1) \<Rightarrow>
        (p1\<lparr>p_fs_context := None, p_sighand := None\<rparr>,
         k1\<lparr>k_fs_context := resource_put fc_refs fc_refs_update fs_context_zero (k_fs_context k1) (p_fs_context p1),
            k_sighand := resource_put sh_refs sh_refs_update sighand_zero (k_sighand k1) (p_sighand p1)\<rparr>))"

definition lxp_proc_mm_put :: "proc \<Rightarrow> kernel \<Rightarrow> proc \<times> kernel" where
  "lxp_proc_mm_put p k =
     (p\<lparr>p_mm := None\<rparr>, k\<lparr>mc_mm := resource_put mm_refs mm_refs_update mm_zero (mc_mm k) (p_mm p)\<rparr>)"

definition lxp_proc_group_put :: "proc \<Rightarrow> kernel \<Rightarrow> proc \<times> kernel" where
  "lxp_proc_group_put p k =
     (p\<lparr>p_group := None\<rparr>, k\<lparr>k_groups := resource_put tg_refs tg_refs_update thread_group_zero (k_groups k) (p_group p)\<rparr>)"

definition proc_child_reset :: proc where
  "proc_child_reset = proc_zero\<lparr>p_vfork_parent := lxp_slot_ref_none, p_snapshot := lxp_region_ref_none\<rparr>"

definition lxp_proc_child_discard :: "proc \<Rightarrow> kernel \<Rightarrow> proc \<times> kernel" where
  "lxp_proc_child_discard p k =
     (let (p1, k1) = lxp_proc_resources_put p k; (p2, k2) = lxp_proc_mm_put p1 k1; (p3, k3) = lxp_proc_group_put p2 k2
      in (proc_child_reset, k3))"

subsection \<open>Descriptor tables of children\<close>

definition lxp_fd_fork_inherit :: "proc \<Rightarrow> kernel \<Rightarrow> proc \<times> kernel \<times> int" where
  "lxp_fd_fork_inherit child k =
     (case p_files child of
        None \<Rightarrow> (child, k, - LXP_EINVAL)
      | Some source \<Rightarrow>
          (case files_new k of
             (k1, None) \<Rightarrow> (child, k1, - LXP_ENOMEM)
           | (k1, Some copy) \<Rightarrow>
               (let k2 = k1\<lparr>k_files := (k_files k1)(copy := (k_files k1 copy)\<lparr>fl_fd := fl_fd (k_files k1 source)\<rparr>)\<rparr>;
                    child1 = child\<lparr>p_files := Some copy\<rparr>;
                    (k3, rc) = lxp_fd_table_retain k2 child1
                in if rc \<noteq> 0 then
                     (child1\<lparr>p_files := Some source\<rparr>, k3\<lparr>k_files := (k_files k3)(copy := files_zero)\<rparr>, - LXP_EAGAIN)
                   else (child1, k3, 0))))"

definition lxp_proc_files_unshare :: "proc \<Rightarrow> kernel \<Rightarrow> proc \<times> kernel \<times> int" where
  "lxp_proc_files_unshare p k =
     (case p_files p of
        None \<Rightarrow> (p, k, - LXP_EINVAL)
      | Some shared \<Rightarrow>
          if fl_refs (k_files k shared) = 1 then (p, k, 0)
          else
            (let (p1, k1, rc) = lxp_fd_fork_inherit p k in
             if rc \<noteq> 0 then (p1, k1, rc)
             else (p1, k1\<lparr>k_files := (k_files k1)(shared := (k_files k1 shared)\<lparr>fl_refs := fl_refs (k_files k1 shared) - 1\<rparr>)\<rparr>, 0)))"

subsection \<open>Children\<close>

text \<open>The three stages of \<^verbatim>\<open>lxp_proc_resources_fork\<close>.  Each returns whether the code goes on
  (rather than to the label \<^verbatim>\<open>fail\<close>) and the value \<^verbatim>\<open>rc\<close> then has.\<close>

definition fork_files :: "nat \<Rightarrow> proc \<Rightarrow> proc \<Rightarrow> kernel \<Rightarrow> proc \<times> kernel \<times> bool \<times> int" where
  "fork_files flags child parent k =
     (case p_files parent of
        None \<Rightarrow> (child, k, False, - LXP_EINVAL)
      | Some f \<Rightarrow>
          if has_flag flags LXP_CLONE_FILES then
            (if fl_refs (k_files k f) = UINT16_MAX then (child, k, False, - LXP_EAGAIN)
             else (child\<lparr>p_files := Some f\<rparr>,
                   k\<lparr>k_files := (k_files k)(f := (k_files k f)\<lparr>fl_refs := fl_refs (k_files k f) + 1\<rparr>)\<rparr>, True, - LXP_EAGAIN))
          else
            (let (child1, k1, rc) = lxp_fd_fork_inherit (child\<lparr>p_files := Some f\<rparr>) k
             in if rc \<noteq> 0 then (child1\<lparr>p_files := None\<rparr>, k1, False, rc) else (child1, k1, True, rc)))"

definition fork_fs_context :: "nat \<Rightarrow> proc \<Rightarrow> proc \<Rightarrow> kernel \<Rightarrow> int \<Rightarrow> proc \<times> kernel \<times> bool \<times> int" where
  "fork_fs_context flags child parent k rc =
     (case p_fs_context parent of
        None \<Rightarrow> (child, k, False, - LXP_EINVAL)
      | Some f \<Rightarrow>
          if has_flag flags LXP_CLONE_FS then
            (if fc_refs (k_fs_context k f) = UINT16_MAX then (child, k, False, rc)
             else (child\<lparr>p_fs_context := Some f\<rparr>,
                   k\<lparr>k_fs_context := (k_fs_context k)(f := (k_fs_context k f)\<lparr>fc_refs := fc_refs (k_fs_context k f) + 1\<rparr>)\<rparr>, True, rc))
          else
            (case fs_context_new k of
               (k1, None) \<Rightarrow> (child, k1, False, - LXP_ENOMEM)
             | (k1, Some c) \<Rightarrow>
                 (child\<lparr>p_fs_context := Some c\<rparr>,
                  k1\<lparr>k_fs_context := (k_fs_context k1)(c := (k_fs_context k1 c)\<lparr>fc_cwd := fc_cwd (k_fs_context k1 f),
                        fc_umask := fc_umask (k_fs_context k1 f)\<rparr>)\<rparr>, True, rc)))"

definition fork_sighand :: "nat \<Rightarrow> proc \<Rightarrow> proc \<Rightarrow> kernel \<Rightarrow> int \<Rightarrow> proc \<times> kernel \<times> bool \<times> int" where
  "fork_sighand flags child parent k rc =
     (case p_sighand parent of
        None \<Rightarrow> (child, k, False, - LXP_EINVAL)
      | Some f \<Rightarrow>
          if has_flag flags LXP_CLONE_SIGHAND then
            (if sh_refs (k_sighand k f) = UINT16_MAX then (child, k, False, rc)
             else (child\<lparr>p_sighand := Some f\<rparr>,
                   k\<lparr>k_sighand := (k_sighand k)(f := (k_sighand k f)\<lparr>sh_refs := sh_refs (k_sighand k f) + 1\<rparr>)\<rparr>, True, rc))
          else
            (case sighand_new k of
               (k1, None) \<Rightarrow> (child, k1, False, - LXP_ENOMEM)
             | (k1, Some c) \<Rightarrow>
                 (child\<lparr>p_sighand := Some c\<rparr>,
                  k1\<lparr>k_sighand := (k_sighand k1)(c := (k_sighand k1 c)\<lparr>sh_handler := sh_handler (k_sighand k1 f),
                        sh_restorer := sh_restorer (k_sighand k1 f), sh_restart := sh_restart (k_sighand k1 f)\<rparr>)\<rparr>, True, rc)))"

definition lxp_proc_resources_fork :: "proc \<Rightarrow> proc \<Rightarrow> nat \<Rightarrow> kernel \<Rightarrow> proc \<times> kernel \<times> int" where
  "lxp_proc_resources_fork child parent flags k =
     (if p_files parent = None \<or> p_fs_context parent = None \<or> p_sighand parent = None then (child, k, - LXP_EINVAL)
      else
        (let fail = (\<lambda>c k rc. case lxp_proc_resources_put c k of (c', k') \<Rightarrow> (c', k', rc));
             (c1, k1, ok1, rc1) = fork_files flags (child\<lparr>p_files := None, p_fs_context := None, p_sighand := None\<rparr>) parent k
         in if \<not> ok1 then fail c1 k1 rc1
            else
              (let (c2, k2, ok2, rc2) = fork_fs_context flags c1 parent k1 rc1
               in if \<not> ok2 then fail c2 k2 rc2
                  else
                    (let (c3, k3, ok3, rc3) = fork_sighand flags c2 parent k2 rc2
                     in if \<not> ok3 then fail c3 k3 rc3 else (c3, k3, 0)))))"

definition lxp_proc_mm_fork :: "proc \<Rightarrow> proc \<Rightarrow> nat \<Rightarrow> kernel \<Rightarrow> proc \<times> kernel \<times> int" where
  "lxp_proc_mm_fork child parent flags k =
     (case p_mm parent of
        None \<Rightarrow> (child, k, - LXP_EINVAL)
      | Some i \<Rightarrow>
          if has_flag flags LXP_CLONE_VM then
            (if mm_refs (mc_mm k i) = UINT16_MAX then (child\<lparr>p_mm := None\<rparr>, k, - LXP_EAGAIN)
             else (child\<lparr>p_mm := Some i\<rparr>, k\<lparr>mc_mm := (mc_mm k)(i := (mc_mm k i)\<lparr>mm_refs := mm_refs (mc_mm k i) + 1\<rparr>)\<rparr>, 0))
          else
            (case mm_new k of
               (k1, None) \<Rightarrow> (child\<lparr>p_mm := None\<rparr>, k1, - LXP_ENOMEM)
             | (k1, Some c) \<Rightarrow>
                 (child\<lparr>p_mm := Some c\<rparr>,
                  k1\<lparr>mc_mm := (mc_mm k1)(c := (mc_mm k1 i)\<lparr>mm_refs := mm_refs (mc_mm k1 c)\<rparr>)\<rparr>, 0)))"

definition lxp_proc_group_fork :: "proc \<Rightarrow> proc \<Rightarrow> nat \<Rightarrow> int \<Rightarrow> kernel \<Rightarrow> proc \<times> kernel \<times> int" where
  "lxp_proc_group_fork child parent flags child_pid k =
     (case p_group parent of
        None \<Rightarrow> (child, k, - LXP_EINVAL)
      | Some i \<Rightarrow>
          if child_pid \<le> 0 then (child, k, - LXP_EINVAL)
          else if has_flag flags LXP_CLONE_THREAD then
            (if tg_refs (k_groups k i) = UINT16_MAX then (child\<lparr>p_group := None\<rparr>, k, - LXP_EAGAIN)
             else (child\<lparr>p_group := Some i\<rparr>,
                   k\<lparr>k_groups := (k_groups k)(i := (k_groups k i)\<lparr>tg_refs := tg_refs (k_groups k i) + 1\<rparr>)\<rparr>, 0))
          else
            (case group_new k of
               (k1, None) \<Rightarrow> (child\<lparr>p_group := None\<rparr>, k1, - LXP_ENOMEM)
             | (k1, Some c) \<Rightarrow>
                 (child\<lparr>p_group := Some c\<rparr>,
                  k1\<lparr>k_groups := (k_groups k1)(c := (k_groups k1 c)\<lparr>tg_tgid := child_pid, tg_ppid := tg_tgid (k_groups k1 i),
                        tg_pgid := tg_pgid (k_groups k1 i)\<rparr>)\<rparr>, 0)))"

definition proc_child_copy_values :: "proc \<Rightarrow> int \<Rightarrow> proc" where
  "proc_child_copy_values parent child_pid =
     proc_child_reset\<lparr>p_write_fn := p_write_fn parent, p_read_fn := p_read_fn parent, p_console_poll := p_console_poll parent,
       p_io_ctx := p_io_ctx parent, p_fs := p_fs parent, p_fs_count := p_fs_count parent, p_pid := child_pid,
       p_nice := p_nice parent, p_comm := p_comm parent, p_sig_blocked := p_sig_blocked parent,
       p_exec_file_idx := p_exec_file_idx parent, p_stack_lo := p_stack_lo parent, p_is_fdpic := p_is_fdpic parent\<rparr>"

definition proc_init_child :: "proc \<Rightarrow> proc \<Rightarrow> nat \<Rightarrow> int \<Rightarrow> bool \<Rightarrow> kernel \<Rightarrow> proc \<times> kernel \<times> int" where
  "proc_init_child child parent flags child_pid thread k =
     (if child_pid \<le> 0 \<or> p_mm parent = None \<or> p_files parent = None \<or> p_fs_context parent = None \<or> p_sighand parent = None
         \<or> p_group parent = None then (child, k, - LXP_EINVAL)
      else if has_flag flags LXP_CLONE_SIGHAND \<and> \<not> has_flag flags LXP_CLONE_VM then (child, k, - LXP_EINVAL)
      else if thread \<and> \<not> (has_flag flags LXP_CLONE_THREAD \<and> has_flag flags LXP_CLONE_VM \<and> has_flag flags LXP_CLONE_SIGHAND)
      then (child, k, - LXP_EINVAL)
      else if \<not> thread \<and> has_flag flags LXP_CLONE_THREAD then (child, k, - LXP_EINVAL)
      else
        (let c0 = proc_child_copy_values parent child_pid;
             (c1, k1, rc1) = lxp_proc_mm_fork c0 parent flags k;
             (c2, k2, rc2) = (if rc1 = 0 then lxp_proc_resources_fork c1 parent flags k1 else (c1, k1, rc1));
             (c3, k3, rc3) = (if rc2 = 0 then lxp_proc_group_fork c2 parent flags child_pid k2 else (c2, k2, rc2))
         in if rc3 \<noteq> 0 then (case lxp_proc_child_discard c3 k3 of (c4, k4) \<Rightarrow> (c4, k4, rc3)) else (c3, k3, rc3)))"

definition lxp_proc_init_process_child :: "proc \<Rightarrow> proc \<Rightarrow> nat \<Rightarrow> int \<Rightarrow> kernel \<Rightarrow> proc \<times> kernel \<times> int" where
  "lxp_proc_init_process_child child parent flags child_pid k = proc_init_child child parent flags child_pid False k"

definition lxp_proc_init_thread_child :: "proc \<Rightarrow> proc \<Rightarrow> nat \<Rightarrow> int \<Rightarrow> kernel \<Rightarrow> proc \<times> kernel \<times> int" where
  "lxp_proc_init_thread_child child parent flags child_tid k = proc_init_child child parent flags child_tid True k"

subsection \<open>The initial task\<close>

definition proc_init_fail :: "proc \<Rightarrow> kernel \<Rightarrow> proc \<times> kernel" where
  "proc_init_fail p k =
     (let (p1, k1) = lxp_proc_resources_put p k; (p2, k2) = lxp_proc_mm_put p1 k1 in lxp_proc_group_put p2 k2)"

text \<open>\<open>arena\<close> is the handle of the memory arena, \<open>ar\<close> its control block.\<close>

definition lxp_proc_init :: "nat \<Rightarrow> arena \<Rightarrow> nat \<Rightarrow> kernel \<Rightarrow> proc \<times> kernel \<times> arena \<times> int" where
  "lxp_proc_init arena ar brk_bytes k =
     (let (k1, mm) = mm_new k; (k2, grp) = group_new k1; (k3, fl) = files_new k2; (k4, ctx) = fs_context_new k3;
          (k5, sh) = sighand_new k4;
          p = proc_zero\<lparr>p_mm := mm, p_group := grp, p_files := fl, p_fs_context := ctx, p_sighand := sh\<rparr>;
          fail = (\<lambda>p k ar. case proc_init_fail p k of (p', k') \<Rightarrow> (p', k', ar, - LXP_ENOMEM))
      in case (mm, grp) of
           (Some mi, Some gi) \<Rightarrow>
             if fl = None \<or> ctx = None \<or> sh = None then fail p k5 ar
             else
               (let k6 = k5\<lparr>mc_mm := (mc_mm k5)(mi := (mc_mm k5 mi)\<lparr>mm_arena := Some arena\<rparr>),
                            k_groups := (k_groups k5)(gi := (k_groups k5 gi)\<lparr>tg_tgid := 1, tg_pgid := 1\<rparr>)\<rparr>;
                    p1 = p\<lparr>p_pid := 1\<rparr>;
                    (k7, a) = lxp_fd_install k6 p1 FD_CONSOLE 0 LXP_O_RDWR
                in if a \<noteq> 0 then fail p1 k7 ar
                   else
                     (let (k8, b) = lxp_fd_install k7 p1 FD_CONSOLE 1 LXP_O_RDWR
                      in if b \<noteq> 1 then fail p1 k8 ar
                         else
                           (let (k9, c) = lxp_fd_install k8 p1 FD_CONSOLE 1 LXP_O_RDWR
                            in if c \<noteq> 2 then fail p1 k9 ar
                               else if brk_bytes = 0 then (p1, k9, ar, 0)
                               else
                                 (let (m', ar', brk) = lxp_arena_alloc (mc_mem k9) ar brk_bytes;
                                      k10 = k9\<lparr>mc_mem := m'\<rparr>
                                  in if brk = 0 then fail p1 k10 ar'
                                     else (p1, k10\<lparr>mc_mm := (mc_mm k10)(mi := (mc_mm k10 mi)\<lparr>mm_brk_base := brk, mm_brk_cur := brk,
                                                       mm_brk_max := brk + brk_bytes\<rparr>)\<rparr>, ar', 0)))))
         | _ \<Rightarrow> fail p k5 ar)"

subsection \<open>Scheduling weight\<close>

definition nice_clamp :: "int \<Rightarrow> int" where
  "nice_clamp n = (if n < - 20 then - 20 else if n > 19 then 19 else n)"

definition lxp_proc_nice_set :: "proc \<Rightarrow> int \<Rightarrow> proc" where
  "lxp_proc_nice_set p n = p\<lparr>p_nice := nice_clamp n\<rparr>"

definition lxp_nice_weight :: "int \<Rightarrow> nat" where
  "lxp_nice_weight n = nat (20 - nice_clamp n)"

definition lxp_proc_set_rootfs :: "proc \<Rightarrow> nat \<Rightarrow> int \<Rightarrow> proc" where
  "lxp_proc_set_rootfs p files count = p\<lparr>p_fs := files, p_fs_count := (if files \<noteq> 0 \<and> count > 0 then count else 0)\<rparr>"

section \<open>Counted pools\<close>

text \<open>\<open>hold s\<close> is the object task slot \<open>s\<close> points to.\<close>

definition holders :: "(nat \<Rightarrow> nat option) \<Rightarrow> nat \<Rightarrow> nat" where
  "holders hold i = (\<Sum>s<LXP_NSLOT. of_bool (hold s = Some i))"

definition pool_ok :: "('r \<Rightarrow> nat) \<Rightarrow> 'r \<Rightarrow> (nat \<Rightarrow> 'r) \<Rightarrow> (nat \<Rightarrow> nat option) \<Rightarrow> bool" where
  "pool_ok refs zero g hold \<longleftrightarrow>
     (\<forall>i < LXP_RESOURCE_POOL_COUNT. refs (g i) = holders hold i \<and> (refs (g i) = 0 \<longrightarrow> g i = zero))
     \<and> (\<forall>s < LXP_NSLOT. \<forall>i. hold s = Some i \<longrightarrow> i < LXP_RESOURCE_POOL_COUNT)"

lemma holders_upd:
  assumes "c < LXP_NSLOT"
  shows "holders (hold(c := h)) i + of_bool (hold c = Some i) = holders hold i + of_bool (h = Some i)"
  unfolding holders_def using sum_fun_upd_nat [OF assms, of "\<lambda>h. of_bool (h = Some i)" hold h] by simp

lemma holders_pos: "s < LXP_NSLOT \<Longrightarrow> hold s = Some i \<Longrightarrow> 0 < holders hold i"
  using holders_upd [of s hold None i] by simp

lemma holders_le: "holders hold i \<le> LXP_NSLOT"
proof -
  have "holders hold i \<le> (\<Sum>s<LXP_NSLOT. 1)" unfolding holders_def by (intro sum_mono) simp
  then show ?thesis by simp
qed

lemma holders_total:
  assumes "c < LXP_NSLOT" "hold c = None"
  shows "(\<Sum>i<n. holders hold i) < LXP_NSLOT"
proof -
  have one: "(\<Sum>i<n. of_bool (hold s = Some i)) \<le> (of_bool (s \<noteq> c) :: nat)" for s
  proof (cases "hold s")
    case (Some j)
    then have "(\<Sum>i<n. of_bool (hold s = Some i)) = (\<Sum>i<n. if i = j then 1 else (0::nat))" by (intro sum.cong) auto
    then show ?thesis using Some assms(2) by auto
  qed simp
  have "(\<Sum>i<n. holders hold i) = (\<Sum>s<LXP_NSLOT. \<Sum>i<n. of_bool (hold s = Some i))"
    unfolding holders_def by (rule sum.swap)
  also have "\<dots> \<le> (\<Sum>s<LXP_NSLOT. of_bool (s \<noteq> c))" by (intro sum_mono one)
  also have "\<dots> < (\<Sum>s<LXP_NSLOT. 1)" by (rule sum_strict_mono_ex1) (use assms(1) in auto)
  finally show ?thesis by simp
qed

text \<open>The contract of a pool of counted objects: a count that can be read and set, and a
  cleared object that counts nothing.\<close>

locale ref_pool =
  fixes refs :: "'r \<Rightarrow> nat" and upd :: "(nat \<Rightarrow> nat) \<Rightarrow> 'r \<Rightarrow> 'r" and zero :: 'r
  assumes refs_upd: "refs (upd f r) = f (refs r)" and refs_zero: "refs zero = 0"
begin

lemma room:
  assumes "pool_ok refs zero g hold" "c < LXP_NSLOT" "hold c = None"
  shows "\<exists>i < LXP_RESOURCE_POOL_COUNT. refs (g i) = 0"
proof (rule ccontr)
  assume "\<not> ?thesis"
  then have "1 \<le> holders hold i" if "i < LXP_RESOURCE_POOL_COUNT" for i
    using assms(1) that by (auto simp: pool_ok_def Suc_le_eq)
  then have "(\<Sum>i<LXP_RESOURCE_POOL_COUNT. (1::nat)) \<le> (\<Sum>i<LXP_RESOURCE_POOL_COUNT. holders hold i)" by (intro sum_mono) simp
  then show False using holders_total [of c hold, OF assms(2,3), of LXP_RESOURCE_POOL_COUNT] by (simp add: config_defs)
qed

lemma new_succeeds:
  assumes "pool_ok refs zero g hold" "c < LXP_NSLOT" "hold c = None"
  obtains i where "\<And>fresh. resource_new refs fresh g = (g(i := fresh), Some i)" "i < LXP_RESOURCE_POOL_COUNT" "refs (g i) = 0"
proof -
  obtain j where "j < LXP_RESOURCE_POOL_COUNT" "refs (g j) = 0" using room [OF assms] by blast
  then obtain i where i: "scan (\<lambda>i. refs (g i) = 0) 0 LXP_RESOURCE_POOL_COUNT = Some i"
    using scan_ex [of 0 j LXP_RESOURCE_POOL_COUNT "\<lambda>i. refs (g i) = 0"] by auto
  then show thesis using that scan_SomeD [OF i] by (simp add: resource_new_def)
qed

lemma store_new:
  assumes "pool_ok refs zero g hold" "c < LXP_NSLOT" "hold c = None" "i < LXP_RESOURCE_POOL_COUNT" "refs (g i) = 0" "refs r = 1"
  shows "pool_ok refs zero (g(i := r)) (hold(c := Some i))"
proof -
  have h: "holders (hold(c := Some i)) j = holders hold j + of_bool (j = i)" for j
    using holders_upd [OF assms(2), of hold "Some i" j] assms(3) by (cases "j = i") simp_all
  have "refs ((g(i := r)) j) = holders (hold(c := Some i)) j \<and> (refs ((g(i := r)) j) = 0 \<longrightarrow> (g(i := r)) j = zero)"
    if "j < LXP_RESOURCE_POOL_COUNT" for j
    using assms(1,5,6) that h [of j] by (cases "j = i") (simp_all add: pool_ok_def)
  then show ?thesis using assms(1,4) by (simp add: pool_ok_def)
qed

lemma share:
  assumes "pool_ok refs zero g hold" "c < LXP_NSLOT" "hold c = None" "s < LXP_NSLOT" "hold s = Some i"
  shows "pool_ok refs zero (g(i := upd (\<lambda>_. refs (g i) + 1) (g i))) (hold(c := Some i))" "refs (g i) \<noteq> UINT16_MAX"
proof -
  have h: "holders (hold(c := Some i)) j = holders hold j + of_bool (j = i)" for j
    using holders_upd [OF assms(2), of hold "Some i" j] assms(3) by (cases "j = i") simp_all
  show "pool_ok refs zero (g(i := upd (\<lambda>_. refs (g i) + 1) (g i))) (hold(c := Some i))"
    using assms by (auto simp: pool_ok_def h refs_upd)
  have "refs (g i) \<le> LXP_NSLOT" using assms holders_le by (simp add: pool_ok_def)
  then show "refs (g i) \<noteq> UINT16_MAX" by (simp add: config_defs UINT16_MAX_def)
qed

lemma put:
  assumes "pool_ok refs zero g hold" "c < LXP_NSLOT"
  shows "pool_ok refs zero (resource_put refs upd zero g (hold c)) (hold(c := None))"
proof (cases "hold c")
  case None
  then have "hold(c := None) = hold" by auto
  then show ?thesis using assms None by (simp add: resource_put_def)
next
  case (Some i)
  have h: "holders hold j = holders (hold(c := None)) j + of_bool (j = i)" for j
    using holders_upd [OF assms(2), of hold None j] Some by (cases "j = i") simp_all
  have i: "i < LXP_RESOURCE_POOL_COUNT" "refs (g i) = holders (hold(c := None)) i + 1"
    using assms Some h [of i] by (simp_all add: pool_ok_def)
  then have "resource_put refs upd zero g (hold c)
      = g(i := if holders (hold(c := None)) i = 0 then zero else upd (\<lambda>n. n - 1) (g i))"
    by (simp add: resource_put_def Some refs_upd Let_def)
  then show ?thesis using assms i h by (auto simp: pool_ok_def refs_upd refs_zero)
qed

lemma put_other:
  "hold \<noteq> Some i \<Longrightarrow> resource_put refs upd zero g hold i = g i"
  by (auto simp: resource_put_def Let_def split: option.splits)

end

interpretation files_pool: ref_pool fl_refs fl_refs_update files_zero
  by unfold_locales (simp_all add: files_zero_def)

interpretation context_pool: ref_pool fc_refs fc_refs_update fs_context_zero
  by unfold_locales (simp_all add: fs_context_zero_def)

interpretation sighand_pool: ref_pool sh_refs sh_refs_update sighand_zero
  by unfold_locales (simp_all add: sighand_zero_def)

interpretation mm_pool: ref_pool mm_refs mm_refs_update mm_zero
  by unfold_locales (simp_all add: mm_zero_def)

interpretation group_pool: ref_pool tg_refs tg_refs_update thread_group_zero
  by unfold_locales (simp_all add: thread_group_zero_def)

section \<open>Fork\<close>

definition sys_ok :: "kernel \<Rightarrow> (nat \<Rightarrow> proc) \<Rightarrow> bool" where
  "sys_ok k ts \<longleftrightarrow> kernel_ok k
     \<and> pool_ok fl_refs files_zero (k_files k) (\<lambda>s. p_files (ts s))
     \<and> pool_ok fc_refs fs_context_zero (k_fs_context k) (\<lambda>s. p_fs_context (ts s))
     \<and> pool_ok sh_refs sighand_zero (k_sighand k) (\<lambda>s. p_sighand (ts s))
     \<and> pool_ok mm_refs mm_zero (mc_mm k) (\<lambda>s. p_mm (ts s))
     \<and> pool_ok tg_refs thread_group_zero (k_groups k) (\<lambda>s. p_group (ts s))"

lemma mm_fork_ok:
  assumes ok: "pool_ok mm_refs mm_zero (mc_mm k) hold" and c: "c < LXP_NSLOT" "hold c = None"
    and s: "s < LXP_NSLOT" "hold s = Some i" "p_mm parent = Some i"
  obtains j g where "lxp_proc_mm_fork child parent flags k = (child\<lparr>p_mm := Some j\<rparr>, k\<lparr>mc_mm := g\<rparr>, 0)"
    "pool_ok mm_refs mm_zero g (hold(c := Some j))" "j = i \<longleftrightarrow> has_flag flags LXP_CLONE_VM"
    "(g j)\<lparr>mm_refs := 0\<rparr> = (mc_mm k i)\<lparr>mm_refs := 0\<rparr>"
proof (cases "has_flag flags LXP_CLONE_VM")
  case True
  note S = mm_pool.share [OF ok c s(1,2)]
  show thesis
    by (rule that [of i "(mc_mm k)(i := (mc_mm k i)\<lparr>mm_refs := mm_refs (mc_mm k i) + 1\<rparr>)"])
      (use S True s in \<open>simp_all add: lxp_proc_mm_fork_def\<close>)
next
  case False
  obtain j where j: "\<And>fr. resource_new mm_refs fr (mc_mm k) = ((mc_mm k)(j := fr), Some j)" "j < LXP_RESOURCE_POOL_COUNT"
    "mm_refs (mc_mm k j) = 0" by (rule mm_pool.new_succeeds [OF ok c]) blast
  have ji: "j \<noteq> i" using ok s holders_pos [of s hold i] j(2,3) by (auto simp: pool_ok_def)
  show thesis
  proof (rule that [of j "(mc_mm k)(j := (mc_mm k i)\<lparr>mm_refs := 1\<rparr>)"])
    show "lxp_proc_mm_fork child parent flags k
        = (child\<lparr>p_mm := Some j\<rparr>, k\<lparr>mc_mm := (mc_mm k)(j := (mc_mm k i)\<lparr>mm_refs := 1\<rparr>)\<rparr>, 0)"
      using False s(3) ji by (simp add: lxp_proc_mm_fork_def mm_new_def j(1))
    show "pool_ok mm_refs mm_zero ((mc_mm k)(j := (mc_mm k i)\<lparr>mm_refs := 1\<rparr>)) (hold(c := Some j))"
      by (rule mm_pool.store_new [OF ok c j(2,3)]) simp
  qed (use False ji in simp_all)
qed

lemma group_fork_ok:
  assumes ok: "pool_ok tg_refs thread_group_zero (k_groups k) hold" and c: "c < LXP_NSLOT" "hold c = None"
    and s: "s < LXP_NSLOT" "hold s = Some i" "p_group parent = Some i" and pid: "0 < pid"
  obtains j g where "lxp_proc_group_fork child parent flags pid k = (child\<lparr>p_group := Some j\<rparr>, k\<lparr>k_groups := g\<rparr>, 0)"
    "pool_ok tg_refs thread_group_zero g (hold(c := Some j))" "j = i \<longleftrightarrow> has_flag flags LXP_CLONE_THREAD"
    "j \<noteq> i \<Longrightarrow> tg_tgid (g j) = pid \<and> tg_ppid (g j) = tg_tgid (k_groups k i) \<and> tg_pgid (g j) = tg_pgid (k_groups k i)"
proof (cases "has_flag flags LXP_CLONE_THREAD")
  case True
  note S = group_pool.share [OF ok c s(1,2)]
  show thesis
    by (rule that [of i "(k_groups k)(i := (k_groups k i)\<lparr>tg_refs := tg_refs (k_groups k i) + 1\<rparr>)"])
      (use S True s pid in \<open>simp_all add: lxp_proc_group_fork_def\<close>)
next
  case False
  obtain j where j: "\<And>fr. resource_new tg_refs fr (k_groups k) = ((k_groups k)(j := fr), Some j)" "j < LXP_RESOURCE_POOL_COUNT"
    "tg_refs (k_groups k j) = 0" by (rule group_pool.new_succeeds [OF ok c]) blast
  have ji: "j \<noteq> i" using ok s holders_pos [of s hold i] j(2,3) by (auto simp: pool_ok_def)
  let ?r = "thread_group_zero\<lparr>tg_refs := 1, tg_tgid := pid, tg_ppid := tg_tgid (k_groups k i), tg_pgid := tg_pgid (k_groups k i)\<rparr>"
  show thesis
  proof (rule that [of j "(k_groups k)(j := ?r)"])
    show "lxp_proc_group_fork child parent flags pid k = (child\<lparr>p_group := Some j\<rparr>, k\<lparr>k_groups := (k_groups k)(j := ?r)\<rparr>, 0)"
      using False s(3) ji pid by (simp add: lxp_proc_group_fork_def group_new_def j(1))
    show "pool_ok tg_refs thread_group_zero ((k_groups k)(j := ?r)) (hold(c := Some j))"
      by (rule group_pool.store_new [OF ok c j(2,3)]) simp
  qed (use False ji in simp_all)
qed

lemma fs_context_fork_ok:
  assumes ok: "pool_ok fc_refs fs_context_zero (k_fs_context k) hold" and c: "c < LXP_NSLOT" "hold c = None"
    and s: "s < LXP_NSLOT" "hold s = Some i" "p_fs_context parent = Some i"
  obtains j g where "fork_fs_context flags child parent k rc = (child\<lparr>p_fs_context := Some j\<rparr>, k\<lparr>k_fs_context := g\<rparr>, True, rc)"
    "pool_ok fc_refs fs_context_zero g (hold(c := Some j))" "j = i \<longleftrightarrow> has_flag flags LXP_CLONE_FS"
    "fc_cwd (g j) = fc_cwd (k_fs_context k i)" "fc_umask (g j) = fc_umask (k_fs_context k i)"
proof (cases "has_flag flags LXP_CLONE_FS")
  case True
  note S = context_pool.share [OF ok c s(1,2)]
  show thesis
    by (rule that [of i "(k_fs_context k)(i := (k_fs_context k i)\<lparr>fc_refs := fc_refs (k_fs_context k i) + 1\<rparr>)"])
      (use S True s in \<open>simp_all add: fork_fs_context_def\<close>)
next
  case False
  obtain j where j: "\<And>fr. resource_new fc_refs fr (k_fs_context k) = ((k_fs_context k)(j := fr), Some j)" "j < LXP_RESOURCE_POOL_COUNT"
    "fc_refs (k_fs_context k j) = 0" by (rule context_pool.new_succeeds [OF ok c]) blast
  have ji: "j \<noteq> i" using ok s holders_pos [of s hold i] j(2,3) by (auto simp: pool_ok_def)
  let ?r = "fs_context_zero\<lparr>fc_refs := 1, fc_cwd := fc_cwd (k_fs_context k i), fc_umask := fc_umask (k_fs_context k i)\<rparr>"
  show thesis
  proof (rule that [of j "(k_fs_context k)(j := ?r)"])
    show "fork_fs_context flags child parent k rc = (child\<lparr>p_fs_context := Some j\<rparr>, k\<lparr>k_fs_context := (k_fs_context k)(j := ?r)\<rparr>, True, rc)"
      using False s(3) ji by (simp add: fork_fs_context_def fs_context_new_def j(1))
    show "pool_ok fc_refs fs_context_zero ((k_fs_context k)(j := ?r)) (hold(c := Some j))"
      by (rule context_pool.store_new [OF ok c j(2,3)]) simp
  qed (use False ji in simp_all)
qed

lemma sighand_fork_ok:
  assumes ok: "pool_ok sh_refs sighand_zero (k_sighand k) hold" and c: "c < LXP_NSLOT" "hold c = None"
    and s: "s < LXP_NSLOT" "hold s = Some i" "p_sighand parent = Some i"
  obtains j g where "fork_sighand flags child parent k rc = (child\<lparr>p_sighand := Some j\<rparr>, k\<lparr>k_sighand := g\<rparr>, True, rc)"
    "pool_ok sh_refs sighand_zero g (hold(c := Some j))" "j = i \<longleftrightarrow> has_flag flags LXP_CLONE_SIGHAND"
    "(g j)\<lparr>sh_refs := 0\<rparr> = (k_sighand k i)\<lparr>sh_refs := 0\<rparr>"
proof (cases "has_flag flags LXP_CLONE_SIGHAND")
  case True
  note S = sighand_pool.share [OF ok c s(1,2)]
  show thesis
    by (rule that [of i "(k_sighand k)(i := (k_sighand k i)\<lparr>sh_refs := sh_refs (k_sighand k i) + 1\<rparr>)"])
      (use S True s in \<open>simp_all add: fork_sighand_def\<close>)
next
  case False
  obtain j where j: "\<And>fr. resource_new sh_refs fr (k_sighand k) = ((k_sighand k)(j := fr), Some j)" "j < LXP_RESOURCE_POOL_COUNT"
    "sh_refs (k_sighand k j) = 0" by (rule sighand_pool.new_succeeds [OF ok c]) blast
  have ji: "j \<noteq> i" using ok s holders_pos [of s hold i] j(2,3) by (auto simp: pool_ok_def)
  let ?r = "sighand_zero\<lparr>sh_refs := 1, sh_handler := sh_handler (k_sighand k i), sh_restorer := sh_restorer (k_sighand k i),
    sh_restart := sh_restart (k_sighand k i)\<rparr>"
  show thesis
  proof (rule that [of j "(k_sighand k)(j := ?r)"])
    show "fork_sighand flags child parent k rc = (child\<lparr>p_sighand := Some j\<rparr>, k\<lparr>k_sighand := (k_sighand k)(j := ?r)\<rparr>, True, rc)"
      using False s(3) ji by (simp add: fork_sighand_def sighand_new_def j(1))
    show "pool_ok sh_refs sighand_zero ((k_sighand k)(j := ?r)) (hold(c := Some j))"
      by (rule sighand_pool.store_new [OF ok c j(2,3)]) simp
  qed (use False ji in simp_all)
qed

lemma kernel_inv_files:
  assumes "kernel_inv k ex" "\<And>f. fl_fd (F f) = fl_fd (k_files k f)"
  shows "kernel_inv (k\<lparr>k_files := F\<rparr>) ex"
proof -
  have "entry_refs F oi = entry_refs (k_files k) oi" for oi by (simp add: entry_refs_def table_refs_def assms(2))
  then show ?thesis using assms by (simp add: kernel_inv_def fd_refs_ok_def objects_ok_def)
qed

lemma fd_retain_loop_frame [simp]:
  "k_files (fd_retain_loop k p n) = k_files k" "k_fs_context (fd_retain_loop k p n) = k_fs_context k"
  "k_sighand (fd_retain_loop k p n) = k_sighand k" "mc_mm (fd_retain_loop k p n) = mc_mm k"
  "k_groups (fd_retain_loop k p n) = k_groups k"
  by (induction n) (simp_all add: Let_def ofd_ref_inc_def ofd_put_def split: option.split)

lemma fd_retain_loop_ofd: "(k_ofd (fd_retain_loop k p n) oi)\<lparr>ofd_refs := 0\<rparr> = (k_ofd k oi)\<lparr>ofd_refs := 0\<rparr>"
  by (induction n) (auto simp: Let_def ofd_ref_inc_def split: option.split)

lemma fd_lookup_table:
  assumes "p_files p = Some f" "p_files q = Some g" "fl_fd (F g) = fl_fd (k_files k f)"
  shows "fd_lookup (k\<lparr>k_files := F\<rparr>) q fd = fd_lookup k p fd"
  using assms by (simp add: fd_lookup_def fd_entry_at_def)

lemma fd_retain_loop_table:
  assumes "p_files p = Some f" "p_files q = Some g" "fl_fd (F g) = fl_fd (k_files k f)"
  shows "fd_retain_loop (k\<lparr>k_files := F\<rparr>) q n = (fd_retain_loop k p n)\<lparr>k_files := F\<rparr>"
proof (induction n)
  case (Suc n)
  have "fd_lookup ((fd_retain_loop k p n)\<lparr>k_files := F\<rparr>) q (int n) = fd_lookup (fd_retain_loop k p n) p (int n)"
    by (rule fd_lookup_table [OF assms(1,2)]) (simp add: assms(3))
  then show ?case using Suc by (simp add: Let_def ofd_ref_inc_def ofd_put_def split: option.split)
qed simp

lemma fd_table_retain_table:
  assumes "p_files p = Some f" "p_files q = Some g" "fl_fd (F g) = fl_fd (k_files k f)" "snd (lxp_fd_table_retain k p) = 0"
  shows "lxp_fd_table_retain (k\<lparr>k_files := F\<rparr>) q = ((fd_retain_loop k p LXP_MAX_FDS)\<lparr>k_files := F\<rparr>, 0)"
proof -
  note L = fd_lookup_table [where k = k and F = F, OF assms(1-3)] and R = fd_retain_loop_table [where k = k and F = F, OF assms(1-3)]
  have "scan (\<lambda>fd. case fd_lookup k p (int fd) of None \<Rightarrow> False | Some oi \<Rightarrow> ofd_refs (k_ofd k oi) = UINT16_MAX) 0 LXP_MAX_FDS = None"
    using assms(1,4) by (auto simp: lxp_fd_table_retain_def split: if_splits)
  then show ?thesis using assms(2) by (simp add: lxp_fd_table_retain_def L R cong: option.case_cong)
qed

text \<open>Inheriting a table into a free one.\<close>

lemma fd_fork_inherit_ok:
  assumes k: "kernel_ok k" and i: "p_files child = Some i" "i < LXP_RESOURCE_POOL_COUNT"
    and new: "\<And>fr. resource_new fl_refs fr (k_files k) = ((k_files k)(j := fr), Some j)"
    and j: "j < LXP_RESOURCE_POOL_COUNT" "k_files k j = files_zero" "j \<noteq> i"
  obtains k' where "lxp_fd_fork_inherit child k = (child\<lparr>p_files := Some j\<rparr>, k', 0)" "kernel_ok k'"
    "k_files k' = (k_files k)(j := \<lparr>fl_refs = 1, fl_fd = fl_fd (k_files k i)\<rparr>)"
    "\<And>oi. (k_ofd k' oi)\<lparr>ofd_refs := 0\<rparr> = (k_ofd k oi)\<lparr>ofd_refs := 0\<rparr>"
    "k_fs_context k' = k_fs_context k" "k_sighand k' = k_sighand k" "mc_mm k' = mc_mm k" "k_groups k' = k_groups k"
proof -
  let ?t = "\<lparr>fl_refs = 1, fl_fd = fl_fd (k_files k i)\<rparr>"
  let ?F = "(k_files k)(j := ?t)" and ?kr = "fd_retain_loop k child LXP_MAX_FDS"
  have sn: "snd (lxp_fd_table_retain k child) = 0" by (rule fd_table_retain_ok [OF k i])
  have R: "lxp_fd_table_retain (k\<lparr>k_files := ?F\<rparr>) (child\<lparr>p_files := Some j\<rparr>) = (?kr\<lparr>k_files := ?F\<rparr>, 0)"
    by (rule fd_table_retain_table [where g = j, OF i(1) _ _ sn]) simp_all
  have kr: "kernel_inv ?kr (\<lambda>oi. 0 + table_refs ?t oi)"
    using fd_retain_loop_inv [OF k [unfolded kernel_ok_def] i order_refl] by (simp add: table_refs_def)
  have fin: "kernel_inv (?kr\<lparr>k_files := (k_files ?kr)(j := ?t)\<rparr>) (\<lambda>_. 0)"
  proof (rule files_put_table_inv [OF kr j(1)])
    show "table_refs (k_files ?kr j) oi = 0" for oi by (simp add: table_refs_def j(2) files_zero_def fd_zero_def)
    show "fd_ofd (fl_fd ?t d) \<le> LXP_MAX_OFD" if "d < LXP_MAX_FDS" for d
      using k i(2) that by (simp add: kernel_ok_def kernel_inv_def fd_refs_ok_def)
  qed
  show thesis
  proof (rule that [of "?kr\<lparr>k_files := ?F\<rparr>"])
    have "k\<lparr>k_files := (k_files k)(j := files_zero\<lparr>fl_refs := 1, fl_fd := fl_fd (k_files k i)\<rparr>)\<rparr> = k\<lparr>k_files := ?F\<rparr>"
      by (simp add: files_zero_def)
    then show "lxp_fd_fork_inherit child k = (child\<lparr>p_files := Some j\<rparr>, ?kr\<lparr>k_files := ?F\<rparr>, 0)"
      using R i(1) j(3) by (simp add: lxp_fd_fork_inherit_def files_new_def new Let_def)
    show "kernel_ok (?kr\<lparr>k_files := ?F\<rparr>)" using fin by (simp add: kernel_ok_def)
  qed (simp_all add: fd_retain_loop_ofd)
qed

lemma fork_files_ok:
  assumes k: "kernel_ok k" and ok: "pool_ok fl_refs files_zero (k_files k) hold" and c: "c < LXP_NSLOT" "hold c = None"
    and s: "s < LXP_NSLOT" "hold s = Some i" "p_files parent = Some i"
  obtains j k' rc where "fork_files flags child parent k = (child\<lparr>p_files := Some j\<rparr>, k', True, rc)" "kernel_ok k'"
    "pool_ok fl_refs files_zero (k_files k') (hold(c := Some j))" "j = i \<longleftrightarrow> has_flag flags LXP_CLONE_FILES"
    "fl_fd (k_files k' j) = fl_fd (k_files k i)" "\<And>oi. (k_ofd k' oi)\<lparr>ofd_refs := 0\<rparr> = (k_ofd k oi)\<lparr>ofd_refs := 0\<rparr>"
    "k_fs_context k' = k_fs_context k" "k_sighand k' = k_sighand k" "mc_mm k' = mc_mm k" "k_groups k' = k_groups k"
proof (cases "has_flag flags LXP_CLONE_FILES")
  case True
  note S = files_pool.share [OF ok c s(1,2)]
  let ?F = "(k_files k)(i := (k_files k i)\<lparr>fl_refs := fl_refs (k_files k i) + 1\<rparr>)"
  have "kernel_ok (k\<lparr>k_files := ?F\<rparr>)" unfolding kernel_ok_def
    by (rule kernel_inv_files [OF k [unfolded kernel_ok_def]]) simp
  then show thesis
    by (intro that [of i "k\<lparr>k_files := ?F\<rparr>" "- LXP_EAGAIN"]) (use S True s in \<open>simp_all add: fork_files_def\<close>)
next
  case False
  obtain j where j: "\<And>fr. resource_new fl_refs fr (k_files k) = ((k_files k)(j := fr), Some j)" "j < LXP_RESOURCE_POOL_COUNT"
    "fl_refs (k_files k j) = 0" by (rule files_pool.new_succeeds [OF ok c]) blast
  have ji: "j \<noteq> i" using ok s holders_pos [of s hold i] j(2,3) by (auto simp: pool_ok_def)
  have il: "i < LXP_RESOURCE_POOL_COUNT" and jz: "k_files k j = files_zero" using ok s j by (auto simp: pool_ok_def)
  obtain k' where k': "lxp_fd_fork_inherit (child\<lparr>p_files := Some i\<rparr>) k = (child\<lparr>p_files := Some j\<rparr>, k', 0)" "kernel_ok k'"
    "k_files k' = (k_files k)(j := \<lparr>fl_refs = 1, fl_fd = fl_fd (k_files k i)\<rparr>)"
    "\<And>oi. (k_ofd k' oi)\<lparr>ofd_refs := 0\<rparr> = (k_ofd k oi)\<lparr>ofd_refs := 0\<rparr>"
    "k_fs_context k' = k_fs_context k" "k_sighand k' = k_sighand k" "mc_mm k' = mc_mm k" "k_groups k' = k_groups k"
    using fd_fork_inherit_ok [OF k _ il j(1,2) jz ji, of "child\<lparr>p_files := Some i\<rparr>"] by auto
  have "pool_ok fl_refs files_zero (k_files k') (hold(c := Some j))"
    unfolding k'(3) by (rule files_pool.store_new [OF ok c j(2,3)]) simp
  moreover have "fork_files flags child parent k = (child\<lparr>p_files := Some j\<rparr>, k', True, 0)"
    using False s(3) k'(1) by (simp add: fork_files_def)
  ultimately show thesis using that [of j k' 0] k' False ji by simp
qed

lemma kernel_ok_pools [simp]:
  "kernel_ok (k\<lparr>mc_mm := a\<rparr>) = kernel_ok k" "kernel_ok (k\<lparr>k_fs_context := b\<rparr>) = kernel_ok k"
  "kernel_ok (k\<lparr>k_sighand := d\<rparr>) = kernel_ok k" "kernel_ok (k\<lparr>k_groups := e\<rparr>) = kernel_ok k"
  by (simp_all add: kernel_ok_def kernel_inv_def objects_ok_def)

definition clone_flags_ok :: "nat \<Rightarrow> bool \<Rightarrow> bool" where
  "clone_flags_ok flags thread \<longleftrightarrow> (has_flag flags LXP_CLONE_SIGHAND \<longrightarrow> has_flag flags LXP_CLONE_VM)
     \<and> (has_flag flags LXP_CLONE_THREAD \<longleftrightarrow> thread)
     \<and> (thread \<longrightarrow> has_flag flags LXP_CLONE_VM \<and> has_flag flags LXP_CLONE_SIGHAND)"

definition empty_task :: "proc \<Rightarrow> bool" where
  "empty_task p \<longleftrightarrow> p_mm p = None \<and> p_files p = None \<and> p_fs_context p = None \<and> p_sighand p = None \<and> p_group p = None"

lemma fun_upd_hold: "(\<lambda>s. sel ((ts(c := p)) s)) = (\<lambda>s. sel (ts s))(c := sel p)"
  by auto

lemma child_values_pointers [simp]:
  "p_mm (proc_child_copy_values parent pid) = None" "p_files (proc_child_copy_values parent pid) = None"
  "p_fs_context (proc_child_copy_values parent pid) = None" "p_sighand (proc_child_copy_values parent pid) = None"
  "p_group (proc_child_copy_values parent pid) = None"
  by (simp_all add: proc_child_copy_values_def proc_child_reset_def proc_zero_def)

text \<open>The child that the stages build, and the kernel around it.\<close>

lemma proc_init_child_ok:
  assumes ok: "sys_ok k ts" and c: "c < LXP_NSLOT" "empty_task (ts c)" and s: "s < LXP_NSLOT"
    and par: "p_mm (ts s) = Some mi" "p_files (ts s) = Some fi" "p_fs_context (ts s) = Some ci" "p_sighand (ts s) = Some hi"
      "p_group (ts s) = Some gi"
    and pid: "0 < pid" and fl: "clone_flags_ok flags thread"
  obtains k' child mj fj cj hj gj where
    "proc_init_child (ts c) (ts s) flags pid thread k = (child, k', 0)" "sys_ok k' (ts(c := child))"
    "child = (proc_child_copy_values (ts s) pid)\<lparr>p_mm := Some mj, p_files := Some fj, p_fs_context := Some cj,
       p_sighand := Some hj, p_group := Some gj\<rparr>"
    "mj = mi \<longleftrightarrow> has_flag flags LXP_CLONE_VM" "fj = fi \<longleftrightarrow> has_flag flags LXP_CLONE_FILES"
    "cj = ci \<longleftrightarrow> has_flag flags LXP_CLONE_FS" "hj = hi \<longleftrightarrow> has_flag flags LXP_CLONE_SIGHAND"
    "gj = gi \<longleftrightarrow> has_flag flags LXP_CLONE_THREAD"
    "(mc_mm k' mj)\<lparr>mm_refs := 0\<rparr> = (mc_mm k mi)\<lparr>mm_refs := 0\<rparr>" "fl_fd (k_files k' fj) = fl_fd (k_files k fi)"
    "\<And>oi. (k_ofd k' oi)\<lparr>ofd_refs := 0\<rparr> = (k_ofd k oi)\<lparr>ofd_refs := 0\<rparr>"
    "fc_cwd (k_fs_context k' cj) = fc_cwd (k_fs_context k ci)" "fc_umask (k_fs_context k' cj) = fc_umask (k_fs_context k ci)"
    "(k_sighand k' hj)\<lparr>sh_refs := 0\<rparr> = (k_sighand k hi)\<lparr>sh_refs := 0\<rparr>"
    "gj \<noteq> gi \<Longrightarrow> tg_tgid (k_groups k' gj) = pid \<and> tg_ppid (k_groups k' gj) = tg_tgid (k_groups k gi)
       \<and> tg_pgid (k_groups k' gj) = tg_pgid (k_groups k gi)"
proof -
  let ?c0 = "proc_child_copy_values (ts s) pid"
  note O = ok [unfolded sys_ok_def] and E = c(2) [unfolded empty_task_def]
  note P = O [THEN conjunct2]
  obtain mj gm where M: "lxp_proc_mm_fork ?c0 (ts s) flags k = (?c0\<lparr>p_mm := Some mj\<rparr>, k\<lparr>mc_mm := gm\<rparr>, 0)"
    "pool_ok mm_refs mm_zero gm ((\<lambda>s. p_mm (ts s))(c := Some mj))" "mj = mi \<longleftrightarrow> has_flag flags LXP_CLONE_VM"
    "(gm mj)\<lparr>mm_refs := 0\<rparr> = (mc_mm k mi)\<lparr>mm_refs := 0\<rparr>"
    by (rule mm_fork_ok [where hold = "\<lambda>s. p_mm (ts s)" and c = c and s = s and i = mi and k = k and parent = "ts s"
          and child = ?c0 and flags = flags]) (use P E c s par in simp_all)
  let ?k1 = "k\<lparr>mc_mm := gm\<rparr>" and ?c1 = "?c0\<lparr>p_mm := Some mj\<rparr>"
  let ?d1 = "?c1\<lparr>p_files := None, p_fs_context := None, p_sighand := None\<rparr>"
  have kok1: "kernel_ok ?k1" and pok1: "pool_ok fl_refs files_zero (k_files ?k1) (\<lambda>s. p_files (ts s))" using O by simp_all
  have hc1: "p_files (ts c) = None" using E by simp
  obtain fj k2 rc where F: "fork_files flags ?d1 (ts s) ?k1 = (?d1\<lparr>p_files := Some fj\<rparr>, k2, True, rc)" "kernel_ok k2"
    "pool_ok fl_refs files_zero (k_files k2) ((\<lambda>s. p_files (ts s))(c := Some fj))" "fj = fi \<longleftrightarrow> has_flag flags LXP_CLONE_FILES"
    "fl_fd (k_files k2 fj) = fl_fd (k_files ?k1 fi)" "\<And>oi. (k_ofd k2 oi)\<lparr>ofd_refs := 0\<rparr> = (k_ofd ?k1 oi)\<lparr>ofd_refs := 0\<rparr>"
    "k_fs_context k2 = k_fs_context ?k1" "k_sighand k2 = k_sighand ?k1" "mc_mm k2 = mc_mm ?k1" "k_groups k2 = k_groups ?k1"
    by (rule fork_files_ok [where hold = "\<lambda>s. p_files (ts s)" and c = c and s = s and i = fi and k = ?k1 and parent = "ts s"
          and child = ?d1 and flags = flags, OF kok1 pok1 c(1) hc1 s par(2) par(2)]) blast
  let ?c2 = "?d1\<lparr>p_files := Some fj\<rparr>"
  obtain cj gc where C: "fork_fs_context flags ?c2 (ts s) k2 rc = (?c2\<lparr>p_fs_context := Some cj\<rparr>, k2\<lparr>k_fs_context := gc\<rparr>, True, rc)"
    "pool_ok fc_refs fs_context_zero gc ((\<lambda>s. p_fs_context (ts s))(c := Some cj))" "cj = ci \<longleftrightarrow> has_flag flags LXP_CLONE_FS"
    "fc_cwd (gc cj) = fc_cwd (k_fs_context k2 ci)" "fc_umask (gc cj) = fc_umask (k_fs_context k2 ci)"
    by (rule fs_context_fork_ok [where hold = "\<lambda>s. p_fs_context (ts s)" and c = c and s = s and i = ci and k = k2 and parent = "ts s"
          and child = ?c2 and flags = flags and rc = rc]) (use P E c s par F in simp_all)
  let ?k3 = "k2\<lparr>k_fs_context := gc\<rparr>" and ?c3 = "?c2\<lparr>p_fs_context := Some cj\<rparr>"
  obtain hj gh where H: "fork_sighand flags ?c3 (ts s) ?k3 rc = (?c3\<lparr>p_sighand := Some hj\<rparr>, ?k3\<lparr>k_sighand := gh\<rparr>, True, rc)"
    "pool_ok sh_refs sighand_zero gh ((\<lambda>s. p_sighand (ts s))(c := Some hj))" "hj = hi \<longleftrightarrow> has_flag flags LXP_CLONE_SIGHAND"
    "(gh hj)\<lparr>sh_refs := 0\<rparr> = (k_sighand ?k3 hi)\<lparr>sh_refs := 0\<rparr>"
    by (rule sighand_fork_ok [where hold = "\<lambda>s. p_sighand (ts s)" and c = c and s = s and i = hi and k = ?k3 and parent = "ts s"
          and child = ?c3 and flags = flags and rc = rc]) (use P E c s par F in simp_all)
  let ?k4 = "?k3\<lparr>k_sighand := gh\<rparr>" and ?c4 = "?c3\<lparr>p_sighand := Some hj\<rparr>"
  have R: "lxp_proc_resources_fork ?c1 (ts s) flags ?k1 = (?c4, ?k4, 0)"
    using par F(1) C(1) H(1) by (simp add: lxp_proc_resources_fork_def Let_def)
  obtain gj gg where G: "lxp_proc_group_fork ?c4 (ts s) flags pid ?k4 = (?c4\<lparr>p_group := Some gj\<rparr>, ?k4\<lparr>k_groups := gg\<rparr>, 0)"
    "pool_ok tg_refs thread_group_zero gg ((\<lambda>s. p_group (ts s))(c := Some gj))" "gj = gi \<longleftrightarrow> has_flag flags LXP_CLONE_THREAD"
    "gj \<noteq> gi \<Longrightarrow> tg_tgid (gg gj) = pid \<and> tg_ppid (gg gj) = tg_tgid (k_groups ?k4 gi) \<and> tg_pgid (gg gj) = tg_pgid (k_groups ?k4 gi)"
    by (rule group_fork_ok [where hold = "\<lambda>s. p_group (ts s)" and c = c and s = s and i = gi and k = ?k4 and parent = "ts s"
          and child = ?c4 and flags = flags and pid = pid]) (use P E c s par F pid in simp_all)
  let ?k' = "?k4\<lparr>k_groups := gg\<rparr>" and ?child = "?c4\<lparr>p_group := Some gj\<rparr>"
  have child: "?child = ?c0\<lparr>p_mm := Some mj, p_files := Some fj, p_fs_context := Some cj, p_sighand := Some hj, p_group := Some gj\<rparr>"
    by simp
  have init: "proc_init_child (ts c) (ts s) flags pid thread k = (?child, ?k', 0)"
    using par pid fl M(1) R G(1) by (auto simp: proc_init_child_def clone_flags_ok_def Let_def)
  have sys: "sys_ok ?k' (ts(c := ?child))"
    unfolding sys_ok_def fun_upd_hold using F(2,3,9) M(2) C(2) H(2) G(2) by simp
  show thesis
    by (rule that [OF init sys child]) (use M C F H G in simp_all)
qed

section \<open>Exit\<close>

lemma vfs_close_pools [simp]:
  "k_fs_context (vfs_close k s) = k_fs_context k" "k_sighand (vfs_close k s) = k_sighand k"
  "mc_mm (vfs_close k s) = mc_mm k" "k_groups (vfs_close k s) = k_groups k"
  by (auto simp: vfs_close_def fop_close_pipe_def fop_close_tmpfs_def fop_close_proc_def fop_close_eventfd_def
      split: fd_kind.splits prod.splits)

lemma fd_close_pools:
  "k_fs_context (fst (lxp_fd_close k p fd)) = k_fs_context k \<and> k_sighand (fst (lxp_fd_close k p fd)) = k_sighand k
   \<and> mc_mm (fst (lxp_fd_close k p fd)) = mc_mm k \<and> k_groups (fst (lxp_fd_close k p fd)) = k_groups k"
  by (simp add: lxp_fd_close_def ofd_release_def Let_def ofd_put_def fd_entry_put_def split: option.split)

lemma fd_close_loop_pools:
  "k_fs_context (fd_close_loop k p P n) = k_fs_context k \<and> k_sighand (fd_close_loop k p P n) = k_sighand k
   \<and> mc_mm (fd_close_loop k p P n) = mc_mm k \<and> k_groups (fd_close_loop k p P n) = k_groups k"
  by (induction n) (simp_all add: Let_def fd_close_pools)

lemma files_eqI: "fl_refs a = fl_refs b \<Longrightarrow> fl_fd a = fl_fd b \<Longrightarrow> a = (b :: files)"
  by simp

lemma files_dec: "fl_refs_update (\<lambda>n. n - Suc 0) t = t\<lparr>fl_refs := fl_refs t - Suc 0\<rparr>" for t :: files
  by (cases t) simp

lemma files_put_ok:
  assumes k: "kernel_ok k" and ok: "pool_ok fl_refs files_zero (k_files k) hold" and c: "c < LXP_NSLOT" "hold c = p_files p"
    and r: "files_put p k = (p', k')"
  shows "p' = p\<lparr>p_files := None\<rparr> \<and> kernel_ok k' \<and> pool_ok fl_refs files_zero (k_files k') (hold(c := None))
    \<and> k_fs_context k' = k_fs_context k \<and> k_sighand k' = k_sighand k \<and> mc_mm k' = mc_mm k \<and> k_groups k' = k_groups k"
proof (cases "p_files p")
  case None
  then have "hold(c := None) = hold" using c(2) by auto
  then show ?thesis using r None k ok by (simp add: files_put_def)
next
  case (Some f)
  have f: "f < LXP_RESOURCE_POOL_COUNT" using ok c Some by (simp add: pool_ok_def)
  have pos: "0 < fl_refs (k_files k f)" using ok f holders_pos [of c hold f] c Some by (simp add: pool_ok_def)
  note P = files_pool.put [OF ok c(1), unfolded c(2) Some]
  let ?F = "(k_files k)(f := (k_files k f)\<lparr>fl_refs := fl_refs (k_files k f) - 1\<rparr>)"
  let ?k1 = "k\<lparr>k_files := ?F\<rparr>"
  have k1: "kernel_inv ?k1 (\<lambda>_. 0)" by (rule kernel_inv_files [OF k [unfolded kernel_ok_def]]) simp
  show ?thesis
  proof (cases "fl_refs (k_files k f) = 1")
    case False
    then have e: "p' = p\<lparr>p_files := None\<rparr>" "k' = ?k1" using r Some pos by (simp_all add: files_put_def Let_def)
    have "resource_put fl_refs fl_refs_update files_zero (k_files k) (Some f) = ?F"
      using pos False by (simp add: resource_put_def Let_def files_dec)
    then show ?thesis using P k1 by (simp add: e kernel_ok_def)
  next
    case True
    let ?k2 = "fd_close_loop ?k1 p (\<lambda>_ _. True) LXP_MAX_FDS"
    have ca: "?k2 = lxp_fd_close_all ?k1 p" by (simp add: lxp_fd_close_all_def Some)
    note A = fd_close_all_spec [OF k1 Some f, folded ca]
    have e: "p' = p\<lparr>p_files := None\<rparr>" "k' = ?k2\<lparr>k_files := (k_files ?k2)(f := files_zero)\<rparr>"
      using r Some pos True by (simp_all add: files_put_def Let_def)
    have ok': "kernel_ok k'" unfolding e kernel_ok_def
      by (rule files_put_table_inv [OF _ f A(2)]) (use A(1) in \<open>simp_all add: table_refs_def files_zero_def fd_zero_def\<close>)
    have "k_files ?k2 g = k_files k g" if "g \<noteq> f" for g
      by (rule files_eqI) (use A(3) that in \<open>auto simp: fd_close_loop_refs\<close>)
    then have "k_files k' = (k_files k)(f := files_zero)" by (auto simp: e)
    moreover have "resource_put fl_refs fl_refs_update files_zero (k_files k) (Some f) = (k_files k)(f := files_zero)"
      using True by (simp add: resource_put_def Let_def)
    ultimately have "pool_ok fl_refs files_zero (k_files k') (hold(c := None))" using P by simp
    then show ?thesis using e(1) ok' fd_close_loop_pools [of ?k1 p "\<lambda>_ _. True" LXP_MAX_FDS] by (simp add: e(2))
  qed
qed

lemma child_discard_ok:
  assumes ok: "sys_ok k ts" and s: "s < LXP_NSLOT" and r: "lxp_proc_child_discard (ts s) k = (p', k')"
  shows "p' = proc_child_reset \<and> sys_ok k' (ts(s := p'))"
proof -
  note O = ok [unfolded sys_ok_def]
  obtain p1 k1 where f: "files_put (ts s) k = (p1, k1)" by (metis surj_pair)
  have F: "p1 = (ts s)\<lparr>p_files := None\<rparr> \<and> kernel_ok k1 \<and> pool_ok fl_refs files_zero (k_files k1) ((\<lambda>s. p_files (ts s))(s := None))
    \<and> k_fs_context k1 = k_fs_context k \<and> k_sighand k1 = k_sighand k \<and> mc_mm k1 = mc_mm k \<and> k_groups k1 = k_groups k"
    by (rule files_put_ok [OF _ _ s _ f]) (use O in simp_all)
  have k': "k' = k1\<lparr>k_fs_context := resource_put fc_refs fc_refs_update fs_context_zero (k_fs_context k) (p_fs_context (ts s)),
      k_sighand := resource_put sh_refs sh_refs_update sighand_zero (k_sighand k) (p_sighand (ts s)),
      mc_mm := resource_put mm_refs mm_refs_update mm_zero (mc_mm k) (p_mm (ts s)),
      k_groups := resource_put tg_refs tg_refs_update thread_group_zero (k_groups k) (p_group (ts s))\<rparr>" "p' = proc_child_reset"
    using r f F by (simp_all add: lxp_proc_child_discard_def lxp_proc_resources_put_def lxp_proc_mm_put_def lxp_proc_group_put_def Let_def)
  have z: "p_files proc_child_reset = None" "p_fs_context proc_child_reset = None" "p_sighand proc_child_reset = None"
    "p_mm proc_child_reset = None" "p_group proc_child_reset = None"
    by (simp_all add: proc_child_reset_def proc_zero_def)
  have "kernel_ok k'" using F by (simp add: k'(1) kernel_ok_def kernel_inv_def objects_ok_def)
  moreover have "k_files k' = k_files k1" by (simp add: k'(1))
  ultimately show ?thesis
    unfolding sys_ok_def fun_upd_hold k'(2) z
    using F O context_pool.put [of "k_fs_context k" "\<lambda>s. p_fs_context (ts s)" s] s
      sighand_pool.put [of "k_sighand k" "\<lambda>s. p_sighand (ts s)" s] mm_pool.put [of "mc_mm k" "\<lambda>s. p_mm (ts s)" s]
      group_pool.put [of "k_groups k" "\<lambda>s. p_group (ts s)" s]
    by (simp add: k'(1))
qed

section \<open>Properties\<close>

definition complete_task :: "proc \<Rightarrow> bool" where
  "complete_task p \<longleftrightarrow> p_mm p \<noteq> None \<and> p_files p \<noteq> None \<and> p_fs_context p \<noteq> None \<and> p_sighand p \<noteq> None \<and> p_group p \<noteq> None"

lemma sys_ok_files:
  assumes "sys_ok k ts" "s < LXP_NSLOT" "p_files (ts s) = Some f"
  shows "f < LXP_RESOURCE_POOL_COUNT"
  using assms by (simp add: sys_ok_def pool_ok_def)

text \<open>C15.  While a task slot is free, fork and clone succeed: no pool can run out and no
  count can overflow.  The child shares with its parent exactly the objects its flags ask for
  and has its own copy of the others: every descriptor leads to the description it leads to in the
  parent, working directory and umask and the signal handlers are the parent's.  Afterwards
  every count of every pool is again the number of tasks, descriptors and descriptions
  that refer to the object.\<close>

theorem fork_succeeds_and_shares:
  assumes "sys_ok k ts" "c < LXP_NSLOT" "empty_task (ts c)" "s < LXP_NSLOT" "complete_task (ts s)"
    and "0 < pid" "clone_flags_ok flags thread"
  shows "\<exists>child k'. proc_init_child (ts c) (ts s) flags pid thread k = (child, k', 0) \<and> sys_ok k' (ts(c := child))
    \<and> complete_task child \<and> p_pid child = pid
    \<and> (p_mm child = p_mm (ts s) \<longleftrightarrow> has_flag flags LXP_CLONE_VM)
    \<and> (p_files child = p_files (ts s) \<longleftrightarrow> has_flag flags LXP_CLONE_FILES)
    \<and> (p_fs_context child = p_fs_context (ts s) \<longleftrightarrow> has_flag flags LXP_CLONE_FS)
    \<and> (p_sighand child = p_sighand (ts s) \<longleftrightarrow> has_flag flags LXP_CLONE_SIGHAND)
    \<and> (p_group child = p_group (ts s) \<longleftrightarrow> has_flag flags LXP_CLONE_THREAD)
    \<and> (\<forall>fd. fd_lookup k' child fd = fd_lookup k (ts s) fd)
    \<and> fc_cwd (k_fs_context k' (the (p_fs_context child))) = fc_cwd (k_fs_context k (the (p_fs_context (ts s))))
    \<and> fc_umask (k_fs_context k' (the (p_fs_context child))) = fc_umask (k_fs_context k (the (p_fs_context (ts s))))
    \<and> (\<forall>sig. lxp_sig_handler_get (k_sighand k') child sig = lxp_sig_handler_get (k_sighand k) (ts s) sig)"
proof -
  obtain mi fi ci hi gi where par: "p_mm (ts s) = Some mi" "p_files (ts s) = Some fi" "p_fs_context (ts s) = Some ci"
    "p_sighand (ts s) = Some hi" "p_group (ts s) = Some gi" using assms(5) by (auto simp: complete_task_def)
  obtain k' child mj fj cj hj gj where C:
    "proc_init_child (ts c) (ts s) flags pid thread k = (child, k', 0)" "sys_ok k' (ts(c := child))"
    "child = (proc_child_copy_values (ts s) pid)\<lparr>p_mm := Some mj, p_files := Some fj, p_fs_context := Some cj,
       p_sighand := Some hj, p_group := Some gj\<rparr>"
    "mj = mi \<longleftrightarrow> has_flag flags LXP_CLONE_VM" "fj = fi \<longleftrightarrow> has_flag flags LXP_CLONE_FILES"
    "cj = ci \<longleftrightarrow> has_flag flags LXP_CLONE_FS" "hj = hi \<longleftrightarrow> has_flag flags LXP_CLONE_SIGHAND"
    "gj = gi \<longleftrightarrow> has_flag flags LXP_CLONE_THREAD" "fl_fd (k_files k' fj) = fl_fd (k_files k fi)"
    "fc_cwd (k_fs_context k' cj) = fc_cwd (k_fs_context k ci)" "fc_umask (k_fs_context k' cj) = fc_umask (k_fs_context k ci)"
    "(k_sighand k' hj)\<lparr>sh_refs := 0\<rparr> = (k_sighand k hi)\<lparr>sh_refs := 0\<rparr>"
    by (rule proc_init_child_ok [OF assms(1-4) par assms(6,7)]) blast
  have ptr: "p_mm child = Some mj" "p_files child = Some fj" "p_fs_context child = Some cj" "p_sighand child = Some hj"
    "p_group child = Some gj" "p_pid child = pid"
    by (simp_all add: C(3)) (simp add: proc_child_copy_values_def)
  have kk: "kernel_inv k (\<lambda>_. 0)" "kernel_inv k' (\<lambda>_. 0)" using assms(1) C(2) by (simp_all add: sys_ok_def kernel_ok_def)
  have fb: "fi < LXP_RESOURCE_POOL_COUNT" "fj < LXP_RESOURCE_POOL_COUNT"
    using sys_ok_files [OF assms(1,4) par(2)] sys_ok_files [OF C(2) assms(2), of fj] ptr(2) by simp_all
  have "fd_lookup k' child fd = fd_lookup k (ts s) fd" for fd
  proof (cases "0 \<le> fd \<and> fd < int LXP_MAX_FDS")
    case True
    then show ?thesis
      using fd_lookup_iff [OF kk(1) par(2) fb(1), of fd] fd_lookup_iff [OF kk(2) ptr(2) fb(2), of fd] C(9)
      by (simp add: fd_entry_at_def)
  next
    case False
    then show ?thesis by (auto simp: fd_lookup_None_range)
  qed
  moreover have "lxp_sig_handler_get (k_sighand k') child sig = lxp_sig_handler_get (k_sighand k) (ts s) sig" for sig
    using arg_cong [OF C(12), of sh_handler] ptr par by (simp add: lxp_sig_handler_get_def)
  ultimately show ?thesis
    using C(1,2) C(4-8) C(10,11) ptr par by (auto simp: complete_task_def)
qed

definition demo_init :: proc where
  "demo_init = proc_zero\<lparr>p_mm := Some 0, p_files := Some 0, p_fs_context := Some 0, p_sighand := Some 0, p_group := Some 0\<rparr>"

definition demo_sys :: kernel where
  "demo_sys = kernel_boot\<lparr>mc_mm := (\<lambda>_. mm_zero)(0 := mm_zero\<lparr>mm_refs := 1\<rparr>),
     k_files := (\<lambda>_. files_zero)(0 := files_zero\<lparr>fl_refs := 1\<rparr>),
     k_fs_context := (\<lambda>_. fs_context_zero)(0 := fs_context_zero\<lparr>fc_refs := 1, fc_cwd := ''/''\<rparr>),
     k_sighand := (\<lambda>_. sighand_zero)(0 := sighand_zero\<lparr>sh_refs := 1\<rparr>),
     k_groups := (\<lambda>_. thread_group_zero)(0 := thread_group_zero\<lparr>tg_refs := 1, tg_tgid := 1\<rparr>)\<rparr>"

definition demo_tasks :: "nat \<Rightarrow> proc" where
  "demo_tasks = (\<lambda>_. proc_zero)(0 := demo_init)"

lemma demo_init_pointers [simp]:
  "p_mm demo_init = Some 0" "p_files demo_init = Some 0" "p_fs_context demo_init = Some 0" "p_sighand demo_init = Some 0"
  "p_group demo_init = Some 0"
  by (simp_all add: demo_init_def)

lemma proc_zero_pointers [simp]:
  "p_mm proc_zero = None" "p_files proc_zero = None" "p_fs_context proc_zero = None" "p_sighand proc_zero = None"
  "p_group proc_zero = None"
  by (simp_all add: proc_zero_def)

lemma holders_one: "holders ((\<lambda>_. None)(0 := Some 0)) i = of_bool (i = 0)"
  using holders_upd [of 0 "\<lambda>_. None" "Some 0" i] by (simp add: holders_def)

lemma pool_ok_one:
  assumes "refs zero = 0" "refs r = 1" "sel demo_init = Some 0" "sel proc_zero = None"
  shows "pool_ok refs zero ((\<lambda>_. zero)(0 := r)) (\<lambda>s. sel (demo_tasks s))"
proof -
  have "(\<lambda>s. sel (demo_tasks s)) = (\<lambda>_. None)(0 := Some 0)" using assms(3,4) by (auto simp: demo_tasks_def)
  then show ?thesis using assms(1,2) by (auto simp: pool_ok_def holders_one)
qed

lemma zero_refs [simp]:
  "fl_refs files_zero = 0" "fc_refs fs_context_zero = 0" "sh_refs sighand_zero = 0" "mm_refs mm_zero = 0" "tg_refs thread_group_zero = 0"
  by (simp_all add: files_zero_def fs_context_zero_def sighand_zero_def mm_zero_def thread_group_zero_def)

lemma demo_sys_ok: "sys_ok demo_sys demo_tasks"
proof -
  have "kernel_inv (kernel_boot\<lparr>k_files := (\<lambda>_. files_zero)(0 := files_zero\<lparr>fl_refs := 1\<rparr>)\<rparr>) (\<lambda>_. 0)"
    by (rule kernel_inv_files [OF kernel_boot_ok [unfolded kernel_ok_def]]) (simp add: kernel_boot_def)
  then have "kernel_ok demo_sys" by (simp add: demo_sys_def kernel_ok_def kernel_inv_def objects_ok_def)
  moreover have "k_files demo_sys = (\<lambda>_. files_zero)(0 := files_zero\<lparr>fl_refs := 1\<rparr>)"
    "k_fs_context demo_sys = (\<lambda>_. fs_context_zero)(0 := fs_context_zero\<lparr>fc_refs := 1, fc_cwd := ''/''\<rparr>)"
    "k_sighand demo_sys = (\<lambda>_. sighand_zero)(0 := sighand_zero\<lparr>sh_refs := 1\<rparr>)"
    "mc_mm demo_sys = (\<lambda>_. mm_zero)(0 := mm_zero\<lparr>mm_refs := 1\<rparr>)"
    "k_groups demo_sys = (\<lambda>_. thread_group_zero)(0 := thread_group_zero\<lparr>tg_refs := 1, tg_tgid := 1\<rparr>)"
    by (simp_all add: demo_sys_def)
  ultimately show ?thesis unfolding sys_ok_def by (simp add: pool_ok_one)
qed

theorem fork_succeeds_and_shares_witness:
  "\<exists>child k'. proc_init_child (demo_tasks 1) (demo_tasks 0) LXP_CLONE_FS 2 False demo_sys = (child, k', 0)
     \<and> p_fs_context child = Some 0 \<and> p_files child \<noteq> Some 0 \<and> sys_ok k' (demo_tasks(1 := child))"
proof -
  have t: "empty_task (demo_tasks 1)" "complete_task (demo_tasks 0)" "p_fs_context (demo_tasks 0) = Some 0" "p_files (demo_tasks 0) = Some 0"
    by (simp_all add: demo_tasks_def empty_task_def complete_task_def)
  have f: "clone_flags_ok LXP_CLONE_FS False" "has_flag LXP_CLONE_FS LXP_CLONE_FS" "\<not> has_flag LXP_CLONE_FS LXP_CLONE_FILES"
    by (simp_all add: clone_flags_ok_def has_flag_def)
  have "1 < LXP_NSLOT" "0 < LXP_NSLOT" by (simp_all add: config_defs)
  from fork_succeeds_and_shares [OF demo_sys_ok this(1) t(1) this(2) t(2) _ f(1), of 2] f(2,3) t(3,4)
  show ?thesis by auto
qed

lemma holders_none: "(\<And>s. s < LXP_NSLOT \<Longrightarrow> hold s = None) \<Longrightarrow> holders hold i = 0"
  by (simp add: holders_def)

lemma pool_ok_empty:
  assumes "pool_ok refs zero g hold" "\<And>s. s < LXP_NSLOT \<Longrightarrow> hold s = None" "i < LXP_RESOURCE_POOL_COUNT"
  shows "g i = zero"
  using assms holders_none [of hold i] by (simp add: pool_ok_def)

lemma kernel_ok_idle:
  assumes "kernel_ok k" "\<And>f. f < LXP_RESOURCE_POOL_COUNT \<Longrightarrow> k_files k f = files_zero"
  shows "\<And>oi. oi < LXP_MAX_OFD \<Longrightarrow> k_ofd k oi = ofd_zero"
    "\<And>i. i < LXP_NPIPE \<Longrightarrow> k_pipes k i = pipe_zero"
    "\<And>i. i < LXP_NWNODE \<Longrightarrow> wn_used (wf_nodes (k_wfs k) i) \<longrightarrow> wn_linked (wf_nodes (k_wfs k) i)"
    "\<And>i. i < LXP_NEVENTFD \<Longrightarrow> \<not> ef_used (k_efd k i)" "\<And>i. i < LXP_NPROCF \<Longrightarrow> \<not> pf_used (k_procf k i)"
proof -
  have e: "entry_refs (k_files k) oi = 0" for oi
    using assms(2) by (simp add: entry_refs_def table_refs_def files_zero_def fd_zero_def)
  then show z: "k_ofd k oi = ofd_zero" if "oi < LXP_MAX_OFD" for oi
    using assms(1) that by (simp add: kernel_ok_def kernel_inv_def fd_refs_ok_def ofd_fine_def)
  have c: "ofd_count (k_ofd k) P = 0" for P by (simp add: ofd_count_def z) (simp add: ofd_zero_def)
  have o: "objects_ok k" using assms(1) by (simp add: kernel_ok_def kernel_inv_def)
  show "k_pipes k i = pipe_zero" if "i < LXP_NPIPE" for i
  proof -
    have "\<not> pp_used (k_pipes k i)" using o that by (auto simp: objects_ok_def pipe_refs_ok_def pipe_slots_ok_def c)
    then show ?thesis using o that by (auto simp: objects_ok_def pipes_ok_def pipe_ok_def)
  qed
  show "wn_used (wf_nodes (k_wfs k) i) \<longrightarrow> wn_linked (wf_nodes (k_wfs k) i)" if i: "i < LXP_NWNODE" for i
  proof -
    have "wn_open_refs (wf_nodes (k_wfs k) i) = 0" using o i by (simp add: objects_ok_def wfs_refs_ok_def c)
    moreover have "wnode_fine (wf_nodes (k_wfs k) i)" using o i by (auto simp: objects_ok_def intro: wfs_okD(3))
    ultimately show ?thesis by (auto simp: wnode_fine_def)
  qed
  show "\<not> ef_used (k_efd k i)" if "i < LXP_NEVENTFD" for i
    using o that by (auto simp: objects_ok_def efd_refs_ok_def c)
  show "\<not> pf_used (k_procf k i)" if "i < LXP_NPROCF" for i
    using o that by (auto simp: objects_ok_def procf_refs_ok_def c)
qed

text \<open>C7.  Nothing leaks.  Releasing a task keeps every count exact, and when the last task is
  released every resource object, every description and every pipe slot is cleared, every event
  counter and generated proc file is free for reuse, and the only nodes of the writable file system
  still in use are those of linked files.\<close>

theorem last_exit_frees_everything:
  assumes "sys_ok k ts" "s < LXP_NSLOT" "lxp_proc_child_discard (ts s) k = (p', k')"
  shows "sys_ok k' (ts(s := p')) \<and> ((\<forall>t < LXP_NSLOT. t \<noteq> s \<longrightarrow> empty_task (ts t)) \<longrightarrow>
    (\<forall>i < LXP_RESOURCE_POOL_COUNT. k_files k' i = files_zero \<and> k_fs_context k' i = fs_context_zero \<and> k_sighand k' i = sighand_zero
       \<and> mc_mm k' i = mm_zero \<and> k_groups k' i = thread_group_zero)
    \<and> (\<forall>oi < LXP_MAX_OFD. k_ofd k' oi = ofd_zero)
    \<and> (\<forall>i < LXP_NPIPE. k_pipes k' i = pipe_zero)
    \<and> (\<forall>i < LXP_NWNODE. wn_used (wf_nodes (k_wfs k') i) \<longrightarrow> wn_linked (wf_nodes (k_wfs k') i))
    \<and> (\<forall>i < LXP_NEVENTFD. \<not> ef_used (k_efd k' i)) \<and> (\<forall>i < LXP_NPROCF. \<not> pf_used (k_procf k' i)))"
proof (intro conjI impI)
  have D: "p' = proc_child_reset" "sys_ok k' (ts(s := p'))" using child_discard_ok [OF assms] by blast+
  show "sys_ok k' (ts(s := p'))" by (rule D(2))
  assume idle: "\<forall>t < LXP_NSLOT. t \<noteq> s \<longrightarrow> empty_task (ts t)"
  have none: "empty_task ((ts(s := p')) t)" if "t < LXP_NSLOT" for t
    using idle that by (auto simp: D(1) empty_task_def proc_child_reset_def)
  note O = D(2) [unfolded sys_ok_def]
  have z: "k_files k' i = files_zero" "k_fs_context k' i = fs_context_zero" "k_sighand k' i = sighand_zero" "mc_mm k' i = mm_zero"
    "k_groups k' i = thread_group_zero" if "i < LXP_RESOURCE_POOL_COUNT" for i
    using O none [unfolded empty_task_def] that pool_ok_empty [where zero = files_zero and i = i]
      pool_ok_empty [where zero = fs_context_zero and i = i] pool_ok_empty [where zero = sighand_zero and i = i]
      pool_ok_empty [where zero = mm_zero and i = i] pool_ok_empty [where zero = thread_group_zero and i = i]
    by metis+
  show "\<forall>i < LXP_RESOURCE_POOL_COUNT. k_files k' i = files_zero \<and> k_fs_context k' i = fs_context_zero \<and> k_sighand k' i = sighand_zero
       \<and> mc_mm k' i = mm_zero \<and> k_groups k' i = thread_group_zero" using z by simp
  note I = kernel_ok_idle [OF conjunct1 [OF O] z(1)]
  show "\<forall>oi < LXP_MAX_OFD. k_ofd k' oi = ofd_zero" using I(1) by simp
  show "\<forall>i < LXP_NPIPE. k_pipes k' i = pipe_zero" using I(2) by simp
  show "\<forall>i < LXP_NWNODE. wn_used (wf_nodes (k_wfs k') i) \<longrightarrow> wn_linked (wf_nodes (k_wfs k') i)" using I(3) by simp
  show "\<forall>i < LXP_NEVENTFD. \<not> ef_used (k_efd k' i)" using I(4) by simp
  show "\<forall>i < LXP_NPROCF. \<not> pf_used (k_procf k' i)" using I(5) by simp
qed

theorem last_exit_frees_everything_witness:
  "\<exists>k'. lxp_proc_child_discard (demo_tasks 0) demo_sys = (proc_child_reset, k') \<and> k_files k' 0 = files_zero \<and> mc_mm k' 0 = mm_zero
     \<and> k_pipes k' 0 = pipe_zero"
proof -
  have n: "0 < LXP_NPIPE" by (simp add: LXP_NPIPE_def)
  obtain p' k' where d: "lxp_proc_child_discard (demo_tasks 0) demo_sys = (p', k')" by (metis surj_pair)
  have "p' = proc_child_reset" using child_discard_ok [OF demo_sys_ok _ d] by simp
  moreover have "\<forall>t < LXP_NSLOT. t \<noteq> 0 \<longrightarrow> empty_task (demo_tasks t)" by (simp add: demo_tasks_def empty_task_def)
  ultimately show ?thesis using last_exit_frees_everything [OF demo_sys_ok _ d] d n by auto
qed

end
