(* ===== verification/Tty.thy ===== *)
theory Tty
  imports Guest Signal
begin

text \<open>
  The terminal: \<^verbatim>\<open>src/src/fs/lxp_tty.c\<close> (settings and the ioctls every terminal answers), the
  console's typeahead of \<^verbatim>\<open>src/src/run/lxp_console_input.c\<close>, and the routing of a signal to
  a process group (\<^verbatim>\<open>src/src/run/lxp_signal_route.c\<close>).

  The console transport is a callback of the host: what one poll and one read of it answer are
  arguments (\<open>console_host\<close>).
\<close>

section \<open>The model\<close>

definition LXP_CONSOLE_TYPEAHEAD :: nat where "LXP_CONSOLE_TYPEAHEAD = 64"

abbreviation (input) LXP_ISIG :: nat where "LXP_ISIG \<equiv> 1"
abbreviation (input) LXP_ICRNL :: nat where "LXP_ICRNL \<equiv> 0x100"
abbreviation (input) LXP_VINTR :: nat where "LXP_VINTR \<equiv> 0"
abbreviation (input) LXP_VSUSP :: nat where "LXP_VSUSP \<equiv> 10"
abbreviation (input) LXP_SIGINT :: int where "LXP_SIGINT \<equiv> 2"

text \<open>Fields of the raw \<^verbatim>\<open>lxp_termios\<close>: four words, \<^verbatim>\<open>c_line\<close>, then \<^verbatim>\<open>c_cc[19]\<close>.\<close>

definition c_iflag :: "tty \<Rightarrow> nat" where
  "c_iflag t = bytes_u32 (take 4 (tt_termios t))"

definition c_lflag :: "tty \<Rightarrow> nat" where
  "c_lflag t = bytes_u32 (take 4 (drop 12 (tt_termios t)))"

definition c_cc :: "tty \<Rightarrow> nat \<Rightarrow> byte" where
  "c_cc t i = tt_termios t ! (17 + i)"

definition tty_defaults :: tty where
  "tty_defaults =
     \<lparr>tt_termios = u32_bytes 0x100 @ u32_bytes 0x5 @ u32_bytes 0xb0 @ u32_bytes 0xb @ [0]
        @ [3, 0, 0x7f, 0, 4, 0, 1, 0, 0, 0, 26, 0, 0, 0, 0, 0, 0, 0, 0],
      tt_winsize = [24, 0, 80, 0, 0, 0, 0, 0], tt_fg_pgrp = 0\<rparr>"

definition lxp_tty_init :: tty where
  "lxp_tty_init = tty_defaults"

text \<open>\<open>(int)\<close> of an unsigned word.\<close>

definition to_int32 :: "nat \<Rightarrow> int" where
  "to_int32 v = (let u = int (v mod 2 ^ 32) in if u < 2 ^ 31 then u else u - 2 ^ 32)"

definition to_u32 :: "int \<Rightarrow> nat" where
  "to_u32 i = nat (i mod 2 ^ 32)"

definition lxp_tty_ioctl :: "kernel \<Rightarrow> proc \<Rightarrow> tty \<Rightarrow> nat \<Rightarrow> nat \<Rightarrow> kernel \<times> tty \<times> int" where
  "lxp_tty_ioctl k p tty cmd ua =
     (if cmd = 0x5401 then (case lxp_copy_to_guest k p ua (tt_termios tty) of (k', rc) \<Rightarrow> (k', tty, rc))
      else if cmd = 0x5402 \<or> cmd = 0x5403 \<or> cmd = 0x5404 then
        (case lxp_copy_from_guest k p ua 36 of
           None \<Rightarrow> (k, tty, - LXP_EFAULT)
         | Some t \<Rightarrow> (k, tty\<lparr>tt_termios := t\<rparr>, 0))
      else if cmd = 0x5413 then (case lxp_copy_to_guest k p ua (tt_winsize tty) of (k', rc) \<Rightarrow> (k', tty, rc))
      else if cmd = 0x5414 then
        (case lxp_copy_from_guest k p ua 8 of
           None \<Rightarrow> (k, tty, - LXP_EFAULT)
         | Some w \<Rightarrow> (k, tty\<lparr>tt_winsize := w\<rparr>, 0))
      else if cmd = 0x5410 then
        (case lxp_guest_get_u32 k p ua of
           None \<Rightarrow> (k, tty, - LXP_EFAULT)
         | Some pgrp \<Rightarrow> (k, tty\<lparr>tt_fg_pgrp := to_int32 pgrp\<rparr>, 0))
      else if cmd = 0x540f then
        (case lxp_guest_put_u32 k p ua (to_u32 (if tt_fg_pgrp tty > 0 then tt_fg_pgrp tty else p_pid p)) of
           (k', rc) \<Rightarrow> (k', tty, rc))
      else if cmd = 0x540e \<or> cmd = 0x5422 then (k, tty, 0)
      else (k, tty, - LXP_ENOTTY))"

definition lxp_tty_signal_for :: "tty \<Rightarrow> byte \<Rightarrow> int" where
  "lxp_tty_signal_for t c =
     (if \<not> has_flag (c_lflag t) LXP_ISIG \<or> c = 0 then 0
      else if c = c_cc t LXP_VINTR then LXP_SIGINT
      else if c = c_cc t LXP_VSUSP then LXP_SIGTSTP
      else 0)"

subsection \<open>Signals to a group\<close>

text \<open>\<open>skip\<close> is the slot of the sender, if it is to be left out.\<close>

definition signal_recipient :: "(nat \<Rightarrow> thread_group) \<Rightarrow> nat option \<Rightarrow> int \<Rightarrow> int \<Rightarrow> nat \<Rightarrow> proc \<Rightarrow> bool" where
  "signal_recipient g skip pid pgid s p \<longleftrightarrow>
     \<not> (\<not> p_alive p \<or> skip = Some s \<or> p_pid p \<le> 1)
     \<and> \<not> (if pid > 0 then p_pid p \<noteq> pid
          else pgid > 0 \<and> (case p_group p of None \<Rightarrow> True | Some i \<Rightarrow> tg_pgid (g i) \<noteq> pgid))"

definition lxp_signal_send :: "(nat \<Rightarrow> thread_group) \<Rightarrow> nat option \<Rightarrow> int \<Rightarrow> int \<Rightarrow> int \<Rightarrow> (nat \<Rightarrow> proc) \<Rightarrow> (nat \<Rightarrow> proc) \<times> int" where
  "lxp_signal_send g skip pid pgid sig ts =
     ((\<lambda>s. if s < LXP_NSLOT \<and> signal_recipient g skip pid pgid s (ts s) then lxp_signal_latch (ts s) sig else ts s),
      int (length (filter (\<lambda>s. signal_recipient g skip pid pgid s (ts s)) [0..<LXP_NSLOT])))"

definition lxp_signal_process_group :: "(nat \<Rightarrow> thread_group) \<Rightarrow> int \<Rightarrow> int \<Rightarrow> (nat \<Rightarrow> proc) \<Rightarrow> (nat \<Rightarrow> proc) \<times> int" where
  "lxp_signal_process_group g pgid sig ts =
     (if pgid \<le> 0 \<or> sig \<le> 0 \<or> sig \<ge> LXP_NSIG then (ts, 0) else lxp_signal_send g None 0 pgid sig ts)"

subsection \<open>Console input\<close>

text \<open>\<open>ch_attached\<close>: the run has a console with both callbacks; \<open>ch_poll\<close> and \<open>ch_read fd len\<close>
  are what the callbacks answer (a count or error, and the bytes stored).\<close>

record console_host =
  ch_attached :: bool
  ch_poll :: int
  ch_read :: "int \<Rightarrow> nat \<Rightarrow> int \<times> byte list"

definition lxp_console_reset :: "kernel \<Rightarrow> kernel" where
  "lxp_console_reset k = k\<lparr>k_tty := lxp_tty_init, k_ta := (k_ta k)\<lparr>ta_head := 0, ta_count := 0\<rparr>\<rparr>"

definition lxp_console_input_xlate :: "tty \<Rightarrow> byte \<Rightarrow> byte" where
  "lxp_console_input_xlate t ch = (if has_flag (c_iflag t) LXP_ICRNL \<and> ch = 13 then 10 else ch)"

definition lxp_console_input_ready :: "'h console_host_scheme \<Rightarrow> kernel \<Rightarrow> proc \<Rightarrow> bool" where
  "lxp_console_input_ready h k p \<longleftrightarrow> ta_count (k_ta k) \<noteq> 0 \<or> p_console_poll p \<noteq> 0 \<and> ch_poll h > 0"

definition ta_pop :: "typeahead \<Rightarrow> typeahead \<times> byte" where
  "ta_pop ta = (ta\<lparr>ta_head := (ta_head ta + 1) mod LXP_CONSOLE_TYPEAHEAD, ta_count := ta_count ta - 1\<rparr>, ta_buf ta (ta_head ta))"

definition ta_push :: "typeahead \<Rightarrow> byte \<Rightarrow> typeahead" where
  "ta_push ta ch =
     ta\<lparr>ta_buf := (ta_buf ta)((ta_head ta + ta_count ta) mod LXP_CONSOLE_TYPEAHEAD := ch), ta_count := ta_count ta + 1\<rparr>"

text \<open>A read takes one byte of typeahead, or else asks the transport.  A single byte is
  translated.\<close>

definition lxp_console_read :: "'h console_host_scheme \<Rightarrow> kernel \<Rightarrow> proc \<Rightarrow> int \<Rightarrow> nat \<Rightarrow> nat \<Rightarrow> kernel \<times> int" where
  "lxp_console_read h k p fd buf len =
     (let (k1, rc) =
        (if len \<noteq> 0 \<and> ta_count (k_ta k) \<noteq> 0
         then (case ta_pop (k_ta k) of (ta', b) \<Rightarrow> (k\<lparr>k_ta := ta', mc_mem := mem_write (mc_mem k) buf [b]\<rparr>, 1))
         else if p_read_fn p \<noteq> 0 then (case ch_read h fd len of (n, bs) \<Rightarrow> (k\<lparr>mc_mem := mem_write (mc_mem k) buf bs\<rparr>, n))
         else (k, 0))
      in if rc = 1 then (k1\<lparr>mc_mem := mem_write (mc_mem k1) buf [lxp_console_input_xlate (k_tty k1) (mc_mem k1 buf)]\<rparr>, rc)
         else (k1, rc))"

definition lxp_console_signal_fg :: "kernel \<Rightarrow> int \<Rightarrow> (nat \<Rightarrow> proc) \<Rightarrow> (nat \<Rightarrow> proc)" where
  "lxp_console_signal_fg k sig ts = fst (lxp_signal_process_group (k_groups k) (tt_fg_pgrp (k_tty k)) sig ts)"

definition lxp_console_poll_interrupts :: "'h console_host_scheme \<Rightarrow> kernel \<Rightarrow> (nat \<Rightarrow> proc) \<Rightarrow> kernel \<times> (nat \<Rightarrow> proc) \<times> int" where
  "lxp_console_poll_interrupts h k ts =
     (if \<not> has_flag (c_lflag (k_tty k)) LXP_ISIG \<or> \<not> ch_attached h \<or> ta_count (k_ta k) = LXP_CONSOLE_TYPEAHEAD \<or> ch_poll h = 0
      then (k, ts, 0)
      else
        (let (n, bs) = ch_read h 0 1 in
         if n \<noteq> 1 then (k, ts, 0)
         else
           (let ch = (case bs of b # _ \<Rightarrow> b | [] \<Rightarrow> 0); sig = lxp_tty_signal_for (k_tty k) ch in
            if sig \<noteq> 0 then (k, lxp_console_signal_fg k sig ts, 1)
            else (k\<lparr>k_ta := ta_push (k_ta k) ch\<rparr>, ts, 0))))"

end
