(* ===== verification/Vfs.thy ===== *)
theory Vfs
  imports Fd Tty
begin

text \<open>
  What every descriptor kind shares: \<^verbatim>\<open>src/src/fs/lxp_vfs.c\<close> (reading from bytes in memory, moving
  an offset, handing out a path), the access mode recorded at open (\<^verbatim>\<open>lxp_vfs.h\<close>), the
  attributes a stat call reports and their layouts (\<^verbatim>\<open>lxp_stat.c\<close>), the entropy source, and the
  event counters of \<^verbatim>\<open>lxp_eventfd.c\<close>.

  What the host provides to these operations is one record, an argument of every operation that
  uses it.
\<close>

section \<open>The model\<close>

text \<open>\<open>ih_now_us\<close>: the monotonic clock; \<open>ih_write fd bytes\<close>: what the console's write callback
  answers; \<open>ih_random n\<close>: the status of the entropy provider and the bytes it stored;
  \<open>ih_pents\<close>: the process ids of the ps/top snapshot; \<open>ih_proc_gen path\<close>: the text of a
  \<^verbatim>\<open>/proc\<close> file, or none where \<^verbatim>\<open>lxp_proc_gen\<close> fails; \<open>ih_now_ns\<close>: the nanosecond clock;
  \<open>ih_resources\<close>: total and available guest bytes and the number of live processes;
  \<open>ih_nodename\<close>, \<open>ih_version\<close>: the strings of \<^verbatim>\<open>uname\<close> the host configures.\<close>

record io_host = console_host +
  ih_now_us :: nat
  ih_write :: "int \<Rightarrow> byte list \<Rightarrow> int"
  ih_random :: "nat \<Rightarrow> int \<times> byte list"
  ih_pents :: "int list"
  ih_proc_gen :: "string \<Rightarrow> byte list option"
  ih_now_ns :: nat
  ih_resources :: "nat \<times> nat \<times> nat"
  ih_nodename :: string
  ih_version :: string

abbreviation (input) LXP_OK :: int where "LXP_OK \<equiv> 0"
abbreviation (input) LXP_ERR_NOT_REGISTERED :: int where "LXP_ERR_NOT_REGISTERED \<equiv> - 1"
abbreviation (input) LXP_ERR_NOT_SUPPORTED :: int where "LXP_ERR_NOT_SUPPORTED \<equiv> - 5"
abbreviation (input) LXP_ERR_WOULD_BLOCK :: int where "LXP_ERR_WOULD_BLOCK \<equiv> - 18"

definition lxp_random_fill_guest :: "io_host \<Rightarrow> kernel \<Rightarrow> nat \<Rightarrow> nat \<Rightarrow> int \<Rightarrow> kernel \<times> int" where
  "lxp_random_fill_guest h k buf count unavailable_errno =
     (if count = 0 then (k, 0)
      else
        (let (r, bs) = ih_random h count; k' = k\<lparr>mc_mem := mem_write (mc_mem k) buf bs\<rparr> in
         if r = LXP_OK then (k', int count)
         else if r = LXP_ERR_WOULD_BLOCK then (k', - LXP_EAGAIN)
         else if r = LXP_ERR_NOT_SUPPORTED \<or> r = LXP_ERR_NOT_REGISTERED then (k', - unavailable_errno)
         else (k', - LXP_EIO)))"

definition sys_getrandom :: "io_host \<Rightarrow> kernel \<Rightarrow> proc \<Rightarrow> nat \<Rightarrow> nat \<Rightarrow> nat \<Rightarrow> kernel \<times> int" where
  "sys_getrandom h k p buf count flags =
     (if flags div 8 \<noteq> 0 \<or> flags AND 6 = 6 then (k, - LXP_EINVAL)
      else if count = 0 then (k, 0)
      else if \<not> lxp_guest_access_ok k p buf count True then (k, - LXP_EFAULT)
      else lxp_random_fill_guest h k buf count LXP_ENOSYS)"

subsection \<open>Offsets and bytes\<close>

definition INT64_MAX :: int where "INT64_MAX = 9223372036854775807"

abbreviation (input) LXP_SEEK_SET :: int where "LXP_SEEK_SET \<equiv> 0"
abbreviation (input) LXP_SEEK_CUR :: int where "LXP_SEEK_CUR \<equiv> 1"
abbreviation (input) LXP_SEEK_END :: int where "LXP_SEEK_END \<equiv> 2"

definition lxp_vfs_read_mem :: "kernel \<Rightarrow> proc \<Rightarrow> byte list \<Rightarrow> nat \<Rightarrow> nat \<Rightarrow> nat \<Rightarrow> kernel \<times> int" where
  "lxp_vfs_read_mem k p data buf len off =
     (if off \<ge> length data then (k, 0)
      else
        (let n = (if length data - off > len then len else length data - off);
             (k', rc) = lxp_copy_to_guest k p buf (take n (drop off data))
         in if rc \<noteq> 0 then (k', - LXP_EFAULT) else (k', int n)))"

definition lxp_vfs_seek :: "ofd \<Rightarrow> int \<Rightarrow> int \<Rightarrow> int \<Rightarrow> ofd \<times> int" where
  "lxp_vfs_seek s end off whence =
     (if whence \<noteq> LXP_SEEK_SET \<and> whence \<noteq> LXP_SEEK_CUR \<and> whence \<noteq> LXP_SEEK_END then (s, - LXP_EINVAL)
      else
        (let base = (if whence = LXP_SEEK_SET then 0 else if whence = LXP_SEEK_CUR then int (ofd_offset s) else end) in
         if off > 0 \<and> base > INT64_MAX - off then (s, - LXP_EOVERFLOW)
         else
           (let pos = base + off in
            if pos < 0 then (s, - LXP_EINVAL)
            else if pos > int SIZE_MAX then (s, - LXP_EOVERFLOW)
            else (s\<lparr>ofd_offset := nat pos\<rparr>, pos))))"

definition lxp_vfs_copy_path :: "string \<Rightarrow> nat \<Rightarrow> path_result" where
  "lxp_vfs_copy_path path cap = (if length path \<ge> cap then Inl (- LXP_ENAMETOOLONG) else Inr path)"

definition lxp_vfs_readable :: "ofd \<Rightarrow> bool" where
  "lxp_vfs_readable s \<longleftrightarrow> ofd_accmode s AND LXP_O_ACCMODE \<noteq> LXP_O_WRONLY"

definition lxp_vfs_writable :: "ofd \<Rightarrow> bool" where
  "lxp_vfs_writable s \<longleftrightarrow> ofd_accmode s AND LXP_O_ACCMODE \<noteq> LXP_O_RDONLY"

subsection \<open>Attributes\<close>

record stat =
  st_mode :: nat
  st_ino :: nat
  st_nlink :: nat
  st_dev_major :: nat
  st_dev_minor :: nat
  st_rdev :: nat
  st_size :: nat
  st_mtime :: int

abbreviation (input) LXP_INO_ROOTFS :: nat where "LXP_INO_ROOTFS \<equiv> 0x000001"
abbreviation (input) LXP_INO_TMPFS :: nat where "LXP_INO_TMPFS \<equiv> 0x100000"
abbreviation (input) LXP_INO_PROC :: nat where "LXP_INO_PROC \<equiv> 0x200000"
abbreviation (input) LXP_INO_DEVFS :: nat where "LXP_INO_DEVFS \<equiv> 0x300100"
abbreviation (input) LXP_S_IFCHR :: nat where "LXP_S_IFCHR \<equiv> 0x2000"

definition lxp_stat_init :: "nat \<Rightarrow> nat \<Rightarrow> nat \<Rightarrow> stat" where
  "lxp_stat_init ino mode sz =
     \<lparr>st_mode = mode, st_ino = ino, st_nlink = 1, st_dev_major = 0, st_dev_minor = 0, st_rdev = 0, st_size = sz,
      st_mtime = 0\<rparr>"

text \<open>\<open>n\<close> little-endian bytes of a value, truncated to its width.\<close>

definition le_bytes :: "nat \<Rightarrow> nat \<Rightarrow> byte list" where
  "le_bytes n v = map (\<lambda>i. word_of_nat (v div 256 ^ i)) [0..<n]"

definition fill_kstat64 :: "stat \<Rightarrow> byte list" where
  "fill_kstat64 st =
     le_bytes 8 (256 * st_dev_major st OR st_dev_minor st) @ replicate 4 0 @ le_bytes 4 (st_ino st)
     @ le_bytes 4 (st_mode st) @ le_bytes 4 (st_nlink st) @ replicate 8 0 @ le_bytes 8 (st_rdev st)
     @ replicate 8 0 @ le_bytes 8 (st_size st)
     @ le_bytes 4 (if file_type (st_mode st) = LXP_S_IFCHR then 1024 else 512) @ replicate 4 0
     @ le_bytes 8 ((st_size st + 511) mod 2 ^ 64 div 512)
     @ replicate 8 0 @ le_bytes 4 (nat (st_mtime st mod 2 ^ 32)) @ replicate 12 0 @ le_bytes 8 (st_ino st)"

abbreviation (input) LXP_STATX_BASIC_STATS :: nat where "LXP_STATX_BASIC_STATS \<equiv> 0x7ff"

definition fill_statx :: "stat \<Rightarrow> byte list" where
  "fill_statx st =
     le_bytes 4 LXP_STATX_BASIC_STATS @ le_bytes 4 512 @ replicate 8 0 @ le_bytes 4 (st_nlink st) @ replicate 8 0
     @ le_bytes 2 (st_mode st) @ replicate 2 0 @ le_bytes 8 (st_ino st) @ le_bytes 8 (st_size st)
     @ le_bytes 8 ((st_size st + 511) mod 2 ^ 64 div 512) @ replicate 8 0
     @ replicate 48 0 @ le_bytes 8 (nat (st_mtime st mod 2 ^ 64)) @ replicate 8 0
     @ le_bytes 4 (st_rdev st div 256) @ le_bytes 4 (st_rdev st AND 0xff)
     @ le_bytes 4 (st_dev_major st) @ le_bytes 4 (st_dev_minor st) @ replicate 112 0"

definition lxp_stat_copyout :: "kernel \<Rightarrow> proc \<Rightarrow> nat \<Rightarrow> bool \<Rightarrow> stat \<Rightarrow> kernel \<times> int" where
  "lxp_stat_copyout k p ubuf statx st =
     lxp_copy_to_guest k p ubuf (if statx then fill_statx st else fill_kstat64 st)"

subsection \<open>Event counters\<close>

definition UINT64_MAX :: nat where "UINT64_MAX = 18446744073709551615"

abbreviation (input) LXP_EFD_SEMAPHORE :: nat where "LXP_EFD_SEMAPHORE \<equiv> 1"

definition efd_at :: "kernel \<Rightarrow> int \<Rightarrow> efd" where
  "efd_at k ei = k_efd k (nat ei)"

definition efd_put :: "kernel \<Rightarrow> int \<Rightarrow> efd \<Rightarrow> kernel" where
  "efd_put k ei e = k\<lparr>k_efd := (k_efd k)(nat ei := e)\<rparr>"

definition efd_new :: "kernel \<Rightarrow> nat \<Rightarrow> nat \<Rightarrow> kernel \<times> int" where
  "efd_new k initval flags =
     (case scan (\<lambda>i. \<not> ef_used (k_efd k i)) 0 LXP_NEVENTFD of
        None \<Rightarrow> (k, - LXP_EMFILE)
      | Some i \<Rightarrow> (k\<lparr>k_efd := (k_efd k)(i := \<lparr>ef_ctr = initval, ef_flags = flags mod 2 ^ 16, ef_used = True\<rparr>)\<rparr>, int i))"

definition lxp_eventfd_open :: "kernel \<Rightarrow> proc \<Rightarrow> nat \<Rightarrow> nat \<Rightarrow> kernel \<times> int" where
  "lxp_eventfd_open k p initval flags =
     (let (k1, ei) = efd_new k initval flags in
      if ei < 0 then (k1, ei)
      else
        (let (k2, fd) = lxp_fd_install k1 p FD_EVENTFD ei (LXP_O_RDWR OR (flags AND (LXP_O_NONBLOCK OR LXP_O_CLOEXEC))) in
         if fd < 0 then (efd_put k2 ei ((efd_at k2 ei)\<lparr>ef_used := False\<rparr>), - LXP_EMFILE) else (k2, fd)))"

definition lxp_eventfd_runtime_reset :: "kernel \<Rightarrow> kernel" where
  "lxp_eventfd_runtime_reset k = k\<lparr>k_efd := (\<lambda>i. if i < LXP_NEVENTFD then efd_zero else k_efd k i)\<rparr>"

definition efd_readable :: "kernel \<Rightarrow> int \<Rightarrow> bool" where
  "efd_readable k ei \<longleftrightarrow> ei \<ge> 0 \<and> ei < int LXP_NEVENTFD \<and> ef_ctr (efd_at k ei) \<noteq> 0"

definition efd_valid :: "kernel \<Rightarrow> int \<Rightarrow> bool" where
  "efd_valid k ei \<longleftrightarrow> \<not> (ei < 0 \<or> ei \<ge> int LXP_NEVENTFD \<or> \<not> ef_used (efd_at k ei))"

definition efd_read :: "kernel \<Rightarrow> proc \<Rightarrow> int \<Rightarrow> nat \<Rightarrow> nat \<Rightarrow> kernel \<times> int" where
  "efd_read k p ei buf len =
     (if \<not> efd_valid k ei then (k, - LXP_EBADF)
      else if len < 8 then (k, - LXP_EINVAL)
      else if ef_ctr (efd_at k ei) = 0 then (k, - LXP_EAGAIN)
      else
        (let v = (if has_flag (ef_flags (efd_at k ei)) LXP_EFD_SEMAPHORE then 1 else ef_ctr (efd_at k ei));
             (k1, rc) = lxp_copy_to_guest k p buf (le_bytes 8 v)
         in if rc \<noteq> 0 then (k1, - LXP_EFAULT)
            else (efd_put k1 ei ((efd_at k1 ei)\<lparr>ef_ctr := ef_ctr (efd_at k1 ei) - v\<rparr>), 8)))"

definition le_value :: "byte list \<Rightarrow> nat" where
  "le_value bs = foldr (\<lambda>b acc. unat b + 256 * acc) bs 0"

definition efd_write :: "kernel \<Rightarrow> proc \<Rightarrow> int \<Rightarrow> nat \<Rightarrow> nat \<Rightarrow> kernel \<times> int" where
  "efd_write k p ei buf len =
     (if \<not> efd_valid k ei then (k, - LXP_EBADF)
      else if len < 8 then (k, - LXP_EINVAL)
      else
        (case lxp_copy_from_guest k p buf 8 of
           None \<Rightarrow> (k, - LXP_EFAULT)
         | Some bs \<Rightarrow>
             (let v = le_value bs; e = efd_at k ei in
              if v = UINT64_MAX then (k, - LXP_EINVAL)
              else if UINT64_MAX - ef_ctr e - 1 < v then (efd_put k ei (e\<lparr>ef_ctr := UINT64_MAX - 1\<rparr>), 8)
              else (efd_put k ei (e\<lparr>ef_ctr := ef_ctr e + v\<rparr>), 8))))"

end
