(* ===== verification/Procfs.thy ===== *)
theory Procfs
  imports Vfs
begin

text \<open>
  \<^verbatim>\<open>/proc\<close>: bounded text (\<^verbatim>\<open>src/src/lxp_text.h\<close>), the names it holds, its descriptors and its
  mount operations (\<^verbatim>\<open>src/src/proc/lxp_procfs.c\<close>), and directory listings
  (\<^verbatim>\<open>src/src/fs/lxp_dirent.c\<close>, \<^verbatim>\<open>src/src/fs/lxp_dir.c\<close>), which end in the \<^verbatim>\<open>/proc\<close> names.
\<close>

section \<open>Text\<close>

record text_buf =
  tx_data :: string
  tx_capacity :: nat

definition lxp_text_make :: "nat \<Rightarrow> text_buf" where
  "lxp_text_make capacity = \<lparr>tx_data = [], tx_capacity = capacity\<rparr>"

definition lxp_text_putc :: "text_buf \<Rightarrow> char \<Rightarrow> text_buf" where
  "lxp_text_putc t c = (if length (tx_data t) < tx_capacity t then t\<lparr>tx_data := tx_data t @ [c]\<rparr> else t)"

fun lxp_text_puts :: "text_buf \<Rightarrow> string \<Rightarrow> text_buf" where
  "lxp_text_puts t [] = t"
| "lxp_text_puts t (c # cs) =
     (if length (tx_data t) < tx_capacity t then lxp_text_puts (t\<lparr>tx_data := tx_data t @ [c]\<rparr>) cs else t)"

text \<open>The digits of a value, lowest first.\<close>

fun text_digits :: "nat \<Rightarrow> string" where
  "text_digits v = (if v = 0 then [] else char_of (48 + v mod 10) # text_digits (v div 10))"

declare text_digits.simps [simp del]

definition lxp_text_u64 :: "text_buf \<Rightarrow> nat \<Rightarrow> text_buf" where
  "lxp_text_u64 t v = foldl lxp_text_putc t (rev (if v = 0 then ''0'' else text_digits v))"

definition lxp_text_s64 :: "text_buf \<Rightarrow> int \<Rightarrow> text_buf" where
  "lxp_text_s64 t v =
     (if v < 0 then lxp_text_u64 (lxp_text_putc t (CHR ''-'')) (nat (- (v + 1)) + 1) else lxp_text_u64 t (nat v))"

section \<open>Names\<close>

definition lxp_proc_is :: "string \<Rightarrow> bool" where
  "lxp_proc_is path \<longleftrightarrow> path = ''/proc'' \<or> take 6 path = ''/proc/''"

definition is_digit :: "char \<Rightarrow> bool" where
  "is_digit c \<longleftrightarrow> 48 \<le> (of_char c :: nat) \<and> (of_char c :: nat) \<le> 57"

fun proc_pid_digits :: "nat \<Rightarrow> string \<Rightarrow> nat \<times> string" where
  "proc_pid_digits pid [] = (pid, [])"
| "proc_pid_digits pid (c # cs) =
     (if is_digit c then proc_pid_digits (if pid < 1000000 then pid * 10 + (of_char c - 48) else pid) cs
      else (pid, c # cs))"

text \<open>What follows the process id: nothing, or a file name.\<close>

definition proc_pid_file :: "int \<Rightarrow> string \<Rightarrow> int \<times> string option" where
  "proc_pid_file pid s = (case s of [] \<Rightarrow> (pid, None) | c # r \<Rightarrow> if c = SLASH then (pid, Some r) else (0, None))"

definition lxp_proc_pid :: "string \<Rightarrow> proc \<Rightarrow> int \<times> string option" where
  "lxp_proc_pid path p =
     (if take 6 path \<noteq> ''/proc/'' then (0, None)
      else
        (let s = drop 6 path in
         if take 4 s = ''self'' \<and> (length s = 4 \<or> s ! 4 = SLASH) then proc_pid_file (p_pid p) (drop 4 s)
         else if s \<noteq> [] \<and> is_digit (hd s) then (case proc_pid_digits 0 s of (pid, r) \<Rightarrow> proc_pid_file (int pid) r)
         else (0, None)))"

definition lxp_proc_pid_known :: "io_host \<Rightarrow> proc \<Rightarrow> int \<Rightarrow> bool" where
  "lxp_proc_pid_known h p pid \<longleftrightarrow> pid = 1 \<or> pid = p_pid p \<or> pid \<in> set (ih_pents h)"

definition g_lxp_proc_files :: "string list" where
  "g_lxp_proc_files = [''version'', ''uptime'', ''meminfo'', ''lxp_resources'', ''rt_scope'', ''cpuinfo'', ''mounts'',
     ''stat'', ''loadavg'', ''filesystems'']"

definition lxp_proc_mode :: "io_host \<Rightarrow> string \<Rightarrow> proc \<Rightarrow> nat" where
  "lxp_proc_mode h path p =
     (if path = ''/proc'' then LXP_S_IFDIR OR 0x16d
      else if path = ''/proc/self'' then LXP_S_IFLNK OR 0x1ff
      else
        (let (pid, file) = lxp_proc_pid path p in
         if pid > 0 then
           (if \<not> lxp_proc_pid_known h p pid then 0
            else if file \<noteq> None then LXP_S_IFREG OR 0x124
            else LXP_S_IFDIR OR 0x16d)
         else if drop 6 path \<in> set g_lxp_proc_files then LXP_S_IFREG OR 0x124
         else 0))"

abbreviation (input) LXP_PATH_HASH_INIT :: "32 word" where "LXP_PATH_HASH_INIT \<equiv> 2166136261"

definition procfs_inode_of :: "32 word \<Rightarrow> nat" where
  "procfs_inode_of hash = LXP_INO_PROC + unat (hash AND 0xfffff)"

definition lxp_procfs_inode :: "string \<Rightarrow> nat" where
  "lxp_procfs_inode path = procfs_inode_of (lxp_path_hash LXP_PATH_HASH_INIT path)"

definition lxp_procfs_child_inode :: "string \<Rightarrow> string \<Rightarrow> nat" where
  "lxp_procfs_child_inode dir name =
     procfs_inode_of (lxp_path_hash (lxp_path_hash (lxp_path_hash LXP_PATH_HASH_INIT dir) ''/'') name)"

section \<open>Descriptors\<close>

abbreviation (input) LXP_PROCPATH :: nat where "LXP_PROCPATH \<equiv> 64"

definition lxp_procfs_runtime_reset :: "kernel \<Rightarrow> kernel" where
  "lxp_procfs_runtime_reset k = k\<lparr>k_procf := (\<lambda>i. if i < LXP_NPROCF then procf_zero else k_procf k i)\<rparr>"

definition lxp_procfs_open :: "io_host \<Rightarrow> kernel \<Rightarrow> proc \<Rightarrow> string \<Rightarrow> nat \<Rightarrow> kernel \<times> int" where
  "lxp_procfs_open h k p path flags =
     (let m = lxp_proc_mode h path p in
      if m = 0 \<or> file_type m = LXP_S_IFLNK then (k, - LXP_ENOENT)
      else if length path \<ge> LXP_PROCPATH then (k, - LXP_ENOENT)
      else
        (let dir = (file_type m = LXP_S_IFDIR) in
         case scan (\<lambda>i. \<not> pf_used (k_procf k i)) 0 LXP_NPROCF of
           None \<Rightarrow> (k, - LXP_EMFILE)
         | Some i \<Rightarrow>
             (case (if dir then Some [] else ih_proc_gen h path) of
                None \<Rightarrow> (k, - LXP_ENOENT)
              | Some content \<Rightarrow>
                  (let k1 = k\<lparr>k_procf := (k_procf k)(i := \<lparr>pf_path = path, pf_buf = content, pf_is_dir = dir, pf_used = True\<rparr>)\<rparr>;
                       (k2, fd) = lxp_fd_install k1 p FD_PROC (int i) flags
                   in if fd < 0 then (k2\<lparr>k_procf := (k_procf k2)(i := (k_procf k2 i)\<lparr>pf_used := False\<rparr>)\<rparr>, fd)
                      else (k2, fd)))))"

definition fop_pread_proc :: "kernel \<Rightarrow> proc \<Rightarrow> nat \<Rightarrow> nat \<Rightarrow> nat \<Rightarrow> nat \<Rightarrow> kernel \<times> int" where
  "fop_pread_proc k p oi buf len off =
     (let f = k_procf k (nat (ofd_file_idx (k_ofd k oi))) in
      if pf_is_dir f then (k, - LXP_EISDIR) else lxp_vfs_read_mem k p (pf_buf f) buf len off)"

text \<open>The tail of every \<^verbatim>\<open>read\<close>: a positive count moves the offset.\<close>

definition advance :: "kernel \<Rightarrow> nat \<Rightarrow> int \<Rightarrow> kernel" where
  "advance k oi n = (if n > 0 then ofd_put k oi ((k_ofd k oi)\<lparr>ofd_offset := uptr (ofd_offset (k_ofd k oi) + nat n)\<rparr>) else k)"

definition fop_read_proc :: "kernel \<Rightarrow> proc \<Rightarrow> nat \<Rightarrow> nat \<Rightarrow> nat \<Rightarrow> kernel \<times> int" where
  "fop_read_proc k p oi buf len =
     (case fop_pread_proc k p oi buf len (ofd_offset (k_ofd k oi)) of (k', n) \<Rightarrow> (advance k' oi n, n))"

definition fop_lseek_proc :: "kernel \<Rightarrow> nat \<Rightarrow> int \<Rightarrow> int \<Rightarrow> kernel \<times> int" where
  "fop_lseek_proc k oi off whence =
     (case lxp_vfs_seek (k_ofd k oi) (int (length (pf_buf (k_procf k (nat (ofd_file_idx (k_ofd k oi))))))) off whence of
        (s', rc) \<Rightarrow> (ofd_put k oi s', rc))"

definition fop_fstat_proc :: "kernel \<Rightarrow> nat \<Rightarrow> stat" where
  "fop_fstat_proc k oi =
     (let f = k_procf k (nat (ofd_file_idx (k_ofd k oi))) in
      lxp_stat_init (lxp_procfs_inode (pf_path f)) (if pf_is_dir f then LXP_S_IFDIR OR 0x16d else LXP_S_IFREG OR 0x124)
        (length (pf_buf f)))"

definition fop_dir_path_proc :: "kernel \<Rightarrow> nat \<Rightarrow> nat \<Rightarrow> path_result" where
  "fop_dir_path_proc k oi cap =
     (let f = k_procf k (nat (ofd_file_idx (k_ofd k oi))) in
      if \<not> pf_is_dir f then Inl (- LXP_ENOTDIR) else lxp_vfs_copy_path (pf_path f) cap)"

section \<open>Mount operations\<close>

definition procfs_mount_open :: "io_host \<Rightarrow> kernel \<Rightarrow> proc \<Rightarrow> string \<Rightarrow> nat \<Rightarrow> kernel \<times> int" where
  "procfs_mount_open h k p path flags =
     (if flags AND LXP_O_ACCMODE \<noteq> LXP_O_RDONLY \<or> has_flag flags (LXP_O_CREAT OR LXP_O_TRUNC) then
        (let mode = lxp_proc_mode h path p in
         if file_type mode = LXP_S_IFDIR then (k, - LXP_EISDIR)
         else (k, if mode = 0 \<and> \<not> has_flag flags LXP_O_CREAT then - LXP_ENOENT else - LXP_EACCES))
      else lxp_procfs_open h k p path flags)"

definition procfs_mount_stat :: "io_host \<Rightarrow> proc \<Rightarrow> string \<Rightarrow> bool \<Rightarrow> int + stat" where
  "procfs_mount_stat h p path follow =
     (let mode = lxp_proc_mode h path p in
      if mode = 0 then Inl (- LXP_ENOENT)
      else
        (let mode' = (if follow \<and> file_type mode = LXP_S_IFLNK then LXP_S_IFDIR OR 0x16d else mode) in
         Inr (lxp_stat_init (lxp_procfs_inode path) mode' 0)))"

definition procfs_mount_readlink :: "io_host \<Rightarrow> kernel \<Rightarrow> proc \<Rightarrow> string \<Rightarrow> nat \<Rightarrow> path_result" where
  "procfs_mount_readlink h k p path cap =
     (if path = ''/proc/self'' then Inr (take cap (tx_data (lxp_text_u64 (lxp_text_make 12) (nat (p_pid p mod 2 ^ 64)))))
      else if path = ''/proc/self/exe'' then
        (let ei = p_exec_file_idx p in
         if ei < 0 \<or> ei \<ge> p_fs_count p then Inl (- LXP_ENOENT)
         else Inr (take cap (rf_path (proc_fs k p ! nat ei))))
      else Inl (if lxp_proc_mode h path p \<noteq> 0 then - LXP_EINVAL else - LXP_ENOENT))"

definition procfs_mount_access :: "io_host \<Rightarrow> proc \<Rightarrow> string \<Rightarrow> nat \<Rightarrow> int" where
  "procfs_mount_access h p path mode =
     (case procfs_mount_stat h p path True of
        Inl e \<Rightarrow> e
      | Inr st \<Rightarrow>
          if has_flag mode 2 \<or> has_flag mode 1 \<and> file_type (st_mode st) \<noteq> LXP_S_IFDIR then - LXP_EACCES else 0)"

section \<open>Directory listings\<close>

record dirent_sink =
  ds_ubuf :: nat
  ds_cap :: nat
  ds_filled :: nat
  ds_error :: int
  ds_is64 :: bool

definition dirent_head :: "bool \<Rightarrow> nat" where
  "dirent_head is64 = (if is64 then 19 else 10)"

definition dirent_reclen :: "bool \<Rightarrow> nat \<Rightarrow> nat" where
  "dirent_reclen is64 namelen = (dirent_head is64 + namelen + 1 + (if is64 then 0 else 1) + 7) div 8 * 8"

text \<open>One record: inode and cookie, the record's length, the type (after the head in the 64-bit
  layout, in the last byte of the 32-bit one), the name, zeroes.\<close>

definition dirent_record :: "bool \<Rightarrow> nat \<Rightarrow> nat \<Rightarrow> byte \<Rightarrow> string \<Rightarrow> byte list" where
  "dirent_record is64 ino off type name =
     (let inobytes = (if is64 then 8 else 4); reclen = dirent_reclen is64 (length name);
          body = le_bytes inobytes ino @ le_bytes inobytes off @ le_bytes 2 reclen @ (if is64 then [type] else [])
                 @ bytes_of_string name;
          full = body @ replicate (reclen - length body) 0
      in if is64 then full else full[reclen - 1 := type])"

definition lxp_dirent_put ::
  "kernel \<Rightarrow> proc \<Rightarrow> dirent_sink \<Rightarrow> nat \<Rightarrow> nat \<Rightarrow> byte \<Rightarrow> string \<Rightarrow> kernel \<times> dirent_sink \<times> bool" where
  "lxp_dirent_put k p sink ino off type name =
     (let reclen = dirent_reclen (ds_is64 sink) (length name) in
      if ds_error sink \<noteq> 0 then (k, sink, False)
      else if ds_filled sink + reclen > ds_cap sink \<or> reclen > LXP_PATH_MAX + 32 then (k, sink, False)
      else
        (let (k', rc) = lxp_copy_to_guest k p (uptr (ds_ubuf sink + ds_filled sink))
                          (dirent_record (ds_is64 sink) ino off type name)
         in if rc \<noteq> 0 then (k', sink\<lparr>ds_error := - LXP_EFAULT\<rparr>, False)
            else (k', sink\<lparr>ds_filled := ds_filled sink + reclen\<rparr>, True)))"

definition lxp_dirent_type :: "nat \<Rightarrow> byte" where
  "lxp_dirent_type mode =
     (let t = file_type mode in
      if t = LXP_S_IFDIR then 4 else if t = LXP_S_IFCHR then 2 else if t = 0x6000 then 6
      else if t = LXP_S_IFLNK then 10 else if t = 0x1000 then 1 else if t = 0xc000 then 12 else 8)"

text \<open>The running state of a listing: memory and descriptors, the sink, and the index of the next
  entry across all sources.\<close>

record dir_state =
  dl_kernel :: kernel
  dl_sink :: dirent_sink
  dl_pos :: nat

definition dirent_emit :: "proc \<Rightarrow> nat \<Rightarrow> dir_state \<Rightarrow> nat \<Rightarrow> string \<Rightarrow> nat \<Rightarrow> dir_state \<times> bool" where
  "dirent_emit p oi d ino name mode =
     (let k = dl_kernel d; s = k_ofd k oi in
      if int (dl_pos d) < to_int32 (ofd_offset s) then (d\<lparr>dl_pos := dl_pos d + 1\<rparr>, True)
      else
        (case lxp_dirent_put k p (dl_sink d) ino (dl_pos d + 1) (lxp_dirent_type mode) name of (k1, sink1, done) \<Rightarrow>
           if \<not> done then (d\<lparr>dl_kernel := k1, dl_sink := sink1\<rparr>, False)
           else (d\<lparr>dl_kernel := ofd_put k1 oi ((k_ofd k1 oi)\<lparr>ofd_offset := uptr (ofd_offset (k_ofd k1 oi) + 1)\<rparr>),
                   dl_sink := sink1, dl_pos := dl_pos d + 1\<rparr>, True)))"

text \<open>The entries of a directory in listing order, as inode, name and mode.\<close>

type_synonym dir_entry = "nat \<times> string \<times> nat"

definition dir_rootfs_entries :: "kernel \<Rightarrow> proc \<Rightarrow> string \<Rightarrow> dir_entry list" where
  "dir_rootfs_entries k p dirpath =
     concat (map (\<lambda>i. let f = proc_fs k p ! i in
       case lxp_path_child_name dirpath (rf_path f) of
         None \<Rightarrow> []
       | Some name \<Rightarrow>
           if lxp_wfs_find (k_wfs k) (rf_path f) \<ge> 0 then [] else [(LXP_INO_ROOTFS + i, name, lxp_file_mode f)])
       [0..<nat (p_fs_count p)])"

definition dir_overlay_entries :: "kernel \<Rightarrow> string \<Rightarrow> dir_entry list" where
  "dir_overlay_entries k dirpath =
     concat (map (\<lambda>i. let w = wf_nodes (k_wfs k) i in
       if \<not> wn_used w then []
       else
         (case lxp_path_child_name dirpath (wn_path w) of
            None \<Rightarrow> []
          | Some name \<Rightarrow> [(LXP_INO_TMPFS + i, name, wn_mode w)]))
       [0..<LXP_NWNODE])"

text \<open>A synthetic \<^verbatim>\<open>/proc\<close> entry, numbered from its path.\<close>

definition proc_entry :: "string \<Rightarrow> nat \<Rightarrow> string \<Rightarrow> dir_entry" where
  "proc_entry dirpath mode name = (lxp_procfs_child_inode dirpath name, name, mode)"

definition pid_text :: "int \<Rightarrow> string" where
  "pid_text pid = tx_data (lxp_text_u64 (lxp_text_make 11) (nat (pid mod 2 ^ 64)))"

definition dir_proc_entries :: "io_host \<Rightarrow> proc \<Rightarrow> string \<Rightarrow> dir_entry list" where
  "dir_proc_entries h p dirpath =
     (if \<not> lxp_proc_is dirpath then []
      else
        (let (dpid, file) = lxp_proc_pid dirpath p in
         if dirpath = ''/proc'' then
           map (proc_entry dirpath LXP_S_IFREG) g_lxp_proc_files @ [proc_entry dirpath LXP_S_IFLNK ''self'']
           @ map (\<lambda>pid. proc_entry dirpath LXP_S_IFDIR (pid_text pid)) (ih_pents h)
           @ (if 1 \<notin> set (ih_pents h) then [proc_entry dirpath LXP_S_IFDIR ''1''] else [])
           @ (if p_pid p \<notin> set (ih_pents h) \<and> p_pid p \<noteq> 1 then [proc_entry dirpath LXP_S_IFDIR (pid_text (p_pid p))] else [])
         else if dpid > 0 \<and> file = None \<and> lxp_proc_pid_known h p dpid then
           map (proc_entry dirpath LXP_S_IFREG) [''stat'', ''cmdline'', ''status'', ''comm'']
         else []))"

definition dir_entries :: "io_host \<Rightarrow> kernel \<Rightarrow> proc \<Rightarrow> string \<Rightarrow> dir_entry list" where
  "dir_entries h k p dirpath = dir_rootfs_entries k p dirpath @ dir_overlay_entries k dirpath @ dir_proc_entries h p dirpath"

text \<open>Emit entries until one does not fit.\<close>

fun dir_emit_loop :: "proc \<Rightarrow> nat \<Rightarrow> dir_entry list \<Rightarrow> dir_state \<Rightarrow> dir_state \<times> bool" where
  "dir_emit_loop p oi [] d = (d, False)"
| "dir_emit_loop p oi ((ino, name, mode) # es) d =
     (case dirent_emit p oi d ino name mode of (d', ok) \<Rightarrow> if ok then dir_emit_loop p oi es d' else (d', True))"

definition lxp_dir_list :: "io_host \<Rightarrow> kernel \<Rightarrow> proc \<Rightarrow> nat \<Rightarrow> string \<Rightarrow> dirent_sink \<Rightarrow> kernel \<times> int" where
  "lxp_dir_list h k p oi dirpath sink =
     (let (d, full) = dir_emit_loop p oi (dir_entries h k p dirpath) \<lparr>dl_kernel = k, dl_sink = sink, dl_pos = 0\<rparr> in
      (dl_kernel d,
       if ds_error (dl_sink d) \<noteq> 0 then ds_error (dl_sink d)
       else if full \<and> ds_filled (dl_sink d) = 0 then - LXP_EINVAL
       else int (ds_filled (dl_sink d))))"

end
