(* ===== verification/Fops.thy ===== *)
theory Fops
  imports Procfs
begin

text \<open>
  The file operations of each descriptor kind of the core configuration, and the table that selects
  them (\<^verbatim>\<open>g_lxp_file_ops\<close> of \<^verbatim>\<open>src/src/fs/lxp_vfs.c\<close>): rootfs files, writable files, pipe ends, the
  console and its \<^verbatim>\<open>/dev\<close> aliases, event counters, \<^verbatim>\<open>/proc\<close> files.  A description is its index
  in the pool.  An operation that can park or signal the caller returns the task too; an operation
  a kind does not have is \<open>None\<close>.
\<close>

section \<open>Rootfs files\<close>

definition rootfs_at :: "kernel \<Rightarrow> proc \<Rightarrow> nat \<Rightarrow> rootfs_file" where
  "rootfs_at k p oi = proc_fs k p ! nat (ofd_file_idx (k_ofd k oi))"

definition fop_pread_rootfs :: "kernel \<Rightarrow> proc \<Rightarrow> nat \<Rightarrow> nat \<Rightarrow> nat \<Rightarrow> nat \<Rightarrow> kernel \<times> int" where
  "fop_pread_rootfs k p oi buf len off =
     (let f = rootfs_at k p oi in
      if file_type (lxp_file_mode f) = LXP_S_IFDIR then (k, - LXP_EISDIR)
      else lxp_vfs_read_mem k p (bytes_of_string (rf_data f)) buf len off)"

definition fop_read_rootfs :: "kernel \<Rightarrow> proc \<Rightarrow> nat \<Rightarrow> nat \<Rightarrow> nat \<Rightarrow> kernel \<times> int" where
  "fop_read_rootfs k p oi buf len =
     (case fop_pread_rootfs k p oi buf len (ofd_offset (k_ofd k oi)) of (k', n) \<Rightarrow> (advance k' oi n, n))"

definition fop_lseek_rootfs :: "kernel \<Rightarrow> proc \<Rightarrow> nat \<Rightarrow> int \<Rightarrow> int \<Rightarrow> kernel \<times> int" where
  "fop_lseek_rootfs k p oi off whence =
     (case lxp_vfs_seek (k_ofd k oi) (int (length (rf_data (rootfs_at k p oi)))) off whence of
        (s', rc) \<Rightarrow> (ofd_put k oi s', rc))"

abbreviation (input) LXP_PROT_WRITE :: nat where "LXP_PROT_WRITE \<equiv> 2"

definition fop_mmap_rootfs :: "kernel \<Rightarrow> proc \<Rightarrow> nat \<Rightarrow> nat \<Rightarrow> nat \<Rightarrow> nat \<Rightarrow> int" where
  "fop_mmap_rootfs k p oi len prot pgoff =
     (let f = rootfs_at k p oi; foff = uptr (pgoff * 4096); sz = length (rf_data f) in
      if has_flag prot LXP_PROT_WRITE \<or> foff div 4096 \<noteq> pgoff \<or> foff > sz \<or> sz - foff < len then - LXP_ENODEV
      else to_int32 (rf_addr f + foff))"

definition fop_getdents_rootfs :: "io_host \<Rightarrow> kernel \<Rightarrow> proc \<Rightarrow> nat \<Rightarrow> dirent_sink \<Rightarrow> kernel \<times> int" where
  "fop_getdents_rootfs h k p oi sink =
     (let f = rootfs_at k p oi in
      if file_type (lxp_file_mode f) \<noteq> LXP_S_IFDIR then (k, - LXP_ENOTDIR) else lxp_dir_list h k p oi (rf_path f) sink)"

definition fop_fstat_rootfs :: "kernel \<Rightarrow> proc \<Rightarrow> nat \<Rightarrow> stat" where
  "fop_fstat_rootfs k p oi =
     lxp_stat_init (LXP_INO_ROOTFS + nat (ofd_file_idx (k_ofd k oi))) (lxp_file_mode (rootfs_at k p oi))
       (length (rf_data (rootfs_at k p oi)))"

definition fop_dir_path_rootfs :: "kernel \<Rightarrow> proc \<Rightarrow> nat \<Rightarrow> nat \<Rightarrow> path_result" where
  "fop_dir_path_rootfs k p oi cap =
     (let f = rootfs_at k p oi in
      if file_type (lxp_file_mode f) \<noteq> LXP_S_IFDIR then Inl (- LXP_ENOTDIR) else lxp_vfs_copy_path (rf_path f) cap)"

section \<open>Writable files\<close>

definition tmpfs_at :: "kernel \<Rightarrow> nat \<Rightarrow> wnode" where
  "tmpfs_at k oi = wnode_at (k_wfs k) (ofd_file_idx (k_ofd k oi))"

definition tmpfs_put :: "kernel \<Rightarrow> nat \<Rightarrow> wnode \<Rightarrow> kernel" where
  "tmpfs_put k oi w = k\<lparr>k_wfs := wnode_put (k_wfs k) (ofd_file_idx (k_ofd k oi)) w\<rparr>"

definition fop_pread_tmpfs :: "kernel \<Rightarrow> proc \<Rightarrow> nat \<Rightarrow> nat \<Rightarrow> nat \<Rightarrow> nat \<Rightarrow> kernel \<times> int" where
  "fop_pread_tmpfs k p oi buf len off =
     (let t = tmpfs_at k oi in
      if wnode_is_dir t then (k, - LXP_EISDIR)
      else lxp_vfs_read_mem k p (mem_read (mc_mem k) (wn_data t) (wn_size t)) buf len off)"

definition fop_read_tmpfs :: "kernel \<Rightarrow> proc \<Rightarrow> nat \<Rightarrow> nat \<Rightarrow> nat \<Rightarrow> kernel \<times> int" where
  "fop_read_tmpfs k p oi buf len =
     (case fop_pread_tmpfs k p oi buf len (ofd_offset (k_ofd k oi)) of (k', n) \<Rightarrow> (advance k' oi n, n))"

text \<open>\<^verbatim>\<open>lxp_wfs_reserve\<close> on the kernel, and the zeroing of a sparse hole.\<close>

definition tmpfs_reserve :: "kernel \<Rightarrow> nat \<Rightarrow> nat \<Rightarrow> kernel \<times> int" where
  "tmpfs_reserve k oi n =
     (case lxp_wfs_reserve (mc_mem k) (k_wfs k) (ofd_file_idx (k_ofd k oi)) n of
        (m, w, rc) \<Rightarrow> (k\<lparr>mc_mem := m, k_wfs := w\<rparr>, rc))"

definition tmpfs_zero_hole :: "kernel \<Rightarrow> nat \<Rightarrow> nat \<Rightarrow> kernel" where
  "tmpfs_zero_hole k oi until =
     (let t = tmpfs_at k oi in
      if until > wn_size t then k\<lparr>mc_mem := mem_fill (mc_mem k) (wn_data t + wn_size t) (until - wn_size t) 0\<rparr> else k)"

definition fop_pwrite_tmpfs :: "kernel \<Rightarrow> proc \<Rightarrow> nat \<Rightarrow> nat \<Rightarrow> nat \<Rightarrow> nat \<Rightarrow> kernel \<times> int" where
  "fop_pwrite_tmpfs k p oi buf len off =
     (if off > SIZE_MAX then (k, - LXP_EFBIG)
      else if wnode_is_dir (tmpfs_at k oi) then (k, - LXP_EBADF)
      else if uptr (off + len) < len then (k, - LXP_EINVAL)
      else
        (let (k1, rc) = tmpfs_reserve k oi (off + len) in
         if rc \<noteq> 0 then (k1, - LXP_EFBIG)
         else
           (let k2 = tmpfs_zero_hole k1 oi off in
            case lxp_copy_from_guest k2 p buf len of
              None \<Rightarrow> (k2, - LXP_EFAULT)
            | Some bs \<Rightarrow>
                (let t = tmpfs_at k2 oi; k3 = k2\<lparr>mc_mem := mem_write (mc_mem k2) (wn_data t + off) bs\<rparr> in
                 (if off + len > wn_size t then tmpfs_put k3 oi (t\<lparr>wn_size := off + len\<rparr>) else k3, int len)))))"

definition fop_write_tmpfs :: "kernel \<Rightarrow> proc \<Rightarrow> nat \<Rightarrow> nat \<Rightarrow> nat \<Rightarrow> kernel \<times> int" where
  "fop_write_tmpfs k p oi buf len =
     (case fop_pwrite_tmpfs k p oi buf len (ofd_offset (k_ofd k oi)) of (k', n) \<Rightarrow> (advance k' oi n, n))"

definition fop_lseek_tmpfs :: "kernel \<Rightarrow> nat \<Rightarrow> int \<Rightarrow> int \<Rightarrow> kernel \<times> int" where
  "fop_lseek_tmpfs k oi off whence =
     (case lxp_vfs_seek (k_ofd k oi) (int (wn_size (tmpfs_at k oi))) off whence of (s', rc) \<Rightarrow> (ofd_put k oi s', rc))"

definition fop_getdents_tmpfs :: "io_host \<Rightarrow> kernel \<Rightarrow> proc \<Rightarrow> nat \<Rightarrow> dirent_sink \<Rightarrow> kernel \<times> int" where
  "fop_getdents_tmpfs h k p oi sink =
     (let t = tmpfs_at k oi in
      if \<not> wnode_is_dir t then (k, - LXP_ENOTDIR) else lxp_dir_list h k p oi (wn_path t) sink)"

definition fop_fstat_tmpfs :: "kernel \<Rightarrow> nat \<Rightarrow> stat" where
  "fop_fstat_tmpfs k oi =
     (let node = tmpfs_at k oi; st = lxp_stat_init (LXP_INO_TMPFS + nat (ofd_file_idx (k_ofd k oi))) (wn_mode node) (wn_size node) in
      if \<not> wn_linked node then st\<lparr>st_nlink := 0\<rparr> else st)"

definition fop_ftruncate_tmpfs :: "kernel \<Rightarrow> nat \<Rightarrow> nat \<Rightarrow> kernel \<times> int" where
  "fop_ftruncate_tmpfs k oi newlen =
     (if wnode_is_dir (tmpfs_at k oi) then (k, - LXP_EISDIR)
      else if newlen > SIZE_MAX then (k, - LXP_EFBIG)
      else if newlen > wn_size (tmpfs_at k oi) then
        (let (k1, rc) = tmpfs_reserve k oi newlen in
         if rc \<noteq> 0 then (k1, - LXP_EFBIG)
         else (let k2 = tmpfs_zero_hole k1 oi newlen in (tmpfs_put k2 oi ((tmpfs_at k2 oi)\<lparr>wn_size := newlen\<rparr>), 0)))
      else (tmpfs_put k oi ((tmpfs_at k oi)\<lparr>wn_size := newlen\<rparr>), 0))"

definition fop_dir_path_tmpfs :: "kernel \<Rightarrow> nat \<Rightarrow> nat \<Rightarrow> path_result" where
  "fop_dir_path_tmpfs k oi cap =
     (let w = tmpfs_at k oi in
      if \<not> wnode_is_dir w then Inl (- LXP_ENOTDIR)
      else if \<not> wn_linked w then Inl (- LXP_ENOENT)
      else lxp_vfs_copy_path (wn_path w) cap)"

section \<open>Pipe ends\<close>

definition pipe_wait :: "nat \<Rightarrow> int \<Rightarrow> nat \<Rightarrow> nat \<Rightarrow> wait" where
  "pipe_wait op pi buf len =
     wait_zero\<lparr>wt_kind := WAIT_PIPE, wt_op := op, wt_data := WD_io (io_zero\<lparr>io_object := pi, io_buffer := buf, io_length := len\<rparr>)\<rparr>"

text \<open>One attempt to move bytes, on the kernel.\<close>

definition pipe_try_read :: "kernel \<Rightarrow> int \<Rightarrow> nat \<Rightarrow> nat \<Rightarrow> kernel \<times> int" where
  "pipe_try_read k pi buf len =
     (case lxp_pipe_try_read (k_pipes k) pi len of
        (g, r, bs) \<Rightarrow> (k\<lparr>k_pipes := g, mc_mem := mem_write (mc_mem k) buf bs\<rparr>, r))"

definition pipe_try_write :: "kernel \<Rightarrow> int \<Rightarrow> nat \<Rightarrow> nat \<Rightarrow> kernel \<times> int" where
  "pipe_try_write k pi buf len =
     (case lxp_pipe_try_write (k_pipes k) pi (mem_read (mc_mem k) buf len) of (g, r) \<Rightarrow> (k\<lparr>k_pipes := g\<rparr>, r))"

definition lxp_pipe_retry :: "kernel \<Rightarrow> proc \<Rightarrow> kernel \<times> int" where
  "lxp_pipe_retry k p =
     (let w = p_wait p; io = wait_io (wt_data w) in
      if wt_kind w \<noteq> WAIT_PIPE then (k, - LXP_EINVAL)
      else if wt_op w = 1 then pipe_try_read k (io_object io) (io_buffer io) (io_length io)
      else if wt_op w = 2 then pipe_try_write k (io_object io) (io_buffer io) (io_length io)
      else (k, 0))"

definition fop_read_pipe :: "io_host \<Rightarrow> kernel \<Rightarrow> proc \<Rightarrow> nat \<Rightarrow> nat \<Rightarrow> nat \<Rightarrow> proc \<times> kernel \<times> int" where
  "fop_read_pipe h k p oi buf len =
     (let s = k_ofd k oi in
      if ofd_rw s \<noteq> 0 then (p, k, - LXP_EBADF)
      else
        (let (k1, r) = pipe_try_read k (ofd_file_idx s) buf len in
         if r = - LXP_EAGAIN then
           (if ofd_nonblock s then (p, k1, - LXP_EAGAIN)
            else (case lxp_wait_park (ih_now_us h) p (pipe_wait 1 (ofd_file_idx s) buf len) of (p', rc) \<Rightarrow> (p', k1, rc)))
         else (p, k1, r)))"

abbreviation (input) LXP_SIGPIPE :: int where "LXP_SIGPIPE \<equiv> 13"

definition fop_write_pipe :: "io_host \<Rightarrow> kernel \<Rightarrow> proc \<Rightarrow> nat \<Rightarrow> nat \<Rightarrow> nat \<Rightarrow> proc \<times> kernel \<times> int" where
  "fop_write_pipe h k p oi buf len =
     (let s = k_ofd k oi in
      if ofd_rw s \<noteq> 1 then (p, k, - LXP_EBADF)
      else
        (let (k1, r) = pipe_try_write k (ofd_file_idx s) buf len in
         if r = - LXP_EAGAIN then
           (if ofd_nonblock s then (p, k1, - LXP_EAGAIN)
            else (case lxp_wait_park (ih_now_us h) p (pipe_wait 2 (ofd_file_idx s) buf len) of (p', rc) \<Rightarrow> (p', k1, rc)))
         else if r = - LXP_EPIPE \<and> lxp_sig_handler_get (k_sighand k1) p LXP_SIGPIPE \<noteq> LXP_SIG_IGN
         then (lxp_signal_terminate p LXP_SIGPIPE EXIT_SIGNAL 0 0, k1, r)
         else (p, k1, r)))"

definition fop_poll_pipe :: "kernel \<Rightarrow> nat \<Rightarrow> nat" where
  "fop_poll_pipe k oi = lxp_pipe_poll (k_pipes k) (ofd_file_idx (k_ofd k oi)) (ofd_rw (k_ofd k oi))"

section \<open>The console\<close>

definition console_wait :: "nat \<Rightarrow> nat \<Rightarrow> wait" where
  "console_wait buf len =
     wait_zero\<lparr>wt_kind := WAIT_CONSOLE, wt_data := WD_io (io_zero\<lparr>io_buffer := buf, io_length := len\<rparr>)\<rparr>"

definition fop_read_console :: "io_host \<Rightarrow> kernel \<Rightarrow> proc \<Rightarrow> nat \<Rightarrow> nat \<Rightarrow> nat \<Rightarrow> proc \<times> kernel \<times> int" where
  "fop_read_console h k p oi buf len =
     (let idx = ofd_file_idx (k_ofd k oi) in
      if idx = 1 then (p, k, - LXP_EBADF)
      else if idx = 3 then (p, k, 0)
      else if idx = 5 then (p, k\<lparr>mc_mem := mem_fill (mc_mem k) buf len 0\<rparr>, int len)
      else if idx = 4 then (p, lxp_random_fill_guest h k buf len LXP_EIO)
      else if p_read_fn p = 0 then (p, k, 0)
      else if p_console_poll p \<noteq> 0 \<and> \<not> lxp_console_input_ready h k p
      then (case lxp_wait_park (ih_now_us h) p (console_wait buf len) of (p', rc) \<Rightarrow> (p', k, rc))
      else (p, lxp_console_read h k p idx buf len))"

definition fop_write_console :: "io_host \<Rightarrow> kernel \<Rightarrow> proc \<Rightarrow> nat \<Rightarrow> nat \<Rightarrow> nat \<Rightarrow> int" where
  "fop_write_console h k p oi buf len =
     (let idx = ofd_file_idx (k_ofd k oi) in
      if idx = 3 \<or> idx = 4 \<or> idx = 5 then int len
      else if idx = 0 \<or> p_write_fn p = 0 then - LXP_EBADF
      else ih_write h idx (mem_read (mc_mem k) buf len))"

definition fop_ioctl_console :: "kernel \<Rightarrow> proc \<Rightarrow> nat \<Rightarrow> nat \<Rightarrow> kernel \<times> int" where
  "fop_ioctl_console k p cmd arg =
     (case lxp_tty_ioctl k p (k_tty k) cmd arg of (k', tty', rc) \<Rightarrow> (k'\<lparr>k_tty := tty'\<rparr>, rc))"

section \<open>Event counters\<close>

definition fop_read_eventfd :: "kernel \<Rightarrow> proc \<Rightarrow> nat \<Rightarrow> nat \<Rightarrow> nat \<Rightarrow> kernel \<times> int" where
  "fop_read_eventfd k p oi buf len = efd_read k p (ofd_file_idx (k_ofd k oi)) buf len"

definition fop_write_eventfd :: "kernel \<Rightarrow> proc \<Rightarrow> nat \<Rightarrow> nat \<Rightarrow> nat \<Rightarrow> kernel \<times> int" where
  "fop_write_eventfd k p oi buf len = efd_write k p (ofd_file_idx (k_ofd k oi)) buf len"

definition fop_poll_eventfd :: "kernel \<Rightarrow> nat \<Rightarrow> nat" where
  "fop_poll_eventfd k oi = LXP_POLLOUT OR (if efd_readable k (ofd_file_idx (k_ofd k oi)) then LXP_POLLIN else 0)"

definition fop_getdents_proc :: "io_host \<Rightarrow> kernel \<Rightarrow> proc \<Rightarrow> nat \<Rightarrow> dirent_sink \<Rightarrow> kernel \<times> int" where
  "fop_getdents_proc h k p oi sink =
     (let f = k_procf k (nat (ofd_file_idx (k_ofd k oi))) in
      if \<not> pf_is_dir f then (k, - LXP_ENOTDIR) else lxp_dir_list h k p oi (pf_path f) sink)"

section \<open>Dispatch\<close>

text \<open>\<open>vfs_op\<close> is the operation of the description's kind, or \<open>None\<close> where its table has no such
  entry (or the kind no table).\<close>

definition vfs_read :: "io_host \<Rightarrow> kernel \<Rightarrow> proc \<Rightarrow> nat \<Rightarrow> nat \<Rightarrow> nat \<Rightarrow> (proc \<times> kernel \<times> int) option" where
  "vfs_read h k p oi buf len =
     (case ofd_kind (k_ofd k oi) of
        FD_CONSOLE \<Rightarrow> Some (fop_read_console h k p oi buf len)
      | FD_FILE \<Rightarrow> Some (p, fop_read_rootfs k p oi buf len)
      | FD_PIPE \<Rightarrow> Some (fop_read_pipe h k p oi buf len)
      | FD_TMPFS \<Rightarrow> Some (p, fop_read_tmpfs k p oi buf len)
      | FD_PROC \<Rightarrow> Some (p, fop_read_proc k p oi buf len)
      | FD_EVENTFD \<Rightarrow> Some (p, fop_read_eventfd k p oi buf len)
      | _ \<Rightarrow> None)"

definition vfs_write :: "io_host \<Rightarrow> kernel \<Rightarrow> proc \<Rightarrow> nat \<Rightarrow> nat \<Rightarrow> nat \<Rightarrow> (proc \<times> kernel \<times> int) option" where
  "vfs_write h k p oi buf len =
     (case ofd_kind (k_ofd k oi) of
        FD_CONSOLE \<Rightarrow> Some (p, k, fop_write_console h k p oi buf len)
      | FD_PIPE \<Rightarrow> Some (fop_write_pipe h k p oi buf len)
      | FD_TMPFS \<Rightarrow> Some (p, fop_write_tmpfs k p oi buf len)
      | FD_EVENTFD \<Rightarrow> Some (p, fop_write_eventfd k p oi buf len)
      | _ \<Rightarrow> None)"

definition vfs_pread :: "kernel \<Rightarrow> proc \<Rightarrow> nat \<Rightarrow> nat \<Rightarrow> nat \<Rightarrow> nat \<Rightarrow> (kernel \<times> int) option" where
  "vfs_pread k p oi buf len off =
     (case ofd_kind (k_ofd k oi) of
        FD_FILE \<Rightarrow> Some (fop_pread_rootfs k p oi buf len off)
      | FD_TMPFS \<Rightarrow> Some (fop_pread_tmpfs k p oi buf len off)
      | FD_PROC \<Rightarrow> Some (fop_pread_proc k p oi buf len off)
      | _ \<Rightarrow> None)"

definition vfs_pwrite :: "kernel \<Rightarrow> proc \<Rightarrow> nat \<Rightarrow> nat \<Rightarrow> nat \<Rightarrow> nat \<Rightarrow> (kernel \<times> int) option" where
  "vfs_pwrite k p oi buf len off =
     (case ofd_kind (k_ofd k oi) of FD_TMPFS \<Rightarrow> Some (fop_pwrite_tmpfs k p oi buf len off) | _ \<Rightarrow> None)"

definition vfs_lseek :: "kernel \<Rightarrow> proc \<Rightarrow> nat \<Rightarrow> int \<Rightarrow> int \<Rightarrow> (kernel \<times> int) option" where
  "vfs_lseek k p oi off whence =
     (case ofd_kind (k_ofd k oi) of
        FD_FILE \<Rightarrow> Some (fop_lseek_rootfs k p oi off whence)
      | FD_TMPFS \<Rightarrow> Some (fop_lseek_tmpfs k oi off whence)
      | FD_PROC \<Rightarrow> Some (fop_lseek_proc k oi off whence)
      | _ \<Rightarrow> None)"

definition vfs_getdents :: "io_host \<Rightarrow> kernel \<Rightarrow> proc \<Rightarrow> nat \<Rightarrow> dirent_sink \<Rightarrow> (kernel \<times> int) option" where
  "vfs_getdents h k p oi sink =
     (case ofd_kind (k_ofd k oi) of
        FD_FILE \<Rightarrow> Some (fop_getdents_rootfs h k p oi sink)
      | FD_TMPFS \<Rightarrow> Some (fop_getdents_tmpfs h k p oi sink)
      | FD_PROC \<Rightarrow> Some (fop_getdents_proc h k p oi sink)
      | _ \<Rightarrow> None)"

definition vfs_fstat :: "kernel \<Rightarrow> proc \<Rightarrow> nat \<Rightarrow> stat option" where
  "vfs_fstat k p oi =
     (case ofd_kind (k_ofd k oi) of
        FD_FILE \<Rightarrow> Some (fop_fstat_rootfs k p oi)
      | FD_TMPFS \<Rightarrow> Some (fop_fstat_tmpfs k oi)
      | FD_PROC \<Rightarrow> Some (fop_fstat_proc k oi)
      | _ \<Rightarrow> None)"

definition vfs_ftruncate :: "kernel \<Rightarrow> nat \<Rightarrow> nat \<Rightarrow> (kernel \<times> int) option" where
  "vfs_ftruncate k oi newlen =
     (case ofd_kind (k_ofd k oi) of FD_TMPFS \<Rightarrow> Some (fop_ftruncate_tmpfs k oi newlen) | _ \<Rightarrow> None)"

definition vfs_ioctl :: "kernel \<Rightarrow> proc \<Rightarrow> nat \<Rightarrow> nat \<Rightarrow> nat \<Rightarrow> (kernel \<times> int) option" where
  "vfs_ioctl k p oi cmd arg =
     (case ofd_kind (k_ofd k oi) of FD_CONSOLE \<Rightarrow> Some (fop_ioctl_console k p cmd arg) | _ \<Rightarrow> None)"

definition vfs_poll :: "kernel \<Rightarrow> nat \<Rightarrow> nat option" where
  "vfs_poll k oi =
     (case ofd_kind (k_ofd k oi) of
        FD_PIPE \<Rightarrow> Some (fop_poll_pipe k oi)
      | FD_EVENTFD \<Rightarrow> Some (fop_poll_eventfd k oi)
      | _ \<Rightarrow> None)"

definition lxp_vfs_dir_path :: "kernel \<Rightarrow> proc \<Rightarrow> int \<Rightarrow> nat \<Rightarrow> path_result" where
  "lxp_vfs_dir_path k p fd cap =
     (case fd_lookup k p fd of
        None \<Rightarrow> Inl (- LXP_EBADF)
      | Some oi \<Rightarrow>
          (case ofd_kind (k_ofd k oi) of
             FD_FILE \<Rightarrow> fop_dir_path_rootfs k p oi cap
           | FD_TMPFS \<Rightarrow> fop_dir_path_tmpfs k oi cap
           | FD_PROC \<Rightarrow> fop_dir_path_proc k oi cap
           | _ \<Rightarrow>
               (case vfs_fstat k p oi of
                  None \<Rightarrow> Inl (- LXP_ENOTDIR)
                | Some st \<Rightarrow> Inl (if file_type (st_mode st) = LXP_S_IFDIR then - LXP_EOPNOTSUPP else - LXP_ENOTDIR))))"

abbreviation (input) LXP_AT_FDCWD :: int where "LXP_AT_FDCWD \<equiv> - 100"

definition proc_cwd :: "kernel \<Rightarrow> proc \<Rightarrow> string" where
  "proc_cwd k p = (case p_fs_context p of None \<Rightarrow> [] | Some i \<Rightarrow> fc_cwd (k_fs_context k i))"

definition lxp_resolve_path :: "kernel \<Rightarrow> proc \<Rightarrow> nat \<Rightarrow> nat \<Rightarrow> path_result" where
  "lxp_resolve_path k p src outlen =
     (let n = lxp_guest_strnlen k p src LXP_PATH_MAX in
      if n < 0 then Inl (- LXP_EFAULT) else resolve_from (proc_cwd k p) (guest_cstr k src (nat n)) outlen)"

definition lxp_resolve_path_at :: "kernel \<Rightarrow> proc \<Rightarrow> int \<Rightarrow> nat \<Rightarrow> nat \<Rightarrow> path_result" where
  "lxp_resolve_path_at k p dirfd src outlen =
     (if dirfd = LXP_AT_FDCWD then lxp_resolve_path k p src outlen
      else
        (let n = lxp_guest_strnlen k p src LXP_PATH_MAX in
         if n < 0 then Inl (- LXP_EFAULT)
         else
           (let s = guest_cstr k src (nat n) in
            if s \<noteq> [] \<and> hd s = SLASH then resolve_from ''/'' s outlen
            else
              (case lxp_vfs_dir_path k p dirfd LXP_PATH_MAX of
                 Inl e \<Rightarrow> Inl e
               | Inr base \<Rightarrow> resolve_from base s outlen))))"

end
