(* ===== verification/SysFd.thy ===== *)
theory SysFd
  imports Fops
begin

text \<open>
  The descriptor system calls (\<^verbatim>\<open>src/src/sys/lxp_sys_fd.c\<close>): read and write in their plain, vectored
  and positioned forms, seeking, truncation, pipes, duplication, fcntl, ioctl, directory reads and
  event counters, each with the entry point that unpacks the six argument registers
  (\<^verbatim>\<open>const long a[6]\<close>, a function from the register's index).
\<close>

section \<open>The model\<close>

type_synonym sysargs = "nat \<Rightarrow> int"
type_synonym sys_result = "proc \<times> kernel \<times> int"

definition LXP_SYSCALL_QUANTUM_BYTES :: nat where "LXP_SYSCALL_QUANTUM_BYTES = 4096"
definition LXP_SYSCALL_MAX_IOV :: int where "LXP_SYSCALL_MAX_IOV = 1024"

definition sys_write :: "io_host \<Rightarrow> kernel \<Rightarrow> proc \<Rightarrow> int \<Rightarrow> nat \<Rightarrow> nat \<Rightarrow> sys_result" where
  "sys_write h k p fd buf len =
     (case fd_lookup k p fd of
        None \<Rightarrow> (p, k, - LXP_EBADF)
      | Some oi \<Rightarrow>
          if \<not> lxp_guest_access_ok k p buf len False then (p, k, - LXP_EFAULT)
          else if \<not> lxp_vfs_writable (k_ofd k oi) then (p, k, - LXP_EBADF)
          else (case vfs_write h k p oi buf len of Some r \<Rightarrow> r | None \<Rightarrow> (p, k, - LXP_EBADF)))"

text \<open>The segments of a vectored write; \<open>n\<close> are left, \<open>i\<close> is the next.\<close>

definition total_or :: "int \<Rightarrow> int \<Rightarrow> int" where
  "total_or sofar e = (if sofar \<noteq> 0 then sofar else e)"

fun writev_loop :: "io_host \<Rightarrow> int \<Rightarrow> nat \<Rightarrow> bool \<Rightarrow> nat \<Rightarrow> nat \<Rightarrow> kernel \<Rightarrow> proc \<Rightarrow> int \<Rightarrow> nat \<Rightarrow> sys_result" where
  "writev_loop h fd iov single 0 i k p sofar budget = (p, k, sofar)"
| "writev_loop h fd iov single (Suc n) i k p sofar budget =
     (case lxp_copy_from_guest k p (uptr (iov + 8 * i)) 8 of
        None \<Rightarrow> (p, k, total_or sofar (- LXP_EFAULT))
      | Some entry \<Rightarrow>
          (let base = bytes_u32 (take 4 entry); iov_len = bytes_u32 (drop 4 entry) in
           if iov_len = 0 then writev_loop h fd iov single n (i + 1) k p sofar budget
           else
             (let len = (if iov_len < budget then iov_len else budget); (p', k', r) = sys_write h k p fd base len in
              if r < 0 then (p', k', total_or sofar r)
              else if nat r > len then (p', k', total_or sofar (- LXP_EIO))
              else
                (let sofar' = sofar + r; budget' = budget - nat r in
                 if single \<or> nat r < len \<or> len < iov_len \<or> budget' = 0 then (p', k', sofar')
                 else writev_loop h fd iov single n (i + 1) k' p' sofar' budget'))))"

definition sys_writev :: "io_host \<Rightarrow> kernel \<Rightarrow> proc \<Rightarrow> int \<Rightarrow> nat \<Rightarrow> int \<Rightarrow> sys_result" where
  "sys_writev h k p fd iov iovcnt =
     (if iovcnt < 0 \<or> iovcnt > LXP_SYSCALL_MAX_IOV then (p, k, - LXP_EINVAL)
      else if iovcnt \<noteq> 0 \<and> \<not> lxp_guest_access_ok k p iov (nat iovcnt * 8) False then (p, k, - LXP_EFAULT)
      else
        (case fd_lookup k p fd of
           None \<Rightarrow> (p, k, - LXP_EBADF)
         | Some oi \<Rightarrow>
             (let kind = ofd_kind (k_ofd k oi);
                  single = (kind = FD_PIPE \<or> kind = FD_DEV \<or> kind = FD_SOCKET \<or> kind = FD_PTY \<or> kind = FD_NET)
              in writev_loop h fd iov single (nat iovcnt) 0 k p 0 LXP_SYSCALL_QUANTUM_BYTES)))"

definition sys_read :: "io_host \<Rightarrow> kernel \<Rightarrow> proc \<Rightarrow> int \<Rightarrow> nat \<Rightarrow> nat \<Rightarrow> sys_result" where
  "sys_read h k p fd buf len =
     (case fd_lookup k p fd of
        None \<Rightarrow> (p, k, - LXP_EBADF)
      | Some oi \<Rightarrow>
          if \<not> lxp_guest_access_ok k p buf len True then (p, k, - LXP_EFAULT)
          else if \<not> lxp_vfs_readable (k_ofd k oi) then (p, k, - LXP_EBADF)
          else (case vfs_read h k p oi buf len of Some r \<Rightarrow> r | None \<Rightarrow> (p, k, - LXP_EBADF)))"

text \<open>Whether the kind's table has a positioned read, or a positioned write.\<close>

definition has_pread :: "ofd \<Rightarrow> bool" where
  "has_pread s \<longleftrightarrow> ofd_kind s = FD_FILE \<or> ofd_kind s = FD_TMPFS \<or> ofd_kind s = FD_PROC"

definition has_pwrite :: "ofd \<Rightarrow> bool" where
  "has_pwrite s \<longleftrightarrow> ofd_kind s = FD_TMPFS"

definition sys_pwrite :: "kernel \<Rightarrow> proc \<Rightarrow> int \<Rightarrow> nat \<Rightarrow> nat \<Rightarrow> nat \<Rightarrow> kernel \<times> int" where
  "sys_pwrite k p fd buf len off =
     (case fd_lookup k p fd of
        None \<Rightarrow> (k, - LXP_EBADF)
      | Some oi \<Rightarrow>
          (let s = k_ofd k oi in
           if \<not> lxp_guest_access_ok k p buf len False then (k, - LXP_EFAULT)
           else if \<not> has_pread s \<and> \<not> has_pwrite s then (k, - LXP_ESPIPE)
           else if \<not> lxp_vfs_writable s then (k, - LXP_EBADF)
           else (case vfs_pwrite k p oi buf len off of None \<Rightarrow> (k, - LXP_EBADF) | Some r \<Rightarrow> r)))"

definition sys_close :: "kernel \<Rightarrow> proc \<Rightarrow> int \<Rightarrow> kernel \<times> int" where
  "sys_close k p fd = lxp_fd_close k p fd"

definition pipe_discard :: "kernel \<Rightarrow> int \<Rightarrow> kernel" where
  "pipe_discard k pi = k\<lparr>k_pipes := lxp_pipe_discard (k_pipes k) pi\<rparr>"

definition pipe_end_open :: "kernel \<Rightarrow> int \<Rightarrow> bool \<Rightarrow> kernel" where
  "pipe_end_open k pi w = k\<lparr>k_pipes := lxp_pipe_end_open (k_pipes k) pi w\<rparr>"

definition sys_pipe :: "kernel \<Rightarrow> proc \<Rightarrow> nat \<Rightarrow> nat \<Rightarrow> kernel \<times> int" where
  "sys_pipe k p fds flags =
     (if \<not> lxp_guest_access_ok k p fds 8 True then (k, - LXP_EFAULT)
      else
        (let shared = flags AND (LXP_O_NONBLOCK OR LXP_O_CLOEXEC); (g, pi) = lxp_pipe_alloc (k_pipes k) in
         if pi < 0 then (k, - LXP_EMFILE)
         else
           (let k1 = k\<lparr>k_pipes := g\<rparr> in
            if lxp_fd_free_count k1 p < 2 then (pipe_discard k1 pi, - LXP_EMFILE)
            else
              (let (k2, rfd) = lxp_sys_fd_alloc k1 p FD_PIPE pi 0 (LXP_O_RDONLY OR shared) in
               if rfd < 0 then (pipe_discard k2 pi, - LXP_EMFILE)
               else
                 (let k3 = pipe_end_open k2 pi False; (k4, wfd) = lxp_sys_fd_alloc k3 p FD_PIPE pi 0 (LXP_O_WRONLY OR shared) in
                  if wfd < 0 then (fst (sys_close k4 p rfd), - LXP_EMFILE)
                  else
                    (let (k5, _) = lxp_fd_set_end k4 p wfd True; k6 = pipe_end_open k5 pi True;
                         (k7, rc) = lxp_copy_to_guest k6 p fds (u32_bytes (nat rfd) @ u32_bytes (nat wfd))
                     in if rc \<noteq> 0 then (fst (sys_close (fst (sys_close k7 p rfd)) p wfd), - LXP_EFAULT) else (k7, 0)))))))"

definition sys_dup2 :: "kernel \<Rightarrow> proc \<Rightarrow> int \<Rightarrow> int \<Rightarrow> kernel \<times> int" where
  "sys_dup2 k p oldfd newfd = lxp_fd_dup_to k p oldfd newfd False"

definition sys_dup :: "kernel \<Rightarrow> proc \<Rightarrow> int \<Rightarrow> kernel \<times> int" where
  "sys_dup k p oldfd = lxp_fd_dup_min k p oldfd 0 False"

definition fd_seek :: "kernel \<Rightarrow> proc \<Rightarrow> int \<Rightarrow> int \<Rightarrow> int \<Rightarrow> kernel \<times> int" where
  "fd_seek k p fd off whence =
     (case fd_lookup k p fd of
        None \<Rightarrow> (k, - LXP_EBADF)
      | Some oi \<Rightarrow> (case vfs_lseek k p oi off whence of None \<Rightarrow> (k, - LXP_ESPIPE) | Some r \<Rightarrow> r))"

definition INT32_MAX :: int where "INT32_MAX = 2147483647"

definition sys_lseek :: "kernel \<Rightarrow> proc \<Rightarrow> int \<Rightarrow> int \<Rightarrow> int \<Rightarrow> kernel \<times> int" where
  "sys_lseek k p fd off whence =
     (case fd_seek k p fd off whence of (k', pos) \<Rightarrow> (k', if pos > INT32_MAX then - LXP_EOVERFLOW else pos))"

definition to_int64 :: "nat \<Rightarrow> int" where
  "to_int64 v = (let u = int (v mod 2 ^ 64) in if u < 2 ^ 63 then u else u - 2 ^ 64)"

definition sys_llseek :: "kernel \<Rightarrow> proc \<Rightarrow> int \<Rightarrow> nat \<Rightarrow> nat \<Rightarrow> nat \<Rightarrow> int \<Rightarrow> kernel \<times> int" where
  "sys_llseek k p fd off_hi off_lo result whence =
     (let (k1, pos) = fd_seek k p fd (to_int64 (off_lo + off_hi * 2 ^ 32)) whence in
      if pos < 0 then (k1, pos)
      else if result \<noteq> 0 then
        (let (k2, rc) = lxp_copy_to_guest k1 p result (le_bytes 8 (nat pos)) in
         if rc \<noteq> 0 then (k2, - LXP_EFAULT) else (k2, 0))
      else (k1, 0))"

definition sys_ftruncate :: "kernel \<Rightarrow> proc \<Rightarrow> int \<Rightarrow> nat \<Rightarrow> kernel \<times> int" where
  "sys_ftruncate k p fd len =
     (if to_int64 len < 0 then (k, - LXP_EINVAL)
      else
        (case fd_lookup k p fd of
           None \<Rightarrow> (k, - LXP_EBADF)
         | Some oi \<Rightarrow>
             if \<not> lxp_vfs_writable (k_ofd k oi) then (k, - LXP_EINVAL)
             else (case vfs_ftruncate k oi len of None \<Rightarrow> (k, - LXP_EINVAL) | Some r \<Rightarrow> r)))"

text \<open>No kind of the core configuration has an \<^verbatim>\<open>fsync\<close> operation.\<close>

definition sys_sync_fd :: "kernel \<Rightarrow> proc \<Rightarrow> int \<Rightarrow> int" where
  "sys_sync_fd k p fd = (case fd_lookup k p fd of None \<Rightarrow> - LXP_EBADF | Some _ \<Rightarrow> 0)"

abbreviation (input) LXP_F_DUPFD :: int where "LXP_F_DUPFD \<equiv> 0"
abbreviation (input) LXP_F_GETFD :: int where "LXP_F_GETFD \<equiv> 1"
abbreviation (input) LXP_F_SETFD :: int where "LXP_F_SETFD \<equiv> 2"
abbreviation (input) LXP_F_GETFL :: int where "LXP_F_GETFL \<equiv> 3"
abbreviation (input) LXP_F_SETFL :: int where "LXP_F_SETFL \<equiv> 4"
abbreviation (input) LXP_F_DUPFD_CLOEXEC :: int where "LXP_F_DUPFD_CLOEXEC \<equiv> 1030"

definition sys_fcntl :: "kernel \<Rightarrow> proc \<Rightarrow> int \<Rightarrow> int \<Rightarrow> int \<Rightarrow> kernel \<times> int" where
  "sys_fcntl k p a0 a1 a2 =
     (case fd_lookup k p a0 of
        None \<Rightarrow> (k, - LXP_EBADF)
      | Some oi \<Rightarrow>
          if a1 = LXP_F_DUPFD \<or> a1 = LXP_F_DUPFD_CLOEXEC then
            lxp_fd_dup_min k p a0 (if a2 < 0 \<or> a2 \<ge> int LXP_MAX_FDS then 0 else a2) (a1 = LXP_F_DUPFD_CLOEXEC)
          else if a1 = LXP_F_SETFL then
            (ofd_put k oi ((k_ofd k oi)\<lparr>ofd_nonblock := has_flag (to_u32 a2) LXP_O_NONBLOCK\<rparr>), 0)
          else if a1 = LXP_F_GETFL then
            (k, int (ofd_accmode (k_ofd k oi) OR (if ofd_nonblock (k_ofd k oi) then LXP_O_NONBLOCK else 0)))
          else if a1 = LXP_F_SETFD then lxp_fd_set_cloexec k p a0 (has_flag (to_u32 a2) 1)
          else if a1 = LXP_F_GETFD then (k, let c = lxp_fd_get_cloexec k p a0 in if c > 0 then 1 else c)
          else (k, 0))"

definition sys_ioctl :: "kernel \<Rightarrow> proc \<Rightarrow> int \<Rightarrow> nat \<Rightarrow> nat \<Rightarrow> kernel \<times> int" where
  "sys_ioctl k p fd cmd arg =
     (case fd_lookup k p fd of
        None \<Rightarrow> (k, - LXP_ENOTTY)
      | Some oi \<Rightarrow> (case vfs_ioctl k p oi cmd arg of None \<Rightarrow> (k, - LXP_ENOTTY) | Some r \<Rightarrow> r))"

definition sys_getdents64 :: "io_host \<Rightarrow> kernel \<Rightarrow> proc \<Rightarrow> int \<Rightarrow> nat \<Rightarrow> nat \<Rightarrow> bool \<Rightarrow> kernel \<times> int" where
  "sys_getdents64 h k p fd buf count is64 =
     (case fd_lookup k p fd of
        None \<Rightarrow> (k, - LXP_EBADF)
      | Some oi \<Rightarrow>
          if \<not> lxp_guest_access_ok k p buf count True then (k, - LXP_EFAULT)
          else
            (case vfs_getdents h k p oi \<lparr>ds_ubuf = buf, ds_cap = count, ds_filled = 0, ds_error = 0, ds_is64 = is64\<rparr> of
               None \<Rightarrow> (k, - LXP_ENOTDIR)
             | Some r \<Rightarrow> r))"

definition lxp_sys_fd_pread :: "kernel \<Rightarrow> proc \<Rightarrow> int \<Rightarrow> nat \<Rightarrow> nat \<Rightarrow> nat \<Rightarrow> kernel \<times> int" where
  "lxp_sys_fd_pread k p fd buf len off =
     (case fd_lookup k p fd of
        None \<Rightarrow> (k, - LXP_EBADF)
      | Some oi \<Rightarrow>
          if \<not> lxp_guest_access_ok k p buf len True then (k, - LXP_EFAULT)
          else
            (case vfs_pread k p oi buf len off of
               None \<Rightarrow> (k, - LXP_ESPIPE)
             | Some r \<Rightarrow> if \<not> lxp_vfs_readable (k_ofd k oi) then (k, - LXP_EBADF) else r))"

section \<open>Entry points\<close>

definition lxp_sys_read :: "io_host \<Rightarrow> kernel \<Rightarrow> proc \<Rightarrow> sysargs \<Rightarrow> sys_result" where
  "lxp_sys_read h k p a = sys_read h k p (a 0) (to_u32 (a 1)) (to_u32 (a 2))"

definition lxp_sys_write :: "io_host \<Rightarrow> kernel \<Rightarrow> proc \<Rightarrow> sysargs \<Rightarrow> sys_result" where
  "lxp_sys_write h k p a = sys_write h k p (a 0) (to_u32 (a 1)) (to_u32 (a 2))"

definition lxp_sys_writev :: "io_host \<Rightarrow> kernel \<Rightarrow> proc \<Rightarrow> sysargs \<Rightarrow> sys_result" where
  "lxp_sys_writev h k p a = sys_writev h k p (a 0) (to_u32 (a 1)) (a 2)"

text \<open>A 64-bit argument in two registers, low word first.\<close>

definition reg_pair :: "int \<Rightarrow> int \<Rightarrow> nat" where
  "reg_pair lo hi = to_u32 lo + to_u32 hi * 2 ^ 32"

definition lxp_sys_pread64 :: "kernel \<Rightarrow> proc \<Rightarrow> sysargs \<Rightarrow> kernel \<times> int" where
  "lxp_sys_pread64 k p a = lxp_sys_fd_pread k p (a 0) (to_u32 (a 1)) (to_u32 (a 2)) (reg_pair (a 4) (a 5))"

definition lxp_sys_pwrite64 :: "kernel \<Rightarrow> proc \<Rightarrow> sysargs \<Rightarrow> kernel \<times> int" where
  "lxp_sys_pwrite64 k p a = sys_pwrite k p (a 0) (to_u32 (a 1)) (to_u32 (a 2)) (reg_pair (a 4) (a 5))"

definition lxp_sys_close :: "kernel \<Rightarrow> proc \<Rightarrow> sysargs \<Rightarrow> kernel \<times> int" where
  "lxp_sys_close k p a = sys_close k p (a 0)"

definition lxp_sys_pipe :: "kernel \<Rightarrow> proc \<Rightarrow> sysargs \<Rightarrow> kernel \<times> int" where
  "lxp_sys_pipe k p a = sys_pipe k p (to_u32 (a 0)) 0"

definition lxp_sys_pipe2 :: "kernel \<Rightarrow> proc \<Rightarrow> sysargs \<Rightarrow> kernel \<times> int" where
  "lxp_sys_pipe2 k p a = sys_pipe k p (to_u32 (a 0)) (to_u32 (a 1))"

definition lxp_sys_dup :: "kernel \<Rightarrow> proc \<Rightarrow> sysargs \<Rightarrow> kernel \<times> int" where
  "lxp_sys_dup k p a = sys_dup k p (a 0)"

definition lxp_sys_dup2 :: "kernel \<Rightarrow> proc \<Rightarrow> sysargs \<Rightarrow> kernel \<times> int" where
  "lxp_sys_dup2 k p a = sys_dup2 k p (a 0) (a 1)"

definition lxp_sys_dup3 :: "kernel \<Rightarrow> proc \<Rightarrow> sysargs \<Rightarrow> kernel \<times> int" where
  "lxp_sys_dup3 k p a =
     (if a 0 = a 1 then (k, - LXP_EINVAL) else lxp_fd_dup_to k p (a 0) (a 1) (has_flag (to_u32 (a 2)) LXP_O_CLOEXEC))"

definition lxp_sys_lseek :: "kernel \<Rightarrow> proc \<Rightarrow> sysargs \<Rightarrow> kernel \<times> int" where
  "lxp_sys_lseek k p a = sys_lseek k p (a 0) (a 1) (a 2)"

definition lxp_sys_llseek :: "kernel \<Rightarrow> proc \<Rightarrow> sysargs \<Rightarrow> kernel \<times> int" where
  "lxp_sys_llseek k p a = sys_llseek k p (a 0) (to_u32 (a 1)) (to_u32 (a 2)) (to_u32 (a 3)) (a 4)"

definition lxp_sys_ftruncate64 :: "kernel \<Rightarrow> proc \<Rightarrow> sysargs \<Rightarrow> kernel \<times> int" where
  "lxp_sys_ftruncate64 k p a = sys_ftruncate k p (a 0) (reg_pair (a 2) (a 3))"

definition lxp_sys_fsync :: "kernel \<Rightarrow> proc \<Rightarrow> sysargs \<Rightarrow> int" where
  "lxp_sys_fsync k p a = sys_sync_fd k p (a 0)"

definition lxp_sys_syncfs :: "kernel \<Rightarrow> proc \<Rightarrow> sysargs \<Rightarrow> int" where
  "lxp_sys_syncfs k p a = (case fd_lookup k p (a 0) of None \<Rightarrow> - LXP_EBADF | Some _ \<Rightarrow> 0)"

definition lxp_sys_fcntl :: "kernel \<Rightarrow> proc \<Rightarrow> sysargs \<Rightarrow> kernel \<times> int" where
  "lxp_sys_fcntl k p a = sys_fcntl k p (a 0) (a 1) (a 2)"

definition lxp_sys_ioctl :: "kernel \<Rightarrow> proc \<Rightarrow> sysargs \<Rightarrow> kernel \<times> int" where
  "lxp_sys_ioctl k p a = sys_ioctl k p (a 0) (to_u32 (a 1)) (to_u32 (a 2))"

definition lxp_sys_getdents :: "io_host \<Rightarrow> kernel \<Rightarrow> proc \<Rightarrow> sysargs \<Rightarrow> kernel \<times> int" where
  "lxp_sys_getdents h k p a = sys_getdents64 h k p (a 0) (to_u32 (a 1)) (to_u32 (a 2)) False"

definition lxp_sys_getdents64 :: "io_host \<Rightarrow> kernel \<Rightarrow> proc \<Rightarrow> sysargs \<Rightarrow> kernel \<times> int" where
  "lxp_sys_getdents64 h k p a = sys_getdents64 h k p (a 0) (to_u32 (a 1)) (to_u32 (a 2)) True"

definition lxp_sys_eventfd2 :: "kernel \<Rightarrow> proc \<Rightarrow> sysargs \<Rightarrow> kernel \<times> int" where
  "lxp_sys_eventfd2 k p a = lxp_eventfd_open k p (to_u32 (a 0)) (to_u32 (a 1))"

end
