(* ===== verification/Overlay.thy ===== *)
theory Overlay
  imports Fops
begin

text \<open>
  The root mount (\<^verbatim>\<open>src/src/fs/lxp_overlay.c\<close>): writable nodes over the read-only rootfs, and the
  \<^verbatim>\<open>/dev\<close> mount (\<^verbatim>\<open>src/src/fs/lxp_devfs.c\<close>) of the core configuration, where the console nodes are all
  it holds.  A stat gives the attributes or a negated errno.
\<close>

section \<open>The model\<close>

definition lxp_fs_lookup :: "kernel \<Rightarrow> proc \<Rightarrow> string \<Rightarrow> int" where
  "lxp_fs_lookup k p abspath = fsx_lookup (proc_fs k p) abspath"

definition lxp_fs_follow :: "kernel \<Rightarrow> proc \<Rightarrow> int \<Rightarrow> int" where
  "lxp_fs_follow k p idx = fsx_follow (proc_fs k p) idx"

definition mode_is_dir :: "nat \<Rightarrow> bool" where
  "mode_is_dir mode \<longleftrightarrow> file_type mode = LXP_S_IFDIR"

definition rootfs_mode :: "kernel \<Rightarrow> proc \<Rightarrow> int \<Rightarrow> nat" where
  "rootfs_mode k p fi = lxp_file_mode (proc_fs k p ! nat fi)"

definition node_put :: "kernel \<Rightarrow> int \<Rightarrow> wnode \<Rightarrow> kernel" where
  "node_put k wi n = k\<lparr>k_wfs := wnode_put (k_wfs k) wi n\<rparr>"

definition overlay_open :: "kernel \<Rightarrow> proc \<Rightarrow> string \<Rightarrow> nat \<Rightarrow> kernel \<times> int" where
  "overlay_open k p path flags =
     (let wi = lxp_wfs_find (k_wfs k) path in
      if flags AND LXP_O_ACCMODE \<noteq> LXP_O_RDONLY \<or> has_flag flags LXP_O_CREAT then
        (if wi < 0 then
           (let fi = lxp_fs_lookup k p path in
            if fi \<ge> 0 then
              (let fi' = lxp_fs_follow k p fi in
               (k, if fi' \<ge> 0 \<and> mode_is_dir (rootfs_mode k p fi') then - LXP_EISDIR else - LXP_EROFS))
            else if \<not> has_flag flags LXP_O_CREAT then (k, - LXP_ENOENT)
            else
              (let (w, ni) = lxp_wfs_create (k_wfs k) path (LXP_S_IFREG OR 0x1a4); k1 = k\<lparr>k_wfs := w\<rparr> in
               if ni < 0 then (k1, - LXP_EMFILE)
               else lxp_sys_fd_alloc k1 p FD_TMPFS ni
                      (if has_flag flags LXP_O_APPEND then wn_size (wnode_at w ni) else 0) flags))
         else if wnode_is_dir (wnode_at (k_wfs k) wi) then (k, - LXP_EISDIR)
         else
           (let k1 = (if has_flag flags LXP_O_TRUNC then node_put k wi ((wnode_at (k_wfs k) wi)\<lparr>wn_size := 0\<rparr>) else k) in
            lxp_sys_fd_alloc k1 p FD_TMPFS wi
              (if has_flag flags LXP_O_APPEND then wn_size (wnode_at (k_wfs k1) wi) else 0) flags))
      else if wi \<ge> 0 then lxp_sys_fd_alloc k p FD_TMPFS wi 0 flags
      else
        (let fi = lxp_fs_follow k p (lxp_fs_lookup k p path) in
         if fi \<ge> 0 then lxp_sys_fd_alloc k p FD_FILE fi 0 flags else (k, - LXP_ENOENT)))"

definition overlay_stat :: "kernel \<Rightarrow> proc \<Rightarrow> string \<Rightarrow> bool \<Rightarrow> int + stat" where
  "overlay_stat k p path follow =
     (let wi = lxp_wfs_find (k_wfs k) path in
      if wi \<ge> 0 then
        Inr (lxp_stat_init (LXP_INO_TMPFS + nat wi) (wn_mode (wnode_at (k_wfs k) wi)) (wn_size (wnode_at (k_wfs k) wi)))
      else
        (let fi0 = lxp_fs_lookup k p path; fi = (if fi0 \<ge> 0 \<and> follow then lxp_fs_follow k p fi0 else fi0) in
         if fi \<ge> 0 then
           Inr (lxp_stat_init (LXP_INO_ROOTFS + nat fi) (rootfs_mode k p fi) (length (rf_data (proc_fs k p ! nat fi))))
         else if path = ''/'' then Inr (lxp_stat_init (LXP_INO_ROOTFS + nat (p_fs_count p)) (LXP_S_IFDIR OR 0x1ed) 0)
         else Inl (- LXP_ENOENT)))"

definition overlay_exists :: "kernel \<Rightarrow> proc \<Rightarrow> string \<Rightarrow> bool" where
  "overlay_exists k p path = (case overlay_stat k p path False of Inl _ \<Rightarrow> False | Inr _ \<Rightarrow> True)"

definition overlay_mkdir :: "kernel \<Rightarrow> proc \<Rightarrow> string \<Rightarrow> nat \<Rightarrow> kernel \<times> int" where
  "overlay_mkdir k p path mode =
     (if overlay_exists k p path then (k, - LXP_EEXIST)
      else
        (let (w, ni) = lxp_wfs_create (k_wfs k) path (LXP_S_IFDIR OR (mode AND 0x1ff)) in
         (k\<lparr>k_wfs := w\<rparr>, if ni < 0 then - LXP_ENOSPC else 0)))"

definition node_free :: "kernel \<Rightarrow> int \<Rightarrow> kernel" where
  "node_free k wi = (case lxp_wfs_free (mc_mem k) (k_wfs k) wi of (m, w) \<Rightarrow> k\<lparr>mc_mem := m, k_wfs := w\<rparr>)"

definition overlay_has_child :: "kernel \<Rightarrow> string \<Rightarrow> bool" where
  "overlay_has_child k path \<longleftrightarrow>
     scan (\<lambda>j. wn_used (wf_nodes (k_wfs k) j) \<and> lxp_path_child_name path (wn_path (wf_nodes (k_wfs k) j)) \<noteq> None)
       0 LXP_NWNODE \<noteq> None"

definition overlay_remove :: "kernel \<Rightarrow> proc \<Rightarrow> string \<Rightarrow> bool \<Rightarrow> kernel \<times> int" where
  "overlay_remove k p path dir =
     (let wi = lxp_wfs_find (k_wfs k) path in
      if wi < 0 then (k, if lxp_fs_lookup k p path \<ge> 0 then - LXP_EROFS else - LXP_ENOENT)
      else
        (let node_is_dir = wnode_is_dir (wnode_at (k_wfs k) wi) in
         if dir \<and> \<not> node_is_dir then (k, - LXP_ENOTDIR)
         else if \<not> dir \<and> node_is_dir then (k, - LXP_EISDIR)
         else if node_is_dir \<and> overlay_has_child k path then (k, - LXP_ENOTEMPTY)
         else (node_free k wi, 0)))"

definition node_reserve :: "kernel \<Rightarrow> int \<Rightarrow> nat \<Rightarrow> kernel \<times> int" where
  "node_reserve k wi n =
     (case lxp_wfs_reserve (mc_mem k) (k_wfs k) wi n of (m, w, rc) \<Rightarrow> (k\<lparr>mc_mem := m, k_wfs := w\<rparr>, rc))"

text \<open>Store the bytes of a new node and set its size.\<close>

definition node_fill :: "kernel \<Rightarrow> int \<Rightarrow> byte list \<Rightarrow> kernel" where
  "node_fill k wi bs =
     (let n = wnode_at (k_wfs k) wi; k1 = k\<lparr>mc_mem := mem_write (mc_mem k) (wn_data n) bs\<rparr>
      in node_put k1 wi (n\<lparr>wn_size := length bs\<rparr>))"

definition overlay_symlink :: "kernel \<Rightarrow> proc \<Rightarrow> byte list \<Rightarrow> string \<Rightarrow> kernel \<times> int" where
  "overlay_symlink k p target path =
     (if overlay_exists k p path then (k, - LXP_EEXIST)
      else
        (let (w, wi) = lxp_wfs_create (k_wfs k) path (LXP_S_IFLNK OR 0x1ff); k1 = k\<lparr>k_wfs := w\<rparr> in
         if wi < 0 then (k1, - LXP_ENOSPC)
         else
           (let (k2, rc) = node_reserve k1 wi (length target) in
            if rc < 0 then (node_free k2 wi, - LXP_ENOSPC) else (node_fill k2 wi target, 0))))"

text \<open>The bytes and mode a link copies.\<close>

definition link_source :: "kernel \<Rightarrow> proc \<Rightarrow> string \<Rightarrow> (byte list \<times> nat) option" where
  "link_source k p path =
     (let wi = lxp_wfs_find (k_wfs k) path in
      if wi \<ge> 0 then
        (let n = wnode_at (k_wfs k) wi in Some (mem_read (mc_mem k) (wn_data n) (wn_size n), wn_mode n))
      else
        (let fi = lxp_fs_lookup k p path in
         if fi < 0 then None
         else Some (bytes_of_string (rf_data (proc_fs k p ! nat fi)), rootfs_mode k p fi)))"

definition overlay_link :: "kernel \<Rightarrow> proc \<Rightarrow> string \<Rightarrow> string \<Rightarrow> kernel \<times> int" where
  "overlay_link k p src to =
     (if overlay_exists k p to then (k, - LXP_EEXIST)
      else
        (case link_source k p src of
           None \<Rightarrow> (k, - LXP_ENOENT)
         | Some (bs, mode) \<Rightarrow>
             if mode_is_dir mode then (k, - LXP_EPERM)
             else
               (let (w, ni) = lxp_wfs_create (k_wfs k) to (LXP_S_IFREG OR (mode AND 0x1ff)); k1 = k\<lparr>k_wfs := w\<rparr> in
                if ni < 0 then (k1, - LXP_ENOSPC)
                else if length bs > 0 then
                  (let (k2, rc) = node_reserve k1 ni (length bs) in
                   if rc < 0 then (node_free k2 ni, - LXP_ENOSPC) else (node_fill k2 ni bs, 0))
                else (k1, 0))))"

definition overlay_rename :: "kernel \<Rightarrow> proc \<Rightarrow> string \<Rightarrow> string \<Rightarrow> kernel \<times> int" where
  "overlay_rename k p src to =
     (let wi = lxp_wfs_find (k_wfs k) src in
      if wi < 0 then (k, if lxp_fs_lookup k p src \<ge> 0 then - LXP_EROFS else - LXP_ENOENT)
      else if lxp_wfs_find (k_wfs k) to < 0 \<and> lxp_fs_lookup k p to \<ge> 0 then (k, - LXP_EROFS)
      else (case lxp_wfs_rename (mc_mem k) (k_wfs k) wi to of (m, w, rc) \<Rightarrow> (k\<lparr>mc_mem := m, k_wfs := w\<rparr>, rc)))"

definition overlay_chmod :: "kernel \<Rightarrow> proc \<Rightarrow> string \<Rightarrow> nat \<Rightarrow> kernel \<times> int" where
  "overlay_chmod k p path mode =
     (let wi = lxp_wfs_find (k_wfs k) path; n = wnode_at (k_wfs k) wi in
      if wi \<ge> 0 then (node_put k wi (n\<lparr>wn_mode := (wn_mode n AND LXP_S_IFMT) OR (mode AND 0x1ff)\<rparr>), 0)
      else (k, if overlay_exists k p path then 0 else - LXP_ENOENT))"

definition overlay_utimens :: "kernel \<Rightarrow> proc \<Rightarrow> string \<Rightarrow> int" where
  "overlay_utimens k p path = (if overlay_exists k p path then 0 else - LXP_ENOENT)"

text \<open>The mode, address and bytes of the name; a link with no address has no target.\<close>

definition overlay_readlink :: "kernel \<Rightarrow> proc \<Rightarrow> string \<Rightarrow> nat \<Rightarrow> path_result" where
  "overlay_readlink k p path cap =
     (let wi = lxp_wfs_find (k_wfs k) path; fi = lxp_fs_lookup k p path in
      if wi < 0 \<and> fi < 0 then Inl (if overlay_exists k p path then - LXP_EINVAL else - LXP_ENOENT)
      else
        (let n = wnode_at (k_wfs k) wi; f = proc_fs k p ! nat fi;
             (mode, addr, text) =
               (if wi \<ge> 0 then (wn_mode n, wn_data n, string_of_bytes (mem_read (mc_mem k) (wn_data n) (wn_size n)))
                else (lxp_file_mode f, rf_addr f, rf_data f))
         in if file_type mode \<noteq> LXP_S_IFLNK \<or> addr = 0 then Inl (- LXP_EINVAL) else Inr (take cap text)))"

definition lxp_overlay_foreign_link :: "kernel \<Rightarrow> proc \<Rightarrow> string \<Rightarrow> string" where
  "lxp_overlay_foreign_link k p path =
     (let wi = lxp_wfs_find (k_wfs k) path; fi = lxp_fs_lookup k p path;
          foreign =
            (if wi \<ge> 0 then file_type (wn_mode (wnode_at (k_wfs k) wi)) = LXP_S_IFLNK
             else \<not> (fi < 0 \<or> file_type (rootfs_mode k p fi) \<noteq> LXP_S_IFLNK \<or> lxp_fs_follow k p fi \<ge> 0))
      in if \<not> foreign then []
         else (case overlay_readlink k p path LXP_PATH_MAX of Inl _ \<Rightarrow> [] | Inr text \<Rightarrow> text))"

definition overlay_access :: "kernel \<Rightarrow> proc \<Rightarrow> string \<Rightarrow> nat \<Rightarrow> int" where
  "overlay_access k p path mode =
     (case overlay_stat k p path False of
        Inl e \<Rightarrow> e
      | Inr st \<Rightarrow>
          if has_flag mode 2 \<and> lxp_wfs_find (k_wfs k) path < 0 \<and> \<not> mode_is_dir (st_mode st) then - LXP_EROFS else 0)"

definition set_cwd :: "kernel \<Rightarrow> proc \<Rightarrow> string \<Rightarrow> kernel" where
  "set_cwd k p dir =
     (case p_fs_context p of
        None \<Rightarrow> k
      | Some i \<Rightarrow> k\<lparr>k_fs_context := (k_fs_context k)(i := (k_fs_context k i)\<lparr>fc_cwd := dir\<rparr>)\<rparr>)"

definition overlay_chdir :: "kernel \<Rightarrow> proc \<Rightarrow> string \<Rightarrow> kernel \<times> int" where
  "overlay_chdir k p path =
     (case overlay_stat k p path True of
        Inl e \<Rightarrow> (k, e)
      | Inr st \<Rightarrow>
          if \<not> mode_is_dir (st_mode st) then (k, - LXP_ENOTDIR)
          else
            (let fi = lxp_fs_follow k p (lxp_fs_lookup k p path);
                 dir = (if lxp_wfs_find (k_wfs k) path < 0 \<and> fi \<ge> 0 then rf_path (proc_fs k p ! nat fi) else path)
             in if length dir \<ge> LXP_PATH_MAX then (k, - LXP_ENAMETOOLONG) else (set_cwd k p dir, 0)))"

text \<open>The program at a path: its address and size, and its rootfs index (or -1).\<close>

definition overlay_exec :: "kernel \<Rightarrow> proc \<Rightarrow> string \<Rightarrow> int + (nat \<times> nat \<times> int)" where
  "overlay_exec k p path =
     (let wi = lxp_wfs_find (k_wfs k) path in
      if wi \<ge> 0 then
        (let n = wnode_at (k_wfs k) wi in if wnode_is_dir n then Inl (- LXP_EACCES) else Inr (wn_data n, wn_size n, - 1))
      else
        (let fi = lxp_fs_follow k p (lxp_fs_lookup k p path) in
         if fi < 0 then Inl (- LXP_ENOENT)
         else if mode_is_dir (rootfs_mode k p fi) then Inl (- LXP_EACCES)
         else (let f = proc_fs k p ! nat fi in Inr (rf_addr f, length (rf_data f), fi))))"

subsection \<open>\<^verbatim>\<open>/dev\<close>\<close>

definition devfs_open :: "kernel \<Rightarrow> proc \<Rightarrow> string \<Rightarrow> nat \<Rightarrow> kernel \<times> int" where
  "devfs_open k p path flags =
     (case find_console_node path of
        Some c \<Rightarrow> lxp_fd_install k p FD_CONSOLE (cn_idx c) flags
      | None \<Rightarrow> (k, - LXP_ENOENT))"

definition devfs_node :: "nat \<Rightarrow> nat \<Rightarrow> nat \<Rightarrow> nat \<Rightarrow> stat" where
  "devfs_node ino mode major minor =
     (lxp_stat_init ino (LXP_S_IFCHR OR mode) 0)\<lparr>st_rdev := (major * 256) OR minor\<rparr>"

definition console_index :: "string \<Rightarrow> nat" where
  "console_index path = length (takeWhile (\<lambda>c. cn_path c \<noteq> path) g_console)"

definition devfs_stat :: "string \<Rightarrow> int + stat" where
  "devfs_stat path =
     (case find_console_node path of
        Some c \<Rightarrow> Inr (devfs_node (LXP_INO_DEVFS + console_index path) 0x1b6 (cn_major c) (cn_minor c))
      | None \<Rightarrow> Inl (- LXP_ENOENT))"

definition devfs_access :: "string \<Rightarrow> nat \<Rightarrow> int" where
  "devfs_access path mode =
     (case devfs_stat path of Inl e \<Rightarrow> e | Inr st \<Rightarrow> if has_flag mode 1 then - LXP_EACCES else 0)"

end
