(* ===== verification/SysPath.thy ===== *)
theory SysPath
  imports Overlay SysFd
begin

text \<open>
  The path-name system calls (\<^verbatim>\<open>src/src/sys/lxp_sys_path.c\<close>): each resolves a guest path, follows the
  links that leave the root overlay and hands the name to the mount that answers it.  The mounts of
  the core configuration are \<^verbatim>\<open>/proc\<close>, \<^verbatim>\<open>/dev\<close> and the root, so the operation tables
  \<^verbatim>\<open>lxp_procfs_mount_ops\<close>, \<^verbatim>\<open>lxp_devfs_mount_ops\<close> and \<^verbatim>\<open>lxp_overlay_mount_ops\<close> become a choice on
  the mount's identity.
\<close>

section \<open>The model\<close>

abbreviation (input) LXP_O_NOFOLLOW :: nat where "LXP_O_NOFOLLOW \<equiv> 0x8000"
abbreviation (input) LXP_AT_SYMLINK_NOFOLLOW :: nat where "LXP_AT_SYMLINK_NOFOLLOW \<equiv> 0x100"
abbreviation (input) LXP_AT_REMOVEDIR :: nat where "LXP_AT_REMOVEDIR \<equiv> 0x200"
abbreviation (input) LXP_AT_EMPTY_PATH :: nat where "LXP_AT_EMPTY_PATH \<equiv> 0x1000"
abbreviation (input) LXP_INO_DEV :: nat where "LXP_INO_DEV \<equiv> 0x300000"
abbreviation (input) LXP_ERANGE :: int where "LXP_ERANGE \<equiv> 34"

definition mount_of :: "string \<Rightarrow> mount_id" where
  "mount_of path = lxp_mount_of g_mounts path"

definition mount_follow :: "kernel \<Rightarrow> proc \<Rightarrow> string \<Rightarrow> path_result" where
  "mount_follow k p path = lxp_mount_follow g_mounts (lxp_overlay_foreign_link k p) path"

definition mount_stat :: "io_host \<Rightarrow> kernel \<Rightarrow> proc \<Rightarrow> mount_id \<Rightarrow> string \<Rightarrow> bool \<Rightarrow> int + stat" where
  "mount_stat h k p m path follow =
     (case m of
        PROCFS \<Rightarrow> procfs_mount_stat h p path follow
      | DEVFS \<Rightarrow> devfs_stat path
      | _ \<Rightarrow> overlay_stat k p path follow)"

definition mount_open :: "io_host \<Rightarrow> kernel \<Rightarrow> proc \<Rightarrow> mount_id \<Rightarrow> string \<Rightarrow> nat \<Rightarrow> kernel \<times> int" where
  "mount_open h k p m path flags =
     (case m of
        PROCFS \<Rightarrow> procfs_mount_open h k p path flags
      | DEVFS \<Rightarrow> devfs_open k p path flags
      | _ \<Rightarrow> overlay_open k p path flags)"

definition mount_name_errno :: "mount_id \<Rightarrow> int" where
  "mount_name_errno m = (case m of PROCFS \<Rightarrow> LXP_EPERM | DEVFS \<Rightarrow> LXP_EPERM | _ \<Rightarrow> LXP_EROFS)"

definition sys_openat :: "io_host \<Rightarrow> kernel \<Rightarrow> proc \<Rightarrow> int \<Rightarrow> nat \<Rightarrow> nat \<Rightarrow> kernel \<times> int" where
  "sys_openat h k p dirfd path flags =
     (if path = 0 then (k, - LXP_EFAULT)
      else
        (case lxp_resolve_path_at k p dirfd path LXP_PATH_MAX of
           Inl e \<Rightarrow> (k, e)
         | Inr abspath \<Rightarrow>
             if has_flag flags LXP_O_NOFOLLOW then
               (case mount_stat h k p (mount_of abspath) abspath False of
                  Inr st \<Rightarrow>
                    if file_type (st_mode st) = LXP_S_IFLNK then (k, - LXP_ELOOP)
                    else mount_open h k p (mount_of abspath) abspath flags
                | Inl _ \<Rightarrow> mount_open h k p (mount_of abspath) abspath flags)
             else
               (case mount_follow k p abspath of
                  Inl e \<Rightarrow> (k, e)
                | Inr dst \<Rightarrow> mount_open h k p (mount_of dst) dst flags)))"

definition mount_copy_string :: "kernel \<Rightarrow> proc \<Rightarrow> nat \<Rightarrow> nat \<Rightarrow> int + byte list" where
  "mount_copy_string k p guest capacity = (if guest = 0 then Inr [] else lxp_copy_string_from_guest k p capacity guest)"

definition sys_mount :: "kernel \<Rightarrow> proc \<Rightarrow> nat \<Rightarrow> nat \<Rightarrow> int" where
  "sys_mount k p target filesystem_type =
     (if target = 0 then - LXP_EFAULT
      else
        (case lxp_resolve_path k p target LXP_PATH_MAX of
           Inl e \<Rightarrow> e
         | Inr target_path \<Rightarrow>
             if target_path = ''/proc'' then
               (case mount_copy_string k p filesystem_type 16 of
                  Inl e \<Rightarrow> e
                | Inr type \<Rightarrow> if type = [] \<or> string_of_bytes type = ''proc'' then 0 else - LXP_ENODEV)
             else - LXP_ENODEV))"

definition sys_umount :: "kernel \<Rightarrow> proc \<Rightarrow> nat \<Rightarrow> int \<Rightarrow> int" where
  "sys_umount k p target flags =
     (if target = 0 then - LXP_EFAULT
      else if flags \<noteq> 0 then - LXP_EOPNOTSUPP
      else
        (case lxp_resolve_path k p target LXP_PATH_MAX of
           Inl e \<Rightarrow> e
         | Inr target_path \<Rightarrow> if target_path = ''/proc'' then 0 else - LXP_EINVAL))"

definition fd_stat :: "kernel \<Rightarrow> proc \<Rightarrow> nat \<Rightarrow> stat" where
  "fd_stat k p oi =
     (case vfs_fstat k p oi of
        Some st \<Rightarrow> st
      | None \<Rightarrow> lxp_stat_init (LXP_INO_DEV + nat (ofd_file_idx (k_ofd k oi))) (LXP_S_IFCHR OR 0x190) 0)"

definition sys_fstat64 :: "kernel \<Rightarrow> proc \<Rightarrow> int \<Rightarrow> nat \<Rightarrow> kernel \<times> int" where
  "sys_fstat64 k p fd statbuf =
     (case fd_lookup k p fd of
        None \<Rightarrow> (k, - LXP_EBADF)
      | Some oi \<Rightarrow>
          if \<not> lxp_guest_access_ok k p statbuf 104 True then (k, - LXP_EFAULT)
          else lxp_stat_copyout k p statbuf False (fd_stat k p oi))"

definition path_stat :: "io_host \<Rightarrow> kernel \<Rightarrow> proc \<Rightarrow> string \<Rightarrow> bool \<Rightarrow> nat \<Rightarrow> bool \<Rightarrow> kernel \<times> int" where
  "path_stat h k p abspath follow buf statx =
     (case mount_stat h k p (mount_of abspath) abspath follow of
        Inl e \<Rightarrow> (k, e)
      | Inr st \<Rightarrow> lxp_stat_copyout k p buf statx st)"

text \<open>Resolve a path, following its last link where asked.\<close>

definition resolve_follow :: "kernel \<Rightarrow> proc \<Rightarrow> int \<Rightarrow> nat \<Rightarrow> bool \<Rightarrow> path_result" where
  "resolve_follow k p dirfd path follow =
     (case lxp_resolve_path_at k p dirfd path LXP_PATH_MAX of
        Inl e \<Rightarrow> Inl e
      | Inr abspath \<Rightarrow> if follow then mount_follow k p abspath else Inr abspath)"

definition sys_stat_path :: "io_host \<Rightarrow> kernel \<Rightarrow> proc \<Rightarrow> int \<Rightarrow> nat \<Rightarrow> bool \<Rightarrow> nat \<Rightarrow> kernel \<times> int" where
  "sys_stat_path h k p dirfd path follow statbuf =
     (if \<not> lxp_guest_access_ok k p statbuf 104 True then (k, - LXP_EFAULT)
      else
        (case resolve_follow k p dirfd path follow of
           Inl e \<Rightarrow> (k, e)
         | Inr abspath \<Rightarrow> path_stat h k p abspath follow statbuf False))"

datatype name_change = NAME_CREATE | NAME_REMOVE | NAME_ATTR

definition name_unsupported :: "io_host \<Rightarrow> kernel \<Rightarrow> proc \<Rightarrow> mount_id \<Rightarrow> string \<Rightarrow> name_change \<Rightarrow> int" where
  "name_unsupported h k p m path change =
     (let exists = (case mount_stat h k p m path False of Inr _ \<Rightarrow> True | Inl _ \<Rightarrow> False) in
      if change = NAME_CREATE then (if exists then - LXP_EEXIST else - mount_name_errno m)
      else if \<not> exists then - LXP_ENOENT
      else if change = NAME_ATTR then 0 else - mount_name_errno m)"

definition resolve_in_mount :: "kernel \<Rightarrow> proc \<Rightarrow> int \<Rightarrow> nat \<Rightarrow> int + (string \<times> mount_id)" where
  "resolve_in_mount k p dirfd path =
     (if path = 0 then Inl (- LXP_EFAULT)
      else
        (case lxp_resolve_path_at k p dirfd path LXP_PATH_MAX of
           Inl e \<Rightarrow> Inl e
         | Inr abspath \<Rightarrow> Inr (abspath, mount_of abspath)))"

definition mount_readlink :: "io_host \<Rightarrow> kernel \<Rightarrow> proc \<Rightarrow> mount_id \<Rightarrow> string \<Rightarrow> nat \<Rightarrow> path_result" where
  "mount_readlink h k p m path cap =
     (case m of
        PROCFS \<Rightarrow> procfs_mount_readlink h k p path cap
      | DEVFS \<Rightarrow> Inl (case devfs_stat path of Inl _ \<Rightarrow> - LXP_ENOENT | Inr _ \<Rightarrow> - LXP_EINVAL)
      | _ \<Rightarrow> overlay_readlink k p path cap)"

definition sys_readlink :: "io_host \<Rightarrow> kernel \<Rightarrow> proc \<Rightarrow> int \<Rightarrow> nat \<Rightarrow> nat \<Rightarrow> nat \<Rightarrow> kernel \<times> int" where
  "sys_readlink h k p dirfd path buf bufsiz =
     (if \<not> lxp_guest_access_ok k p buf bufsiz True then (k, - LXP_EFAULT)
      else
        (case resolve_in_mount k p dirfd path of
           Inl e \<Rightarrow> (k, e)
         | Inr (abspath, m) \<Rightarrow>
             (case mount_readlink h k p m abspath (if bufsiz < LXP_PATH_MAX then bufsiz else LXP_PATH_MAX) of
                Inl e \<Rightarrow> (k, e)
              | Inr target \<Rightarrow>
                  (let (k', rc) = lxp_copy_to_guest k p buf (bytes_of_string target) in
                   if rc \<noteq> 0 then (k', - LXP_EFAULT) else (k', int (length target))))))"

definition mount_access :: "io_host \<Rightarrow> kernel \<Rightarrow> proc \<Rightarrow> mount_id \<Rightarrow> string \<Rightarrow> nat \<Rightarrow> int" where
  "mount_access h k p m path mode =
     (case m of
        PROCFS \<Rightarrow> procfs_mount_access h p path mode
      | DEVFS \<Rightarrow> devfs_access path mode
      | _ \<Rightarrow> overlay_access k p path mode)"

definition sys_access :: "io_host \<Rightarrow> kernel \<Rightarrow> proc \<Rightarrow> int \<Rightarrow> nat \<Rightarrow> nat \<Rightarrow> int" where
  "sys_access h k p dirfd path mode =
     (if mode div 8 \<noteq> 0 then - LXP_EINVAL
      else if path = 0 then - LXP_EFAULT
      else
        (case resolve_follow k p dirfd path True of
           Inl e \<Rightarrow> e
         | Inr abspath \<Rightarrow> mount_access h k p (mount_of abspath) abspath mode))"

definition sys_mkdir :: "io_host \<Rightarrow> kernel \<Rightarrow> proc \<Rightarrow> int \<Rightarrow> nat \<Rightarrow> nat \<Rightarrow> kernel \<times> int" where
  "sys_mkdir h k p dirfd path mode =
     (case resolve_in_mount k p dirfd path of
        Inl e \<Rightarrow> (k, e)
      | Inr (abspath, m) \<Rightarrow>
          if m = OVERLAY then overlay_mkdir k p abspath mode else (k, name_unsupported h k p m abspath NAME_CREATE))"

definition sys_unlink :: "io_host \<Rightarrow> kernel \<Rightarrow> proc \<Rightarrow> int \<Rightarrow> nat \<Rightarrow> bool \<Rightarrow> kernel \<times> int" where
  "sys_unlink h k p dirfd path is_rmdir =
     (case resolve_in_mount k p dirfd path of
        Inl e \<Rightarrow> (k, e)
      | Inr (abspath, m) \<Rightarrow>
          if m = OVERLAY then overlay_remove k p abspath is_rmdir else (k, name_unsupported h k p m abspath NAME_REMOVE))"

definition two_names :: "kernel \<Rightarrow> proc \<Rightarrow> int \<Rightarrow> nat \<Rightarrow> int \<Rightarrow> nat \<Rightarrow> int + (string \<times> string \<times> mount_id)" where
  "two_names k p olddirfd oldp newdirfd newp =
     (case resolve_in_mount k p olddirfd oldp of
        Inl e \<Rightarrow> Inl e
      | Inr (oldabs, m) \<Rightarrow>
          (case resolve_in_mount k p newdirfd newp of
             Inl e \<Rightarrow> Inl e
           | Inr (newabs, to) \<Rightarrow> if m = to then Inr (oldabs, newabs, m) else Inl (- LXP_EXDEV)))"

definition sys_rename :: "io_host \<Rightarrow> kernel \<Rightarrow> proc \<Rightarrow> int \<Rightarrow> nat \<Rightarrow> int \<Rightarrow> nat \<Rightarrow> nat \<Rightarrow> kernel \<times> int" where
  "sys_rename h k p olddirfd oldp newdirfd newp flags =
     (case two_names k p olddirfd oldp newdirfd newp of
        Inl e \<Rightarrow> (k, e)
      | Inr (oldabs, newabs, m) \<Rightarrow>
          if flags \<noteq> 0 then (k, - LXP_EINVAL)
          else if m = OVERLAY then overlay_rename k p oldabs newabs
          else (k, name_unsupported h k p m oldabs NAME_REMOVE))"

definition sys_symlink :: "io_host \<Rightarrow> kernel \<Rightarrow> proc \<Rightarrow> nat \<Rightarrow> int \<Rightarrow> nat \<Rightarrow> kernel \<times> int" where
  "sys_symlink h k p target dirfd linkp =
     (if target = 0 then (k, - LXP_EFAULT)
      else
        (case lxp_copy_string_from_guest k p LXP_PATH_MAX target of
           Inl _ \<Rightarrow> (k, - LXP_EFAULT)
         | Inr tbuf \<Rightarrow>
             (case resolve_in_mount k p dirfd linkp of
                Inl e \<Rightarrow> (k, e)
              | Inr (linkabs, m) \<Rightarrow>
                  if m = OVERLAY then overlay_symlink k p tbuf linkabs
                  else (k, name_unsupported h k p m linkabs NAME_CREATE))))"

definition sys_link :: "io_host \<Rightarrow> kernel \<Rightarrow> proc \<Rightarrow> int \<Rightarrow> nat \<Rightarrow> int \<Rightarrow> nat \<Rightarrow> kernel \<times> int" where
  "sys_link h k p olddirfd oldp newdirfd newp =
     (case two_names k p olddirfd oldp newdirfd newp of
        Inl e \<Rightarrow> (k, e)
      | Inr (oldabs, newabs, m) \<Rightarrow>
          if m = OVERLAY then overlay_link k p oldabs newabs else (k, name_unsupported h k p m oldabs NAME_REMOVE))"

definition sys_chmod :: "io_host \<Rightarrow> kernel \<Rightarrow> proc \<Rightarrow> int \<Rightarrow> nat \<Rightarrow> nat \<Rightarrow> kernel \<times> int" where
  "sys_chmod h k p dirfd path mode =
     (case resolve_in_mount k p dirfd path of
        Inl e \<Rightarrow> (k, e)
      | Inr (abspath, m) \<Rightarrow>
          if m = OVERLAY then overlay_chmod k p abspath mode else (k, name_unsupported h k p m abspath NAME_ATTR))"

definition sys_utimensat :: "io_host \<Rightarrow> kernel \<Rightarrow> proc \<Rightarrow> int \<Rightarrow> nat \<Rightarrow> int" where
  "sys_utimensat h k p dirfd path =
     (if path = 0 then 0
      else
        (case resolve_in_mount k p dirfd path of
           Inl e \<Rightarrow> e
         | Inr (abspath, m) \<Rightarrow>
             if m = OVERLAY then overlay_utimens k p abspath else name_unsupported h k p m abspath NAME_ATTR))"

definition statfs_synthetic :: "nat \<Rightarrow> byte list" where
  "statfs_synthetic magic =
     le_bytes 4 magic @ le_bytes 4 4096 @ le_bytes 8 256 @ le_bytes 8 192 @ le_bytes 8 192 @ le_bytes 8 64 @ le_bytes 8 48
     @ replicate 8 0 @ le_bytes 4 255 @ le_bytes 4 4096 @ replicate 24 0"

definition statfs_copy :: "kernel \<Rightarrow> proc \<Rightarrow> nat \<Rightarrow> nat \<Rightarrow> byte list \<Rightarrow> kernel \<times> int" where
  "statfs_copy k p sz buf st =
     (if sz < 88 then (k, - LXP_EINVAL)
      else if \<not> lxp_guest_access_ok k p buf 88 True then (k, - LXP_EFAULT)
      else lxp_copy_to_guest k p buf st)"

definition mount_magic :: "mount_id \<Rightarrow> nat" where
  "mount_magic m = (case m of PROCFS \<Rightarrow> 0x00009fa0 | _ \<Rightarrow> 0x01021994)"

definition sys_statfs_path :: "io_host \<Rightarrow> kernel \<Rightarrow> proc \<Rightarrow> nat \<Rightarrow> nat \<Rightarrow> nat \<Rightarrow> kernel \<times> int" where
  "sys_statfs_path h k p path sz buf =
     (if \<not> lxp_guest_access_ok k p buf 88 True then (k, - LXP_EFAULT)
      else
        (case resolve_in_mount k p LXP_AT_FDCWD path of
           Inl e \<Rightarrow> (k, e)
         | Inr (abspath, m) \<Rightarrow>
             (case mount_stat h k p m abspath True of
                Inl e \<Rightarrow> (k, e)
              | Inr _ \<Rightarrow> statfs_copy k p sz buf (statfs_synthetic (mount_magic m)))))"

definition sys_fstatfs :: "kernel \<Rightarrow> proc \<Rightarrow> int \<Rightarrow> nat \<Rightarrow> nat \<Rightarrow> kernel \<times> int" where
  "sys_fstatfs k p fd sz buf =
     (if \<not> lxp_guest_access_ok k p buf 88 True then (k, - LXP_EFAULT)
      else
        (case fd_lookup k p fd of
           None \<Rightarrow> (k, - LXP_EBADF)
         | Some oi \<Rightarrow> statfs_copy k p sz buf (statfs_synthetic 0x01021994)))"

definition sys_statx :: "io_host \<Rightarrow> kernel \<Rightarrow> proc \<Rightarrow> int \<Rightarrow> nat \<Rightarrow> nat \<Rightarrow> nat \<Rightarrow> kernel \<times> int" where
  "sys_statx h k p dirfd path flags buf =
     (if \<not> lxp_guest_access_ok k p buf 256 True then (k, - LXP_EFAULT)
      else
        (let plen = (if path \<noteq> 0 then lxp_guest_strnlen k p path LXP_PATH_MAX else 0) in
         if plen < 0 then (k, - LXP_EFAULT)
         else if plen > 0 \<and> \<not> has_flag flags LXP_AT_EMPTY_PATH then
           (let follow = \<not> has_flag flags LXP_AT_SYMLINK_NOFOLLOW in
            case resolve_follow k p dirfd path follow of
              Inl e \<Rightarrow> (k, e)
            | Inr abspath \<Rightarrow> path_stat h k p abspath follow buf True)
         else
           (case fd_lookup k p dirfd of
              None \<Rightarrow> (k, - LXP_EBADF)
            | Some oi \<Rightarrow> lxp_stat_copyout k p buf True (fd_stat k p oi))))"

section \<open>Entry points\<close>

definition lxp_sys_open :: "io_host \<Rightarrow> kernel \<Rightarrow> proc \<Rightarrow> sysargs \<Rightarrow> kernel \<times> int" where
  "lxp_sys_open h k p a = sys_openat h k p LXP_AT_FDCWD (to_u32 (a 0)) (to_u32 (a 1))"

definition lxp_sys_openat :: "io_host \<Rightarrow> kernel \<Rightarrow> proc \<Rightarrow> sysargs \<Rightarrow> kernel \<times> int" where
  "lxp_sys_openat h k p a = sys_openat h k p (a 0) (to_u32 (a 1)) (to_u32 (a 2))"

definition lxp_sys_fstat64 :: "kernel \<Rightarrow> proc \<Rightarrow> sysargs \<Rightarrow> kernel \<times> int" where
  "lxp_sys_fstat64 k p a = sys_fstat64 k p (a 0) (to_u32 (a 1))"

definition lxp_sys_stat64 :: "io_host \<Rightarrow> kernel \<Rightarrow> proc \<Rightarrow> sysargs \<Rightarrow> kernel \<times> int" where
  "lxp_sys_stat64 h k p a = sys_stat_path h k p LXP_AT_FDCWD (to_u32 (a 0)) True (to_u32 (a 1))"

definition lxp_sys_lstat64 :: "io_host \<Rightarrow> kernel \<Rightarrow> proc \<Rightarrow> sysargs \<Rightarrow> kernel \<times> int" where
  "lxp_sys_lstat64 h k p a = sys_stat_path h k p LXP_AT_FDCWD (to_u32 (a 0)) False (to_u32 (a 1))"

definition lxp_sys_fstatat64 :: "io_host \<Rightarrow> kernel \<Rightarrow> proc \<Rightarrow> sysargs \<Rightarrow> kernel \<times> int" where
  "lxp_sys_fstatat64 h k p a =
     sys_stat_path h k p (a 0) (to_u32 (a 1)) (\<not> has_flag (to_u32 (a 3)) LXP_AT_SYMLINK_NOFOLLOW) (to_u32 (a 2))"

definition lxp_sys_statx :: "io_host \<Rightarrow> kernel \<Rightarrow> proc \<Rightarrow> sysargs \<Rightarrow> kernel \<times> int" where
  "lxp_sys_statx h k p a = sys_statx h k p (a 0) (to_u32 (a 1)) (to_u32 (a 2)) (to_u32 (a 4))"

definition lxp_sys_readlink :: "io_host \<Rightarrow> kernel \<Rightarrow> proc \<Rightarrow> sysargs \<Rightarrow> kernel \<times> int" where
  "lxp_sys_readlink h k p a = sys_readlink h k p LXP_AT_FDCWD (to_u32 (a 0)) (to_u32 (a 1)) (to_u32 (a 2))"

definition lxp_sys_readlinkat :: "io_host \<Rightarrow> kernel \<Rightarrow> proc \<Rightarrow> sysargs \<Rightarrow> kernel \<times> int" where
  "lxp_sys_readlinkat h k p a = sys_readlink h k p (a 0) (to_u32 (a 1)) (to_u32 (a 2)) (to_u32 (a 3))"

definition lxp_sys_access :: "io_host \<Rightarrow> kernel \<Rightarrow> proc \<Rightarrow> sysargs \<Rightarrow> int" where
  "lxp_sys_access h k p a = sys_access h k p LXP_AT_FDCWD (to_u32 (a 0)) (to_u32 (a 1))"

definition lxp_sys_faccessat :: "io_host \<Rightarrow> kernel \<Rightarrow> proc \<Rightarrow> sysargs \<Rightarrow> int" where
  "lxp_sys_faccessat h k p a = sys_access h k p (a 0) (to_u32 (a 1)) (to_u32 (a 2))"

definition lxp_sys_mkdir :: "io_host \<Rightarrow> kernel \<Rightarrow> proc \<Rightarrow> sysargs \<Rightarrow> kernel \<times> int" where
  "lxp_sys_mkdir h k p a = sys_mkdir h k p LXP_AT_FDCWD (to_u32 (a 0)) (to_u32 (a 1))"

definition lxp_sys_mkdirat :: "io_host \<Rightarrow> kernel \<Rightarrow> proc \<Rightarrow> sysargs \<Rightarrow> kernel \<times> int" where
  "lxp_sys_mkdirat h k p a = sys_mkdir h k p (a 0) (to_u32 (a 1)) (to_u32 (a 2))"

definition lxp_sys_rmdir :: "io_host \<Rightarrow> kernel \<Rightarrow> proc \<Rightarrow> sysargs \<Rightarrow> kernel \<times> int" where
  "lxp_sys_rmdir h k p a = sys_unlink h k p LXP_AT_FDCWD (to_u32 (a 0)) True"

definition lxp_sys_unlink :: "io_host \<Rightarrow> kernel \<Rightarrow> proc \<Rightarrow> sysargs \<Rightarrow> kernel \<times> int" where
  "lxp_sys_unlink h k p a = sys_unlink h k p LXP_AT_FDCWD (to_u32 (a 0)) False"

definition lxp_sys_unlinkat :: "io_host \<Rightarrow> kernel \<Rightarrow> proc \<Rightarrow> sysargs \<Rightarrow> kernel \<times> int" where
  "lxp_sys_unlinkat h k p a =
     (let fl = to_u32 (a 2) in
      if fl \<noteq> 0 \<and> fl \<noteq> LXP_AT_REMOVEDIR then (k, - LXP_EINVAL)
      else sys_unlink h k p (a 0) (to_u32 (a 1)) (has_flag fl LXP_AT_REMOVEDIR))"

definition lxp_sys_rename :: "io_host \<Rightarrow> kernel \<Rightarrow> proc \<Rightarrow> sysargs \<Rightarrow> kernel \<times> int" where
  "lxp_sys_rename h k p a = sys_rename h k p LXP_AT_FDCWD (to_u32 (a 0)) LXP_AT_FDCWD (to_u32 (a 1)) 0"

definition lxp_sys_renameat :: "io_host \<Rightarrow> kernel \<Rightarrow> proc \<Rightarrow> sysargs \<Rightarrow> kernel \<times> int" where
  "lxp_sys_renameat h k p a = sys_rename h k p (a 0) (to_u32 (a 1)) (a 2) (to_u32 (a 3)) 0"

definition lxp_sys_renameat2 :: "io_host \<Rightarrow> kernel \<Rightarrow> proc \<Rightarrow> sysargs \<Rightarrow> kernel \<times> int" where
  "lxp_sys_renameat2 h k p a = sys_rename h k p (a 0) (to_u32 (a 1)) (a 2) (to_u32 (a 3)) (to_u32 (a 4))"

definition lxp_sys_symlink :: "io_host \<Rightarrow> kernel \<Rightarrow> proc \<Rightarrow> sysargs \<Rightarrow> kernel \<times> int" where
  "lxp_sys_symlink h k p a = sys_symlink h k p (to_u32 (a 0)) LXP_AT_FDCWD (to_u32 (a 1))"

definition lxp_sys_symlinkat :: "io_host \<Rightarrow> kernel \<Rightarrow> proc \<Rightarrow> sysargs \<Rightarrow> kernel \<times> int" where
  "lxp_sys_symlinkat h k p a = sys_symlink h k p (to_u32 (a 0)) (a 1) (to_u32 (a 2))"

definition lxp_sys_link :: "io_host \<Rightarrow> kernel \<Rightarrow> proc \<Rightarrow> sysargs \<Rightarrow> kernel \<times> int" where
  "lxp_sys_link h k p a = sys_link h k p LXP_AT_FDCWD (to_u32 (a 0)) LXP_AT_FDCWD (to_u32 (a 1))"

definition lxp_sys_linkat :: "io_host \<Rightarrow> kernel \<Rightarrow> proc \<Rightarrow> sysargs \<Rightarrow> kernel \<times> int" where
  "lxp_sys_linkat h k p a = sys_link h k p (a 0) (to_u32 (a 1)) (a 2) (to_u32 (a 3))"

definition lxp_sys_chmod :: "io_host \<Rightarrow> kernel \<Rightarrow> proc \<Rightarrow> sysargs \<Rightarrow> kernel \<times> int" where
  "lxp_sys_chmod h k p a = sys_chmod h k p LXP_AT_FDCWD (to_u32 (a 0)) (to_u32 (a 1))"

definition lxp_sys_fchmodat :: "io_host \<Rightarrow> kernel \<Rightarrow> proc \<Rightarrow> sysargs \<Rightarrow> kernel \<times> int" where
  "lxp_sys_fchmodat h k p a = sys_chmod h k p (a 0) (to_u32 (a 1)) (to_u32 (a 2))"

definition lxp_sys_utimensat :: "io_host \<Rightarrow> kernel \<Rightarrow> proc \<Rightarrow> sysargs \<Rightarrow> int" where
  "lxp_sys_utimensat h k p a = sys_utimensat h k p (a 0) (to_u32 (a 1))"

definition lxp_sys_mount :: "kernel \<Rightarrow> proc \<Rightarrow> sysargs \<Rightarrow> int" where
  "lxp_sys_mount k p a = sys_mount k p (to_u32 (a 1)) (to_u32 (a 2))"

definition lxp_sys_umount2 :: "kernel \<Rightarrow> proc \<Rightarrow> sysargs \<Rightarrow> int" where
  "lxp_sys_umount2 k p a = sys_umount k p (to_u32 (a 0)) (a 1)"

definition lxp_sys_statfs64 :: "io_host \<Rightarrow> kernel \<Rightarrow> proc \<Rightarrow> sysargs \<Rightarrow> kernel \<times> int" where
  "lxp_sys_statfs64 h k p a = sys_statfs_path h k p (to_u32 (a 0)) (to_u32 (a 1)) (to_u32 (a 2))"

definition lxp_sys_fstatfs64 :: "kernel \<Rightarrow> proc \<Rightarrow> sysargs \<Rightarrow> kernel \<times> int" where
  "lxp_sys_fstatfs64 k p a = sys_fstatfs k p (a 0) (to_u32 (a 1)) (to_u32 (a 2))"

definition lxp_sys_getcwd :: "kernel \<Rightarrow> proc \<Rightarrow> sysargs \<Rightarrow> kernel \<times> int" where
  "lxp_sys_getcwd k p a =
     (let buf = to_u32 (a 0); len = length (proc_cwd k p) + 1 in
      if buf = 0 then (k, - LXP_EFAULT)
      else if to_u32 (a 1) < len then (k, - LXP_ERANGE)
      else
        (let (k', rc) = lxp_copy_to_guest k p buf (bytes_of_string (proc_cwd k p) @ [0]) in
         if rc \<noteq> 0 then (k', - LXP_EFAULT) else (k', int len)))"

definition lxp_sys_chdir :: "io_host \<Rightarrow> kernel \<Rightarrow> proc \<Rightarrow> sysargs \<Rightarrow> kernel \<times> int" where
  "lxp_sys_chdir h k p a =
     (if to_u32 (a 0) = 0 then (k, - LXP_EFAULT)
      else
        (case resolve_follow k p LXP_AT_FDCWD (to_u32 (a 0)) True of
           Inl e \<Rightarrow> (k, e)
         | Inr abspath \<Rightarrow>
             (let m = mount_of abspath in
              if m = OVERLAY then overlay_chdir k p abspath
              else
                (case mount_stat h k p m abspath True of
                   Inl e \<Rightarrow> (k, e)
                 | Inr st \<Rightarrow> if \<not> mode_is_dir (st_mode st) then (k, - LXP_ENOTDIR) else (set_cwd k p abspath, 0)))))"

end
