(* ===== verification/Safety.thy ===== *)
theory Safety
  imports Fops
begin

text \<open>
  What every descriptor operation keeps.  A state is \<open>good\<close> for a task when the descriptor, pipe,
  file and event counts are exact (\<open>kernel_ok\<close>), every value is within its C type
  (\<open>kernel_typed\<close>) and the task's windows lie apart from the kernel's file pool.  A change
  is \<open>confined\<close> when it moves no window and writes no byte outside the caller's windows and the
  pool.  \<open>safe\<close> is both, and composes along a sequence of operations.
\<close>

section \<open>Good states and confined changes\<close>

definition window_bytes :: "kernel \<Rightarrow> proc \<Rightarrow> bool \<Rightarrow> nat set" where
  "window_bytes k p write = (\<Union>(lo, hi) \<in> guest_windows k p write. {lo..<hi})"

definition kernel_typed :: "kernel \<Rightarrow> bool" where
  "kernel_typed k \<longleftrightarrow> (\<forall>oi < LXP_MAX_OFD. ofd_offset (k_ofd k oi) \<le> SIZE_MAX)
     \<and> (\<forall>i < LXP_NEVENTFD. ef_ctr (k_efd k i) < UINT64_MAX)
     \<and> length (tt_termios (k_tty k)) = 36 \<and> length (tt_winsize (k_tty k)) = 8
     \<and> ta_head (k_ta k) < LXP_CONSOLE_TYPEAHEAD \<and> ta_count (k_ta k) \<le> LXP_CONSOLE_TYPEAHEAD"

definition good :: "kernel \<Rightarrow> proc \<Rightarrow> bool" where
  "good k p \<longleftrightarrow> kernel_ok k \<and> kernel_typed k \<and> proc_ok p \<and> window_bytes k p False \<inter> wfs_region (k_wfs k) = {}"

definition confined :: "kernel \<Rightarrow> proc \<Rightarrow> kernel \<Rightarrow> bool" where
  "confined k p k' \<longleftrightarrow> mc_mm k' = mc_mm k \<and> k_arena k' = k_arena k \<and> mc_slot_generation k' = mc_slot_generation k
     \<and> mc_rootfs_lo k' = mc_rootfs_lo k \<and> mc_rootfs_hi k' = mc_rootfs_hi k \<and> wf_pool (k_wfs k') = wf_pool (k_wfs k)
     \<and> (\<forall>a. a \<notin> window_bytes k p True \<longrightarrow> a \<notin> wfs_region (k_wfs k) \<longrightarrow> mc_mem k' a = mc_mem k a)"

definition safe :: "kernel \<Rightarrow> proc \<Rightarrow> kernel \<Rightarrow> bool" where
  "safe k p k' \<longleftrightarrow> good k' p \<and> confined k p k'"

lemma goodD:
  assumes "good k p"
  shows "kernel_inv k (\<lambda>_. 0)" "kernel_typed k" "proc_ok p" "window_bytes k p False \<inter> wfs_region (k_wfs k) = {}"
    "objects_ok k" "fd_refs_ok (k_ofd k) (k_files k) (\<lambda>_. 0)" "wfs_ok (mc_mem k) (k_wfs k)"
  using assms by (simp_all add: good_def kernel_ok_def kernel_inv_def objects_ok_def)

lemma windows_cong:
  assumes "mc_mm k' = mc_mm k" "mc_rootfs_lo k' = mc_rootfs_lo k" "mc_rootfs_hi k' = mc_rootfs_hi k" "p_mm p' = p_mm p"
  shows "window_bytes k' p' w = window_bytes k p w"
  unfolding window_bytes_def guest_windows_def assms by simp

lemma windows_mono: "window_bytes k p True \<subseteq> window_bytes k p False"
  unfolding window_bytes_def guest_windows_def by (cases "p_mm p") auto

lemma region_cong: "wf_pool w' = wf_pool w \<Longrightarrow> wfs_region w' = wfs_region w"
  by (simp add: wfs_region_def)

lemma safe_refl [simp]: "good k p \<Longrightarrow> safe k p k"
  by (simp add: safe_def confined_def)

lemma safe_good: "safe k p k' \<Longrightarrow> good k' p"
  by (simp add: safe_def)

lemma safe_trans:
  assumes "safe k p k1" "safe k1 p k2" shows "safe k p k2"
proof -
  have c: "confined k p k1" "confined k1 p k2" using assms by (simp_all add: safe_def)
  have e: "window_bytes k1 p True = window_bytes k p True" by (rule windows_cong) (use c(1) in \<open>simp_all add: confined_def\<close>)
  have r: "wfs_region (k_wfs k1) = wfs_region (k_wfs k)" by (rule region_cong) (use c(1) in \<open>simp add: confined_def\<close>)
  have "mc_mem k2 a = mc_mem k a" if "a \<notin> window_bytes k p True" "a \<notin> wfs_region (k_wfs k)" for a
    using c that e r unfolding confined_def by simp
  then show ?thesis using assms(2) c by (simp add: safe_def confined_def)
qed

text \<open>A task that keeps its tables keeps its good states.\<close>

lemma good_task:
  assumes "good k p" "p_mm p' = p_mm p" "p_files p' = p_files p" shows "good k p'"
  using assms windows_cong [of k k p' p False] by (simp add: good_def proc_ok_def)

lemma safeI:
  assumes g: "good k p" and inv: "kernel_ok k'" "kernel_typed k'" and c: "confined k p k'"
  shows "safe k p k'"
proof -
  have "window_bytes k' p False = window_bytes k p False" by (rule windows_cong) (use c in \<open>simp_all add: confined_def\<close>)
  moreover have "wfs_region (k_wfs k') = wfs_region (k_wfs k)" by (rule region_cong) (use c in \<open>simp add: confined_def\<close>)
  ultimately show ?thesis using g inv c by (simp add: safe_def good_def)
qed

section \<open>Single changes\<close>

lemma safe_mem:
  assumes g: "good k p" and out: "\<And>a. a \<notin> window_bytes k p True \<Longrightarrow> m' a = mc_mem k a"
  shows "safe k p (k\<lparr>mc_mem := m'\<rparr>)"
proof (rule safeI [OF g])
  have "wfs_ok m' (k_wfs k)"
    by (rule wfs_outside(1) [OF goodD(7) [OF g]]) (use goodD(4) [OF g] out windows_mono [of k p] in blast)
  then show "kernel_ok (k\<lparr>mc_mem := m'\<rparr>)"
    using goodD(1) [OF g] by (simp add: kernel_ok_def kernel_inv_def objects_ok_def)
  show "kernel_typed (k\<lparr>mc_mem := m'\<rparr>)" using goodD(2) [OF g] by (simp add: kernel_typed_def)
  show "confined k p (k\<lparr>mc_mem := m'\<rparr>)" using out by (simp add: confined_def)
qed

lemma access_windows:
  assumes "lxp_guest_access_ok k p a n w" "a \<le> SIZE_MAX" "n \<le> SIZE_MAX"
  shows "{a..<a + n} \<subseteq> window_bytes k p w"
proof (cases "n = 0")
  case False
  then have "in_window k p w a n" using access_in_window [OF assms(1) _ assms(2,3)] by simp
  then obtain lo hi where "(lo, hi) \<in> guest_windows k p w" "lo \<le> a" "a + n \<le> hi"
    unfolding in_window_def by blast
  then have "(lo, hi) \<in> guest_windows k p w" "{a..<a + n} \<subseteq> {lo..<hi}" by auto
  then show ?thesis unfolding window_bytes_def by blast
qed simp

lemma safe_store:
  assumes g: "good k p" and acc: "lxp_guest_access_ok k p a n True" "a \<le> SIZE_MAX" "n \<le> SIZE_MAX"
    and len: "length bs \<le> n"
  shows "safe k p (k\<lparr>mc_mem := mem_write (mc_mem k) a bs\<rparr>)"
proof (rule safe_mem [OF g])
  fix x assume "x \<notin> window_bytes k p True"
  moreover have "{a..<a + length bs} \<subseteq> {a..<a + n}" using len by auto
  ultimately have "x \<notin> {a..<a + length bs}" using access_windows [OF acc] by blast
  then show "mem_write (mc_mem k) a bs x = mc_mem k x" by (auto simp: mem_write_def)
qed

lemma safe_copy_to:
  assumes g: "good k p" and c: "lxp_copy_to_guest k p a bs = (k', rc)" and sz: "a \<le> SIZE_MAX" "length bs \<le> SIZE_MAX"
  shows "safe k p k'"
  using c g safe_store [OF g _ sz order_refl] by (auto simp: lxp_copy_to_guest_def split: if_splits)

text \<open>A description changed in its offset or flags.\<close>

lemma safe_ofd:
  assumes g: "good k p" and oi: "oi < LXP_MAX_OFD" "ofd_refs (k_ofd k oi) \<noteq> 0"
    and s: "ofd_refs s = ofd_refs (k_ofd k oi)" "ofd_kind s = ofd_kind (k_ofd k oi)"
      "ofd_file_idx s = ofd_file_idx (k_ofd k oi)" "ofd_rw s = ofd_rw (k_ofd k oi)" "ofd_offset s \<le> SIZE_MAX"
  shows "safe k p (ofd_put k oi s)"
proof (rule safeI [OF g])
  have "objects_ok (ofd_put k oi s)" by (rule objects_ofd_same [OF goodD(5) [OF g] oi]) (use s oi in simp_all)
  moreover have "ofd_fine s" using goodD(6) [OF g] oi s by (auto simp: fd_refs_ok_def ofd_fine_def)
  ultimately show "kernel_ok (ofd_put k oi s)"
    using goodD(6) [OF g] s(1) by (auto simp: kernel_ok_def kernel_inv_def fd_refs_ok_def)
  show "kernel_typed (ofd_put k oi s)"
    using goodD(2) [OF g] s(5) by (simp add: kernel_typed_def) (simp add: ofd_put_def)
  show "confined k p (ofd_put k oi s)" by (simp add: confined_def) (simp add: ofd_put_def)
qed

text \<open>The file system and its pool changed together, open counts unchanged.\<close>

lemma safe_wfs:
  assumes g: "good k p" and w: "wfs_ok m' w'" "wf_pool w' = wf_pool (k_wfs k)"
    and refs: "\<And>j. j < LXP_NWNODE \<Longrightarrow> wn_open_refs (wf_nodes w' j) = wn_open_refs (wf_nodes (k_wfs k) j)"
    and out: "\<And>x. x \<notin> wfs_region (k_wfs k) \<Longrightarrow> m' x = mc_mem k x"
  shows "safe k p (k\<lparr>mc_mem := m', k_wfs := w'\<rparr>)"
proof (rule safeI [OF g])
  show "kernel_ok (k\<lparr>mc_mem := m', k_wfs := w'\<rparr>)"
    using goodD(1) [OF g] w refs by (simp add: kernel_ok_def kernel_inv_def objects_ok_def wfs_refs_ok_def)
  show "kernel_typed (k\<lparr>mc_mem := m', k_wfs := w'\<rparr>)" using goodD(2) [OF g] by (simp add: kernel_typed_def)
  show "confined k p (k\<lparr>mc_mem := m', k_wfs := w'\<rparr>)" using out w(2) by (simp add: confined_def)
qed

lemma safe_efd:
  assumes g: "good k p" and e: "ef_used e = ef_used (k_efd k i)" "ef_ctr e < UINT64_MAX"
  shows "safe k p (k\<lparr>k_efd := (k_efd k)(i := e)\<rparr>)"
proof (rule safeI [OF g])
  show "kernel_ok (k\<lparr>k_efd := (k_efd k)(i := e)\<rparr>)"
    using goodD(1) [OF g] e by (simp add: kernel_ok_def kernel_inv_def objects_ok_def efd_refs_ok_def)
  show "kernel_typed (k\<lparr>k_efd := (k_efd k)(i := e)\<rparr>)" using goodD(2) [OF g] e by (simp add: kernel_typed_def)
  show "confined k p (k\<lparr>k_efd := (k_efd k)(i := e)\<rparr>)" by (simp add: confined_def)
qed

lemma safe_pipes:
  assumes g: "good k p" and pp: "pipes_ok pp"
    and e: "\<And>i. i < LXP_NPIPE \<Longrightarrow> pp_readers (pp i) = pp_readers (k_pipes k i) \<and> pp_writers (pp i) = pp_writers (k_pipes k i)
      \<and> pp_used (pp i) = pp_used (k_pipes k i)"
  shows "safe k p (k\<lparr>k_pipes := pp\<rparr>)"
proof (rule safeI [OF g])
  have "pipe_slots_ok pp" using goodD(5) [OF g] e by (simp add: objects_ok_def pipe_slots_ok_def)
  moreover have "pipe_refs_ok (k_ofd k) pp" using goodD(5) [OF g] e by (simp add: objects_ok_def pipe_refs_ok_def)
  ultimately show "kernel_ok (k\<lparr>k_pipes := pp\<rparr>)"
    using goodD(1) [OF g] pp by (simp add: kernel_ok_def kernel_inv_def objects_ok_def)
  show "kernel_typed (k\<lparr>k_pipes := pp\<rparr>)" using goodD(2) [OF g] by (simp add: kernel_typed_def)
  show "confined k p (k\<lparr>k_pipes := pp\<rparr>)" by (simp add: confined_def)
qed

lemma safe_console:
  assumes g: "good k p" and t: "length (tt_termios t) = 36" "length (tt_winsize t) = 8"
    and ta: "ta_head ta < LXP_CONSOLE_TYPEAHEAD" "ta_count ta \<le> LXP_CONSOLE_TYPEAHEAD"
  shows "safe k p (k\<lparr>k_tty := t, k_ta := ta\<rparr>)"
proof (rule safeI [OF g])
  show "kernel_ok (k\<lparr>k_tty := t, k_ta := ta\<rparr>)"
    using goodD(1) [OF g] by (simp add: kernel_ok_def kernel_inv_def objects_ok_def)
  show "kernel_typed (k\<lparr>k_tty := t, k_ta := ta\<rparr>)" using goodD(2) [OF g] t ta by (simp add: kernel_typed_def)
  show "confined k p (k\<lparr>k_tty := t, k_ta := ta\<rparr>)" by (simp add: confined_def)
qed

section \<open>Reading and seeking\<close>

definition ofd_live :: "kernel \<Rightarrow> nat \<Rightarrow> bool" where
  "ofd_live k oi \<longleftrightarrow> oi < LXP_MAX_OFD \<and> ofd_refs (k_ofd k oi) \<noteq> 0"

lemma lookup_live: "fd_lookup k p fd = Some oi \<Longrightarrow> ofd_live k oi"
  unfolding ofd_live_def by (erule fd_lookupE) simp

lemma copy_to_frame:
  assumes "lxp_copy_to_guest k p a bs = (k', rc)"
  shows "k_ofd k' = k_ofd k" "k_efd k' = k_efd k" "k_tty k' = k_tty k" "k_ta k' = k_ta k" "k_wfs k' = k_wfs k"
    "k_procf k' = k_procf k" "k_files k' = k_files k"
  using assms by (auto simp: lxp_copy_to_guest_def split: if_splits)

text \<open>A result together with what it did to the state: safe, and the descriptions as before.\<close>

definition safe_same :: "kernel \<Rightarrow> proc \<Rightarrow> kernel \<Rightarrow> bool" where
  "safe_same k p k' \<longleftrightarrow> safe k p k' \<and> k_ofd k' = k_ofd k"

lemma safe_same_refl [simp]: "good k p \<Longrightarrow> safe_same k p k"
  by (simp add: safe_same_def)

lemma safe_same_safe: "safe_same k p k' \<Longrightarrow> safe k p k'"
  by (simp add: safe_same_def)

lemma safe_read_mem:
  assumes g: "good k p" and r: "lxp_vfs_read_mem k p data buf len off = (k', rc)"
    and sz: "buf \<le> SIZE_MAX" "len \<le> SIZE_MAX"
  shows "safe_same k p k'"
proof (cases "off \<ge> length data")
  case True
  then show ?thesis using r g by (simp add: lxp_vfs_read_mem_def)
next
  case False
  let ?bs = "take (if length data - off > len then len else length data - off) (drop off data)"
  obtain k1 rc1 where c: "lxp_copy_to_guest k p buf ?bs = (k1, rc1)" by (metis surj_pair)
  have "k' = k1" using r False by (auto simp: lxp_vfs_read_mem_def Let_def c split: if_splits)
  moreover have "length ?bs \<le> SIZE_MAX" using sz(2) by auto
  ultimately show ?thesis
    using safe_copy_to [OF g c sz(1)] copy_to_frame(1) [OF c] by (simp add: safe_same_def)
qed

lemma safe_advance:
  assumes g: "good k p" and oi: "ofd_live k oi" shows "safe k p (advance k oi n)"
proof (cases "n > 0")
  case True
  have u: "uptr x \<le> SIZE_MAX" for x by (simp add: uptr_def SIZE_MAX_def)
  show ?thesis unfolding advance_def if_P [OF True]
    by (rule safe_ofd [OF g]) (use oi u in \<open>simp_all add: ofd_live_def\<close>)
qed (use g in \<open>simp add: advance_def\<close>)

text \<open>A read is a positioned read at the offset, then the offset moves.\<close>

lemma safe_read_then_advance:
  assumes g: "good k p" and oi: "ofd_live k oi" and r: "(case rd of (k', n) \<Rightarrow> (advance k' oi n, n)) = (k'', rc)"
    and rd: "\<And>k' n. rd = (k', n) \<Longrightarrow> safe_same k p k'"
  shows "safe k p k''"
proof -
  obtain k' n where e: "rd = (k', n)" by (metis surj_pair)
  have s: "safe k p k'" "k_ofd k' = k_ofd k" using rd [OF e] by (simp_all add: safe_same_def)
  have "safe k' p (advance k' oi n)" by (rule safe_advance [OF safe_good [OF s(1)]]) (use oi s(2) in \<open>simp add: ofd_live_def\<close>)
  moreover have "k'' = advance k' oi n" using r by (auto simp: e)
  ultimately show ?thesis using safe_trans [OF s(1)] by blast
qed

lemma safe_preads:
  assumes g: "good k p" and sz: "buf \<le> SIZE_MAX" "len \<le> SIZE_MAX"
  shows "fop_pread_rootfs k p oi buf len off = (k', rc) \<Longrightarrow> safe_same k p k'"
    "fop_pread_tmpfs k p oi buf len off = (k', rc) \<Longrightarrow> safe_same k p k'"
    "fop_pread_proc k p oi buf len off = (k', rc) \<Longrightarrow> safe_same k p k'"
  using safe_read_mem [OF g _ sz] g
  by (auto simp: fop_pread_rootfs_def fop_pread_tmpfs_def fop_pread_proc_def Let_def split: if_splits)

lemma safe_reads:
  assumes g: "good k p" and oi: "ofd_live k oi" and sz: "buf \<le> SIZE_MAX" "len \<le> SIZE_MAX"
  shows "fop_read_rootfs k p oi buf len = (k', rc) \<Longrightarrow> safe k p k'"
    "fop_read_tmpfs k p oi buf len = (k', rc) \<Longrightarrow> safe k p k'"
    "fop_read_proc k p oi buf len = (k', rc) \<Longrightarrow> safe k p k'"
  unfolding fop_read_rootfs_def fop_read_tmpfs_def fop_read_proc_def
  by (erule safe_read_then_advance [OF g oi], erule safe_preads [OF g sz])+

lemma vfs_seek_cases:
  assumes "lxp_vfs_seek s e off wh = (s', rc)"
  shows "s' = s \<and> rc < 0 \<or> s' = s\<lparr>ofd_offset := nat rc\<rparr> \<and> 0 \<le> rc \<and> rc \<le> int SIZE_MAX"
  using assms by (auto simp: lxp_vfs_seek_def Let_def split: if_splits)

lemma safe_seek:
  assumes g: "good k p" and oi: "ofd_live k oi" and r: "lxp_vfs_seek (k_ofd k oi) e off wh = (s', rc)"
  shows "safe k p (ofd_put k oi s')"
  using vfs_seek_cases [OF r]
proof
  have typed: "ofd_offset (k_ofd k oi) \<le> SIZE_MAX" using goodD(2) [OF g] oi by (simp add: kernel_typed_def ofd_live_def)
  assume "s' = k_ofd k oi \<and> rc < 0"
  then show ?thesis using safe_ofd [OF g, of oi "k_ofd k oi"] oi typed by (simp add: ofd_live_def)
next
  assume s: "s' = (k_ofd k oi)\<lparr>ofd_offset := nat rc\<rparr> \<and> 0 \<le> rc \<and> rc \<le> int SIZE_MAX"
  then have "nat rc \<le> SIZE_MAX" by linarith
  then show ?thesis using s oi by (intro safe_ofd [OF g]) (simp_all add: ofd_live_def)
qed

lemma safe_seeks:
  assumes g: "good k p" and oi: "ofd_live k oi"
  shows "fop_lseek_rootfs k p oi off wh = (k', rc) \<Longrightarrow> safe k p k'"
    "fop_lseek_tmpfs k oi off wh = (k', rc) \<Longrightarrow> safe k p k'"
    "fop_lseek_proc k oi off wh = (k', rc) \<Longrightarrow> safe k p k'"
  using safe_seek [OF g oi] by (auto simp: fop_lseek_rootfs_def fop_lseek_tmpfs_def fop_lseek_proc_def split: prod.splits)

section \<open>Writable files\<close>

lemma access_cong:
  assumes "confined k p k'"
  shows "lxp_guest_access_ok k' p a n w = lxp_guest_access_ok k p a n w"
proof -
  have c: "mc_mm k' = mc_mm k" "mc_slot_generation k' = mc_slot_generation k"
    "mc_rootfs_lo k' = mc_rootfs_lo k" "mc_rootfs_hi k' = mc_rootfs_hi k" using assms by (simp_all add: confined_def)
  have "guest_range_hi k' q b acc = guest_range_hi k q b acc" for q b acc
    unfolding guest_range_hi_def c ..
  moreover have "view_grants k' p acc = view_grants k p acc" for acc
    unfolding view_grants_def lxp_guest_view_is_current_def c ..
  ultimately show ?thesis unfolding lxp_guest_access_ok_def lxp_guest_range_ok_def by simp
qed

lemma copy_from_pool:
  assumes g: "good k p" and c: "confined k p k'" and sz: "src \<le> SIZE_MAX" "len \<le> SIZE_MAX"
    and out: "\<And>x. x \<notin> wfs_region (k_wfs k) \<Longrightarrow> mc_mem k' x = mc_mem k x"
  shows "lxp_copy_from_guest k' p src len = lxp_copy_from_guest k p src len"
proof (cases "lxp_guest_access_ok k p src len False")
  case True
  have "mem_read (mc_mem k') src len = mem_read (mc_mem k) src len"
  proof (rule mem_read_cong)
    fix x assume "src \<le> x" "x < src + len"
    then have "x \<in> window_bytes k p False" using access_windows [OF True sz] by auto
    then have "x \<notin> wfs_region (k_wfs k)" using goodD(4) [OF g] by auto
    then show "mc_mem k' x = mc_mem k x" by (rule out)
  qed
  then show ?thesis using access_cong [OF c] by (simp add: lxp_copy_from_guest_def)
qed (simp add: lxp_copy_from_guest_def access_cong [OF c])

lemma tmpfs_live:
  assumes g: "good k p" and oi: "ofd_live k oi" and kd: "ofd_kind (k_ofd k oi) = FD_TMPFS"
  obtains i where "ofd_file_idx (k_ofd k oi) = int i" "i < LXP_NWNODE" "wn_used (wf_nodes (k_wfs k) i)"
    "wn_open_refs (wf_nodes (k_wfs k) i) \<noteq> 0" "tmpfs_at k oi = wf_nodes (k_wfs k) i"
proof -
  have "ofd_fine (k_ofd k oi)" using goodD(6) [OF g] oi by (simp add: fd_refs_ok_def ofd_live_def)
  then have "0 \<le> ofd_file_idx (k_ofd k oi)" "ofd_file_idx (k_ofd k oi) < int LXP_NWNODE"
    using oi kd by (auto simp: ofd_fine_def ofd_live_def)
  then obtain i where i: "ofd_file_idx (k_ofd k oi) = int i" "i < LXP_NWNODE" by (metis nonneg_int_cases of_nat_less_iff)
  have "0 < ofd_count (k_ofd k) (ofd_names FD_TMPFS i)"
    by (rule ofd_count_pos) (use oi kd i in \<open>simp_all add: ofd_live_def ofd_names_def\<close>)
  then have r: "wn_open_refs (wf_nodes (k_wfs k) i) \<noteq> 0"
    using goodD(5) [OF g] i(2) by (simp add: objects_ok_def wfs_refs_ok_def)
  moreover have "wn_used (wf_nodes (k_wfs k) i)"
    using wfs_okD(3) [OF goodD(7) [OF g] i(2)] r by (auto simp: wnode_fine_def)
  ultimately show thesis using that i by (simp add: tmpfs_at_def wnode_at_def)
qed

text \<open>What growing a file does: only its block may move.\<close>

lemma tmpfs_reserve_safe:
  assumes g: "good k p" and i: "ofd_file_idx (k_ofd k oi) = int i" "i < LXP_NWNODE" "wn_used (wf_nodes (k_wfs k) i)"
    and r: "tmpfs_reserve k oi n = (k', rc)"
  shows "safe_same k p k'" "\<And>j. j < LXP_NWNODE \<Longrightarrow> wfs_bytes (mc_mem k') (k_wfs k') j = wfs_bytes (mc_mem k) (k_wfs k) j"
    "\<exists>q c. wf_nodes (k_wfs k') = (wf_nodes (k_wfs k))(i := (wf_nodes (k_wfs k) i)\<lparr>wn_data := q, wn_cap := c\<rparr>)
       \<and> (rc = 0 \<longrightarrow> n \<le> c)" "rc = 0 \<or> rc = - 1"
    "\<And>x. x \<notin> wfs_region (k_wfs k) \<Longrightarrow> mc_mem k' x = mc_mem k x"
proof -
  obtain m w rc' where e: "lxp_wfs_reserve (mc_mem k) (k_wfs k) (int i) n = (m, w, rc')" by (metis surj_pair)
  have k': "k' = k\<lparr>mc_mem := m, k_wfs := w\<rparr>" "rc' = rc" using r by (simp_all add: tmpfs_reserve_def i e)
  note W = wfs_reserve_ok [OF goodD(7) [OF g] i(2,3) e]
  then obtain q c where qc: "wf_nodes w = (wf_nodes (k_wfs k))(i := (wf_nodes (k_wfs k) i)\<lparr>wn_data := q, wn_cap := c\<rparr>)"
    "rc' = 0 \<and> n \<le> c \<or> rc' = - 1" by blast
  show "safe_same k p k'" unfolding safe_same_def k'(1)
    using W qc by (intro conjI safe_wfs [OF g]) auto
  show "\<And>j. j < LXP_NWNODE \<Longrightarrow> wfs_bytes (mc_mem k') (k_wfs k') j = wfs_bytes (mc_mem k) (k_wfs k) j"
    "\<And>x. x \<notin> wfs_region (k_wfs k) \<Longrightarrow> mc_mem k' x = mc_mem k x"
    using W by (simp_all add: k')
  show "rc = 0 \<or> rc = - 1" using qc(2) k'(2) by auto
  show "\<exists>q c. wf_nodes (k_wfs k') = (wf_nodes (k_wfs k))(i := (wf_nodes (k_wfs k) i)\<lparr>wn_data := q, wn_cap := c\<rparr>) \<and> (rc = 0 \<longrightarrow> n \<le> c)"
  proof (intro exI conjI)
    show "wf_nodes (k_wfs k') = (wf_nodes (k_wfs k))(i := (wf_nodes (k_wfs k) i)\<lparr>wn_data := q, wn_cap := c\<rparr>)" using qc k' by simp
    show "rc = 0 \<longrightarrow> n \<le> c" using qc(2) k'(2) by auto
  qed
qed

text \<open>Storing bytes in a file that has room for them.\<close>

lemma tmpfs_zero_hole_safe:
  assumes g: "good k p" and i: "ofd_file_idx (k_ofd k oi) = int i" "i < LXP_NWNODE"
    and fit: "n \<le> wn_cap (wf_nodes (k_wfs k) i)"
  shows "safe_same k p (tmpfs_zero_hole k oi n)" "k_wfs (tmpfs_zero_hole k oi n) = k_wfs k"
    "\<And>j. j < LXP_NWNODE \<Longrightarrow> wfs_bytes (mc_mem (tmpfs_zero_hole k oi n)) (k_wfs k) j = wfs_bytes (mc_mem k) (k_wfs k) j"
    "\<And>x. x \<notin> wfs_region (k_wfs k) \<Longrightarrow> mc_mem (tmpfs_zero_hole k oi n) x = mc_mem k x"
    "mc_mem (tmpfs_zero_hole k oi n) = (if n > wn_size (wf_nodes (k_wfs k) i)
      then mem_fill (mc_mem k) (wn_data (wf_nodes (k_wfs k) i) + wn_size (wf_nodes (k_wfs k) i)) (n - wn_size (wf_nodes (k_wfs k) i)) 0
      else mc_mem k)"
proof -
  let ?n = "wf_nodes (k_wfs k) i"
  let ?m = "mem_fill (mc_mem k) (wn_data ?n + wn_size ?n) (n - wn_size ?n) 0"
  note Z = wfs_zero_hole [OF goodD(7) [OF g] i(2) fit refl]
  have e: "tmpfs_zero_hole k oi n = k\<lparr>mc_mem := ?m\<rparr>"
    by (auto simp: tmpfs_zero_hole_def Let_def tmpfs_at_def wnode_at_def i(1))
  have "k\<lparr>mc_mem := ?m\<rparr> = k\<lparr>mc_mem := ?m, k_wfs := k_wfs k\<rparr>" by simp
  then show "safe_same k p (tmpfs_zero_hole k oi n)"
    unfolding safe_same_def e using safe_wfs [OF g Z(1)] Z(3) by simp
  show "k_wfs (tmpfs_zero_hole k oi n) = k_wfs k"
    "\<And>j. j < LXP_NWNODE \<Longrightarrow> wfs_bytes (mc_mem (tmpfs_zero_hole k oi n)) (k_wfs k) j = wfs_bytes (mc_mem k) (k_wfs k) j"
    "\<And>x. x \<notin> wfs_region (k_wfs k) \<Longrightarrow> mc_mem (tmpfs_zero_hole k oi n) x = mc_mem k x"
    using Z by (simp_all add: e)
  show "mc_mem (tmpfs_zero_hole k oi n) = (if n > wn_size ?n then ?m else mc_mem k)"
    by (simp add: e)
qed

lemma tmpfs_store_safe:
  assumes g: "good k p" and i: "ofd_file_idx (k_ofd k oi) = int i" "i < LXP_NWNODE" "wn_used (wf_nodes (k_wfs k) i)"
    and fit: "off + length bs \<le> wn_cap (wf_nodes (k_wfs k) i)"
    and k2: "k2 = tmpfs_zero_hole k oi off"
    and k3: "k3 = k2\<lparr>mc_mem := mem_write (mc_mem k2) (wn_data (tmpfs_at k2 oi) + off) bs\<rparr>"
    and k': "k' = (if off + length bs > wn_size (tmpfs_at k2 oi)
      then tmpfs_put k3 oi ((tmpfs_at k2 oi)\<lparr>wn_size := off + length bs\<rparr>) else k3)"
  shows "safe_same k p k'"
    "\<And>j. j < LXP_NWNODE \<Longrightarrow> j \<noteq> i \<Longrightarrow> wfs_bytes (mc_mem k') (k_wfs k') j = wfs_bytes (mc_mem k) (k_wfs k) j"
    "wfs_bytes (mc_mem k') (k_wfs k') i = file_write (wfs_bytes (mc_mem k) (k_wfs k) i) off bs"
proof -
  let ?n = "wf_nodes (k_wfs k) i"
  have off: "off \<le> wn_cap ?n" using fit by simp
  note H = tmpfs_zero_hole_safe [OF g i(1,2) off]
  let ?m2 = "mem_write (mc_mem k2) (wn_data ?n + off) bs"
  let ?w = "if off + length bs > wn_size ?n then wnode_put (k_wfs k) (int i) (?n\<lparr>wn_size := off + length bs\<rparr>) else k_wfs k"
  have t: "tmpfs_at k2 oi = ?n" and o2: "k_ofd k2 = k_ofd k"
    using H(1,2) i(1) by (simp_all add: k2 tmpfs_at_def wnode_at_def safe_same_def)
  note W = wfs_write_bytes [OF goodD(7) [OF g] i(2,3) fit H(5) refl refl]
  have k2': "k2 = k\<lparr>mc_mem := mc_mem k2\<rparr>" by (simp add: k2 tmpfs_zero_hole_def Let_def)
  have e: "k' = k\<lparr>mc_mem := ?m2, k_wfs := ?w\<rparr>"
    unfolding k' k3 t by (subst (1 3) k2') (simp add: tmpfs_put_def i(1))
  have "safe k p (k\<lparr>mc_mem := ?m2, k_wfs := ?w\<rparr>)"
    by (rule safe_wfs [OF g W(1) [folded k2]]) (use W(4) in \<open>simp_all add: k2\<close>)
  then show "safe_same k p k'" by (simp add: safe_same_def e)
  show "\<And>j. j < LXP_NWNODE \<Longrightarrow> j \<noteq> i \<Longrightarrow> wfs_bytes (mc_mem k') (k_wfs k') j = wfs_bytes (mc_mem k) (k_wfs k) j"
    "wfs_bytes (mc_mem k') (k_wfs k') i = file_write (wfs_bytes (mc_mem k) (k_wfs k) i) off bs"
    using W(2,3) [folded k2] by (simp_all add: e)
qed

lemma uptr_le: "uptr x \<le> SIZE_MAX"
  by (simp add: uptr_def SIZE_MAX_def)

lemma no_wrap_sum:
  assumes "a \<le> SIZE_MAX" "b \<le> SIZE_MAX" "\<not> uptr (a + b) < b" shows "a + b \<le> SIZE_MAX"
proof -
  have "uptr (b + a) = b + a" by (rule uptr_no_wrap) (use assms in \<open>simp_all add: add.commute\<close>)
  then show ?thesis using uptr_le [of "b + a"] by simp
qed

text \<open>A write at an offset.\<close>

lemma pwrite_tmpfs_cases:
  assumes g: "good k p" and oi: "ofd_live k oi" and kd: "ofd_kind (k_ofd k oi) = FD_TMPFS"
    and i: "ofd_file_idx (k_ofd k oi) = int i"
    and sz: "buf \<le> SIZE_MAX" "len \<le> SIZE_MAX" and r: "fop_pwrite_tmpfs k p oi buf len off = (k', rc)"
  shows "safe_same k p k' \<and> (\<forall>j < LXP_NWNODE. j \<noteq> i \<longrightarrow> wfs_bytes (mc_mem k') (k_wfs k') j = wfs_bytes (mc_mem k) (k_wfs k) j)
    \<and> (rc < 0 \<and> wfs_bytes (mc_mem k') (k_wfs k') i = wfs_bytes (mc_mem k) (k_wfs k) i
     \<or> (\<exists>bs. rc = int len \<and> off + len \<le> SIZE_MAX \<and> \<not> wnode_is_dir (wf_nodes (k_wfs k) i)
          \<and> lxp_copy_from_guest k p buf len = Some bs
          \<and> wfs_bytes (mc_mem k') (k_wfs k') i = file_write (wfs_bytes (mc_mem k) (k_wfs k) i) off bs))"
    (is "?safe k' \<and> ?others k' \<and> (?fail k' \<or> ?done)")
proof (cases "off > SIZE_MAX \<or> wnode_is_dir (tmpfs_at k oi) \<or> uptr (off + len) < len")
  case True
  then have "k' = k" "rc < 0" using r by (auto simp: fop_pwrite_tmpfs_def split: if_splits)
  then show ?thesis using g by simp
next
  case False
  have u: "i < LXP_NWNODE" "wn_used (wf_nodes (k_wfs k) i)" and t: "tmpfs_at k oi = wf_nodes (k_wfs k) i"
    using i by (auto intro: tmpfs_live [OF g oi kd])
  have ol: "off + len \<le> SIZE_MAX" by (rule no_wrap_sum) (use False sz in auto)
  obtain k1 rc1 where res: "tmpfs_reserve k oi (off + len) = (k1, rc1)" by (metis surj_pair)
  note R = tmpfs_reserve_safe [OF g i u res]
  have g1: "good k1 p" and o1: "k_ofd k1 = k_ofd k" using R(1) by (simp_all add: safe_same_def safe_def)
  have body: "(if rc1 \<noteq> 0 then (k1, - LXP_EFBIG)
         else
           (let k2 = tmpfs_zero_hole k1 oi off in
            case lxp_copy_from_guest k2 p buf len of
              None \<Rightarrow> (k2, - LXP_EFAULT)
            | Some bs \<Rightarrow>
                (let t = tmpfs_at k2 oi; k3 = k2\<lparr>mc_mem := mem_write (mc_mem k2) (wn_data t + off) bs\<rparr> in
                 (if off + len > wn_size t then tmpfs_put k3 oi (t\<lparr>wn_size := off + len\<rparr>) else k3, int len)))) = (k', rc)"
    using r False by (simp add: fop_pwrite_tmpfs_def res)
  show ?thesis
  proof (cases "rc1 = 0")
    case False
    then have "k' = k1" "rc < 0" using body by simp_all
    then show ?thesis using R(1,2) u(1) by simp
  next
    case True
    obtain q c where n1: "wf_nodes (k_wfs k1) = (wf_nodes (k_wfs k))(i := (wf_nodes (k_wfs k) i)\<lparr>wn_data := q, wn_cap := c\<rparr>)" "off + len \<le> c"
      using R(3) True by blast
    have i1: "ofd_file_idx (k_ofd k1 oi) = int i" "i < LXP_NWNODE" "wn_used (wf_nodes (k_wfs k1) i)" "off + len \<le> wn_cap (wf_nodes (k_wfs k1) i)"
      using i u o1 n1 by simp_all
    let ?k2 = "tmpfs_zero_hole k1 oi off"
    have "off \<le> wn_cap (wf_nodes (k_wfs k1) i)" using i1(4) by simp
    note H = tmpfs_zero_hole_safe [OF g1 i1(1,2) this]
    have s2: "safe_same k p ?k2"
      using R(1) H(1) safe_trans unfolding safe_same_def by metis
    have b2: "wfs_bytes (mc_mem ?k2) (k_wfs ?k2) j = wfs_bytes (mc_mem k) (k_wfs k) j" if "j < LXP_NWNODE" for j
      using H(2,3) R(2) that by simp
    have out2: "mc_mem ?k2 x = mc_mem k x" if "x \<notin> wfs_region (k_wfs k)" for x
    proof -
      have "wfs_region (k_wfs k1) = wfs_region (k_wfs k)"
        by (rule region_cong) (use R(1) in \<open>simp add: safe_same_def safe_def confined_def\<close>)
      then show ?thesis using H(4) R(5) that by simp
    qed
    have cp: "lxp_copy_from_guest ?k2 p buf len = lxp_copy_from_guest k p buf len"
      by (rule copy_from_pool [OF g _ sz out2]) (use s2 in \<open>simp_all add: safe_same_def safe_def\<close>)
    show ?thesis
    proof (cases "lxp_copy_from_guest k p buf len")
      case None
      then have "k' = ?k2" "rc < 0" using body True cp by (simp_all add: Let_def)
      then show ?thesis using s2 b2 u(1) by simp
    next
      case (Some bs)
      have len: "length bs = len" using Some by (auto simp: lxp_copy_from_guest_def split: if_splits)
      let ?t = "tmpfs_at ?k2 oi"
      let ?k3 = "?k2\<lparr>mc_mem := mem_write (mc_mem ?k2) (wn_data ?t + off) bs\<rparr>"
      have k': "k' = (if off + length bs > wn_size ?t then tmpfs_put ?k3 oi (?t\<lparr>wn_size := off + length bs\<rparr>) else ?k3)" "rc = int len"
        using body True cp Some len by (auto simp: Let_def)
      have "off + length bs \<le> wn_cap (wf_nodes (k_wfs k1) i)" using i1(4) len by simp
      note S = tmpfs_store_safe [OF g1 i1(1-3) this refl refl k'(1)]
      have "safe_same k p k'" using R(1) S(1) safe_trans unfolding safe_same_def by metis
      then show ?thesis using S(2,3) R(2) u(1) False t ol k'(2) Some by simp
    qed
  qed
qed

lemma safe_same_trans: "safe_same k p k1 \<Longrightarrow> safe_same k1 p k2 \<Longrightarrow> safe_same k p k2"
  unfolding safe_same_def using safe_trans by metis

text \<open>Setting the size of a file that has room for it.\<close>

lemma tmpfs_set_size_safe:
  assumes g: "good k p" and i: "ofd_file_idx (k_ofd k oi) = int i" "i < LXP_NWNODE" "wn_used (wf_nodes (k_wfs k) i)"
    and fit: "n \<le> wn_cap (wf_nodes (k_wfs k) i)"
    and k': "k' = tmpfs_put k oi ((tmpfs_at k oi)\<lparr>wn_size := n\<rparr>)"
  shows "safe_same k p k'" "wfs_bytes (mc_mem k') (k_wfs k') i = mem_read (mc_mem k) (wn_data (wf_nodes (k_wfs k) i)) n"
    "\<And>j. j < LXP_NWNODE \<Longrightarrow> j \<noteq> i \<Longrightarrow> wfs_bytes (mc_mem k') (k_wfs k') j = wfs_bytes (mc_mem k) (k_wfs k) j"
proof -
  let ?w = "wnode_put (k_wfs k) (int i) ((wf_nodes (k_wfs k) i)\<lparr>wn_size := n\<rparr>)"
  have e: "k' = k\<lparr>mc_mem := mc_mem k, k_wfs := ?w\<rparr>"
    by (simp add: k' tmpfs_put_def tmpfs_at_def wnode_at_def i(1))
  have "safe k p (k\<lparr>mc_mem := mc_mem k, k_wfs := ?w\<rparr>)"
    by (rule safe_wfs [OF g wfs_set_size [OF goodD(7) [OF g] i(2) fit i(3)]]) simp_all
  then show "safe_same k p k'" unfolding safe_same_def e by simp
  show "wfs_bytes (mc_mem k') (k_wfs k') i = mem_read (mc_mem k) (wn_data (wf_nodes (k_wfs k) i)) n"
    "\<And>j. j < LXP_NWNODE \<Longrightarrow> j \<noteq> i \<Longrightarrow> wfs_bytes (mc_mem k') (k_wfs k') j = wfs_bytes (mc_mem k) (k_wfs k) j"
    by (simp_all add: e wfs_bytes_def)
qed

lemma ftruncate_tmpfs_cases:
  assumes g: "good k p" and oi: "ofd_live k oi" and kd: "ofd_kind (k_ofd k oi) = FD_TMPFS"
    and i: "ofd_file_idx (k_ofd k oi) = int i" and r: "fop_ftruncate_tmpfs k oi n = (k', rc)"
  shows "safe_same k p k' \<and> (\<forall>j < LXP_NWNODE. j \<noteq> i \<longrightarrow> wfs_bytes (mc_mem k') (k_wfs k') j = wfs_bytes (mc_mem k) (k_wfs k) j)
    \<and> (rc < 0 \<and> wfs_bytes (mc_mem k') (k_wfs k') i = wfs_bytes (mc_mem k) (k_wfs k) i
     \<or> rc = 0 \<and> wfs_bytes (mc_mem k') (k_wfs k') i = file_truncate (wfs_bytes (mc_mem k) (k_wfs k) i) n)"
proof -
  have u: "i < LXP_NWNODE" "wn_used (wf_nodes (k_wfs k) i)" and t: "tmpfs_at k oi = wf_nodes (k_wfs k) i"
    using i by (auto intro: tmpfs_live [OF g oi kd])
  let ?n = "wf_nodes (k_wfs k) i"
  consider (err) "k' = k" "rc < 0" | (shrink) "n \<le> wn_size ?n" "rc = 0" "k' = tmpfs_put k oi ((tmpfs_at k oi)\<lparr>wn_size := n\<rparr>)"
    | (grow) "n > wn_size ?n" "(case tmpfs_reserve k oi n of (k1, rc1) \<Rightarrow>
         if rc1 \<noteq> 0 then (k1, - LXP_EFBIG)
         else (let k2 = tmpfs_zero_hole k1 oi n in (tmpfs_put k2 oi ((tmpfs_at k2 oi)\<lparr>wn_size := n\<rparr>), 0))) = (k', rc)"
  proof (cases "wnode_is_dir ?n \<or> n > SIZE_MAX")
    case True
    then have "k' = k" "rc < 0" using r unfolding fop_ftruncate_tmpfs_def t by (simp_all split: if_splits)
    then show ?thesis using that(1) by simp
  next
    case False
    then show ?thesis using r that(2,3) unfolding fop_ftruncate_tmpfs_def t by (cases "n > wn_size ?n") simp_all
  qed
  then show ?thesis
  proof cases
    case err
    then show ?thesis using g by simp
  next
    case shrink
    have "n \<le> wn_cap ?n" using wfs_okD(3) [OF goodD(7) [OF g] u(1)] shrink(1) by (auto simp: wnode_fine_def)
    note S = tmpfs_set_size_safe [OF g i u this shrink(3)]
    have "mem_read (mc_mem k) (wn_data ?n) n = file_truncate (wfs_bytes (mc_mem k) (k_wfs k) i) n"
      using shrink(1) mem_read_take by (simp add: file_truncate_def wfs_bytes_def)
    then show ?thesis using S shrink(2) by simp
  next
    case grow
    obtain k1 rc1 where res: "tmpfs_reserve k oi n = (k1, rc1)" by (metis surj_pair)
    note R = tmpfs_reserve_safe [OF g i u res]
    show ?thesis
    proof (cases "rc1 = 0")
      case False
      then show ?thesis using grow(2) R(1,2) u(1) by (auto simp: res)
    next
      case True
      have g1: "good k1 p" and o1: "k_ofd k1 = k_ofd k" using R(1) by (simp_all add: safe_same_def safe_def)
      obtain q c where n1: "wf_nodes (k_wfs k1) = (wf_nodes (k_wfs k))(i := ?n\<lparr>wn_data := q, wn_cap := c\<rparr>)" "n \<le> c"
        using R(3) True by blast
      have i1: "ofd_file_idx (k_ofd k1 oi) = int i" "i < LXP_NWNODE" "n \<le> wn_cap (wf_nodes (k_wfs k1) i)"
        using i u o1 n1 by simp_all
      note H = tmpfs_zero_hole_safe [OF g1 i1]
      let ?k2 = "tmpfs_zero_hole k1 oi n"
      have g2: "good ?k2 p" and o2: "k_ofd ?k2 = k_ofd k" using H(1) o1 by (simp_all add: safe_same_def safe_def)
      have k': "k' = tmpfs_put ?k2 oi ((tmpfs_at ?k2 oi)\<lparr>wn_size := n\<rparr>)" "rc = 0"
        using grow(2) True by (auto simp: res Let_def)
      have u2: "wn_used (wf_nodes (k_wfs ?k2) i)" "n \<le> wn_cap (wf_nodes (k_wfs ?k2) i)" using H(2) n1 u i1 by simp_all
      note S = tmpfs_set_size_safe [OF g2 _ u(1) u2 k'(1), unfolded o2, OF i]
      have sz1: "wn_size (wf_nodes (k_wfs k1) i) = wn_size ?n" by (simp add: n1)
      have "mem_read (mc_mem ?k2) (wn_data (wf_nodes (k_wfs k1) i)) n = file_truncate (wfs_bytes (mc_mem k1) (k_wfs k1) i) n"
        using wfs_zero_hole(4) [OF goodD(7) [OF g1] i1(2,3) refl order_refl] H(5) grow(1) by (simp add: sz1)
      then have "wfs_bytes (mc_mem k') (k_wfs k') i = file_truncate (wfs_bytes (mc_mem k) (k_wfs k) i) n"
        using S(2) H(2) R(2) u(1) by simp
      moreover have "wfs_bytes (mc_mem k') (k_wfs k') j = wfs_bytes (mc_mem k) (k_wfs k) j" if "j < LXP_NWNODE" "j \<noteq> i" for j
        using S(3) [OF that] H(2,3) R(2) that(1) by simp
      ultimately show ?thesis using safe_same_trans [OF safe_same_trans [OF R(1) H(1)] S(1)] k'(2) by simp
    qed
  qed
qed

section \<open>Pipe ends\<close>

lemma pipe_live:
  assumes g: "good k p" and oi: "ofd_live k oi" and kd: "ofd_kind (k_ofd k oi) = FD_PIPE"
  obtains i where "ofd_file_idx (k_ofd k oi) = int i" "i < LXP_NPIPE" "pipe_ok (k_pipes k i)" "pp_used (k_pipes k i)"
proof -
  have "ofd_fine (k_ofd k oi)" using goodD(6) [OF g] oi by (simp add: fd_refs_ok_def ofd_live_def)
  then have "0 \<le> ofd_file_idx (k_ofd k oi)" "ofd_file_idx (k_ofd k oi) < int LXP_NPIPE"
    using oi kd by (auto simp: ofd_fine_def ofd_live_def)
  then obtain i where i: "ofd_file_idx (k_ofd k oi) = int i" "i < LXP_NPIPE" by (metis nonneg_int_cases of_nat_less_iff)
  have ok: "pipe_ok (k_pipes k i)" using goodD(5) [OF g] i(2) by (simp add: objects_ok_def pipes_ok_def)
  have "0 < ofd_count (k_ofd k) (pipe_end_of i (ofd_rw (k_ofd k oi) \<noteq> 0))"
    by (rule ofd_count_pos) (use oi kd i in \<open>simp_all add: ofd_live_def pipe_end_of_def\<close>)
  then have "pp_readers (k_pipes k i) \<noteq> 0 \<or> pp_writers (k_pipes k i) \<noteq> 0"
    using goodD(5) [OF g] i(2) by (cases "ofd_rw (k_ofd k oi) \<noteq> 0") (auto simp: objects_ok_def pipe_refs_ok_def)
  then have "pp_used (k_pipes k i)" using ok by (auto simp: pipe_ok_def)
  then show thesis using that i ok by blast
qed

lemma pipe_used_kept:
  "lxp_pipe_try_read g pi len = (pp, n, bs) \<Longrightarrow> pp_used (pp j) = pp_used (g j)"
  "lxp_pipe_try_write g pi src = (pp, c) \<Longrightarrow> pp_used (pp j) = pp_used (g j)"
  by (auto simp: lxp_pipe_try_read_def lxp_pipe_try_write_def Let_def split: if_splits prod.splits)

lemma safe_pipe_read:
  assumes g: "good k p" and i: "i < LXP_NPIPE" "pipe_ok (k_pipes k i)"
    and acc: "lxp_guest_access_ok k p buf len True" "buf \<le> SIZE_MAX" "len \<le> SIZE_MAX"
    and r: "pipe_try_read k (int i) buf len = (k', rc)"
  shows "safe_same k p k'"
proof -
  obtain pp n bs where e: "lxp_pipe_try_read (k_pipes k) (int i) len = (pp, n, bs)" by (metis surj_pair)
  have k': "k' = (k\<lparr>k_pipes := pp\<rparr>)\<lparr>mc_mem := mem_write (mc_mem k) buf bs\<rparr>" using r by (simp add: pipe_try_read_def e)
  note R = try_read_cases [OF _ e, unfolded nat_int, OF i(2)]
  have "pipes_ok pp"
    unfolding pipes_ok_def using goodD(5) [OF g] R(4,7) by (metis objects_ok_def pipes_ok_def)
  moreover have "pp_readers (pp j) = pp_readers (k_pipes k j) \<and> pp_writers (pp j) = pp_writers (k_pipes k j)
      \<and> pp_used (pp j) = pp_used (k_pipes k j)" for j
    using R(5,6,7) pipe_used_kept(1) [OF e] by (cases "j = i") simp_all
  ultimately have s: "safe k p (k\<lparr>k_pipes := pp\<rparr>)" using safe_pipes [OF g] by blast
  have "length bs \<le> len" using R(2) by simp
  then have "safe (k\<lparr>k_pipes := pp\<rparr>) p ((k\<lparr>k_pipes := pp\<rparr>)\<lparr>mc_mem := mem_write (mc_mem (k\<lparr>k_pipes := pp\<rparr>)) buf bs\<rparr>)"
    by (intro safe_store [OF safe_good [OF s] _ acc(2,3)])
      (use acc(1) access_cong [of k p "k\<lparr>k_pipes := pp\<rparr>"] s in \<open>simp_all add: safe_def\<close>)
  then show ?thesis using safe_trans [OF s] by (simp add: safe_same_def k')
qed

lemma safe_pipe_write:
  assumes g: "good k p" and i: "i < LXP_NPIPE" "pipe_ok (k_pipes k i)" "pp_used (k_pipes k i)"
    and r: "pipe_try_write k (int i) buf len = (k', rc)"
  shows "safe_same k p k'"
proof -
  obtain pp n where e: "lxp_pipe_try_write (k_pipes k) (int i) (mem_read (mc_mem k) buf len) = (pp, n)" by (metis surj_pair)
  have k': "k' = k\<lparr>k_pipes := pp\<rparr>" using r by (simp add: pipe_try_write_def e)
  note W = try_write_cases [OF _ e, unfolded nat_int, OF i(2)]
  have "pipes_ok pp"
    unfolding pipes_ok_def using goodD(5) [OF g] W(5,8) i(3) by (metis objects_ok_def pipes_ok_def)
  moreover have "pp_readers (pp j) = pp_readers (k_pipes k j) \<and> pp_writers (pp j) = pp_writers (k_pipes k j)
      \<and> pp_used (pp j) = pp_used (k_pipes k j)" for j
    using W(6,7,8) pipe_used_kept(2) [OF e] by (cases "j = i") simp_all
  ultimately show ?thesis using safe_pipes [OF g] by (simp add: safe_same_def k')
qed

section \<open>Console, entropy and event counters\<close>

text \<open>What the host's callbacks promise: they store at most the bytes asked for, and report no
  more than that.\<close>

definition host_ok :: "io_host \<Rightarrow> bool" where
  "host_ok h \<longleftrightarrow> (\<forall>n. length (snd (ih_random h n)) \<le> n)
     \<and> (\<forall>fd n. length (snd (ch_read h fd n)) \<le> n \<and> fst (ch_read h fd n) \<le> int n)"

lemma safe_random:
  assumes g: "good k p" and h: "host_ok h" and acc: "lxp_guest_access_ok k p buf n True" "buf \<le> SIZE_MAX" "n \<le> SIZE_MAX"
    and r: "lxp_random_fill_guest h k buf n e = (k', rc)"
  shows "safe k p k'"
proof (cases "n = 0")
  case False
  obtain st bs where b: "ih_random h n = (st, bs)" by (metis surj_pair)
  have "length bs \<le> n" using h b unfolding host_ok_def by (metis snd_conv)
  moreover have "k' = k\<lparr>mc_mem := mem_write (mc_mem k) buf bs\<rparr>"
    using r False by (auto simp: lxp_random_fill_guest_def b Let_def split: if_splits)
  ultimately show ?thesis using safe_store [OF g acc] by simp
qed (use r g in \<open>simp add: lxp_random_fill_guest_def\<close>)

lemma safe_pop:
  assumes g: "good k p" and c: "ta_count (k_ta k) \<noteq> 0" and pop: "ta_pop (k_ta k) = (ta, b)"
  shows "safe k p (k\<lparr>k_ta := ta\<rparr>)"
proof -
  have T: "length (tt_termios (k_tty k)) = 36" "length (tt_winsize (k_tty k)) = 8" "ta_count (k_ta k) \<le> LXP_CONSOLE_TYPEAHEAD"
    using goodD(2) [OF g] by (simp_all add: kernel_typed_def)
  have "ta_head ta < LXP_CONSOLE_TYPEAHEAD" "ta_count ta \<le> LXP_CONSOLE_TYPEAHEAD"
    using pop T(3) by (auto simp: ta_pop_def LXP_CONSOLE_TYPEAHEAD_def)
  moreover have "k\<lparr>k_ta := ta\<rparr> = k\<lparr>k_tty := k_tty k, k_ta := ta\<rparr>" by simp
  ultimately show ?thesis using safe_console [OF g T(1,2)] by metis
qed

lemma safe_store_again:
  assumes s: "safe k p k1" and acc: "lxp_guest_access_ok k p buf n True" "buf \<le> SIZE_MAX" "n \<le> SIZE_MAX" and len: "length bs \<le> n"
  shows "safe k p (k1\<lparr>mc_mem := mem_write (mc_mem k1) buf bs\<rparr>)"
proof -
  have "lxp_guest_access_ok k1 p buf n True" using acc(1) access_cong [of k p k1] s by (simp add: safe_def)
  then show ?thesis using safe_trans [OF s safe_store [OF safe_good [OF s] _ acc(2,3) len]] by blast
qed

lemma safe_console_read:
  assumes g: "good k p" and h: "host_ok h" and acc: "lxp_guest_access_ok k p buf len True" "buf \<le> SIZE_MAX" "len \<le> SIZE_MAX"
    and r: "lxp_console_read h k p fd buf len = (k', rc)"
  shows "safe k p k'"
proof -
  define body where "body = (if len \<noteq> 0 \<and> ta_count (k_ta k) \<noteq> 0
         then (case ta_pop (k_ta k) of (ta', b) \<Rightarrow> (k\<lparr>k_ta := ta', mc_mem := mem_write (mc_mem k) buf [b]\<rparr>, 1))
         else if p_read_fn p \<noteq> 0 then (case ch_read h fd len of (n, bs) \<Rightarrow> (k\<lparr>mc_mem := mem_write (mc_mem k) buf bs\<rparr>, n))
         else (k, 0 :: int))"
  obtain k1 rc1 where b: "body = (k1, rc1)" by (metis surj_pair)
  have "safe k p k1 \<and> (rc1 = 1 \<longrightarrow> 1 \<le> len)"
  proof -
    consider (pop) "len \<noteq> 0" "ta_count (k_ta k) \<noteq> 0" | (rd) "\<not> (len \<noteq> 0 \<and> ta_count (k_ta k) \<noteq> 0)" "p_read_fn p \<noteq> 0"
      | (none) "\<not> (len \<noteq> 0 \<and> ta_count (k_ta k) \<noteq> 0)" "p_read_fn p = 0" by blast
    then show ?thesis
    proof cases
      case pop
      obtain ta c where tp: "ta_pop (k_ta k) = (ta, c)" by (metis surj_pair)
      have "k1 = (k\<lparr>k_ta := ta\<rparr>)\<lparr>mc_mem := mem_write (mc_mem (k\<lparr>k_ta := ta\<rparr>)) buf [c]\<rparr>"
        using b pop by (simp add: body_def tp)
      moreover have "length [c] \<le> len" using pop(1) by simp
      ultimately show ?thesis
        using safe_store_again [OF safe_pop [OF g pop(2) tp] acc, of "[c]"] pop(1) by simp
    next
      case rd
      obtain n bs where cr: "ch_read h fd len = (n, bs)" by (metis surj_pair)
      have l: "length bs \<le> len" "n \<le> int len" using h cr unfolding host_ok_def by (metis fst_conv snd_conv)+
      have "k1 = k\<lparr>mc_mem := mem_write (mc_mem k) buf bs\<rparr>" "rc1 = n"
        using b unfolding body_def if_not_P [OF rd(1)] if_P [OF rd(2)] by (simp_all add: cr)
      then show ?thesis using safe_store [OF g acc l(1)] l(2) by auto
    next
      case none
      have "k1 = k" "rc1 = 0" using b none(2) unfolding body_def if_not_P [OF none(1)] by simp_all
      then show ?thesis using g by simp
    qed
  qed
  moreover have "k' = (if rc1 = 1 then k1\<lparr>mc_mem := mem_write (mc_mem k1) buf [lxp_console_input_xlate (k_tty k1) (mc_mem k1 buf)]\<rparr> else k1)"
    using r b unfolding lxp_console_read_def body_def [symmetric] by (simp add: Let_def split: if_splits)
  ultimately show ?thesis using safe_store_again [OF _ acc] by simp
qed

lemma safe_tty_ioctl:
  assumes g: "good k p" and sz: "arg \<le> SIZE_MAX" and r: "fop_ioctl_console k p cmd arg = (k', rc)"
  shows "safe k p k'"
proof -
  have T: "length (tt_termios (k_tty k)) = 36" "length (tt_winsize (k_tty k)) = 8"
    "ta_head (k_ta k) < LXP_CONSOLE_TYPEAHEAD" "ta_count (k_ta k) \<le> LXP_CONSOLE_TYPEAHEAD"
    using goodD(2) [OF g] by (simp_all add: kernel_typed_def)
  obtain k1 t rc1 where e: "lxp_tty_ioctl k p (k_tty k) cmd arg = (k1, t, rc1)" by (metis surj_pair)
  have k': "k' = k1\<lparr>k_tty := t\<rparr>" using r by (simp add: fop_ioctl_console_def e)
  have out: "safe_same k p k2 \<and> k_tty k2 = k_tty k \<and> k_ta k2 = k_ta k"
    if "lxp_copy_to_guest k p arg bs = (k2, rc2)" "length bs \<le> SIZE_MAX" for bs k2 rc2
    using safe_copy_to [OF g that(1) sz that(2)] copy_to_frame [OF that(1)] by (simp add: safe_same_def)
  have cf: "length bs = n" if "lxp_copy_from_guest k p arg n = Some bs" for bs n
    using that by (auto simp: lxp_copy_from_guest_def split: if_splits)
  have E: "safe k p k1 \<and> k_ta k1 = k_ta k \<and> length (tt_termios t) = 36 \<and> length (tt_winsize t) = 8"
    if "lxp_copy_to_guest k p arg bs = (k1, rc1)" "t = k_tty k" "length bs \<le> 36" for bs
    using out [OF that(1)] that(3) T(1,2) by (simp add: that(2) safe_same_def SIZE_MAX_def)
  consider "cmd = 0x5401" | "cmd \<in> {0x5402, 0x5403, 0x5404}" | "cmd = 0x5413" | "cmd = 0x5414" | "cmd = 0x5410" | "cmd = 0x540f"
    | "cmd \<notin> {0x5401, 0x5402, 0x5403, 0x5404, 0x5413, 0x5414, 0x5410, 0x540f}" by blast
  then have "safe k p k1 \<and> k_ta k1 = k_ta k \<and> length (tt_termios t) = 36 \<and> length (tt_winsize t) = 8"
  proof cases
    case 1
    then have "lxp_copy_to_guest k p arg (tt_termios (k_tty k)) = (k1, rc1)" "t = k_tty k"
      using e by (simp_all add: lxp_tty_ioctl_def split: prod.splits)
    then show ?thesis using E T(1) by simp
  next
    case 2
    then have "(case lxp_copy_from_guest k p arg 36 of None \<Rightarrow> (k, k_tty k, - LXP_EFAULT)
         | Some s \<Rightarrow> (k, (k_tty k)\<lparr>tt_termios := s\<rparr>, 0)) = (k1, t, rc1)"
      using e by (auto simp: lxp_tty_ioctl_def)
    then show ?thesis using T(1,2) g cf by (auto split: option.splits)
  next
    case 3
    then have "lxp_copy_to_guest k p arg (tt_winsize (k_tty k)) = (k1, rc1)" "t = k_tty k"
      using e by (simp_all add: lxp_tty_ioctl_def split: prod.splits)
    then show ?thesis using E T(2) by simp
  next
    case 4
    then have "(case lxp_copy_from_guest k p arg 8 of None \<Rightarrow> (k, k_tty k, - LXP_EFAULT)
         | Some s \<Rightarrow> (k, (k_tty k)\<lparr>tt_winsize := s\<rparr>, 0)) = (k1, t, rc1)"
      using e by (simp add: lxp_tty_ioctl_def)
    then show ?thesis using T(1,2) g cf by (auto split: option.splits)
  next
    case 5
    then have "(case lxp_guest_get_u32 k p arg of None \<Rightarrow> (k, k_tty k, - LXP_EFAULT)
         | Some s \<Rightarrow> (k, (k_tty k)\<lparr>tt_fg_pgrp := to_int32 s\<rparr>, 0)) = (k1, t, rc1)"
      using e by (simp add: lxp_tty_ioctl_def)
    then show ?thesis using T(1,2) g by (auto split: option.splits)
  next
    case 6
    define v where "v = u32_bytes (to_u32 (if tt_fg_pgrp (k_tty k) > 0 then tt_fg_pgrp (k_tty k) else p_pid p))"
    have "(case lxp_copy_to_guest k p arg v of (k', rc) \<Rightarrow> (k', k_tty k, rc)) = (k1, t, rc1)"
      using e unfolding 6 lxp_tty_ioctl_def lxp_guest_put_u32_def v_def by (simp split del: if_split)
    then have "lxp_copy_to_guest k p arg v = (k1, rc1)" "t = k_tty k" by (simp_all split: prod.splits)
    then show ?thesis using E by (simp add: v_def)
  next
    case 7
    then have "t = k_tty k" "k1 = k" using e by (auto simp: lxp_tty_ioctl_def split: if_splits)
    then show ?thesis using T(1,2) g by simp
  qed
  then have s: "safe k p k1" and ta: "k_ta k1 = k_ta k" and l: "length (tt_termios t) = 36" "length (tt_winsize t) = 8" by simp_all
  have "k1\<lparr>k_tty := t, k_ta := k_ta k1\<rparr> = k1\<lparr>k_tty := t\<rparr>" by simp
  moreover have "safe k1 p (k1\<lparr>k_tty := t, k_ta := k_ta k1\<rparr>)"
    by (rule safe_console [OF safe_good [OF s] l]) (use T(3,4) ta in simp_all)
  ultimately show ?thesis unfolding k' using safe_trans [OF s] by metis
qed

lemma efd_at_copy: "lxp_copy_to_guest k p a bs = (k', rc) \<Longrightarrow> efd_at k' ei = efd_at k ei"
  by (simp add: efd_at_def copy_to_frame(2))

lemma safe_efd_ops:
  assumes g: "good k p" and sz: "buf \<le> SIZE_MAX"
  shows "efd_read k p ei buf len = (k', rc) \<Longrightarrow> safe k p k'"
    "efd_write k p ei buf len = (k', rc) \<Longrightarrow> safe k p k'"
proof -
  have b: "ef_ctr (efd_at k ei) < UINT64_MAX" if "efd_valid k ei"
    using goodD(2) [OF g] that by (auto simp: kernel_typed_def efd_valid_def efd_at_def)
  assume r: "efd_read k p ei buf len = (k', rc)"
  show "safe k p k'"
  proof (cases "\<not> efd_valid k ei \<or> len < 8 \<or> ef_ctr (efd_at k ei) = 0")
    case True
    then show ?thesis using r g by (auto simp: efd_read_def split: if_splits)
  next
    case False
    let ?v = "if has_flag (ef_flags (efd_at k ei)) 1 then 1 else ef_ctr (efd_at k ei)"
    obtain k1 rc1 where c: "lxp_copy_to_guest k p buf (le_bytes 8 ?v) = (k1, rc1)" by (metis surj_pair)
    have s1: "safe k p k1" by (rule safe_copy_to [OF g c sz]) (simp add: le_bytes_def SIZE_MAX_def)
    let ?e = "(efd_at k1 ei)\<lparr>ef_ctr := ef_ctr (efd_at k1 ei) - ?v\<rparr>"
    have "safe k1 p (k1\<lparr>k_efd := (k_efd k1)(nat ei := ?e)\<rparr>)"
      by (rule safe_efd [OF safe_good [OF s1]]) (use b False efd_at_copy [OF c] in \<open>simp_all add: efd_at_def\<close>)
    moreover have "k' = (if rc1 \<noteq> 0 then k1 else k1\<lparr>k_efd := (k_efd k1)(nat ei := ?e)\<rparr>)"
      using r False c by (simp add: efd_read_def Let_def efd_put_def split: if_splits)
    ultimately show ?thesis using s1 safe_trans [OF s1] by simp
  qed
next
  have b: "ef_ctr (efd_at k ei) < UINT64_MAX" if "efd_valid k ei"
    using goodD(2) [OF g] that by (auto simp: kernel_typed_def efd_valid_def efd_at_def)
  assume r: "efd_write k p ei buf len = (k', rc)"
  consider "k' = k" | e where "efd_valid k ei" "k' = efd_put k ei e" "ef_used e = ef_used (efd_at k ei)" "ef_ctr e < UINT64_MAX"
  proof (cases "\<not> efd_valid k ei \<or> len < 8")
    case True
    then show ?thesis using r that(1) by (auto simp: efd_write_def split: if_splits)
  next
    case False
    have bb: "ef_ctr (efd_at k ei) < UINT64_MAX" using b False by simp
    show ?thesis
    proof (cases "lxp_copy_from_guest k p buf 8")
      case None
      then show ?thesis using r False that(1) by (simp add: efd_write_def)
    next
      case (Some bs)
      show ?thesis using r False that bb
        by (auto simp: efd_write_def Some Let_def UINT64_MAX_def split: if_splits)
    qed
  qed
  then show "safe k p k'"
  proof cases
    case (2 e)
    then show ?thesis using safe_efd [OF g, of e "nat ei"] by (simp add: efd_put_def efd_at_def)
  qed (use g in simp)
qed

section \<open>Directory listings\<close>

lemma length_le_bytes [simp]: "length (le_bytes n v) = n"
  by (simp add: le_bytes_def)

lemma length_dirent_record: "length (dirent_record is64 ino off type name) = dirent_reclen is64 (length name)"
proof -
  have round: "n \<le> (n + 7) div 8 * 8" for n :: nat by presburger
  have "(if is64 then 8 else 4) + ((if is64 then 8 else 4) + (2 + ((if is64 then 1 else 0) + length name))) \<le> dirent_reclen is64 (length name)"
    using round [of "dirent_head is64 + length name + 1 + (if is64 then 0 else 1)"]
    by (cases is64) (simp_all add: dirent_reclen_def dirent_head_def)
  then show ?thesis by (cases is64) (simp_all add: dirent_record_def Let_def)
qed

lemma safe_dirent_put:
  assumes g: "good k p" and r: "lxp_dirent_put k p sink ino off type name = (k', sink', b)"
  shows "safe_same k p k'"
proof (cases "ds_error sink \<noteq> 0 \<or> ds_filled sink + dirent_reclen (ds_is64 sink) (length name) > ds_cap sink
    \<or> dirent_reclen (ds_is64 sink) (length name) > LXP_PATH_MAX + 32")
  case True
  then show ?thesis using r g by (auto simp: lxp_dirent_put_def Let_def split: if_splits)
next
  case False
  obtain k1 rc where c: "lxp_copy_to_guest k p (uptr (ds_ubuf sink + ds_filled sink)) (dirent_record (ds_is64 sink) ino off type name) = (k1, rc)"
    by (metis surj_pair)
  have "safe k p k1"
    by (rule safe_copy_to [OF g c uptr_le]) (use False in \<open>simp add: length_dirent_record config_defs SIZE_MAX_def\<close>)
  moreover have "k' = k1" using r False c by (auto simp: lxp_dirent_put_def Let_def split: if_splits)
  ultimately show ?thesis using copy_to_frame(1) [OF c] by (simp add: safe_same_def)
qed

lemma safe_dirent_emit:
  assumes g: "good (dl_kernel d) p" and oi: "ofd_live (dl_kernel d) oi" and r: "dirent_emit p oi d ino name mode = (d', b)"
  shows "safe (dl_kernel d) p (dl_kernel d')" "ofd_live (dl_kernel d') oi"
proof -
  let ?k = "dl_kernel d"
  have "safe ?k p (dl_kernel d') \<and> ofd_live (dl_kernel d') oi"
  proof (cases "int (dl_pos d) < to_int32 (ofd_offset (k_ofd ?k oi))")
    case True
    then show ?thesis using r g oi by (auto simp: dirent_emit_def Let_def)
  next
    case False
    obtain k1 s1 ok where e: "lxp_dirent_put ?k p (dl_sink d) ino (dl_pos d + 1) (lxp_dirent_type mode) name = (k1, s1, ok)"
      by (metis surj_pair)
    have s: "safe ?k p k1" "k_ofd k1 = k_ofd ?k" using safe_dirent_put [OF g e] by (simp_all add: safe_same_def)
    let ?s = "(k_ofd k1 oi)\<lparr>ofd_offset := uptr (ofd_offset (k_ofd k1 oi) + 1)\<rparr>"
    have "safe k1 p (ofd_put k1 oi ?s)"
      by (rule safe_ofd [OF safe_good [OF s(1)]]) (use oi s(2) uptr_le in \<open>simp_all add: ofd_live_def\<close>)
    moreover have "dl_kernel d' = (if ok then ofd_put k1 oi ?s else k1)"
      using r False unfolding dirent_emit_def Let_def e by (auto split: if_splits)
    ultimately show ?thesis using s oi safe_trans [OF s(1)] by (simp add: ofd_live_def)
  qed
  then show "safe ?k p (dl_kernel d')" "ofd_live (dl_kernel d') oi" by simp_all
qed

lemma safe_dir_emit_loop:
  assumes "good (dl_kernel d) p" "ofd_live (dl_kernel d) oi" "dir_emit_loop p oi es d = (d', b)"
  shows "safe (dl_kernel d) p (dl_kernel d')"
  using assms
proof (induction p oi es d rule: dir_emit_loop.induct)
  case (2 p oi ino name mode es d)
  obtain d1 ok where e: "dirent_emit p oi d ino name mode = (d1, ok)" by (metis surj_pair)
  note S = safe_dirent_emit [OF "2.prems"(1,2) e]
  show ?case
  proof (cases ok)
    case True
    then have "dir_emit_loop p oi es d1 = (d', b)" using "2.prems"(3) by (simp add: e)
    then show ?thesis using safe_trans [OF S(1) "2.IH" [OF e [symmetric] True safe_good [OF S(1)] S(2)]] by blast
  next
    case False
    then show ?thesis using "2.prems"(3) S(1) by (simp add: e)
  qed
qed simp

lemma safe_dir_list:
  assumes g: "good k p" and oi: "ofd_live k oi" and r: "lxp_dir_list h k p oi dir sink = (k', rc)"
  shows "safe k p k'"
proof -
  obtain d f where e: "dir_emit_loop p oi (dir_entries h k p dir) \<lparr>dl_kernel = k, dl_sink = sink, dl_pos = 0\<rparr> = (d, f)"
    by (metis surj_pair)
  have "k' = dl_kernel d" using r by (simp add: lxp_dir_list_def e Let_def)
  then show ?thesis using safe_dir_emit_loop [OF _ _ e] g oi by simp
qed

section \<open>The table of operations\<close>

definition same_task :: "proc \<Rightarrow> proc \<Rightarrow> bool" where
  "same_task p p' \<longleftrightarrow> p_mm p' = p_mm p \<and> p_files p' = p_files p"

lemma same_task_refl [simp]: "same_task p p"
  by (simp add: same_task_def)

lemma park_task: "lxp_wait_park now p w = (p', rc) \<Longrightarrow> same_task p p'"
  by (auto simp: lxp_wait_park_def lxp_wait_begin_def same_task_def Let_def split: if_splits prod.splits)

lemma terminate_task: "same_task p (lxp_signal_terminate p sig reason d a)"
  by (simp add: same_task_def lxp_signal_terminate_def lxp_intent_exit_def Let_def)

lemma safe_pipe_ops:
  assumes g: "good k p" and oi: "ofd_live k oi" and kd: "ofd_kind (k_ofd k oi) = FD_PIPE"
  shows "fop_read_pipe h k p oi buf len = (p', k', rc) \<Longrightarrow> lxp_guest_access_ok k p buf len True \<Longrightarrow> buf \<le> SIZE_MAX
      \<Longrightarrow> len \<le> SIZE_MAX \<Longrightarrow> safe k p k' \<and> same_task p p'"
    "fop_write_pipe h k p oi buf len = (p', k', rc) \<Longrightarrow> safe k p k' \<and> same_task p p'"
proof -
  obtain i where i: "ofd_file_idx (k_ofd k oi) = int i" "i < LXP_NPIPE" "pipe_ok (k_pipes k i)" "pp_used (k_pipes k i)"
    by (rule pipe_live [OF g oi kd])
  {
    assume r: "fop_read_pipe h k p oi buf len = (p', k', rc)" and acc: "lxp_guest_access_ok k p buf len True" "buf \<le> SIZE_MAX" "len \<le> SIZE_MAX"
    obtain k1 n where e: "pipe_try_read k (int i) buf len = (k1, n)" by (metis surj_pair)
    have "safe k p k1" using safe_pipe_read [OF g i(2,3) acc e] by (simp add: safe_same_def)
    then show "safe k p k' \<and> same_task p p'"
      using r g park_task by (auto simp: fop_read_pipe_def Let_def i(1) e split: if_splits prod.splits)
  }
  {
    assume r: "fop_write_pipe h k p oi buf len = (p', k', rc)"
    obtain k1 n where e: "pipe_try_write k (int i) buf len = (k1, n)" by (metis surj_pair)
    have "safe k p k1" using safe_pipe_write [OF g i(2-4) e] by (simp add: safe_same_def)
    then show "safe k p k' \<and> same_task p p'"
      using r g park_task terminate_task by (auto simp: fop_write_pipe_def Let_def i(1) e split: if_splits prod.splits)
  }
qed

lemma safe_read_console:
  assumes g: "good k p" and h: "host_ok h" and acc: "lxp_guest_access_ok k p buf len True" "buf \<le> SIZE_MAX" "len \<le> SIZE_MAX"
    and r: "fop_read_console h k p oi buf len = (p', k', rc)"
  shows "safe k p k' \<and> same_task p p'"
proof -
  have z: "safe k p (k\<lparr>mc_mem := mem_fill (mc_mem k) buf len 0\<rparr>)"
    unfolding mem_fill_write by (rule safe_store [OF g acc]) simp
  show ?thesis
    using r g z safe_random [OF g h acc] safe_console_read [OF g h acc] park_task
    by (auto simp: fop_read_console_def Let_def split: if_splits prod.splits)
qed

section \<open>Descriptors\<close>

text \<open>What opening and closing leave alone: windows, console, counters, and memory outside the
  file pool.\<close>

definition counters_kept :: "kernel \<Rightarrow> kernel \<Rightarrow> bool" where
  "counters_kept k k' \<longleftrightarrow> (\<forall>i. ef_ctr (k_efd k' i) = ef_ctr (k_efd k i) \<or> ef_ctr (k_efd k' i) < UINT64_MAX)"

lemma counters_same: "(\<And>i. ef_ctr (k_efd k' i) = ef_ctr (k_efd k i)) \<Longrightarrow> counters_kept k k'"
  by (simp add: counters_kept_def)

lemma counters_trans: "counters_kept k k1 \<Longrightarrow> counters_kept k1 k2 \<Longrightarrow> counters_kept k k2"
  unfolding counters_kept_def by metis

definition pool_frame :: "kernel \<Rightarrow> kernel \<Rightarrow> bool" where
  "pool_frame k k' \<longleftrightarrow> mc_mm k' = mc_mm k \<and> k_arena k' = k_arena k \<and> mc_slot_generation k' = mc_slot_generation k
     \<and> mc_rootfs_lo k' = mc_rootfs_lo k \<and> mc_rootfs_hi k' = mc_rootfs_hi k \<and> k_tty k' = k_tty k \<and> k_ta k' = k_ta k
     \<and> counters_kept k k' \<and> wf_pool (k_wfs k') = wf_pool (k_wfs k)
     \<and> (\<forall>x. x \<notin> wfs_region (k_wfs k) \<longrightarrow> mc_mem k' x = mc_mem k x)"

definition offsets_ok :: "kernel \<Rightarrow> bool" where
  "offsets_ok k \<longleftrightarrow> (\<forall>oi < LXP_MAX_OFD. ofd_offset (k_ofd k oi) \<le> SIZE_MAX)"

lemma pool_frame_refl [simp]: "pool_frame k k"
  by (simp add: pool_frame_def counters_same)

lemma pool_frame_trans:
  assumes "pool_frame k k1" "pool_frame k1 k2" shows "pool_frame k k2"
proof -
  have "wfs_region (k_wfs k1) = wfs_region (k_wfs k)" by (rule region_cong) (use assms(1) in \<open>simp add: pool_frame_def\<close>)
  then show ?thesis using assms counters_trans [of k k1 k2] by (simp add: pool_frame_def)
qed

lemma safe_frame:
  assumes g: "good k p" and ok: "kernel_ok k'" and f: "pool_frame k k'" and o: "offsets_ok k'"
  shows "safe k p k'"
proof (rule safeI [OF g ok])
  have "ef_ctr (k_efd k' i) < UINT64_MAX" if "i < LXP_NEVENTFD" for i
    using goodD(2) [OF g] f that unfolding kernel_typed_def pool_frame_def counters_kept_def by metis
  then show "kernel_typed k'" using goodD(2) [OF g] f o by (simp add: kernel_typed_def pool_frame_def offsets_ok_def)
  show "confined k p k'" using f by (simp add: confined_def pool_frame_def)
qed

lemma put_frame [simp]:
  "pool_frame k (ofd_put k oi s)" "pool_frame k (fd_entry_put k f fd e)"
  "offsets_ok (fd_entry_put k f fd e) = offsets_ok k"
  by (simp_all add: pool_frame_def offsets_ok_def ofd_put_def fd_entry_put_def counters_same)

lemma offsets_put [simp]: "offsets_ok k \<Longrightarrow> ofd_offset s \<le> SIZE_MAX \<Longrightarrow> offsets_ok (ofd_put k oi s)"
  by (simp add: offsets_ok_def)

lemma good_offsets [simp]: "good k p \<Longrightarrow> offsets_ok k"
  by (simp add: good_def kernel_typed_def offsets_ok_def)

lemma wfs_close_outside:
  assumes ok: "wfs_ok m w" and r: "lxp_wfs_close m w i = (m', w')"
  shows "wf_pool w' = wf_pool w" "\<And>x. x \<notin> wfs_region w \<Longrightarrow> m' x = m x"
proof -
  have "wf_pool w' = wf_pool w \<and> (\<forall>x. x \<notin> wfs_region w \<longrightarrow> m' x = m x)"
  proof (cases "i < 0 \<or> i \<ge> int LXP_NWNODE \<or> \<not> wn_used (wnode_at w i) \<or> wn_open_refs (wnode_at w i) = 0")
    case True
    then show ?thesis using r by (auto simp: lxp_wfs_close_def)
  next
    case False
    have "nat i < LXP_NWNODE" "wn_used (wf_nodes w (nat i))" using False by (auto simp: wnode_at_def)
    moreover obtain n where "wn_open_refs (wf_nodes w (nat i)) = Suc n" using False by (metis not0_implies_Suc wnode_at_def)
    moreover have "lxp_wfs_close m w (int (nat i)) = (m', w')" using r False by simp
    ultimately show ?thesis using wfs_close_cases [OF ok] by blast
  qed
  then show "wf_pool w' = wf_pool w" "\<And>x. x \<notin> wfs_region w \<Longrightarrow> m' x = m x" by auto
qed

lemma close_frame:
  assumes ok: "wfs_ok (mc_mem k) (k_wfs k)" shows "pool_frame k (vfs_close k s)"
proof (cases "ofd_kind s")
  case FD_TMPFS
  obtain m w where e: "lxp_wfs_close (mc_mem k) (k_wfs k) (ofd_file_idx s) = (m, w)" by (metis surj_pair)
  show ?thesis using wfs_close_outside [OF ok e]
    by (simp add: vfs_close_def FD_TMPFS fop_close_tmpfs_def e pool_frame_def counters_same)
qed (simp_all add: vfs_close_def fop_close_pipe_def fop_close_proc_def fop_close_eventfd_def efd_close_def pool_frame_def counters_same)

lemma if_splitI: "P x \<Longrightarrow> P y \<Longrightarrow> P (if b then x else y)"
  by simp

lemma release_frame:
  assumes ok: "wfs_ok (mc_mem k) (k_wfs k)" and o: "offsets_ok k" and oi: "oi < LXP_MAX_OFD"
  shows "pool_frame k (ofd_release k oi)" "offsets_ok (ofd_release k oi)"
proof -
  let ?s = "(k_ofd k oi)\<lparr>ofd_refs := ofd_refs (k_ofd k oi) - 1\<rparr>"
  have c: "pool_frame (ofd_put k oi ?s) (vfs_close (ofd_put k oi ?s) ?s)" by (rule close_frame) (use ok in simp)
  have os: "offsets_ok (ofd_put k oi ?s)" using o oi by (simp add: offsets_ok_def)
  have z: "ofd_offset ofd_zero = 0" by (simp add: ofd_zero_def)
  show "pool_frame k (ofd_release k oi)"
    unfolding ofd_release_def Let_def
    by (rule if_splitI) (rule pool_frame_trans [OF put_frame(1) pool_frame_trans [OF c put_frame(1)]], rule put_frame(1))
  show "offsets_ok (ofd_release k oi)"
    unfolding ofd_release_def Let_def using o oi z by (simp add: offsets_ok_def)
qed

lemma fd_close_frame:
  assumes ok: "wfs_ok (mc_mem k) (k_wfs k)" and o: "offsets_ok k" and r: "lxp_fd_close k p fd = (k', rc)"
  shows "pool_frame k k'" "offsets_ok k'"
proof -
  have "pool_frame k k' \<and> offsets_ok k'"
  proof (cases "fd_lookup k p fd")
    case None
    then show ?thesis using r o by (simp add: lxp_fd_close_def)
  next
    case (Some oi)
    then obtain f where f: "p_files p = Some f" "oi < LXP_MAX_OFD" by (rule fd_lookupE)
    have k': "k' = ofd_release (fd_entry_put k f fd fd_zero) oi" using r f Some by (simp add: lxp_fd_close_def)
    have "wfs_ok (mc_mem (fd_entry_put k f fd fd_zero)) (k_wfs (fd_entry_put k f fd fd_zero))"
      "offsets_ok (fd_entry_put k f fd fd_zero)" using ok o by simp_all
    from release_frame [OF this f(2)] show ?thesis
      unfolding k' using pool_frame_trans [OF put_frame(2)] by blast
  qed
  then show "pool_frame k k'" "offsets_ok k'" by simp_all
qed

lemma safe_close: "good k p \<Longrightarrow> lxp_fd_close k p fd = (k', rc) \<Longrightarrow> safe k p k'"
  by (rule safe_frame) (auto simp: kernel_ok_def dest: goodD intro: fd_close_inv fd_close_frame)

lemma safe_dup_to:
  assumes g: "good k p" and r: "lxp_fd_dup_to k p oldfd newfd ce = (k', rc)"
  shows "safe k p k'"
proof (rule safe_frame [OF g])
  show "kernel_ok k'" using fd_dup_to_inv [OF goodD(1,3) [OF g] r] by (simp add: kernel_ok_def)
  have "pool_frame k k' \<and> offsets_ok k'"
  proof (cases "fd_lookup k p oldfd")
    case None
    then show ?thesis using r g by (simp add: lxp_fd_dup_to_def)
  next
    case (Some oi)
    then obtain f where f: "p_files p = Some f" "oi < LXP_MAX_OFD" by (rule fd_lookupE)
    let ?k1 = "ofd_ref_inc k oi"
    have o: "ofd_offset (k_ofd k oi) \<le> SIZE_MAX" using good_offsets [OF g] f(2) by (simp add: offsets_ok_def)
    have k1: "pool_frame k ?k1" "offsets_ok ?k1" "wfs_ok (mc_mem ?k1) (k_wfs ?k1)"
      using g o goodD(7) [OF g] by (simp_all add: ofd_ref_inc_def)
    obtain kc rcc where cl: "lxp_fd_close ?k1 p newfd = (kc, rcc)" by (metis surj_pair)
    note C = fd_close_frame [OF k1(3,2) cl]
    show ?thesis
      using r g k1 C pool_frame_trans [OF k1(1)] pool_frame_trans [OF pool_frame_trans [OF k1(1) C(1)]]
      by (auto simp: lxp_fd_dup_to_def Some f fd_retain_def Let_def cl split: if_splits)
  qed
  then show "pool_frame k k'" "offsets_ok k'" by simp_all
qed

lemma safe_dup_min:
  assumes g: "good k p" and r: "lxp_fd_dup_min k p oldfd minfd ce = (k', rc)"
  shows "safe k p k'"
proof (rule safe_frame [OF g])
  show "kernel_ok k'" using fd_dup_min_inv [OF goodD(1,3) [OF g] r] by (simp add: kernel_ok_def)
  have "pool_frame k k' \<and> offsets_ok k'"
  proof (cases "fd_lookup k p oldfd")
    case None
    then show ?thesis using r g by (simp add: lxp_fd_dup_min_def)
  next
    case (Some oi)
    then obtain f where f: "p_files p = Some f" "oi < LXP_MAX_OFD" by (rule fd_lookupE)
    have o: "ofd_offset (k_ofd k oi) \<le> SIZE_MAX" using good_offsets [OF g] f(2) by (simp add: offsets_ok_def)
    have k1: "pool_frame k (ofd_ref_inc k oi)" "offsets_ok (ofd_ref_inc k oi)"
      using g o by (simp_all add: ofd_ref_inc_def)
    show ?thesis
      using r g k1 pool_frame_trans [OF k1(1)]
      by (auto simp: lxp_fd_dup_min_def Some f fd_retain_def Let_def split: if_splits option.splits)
  qed
  then show "pool_frame k k'" "offsets_ok k'" by simp_all
qed

lemma safe_set_cloexec:
  assumes g: "good k p" and r: "lxp_fd_set_cloexec k p fd e = (k', rc)"
  shows "safe k p k'"
proof -
  have "kernel_ok (fd_entry_put k f fd ((fd_entry_at k f fd)\<lparr>fd_cloexec := e\<rparr>))" for f
    unfolding kernel_ok_def by (rule fd_entry_flag_inv [OF goodD(1) [OF g]]) simp
  then show ?thesis
    using r g by (auto simp: lxp_fd_set_cloexec_def split: option.splits intro!: safe_frame)
qed

section \<open>New descriptors\<close>

lemma fd_open_counted:
  assumes k: "fd_refs_ok (k_ofd k) (k_files k) ex" and p: "proc_ok p"
    and b: "\<forall>n. kind_bound kind = Some n \<longrightarrow> 0 \<le> idx \<and> idx < int n"
    and r: "lxp_fd_open k p kind idx off flags = (k', fd)"
  obtains (fail) "fd = - LXP_EMFILE" "k' = k"
  | (ok) oi f d e where "p_files p = Some f" "fd = int d" "d < LXP_MAX_FDS" "fd_ofd (fl_fd (k_files k f) d) = 0"
      "oi < LXP_MAX_OFD" "ofd_refs (k_ofd k oi) = 0" "fd_ofd e = Suc oi" "fd_refs_ok (k_ofd k') (k_files k') ex"
      "k' = fd_entry_put (ofd_put k oi (new_ofd kind idx off flags)) f fd e"
      "\<And>P. ofd_count (k_ofd k') P = ofd_count (k_ofd k) P + of_bool (P (new_ofd kind idx off flags))"
  using r
proof (cases rule: fd_openE)
  case fail
  then show thesis using that(1) by blast
next
  case (ok f d oi)
  show thesis
  proof (rule that(2) [OF ok(1,3,4,5,7,8) _ _ ok(9)])
    show "fd_refs_ok (k_ofd k') (k_files k') ex"
      by (rule fd_open_refs [OF k p ok(1,3,4,5,7,8) _ _ ok(9)]) (use b ok(2) in \<open>auto simp: ofd_fine_def\<close>)
    show "ofd_count (k_ofd k') P = ofd_count (k_ofd k) P + of_bool (P (new_ofd kind idx off flags))" for P
      using ofd_count_new [where g = "k_ofd k" and s = "new_ofd kind idx off flags" and P = P, OF ok(7,8)] by (simp add: ok(9))
  qed simp
qed

lemma open_frame:
  assumes "k' = fd_entry_put (ofd_put k oi (new_ofd kind idx off flags)) f fd e"
  shows "pool_frame k k'" "offsets_ok k \<Longrightarrow> off \<le> SIZE_MAX \<Longrightarrow> offsets_ok k'"
  using pool_frame_trans [OF put_frame(1) put_frame(2)] by (simp_all add: assms)

lemma safe_open_plain:
  assumes g: "good k p" and kd: "kind_bound kind = None" and off: "off \<le> SIZE_MAX"
    and r: "lxp_fd_open k p kind idx off flags = (k', fd)"
  shows "safe k p k'"
  using r
proof (cases rule: fd_openE)
  case (ok f d oi)
  have "kernel_ok k'" using fd_open_plain_inv [OF _ goodD(3) [OF g] kd r] goodD(1) [OF g] by (simp add: kernel_ok_def)
  then show ?thesis using safe_frame [OF g] open_frame [OF ok(9)] good_offsets [OF g] off by blast
qed (use g in simp)

text \<open>An eventfd and a generated file are one object and one description.\<close>

lemma safe_eventfd_open:
  assumes g: "good k p" and v: "initval < UINT64_MAX" and r: "lxp_eventfd_open k p initval flags = (k', rc)"
  shows "safe k p k'"
proof (cases "scan (\<lambda>i. \<not> ef_used (k_efd k i)) 0 LXP_NEVENTFD")
  case None
  then show ?thesis using r g by (simp add: lxp_eventfd_open_def efd_new_def)
next
  case (Some i)
  have i: "i < LXP_NEVENTFD" "\<not> ef_used (k_efd k i)" using scan_SomeD [OF Some] by simp_all
  define e where "e = \<lparr>ef_ctr = initval, ef_flags = flags mod 2 ^ 16, ef_used = True\<rparr>"
  define k1 where "k1 = k\<lparr>k_efd := (k_efd k)(i := e)\<rparr>"
  define fl where "fl = LXP_O_RDWR OR (flags AND (LXP_O_NONBLOCK OR LXP_O_CLOEXEC))"
  obtain k2 fd where o: "lxp_fd_open k1 p FD_EVENTFD (int i) 0 fl = (k2, fd)" by (metis surj_pair)
  have r': "k' = (if fd < 0 then efd_put k2 (int i) ((efd_at k2 (int i))\<lparr>ef_used := False\<rparr>) else k2)"
    using r o Some
    by (simp add: lxp_eventfd_open_def efd_new_def lxp_fd_install_def lxp_sys_fd_alloc_def e_def k1_def fl_def split: if_splits)
  have ko: "kernel_inv k (\<lambda>_. 0)" using goodD(1) [OF g] by (simp add: kernel_ok_def)
  have f1: "pool_frame k k1" "offsets_ok k1" using good_offsets [OF g] v
    by (simp_all add: pool_frame_def offsets_ok_def k1_def e_def counters_kept_def)
  have refs: "fd_refs_ok (k_ofd k1) (k_files k1) (\<lambda>_. 0)" using ko by (simp add: kernel_inv_def k1_def)
  have b: "\<forall>n. kind_bound FD_EVENTFD = Some n \<longrightarrow> 0 \<le> int i \<and> int i < int n" using i by simp
  show ?thesis
  proof (cases rule: fd_open_counted [OF refs goodD(3) [OF g] b o])
    case 1
    have "k' = k\<lparr>k_efd := (k_efd k)(i := e\<lparr>ef_used := False\<rparr>)\<rparr>"
      using r' 1 by (simp add: efd_put_def efd_at_def k1_def)
    then show ?thesis using ko i v good_offsets [OF g]
      by (intro safe_frame [OF g])
        (auto simp: kernel_ok_def kernel_inv_def objects_ok_def efd_refs_ok_def pool_frame_def offsets_ok_def e_def counters_kept_def)
  next
    case ok: (2 oi f d en)
    have k': "k' = k2" using r' ok(2) by simp
    have c: "ofd_count (k_ofd k2) (pipe_end_of j w) = ofd_count (k_ofd k) (pipe_end_of j w)"
      "ofd_count (k_ofd k2) (ofd_names FD_TMPFS j) = ofd_count (k_ofd k) (ofd_names FD_TMPFS j)"
      "ofd_count (k_ofd k2) (ofd_names FD_PROC j) = ofd_count (k_ofd k) (ofd_names FD_PROC j)"
      "ofd_count (k_ofd k2) (ofd_names FD_EVENTFD j) = ofd_count (k_ofd k) (ofd_names FD_EVENTFD j) + of_bool (j = i)" for j w
      using ok(10) by (auto simp: k1_def pipe_end_of_def ofd_names_def)
    have pools: "k_pipes k2 = k_pipes k" "k_wfs k2 = k_wfs k" "k_efd k2 = (k_efd k)(i := e)" "k_procf k2 = k_procf k" "mc_mem k2 = mc_mem k"
      by (simp_all add: ok(9) k1_def)
    have "efd_refs_ok (k_ofd k2) (k_efd k2)"
      unfolding efd_refs_ok_def c pools using ko i by (auto simp: kernel_inv_def objects_ok_def efd_refs_ok_def e_def)
    then have "kernel_ok k2"
      using ko ok(8) unfolding kernel_ok_def kernel_inv_def objects_ok_def pipe_refs_ok_def wfs_refs_ok_def procf_refs_ok_def c pools
      by blast
    then show ?thesis unfolding k' using open_frame [OF ok(9)] f1 pool_frame_trans by (intro safe_frame [OF g]) auto
  qed
qed

lemma safe_procfs_open:
  assumes g: "good k p" and r: "lxp_procfs_open h k p path flags = (k', rc)"
  shows "safe k p k'"
proof -
  define dir where "dir = (file_type (lxp_proc_mode h path p) = LXP_S_IFDIR)"
  consider (err) "k' = k" | (run) i content where "scan (\<lambda>i. \<not> pf_used (k_procf k i)) 0 LXP_NPROCF = Some i"
      "lxp_procfs_open h k p path flags =
        (let k1 = k\<lparr>k_procf := (k_procf k)(i := \<lparr>pf_path = path, pf_buf = content, pf_is_dir = dir, pf_used = True\<rparr>)\<rparr>;
                       (k2, fd) = lxp_fd_install k1 p FD_PROC (int i) flags
                   in if fd < 0 then (k2\<lparr>k_procf := (k_procf k2)(i := (k_procf k2 i)\<lparr>pf_used := False\<rparr>)\<rparr>, fd)
                      else (k2, fd))"
  proof (cases "lxp_proc_mode h path p = 0 \<or> file_type (lxp_proc_mode h path p) = LXP_S_IFLNK \<or> length path \<ge> LXP_PROCPATH")
    case True
    then have "lxp_procfs_open h k p path flags = (k, - LXP_ENOENT)"
      unfolding lxp_procfs_open_def Let_def by (metis (lifting))
    then show thesis using r err by simp
  next
    case False
    then have n: "\<not> (lxp_proc_mode h path p = 0 \<or> file_type (lxp_proc_mode h path p) = LXP_S_IFLNK)" "\<not> length path \<ge> LXP_PROCPATH" by auto
    show thesis
    proof (cases "scan (\<lambda>i. \<not> pf_used (k_procf k i)) 0 LXP_NPROCF")
      case None
      then show thesis using r err n by (simp add: lxp_procfs_open_def)
    next
      case (Some i)
      show thesis
      proof (cases "if dir then Some [] else ih_proc_gen h path")
        case None
        then show thesis using r err n Some by (simp add: lxp_procfs_open_def dir_def)
      next
        case (Some c)
        show thesis by (rule run [OF \<open>scan _ _ _ = Some i\<close>, of c])
            (simp only: lxp_procfs_open_def Let_def if_not_P [OF n(1)] if_not_P [OF n(2)] \<open>scan _ _ _ = Some i\<close> dir_def [symmetric] Some option.case)
      qed
    qed
  qed
  then show ?thesis
  proof cases
    case run
    have i: "i < LXP_NPROCF" "\<not> pf_used (k_procf k i)" using scan_SomeD [OF run(1)] by simp_all
    define e where "e = \<lparr>pf_path = path, pf_buf = content, pf_is_dir = dir, pf_used = True\<rparr>"
    define k1 where "k1 = k\<lparr>k_procf := (k_procf k)(i := e)\<rparr>"
    obtain k2 fd where o: "lxp_fd_open k1 p FD_PROC (int i) 0 flags = (k2, fd)" by (metis surj_pair)
    have r': "k' = (if fd < 0 then k2\<lparr>k_procf := (k_procf k2)(i := (k_procf k2 i)\<lparr>pf_used := False\<rparr>)\<rparr> else k2)"
      using r o run(2) by (simp add: lxp_fd_install_def lxp_sys_fd_alloc_def e_def k1_def split: if_splits)
    have ko: "kernel_inv k (\<lambda>_. 0)" using goodD(1) [OF g] by (simp add: kernel_ok_def)
    have f1: "pool_frame k k1" "offsets_ok k1" using good_offsets [OF g]
      by (simp_all add: pool_frame_def offsets_ok_def k1_def e_def counters_kept_def)
    have refs: "fd_refs_ok (k_ofd k1) (k_files k1) (\<lambda>_. 0)" using ko by (simp add: kernel_inv_def k1_def)
    have b: "\<forall>n. kind_bound FD_PROC = Some n \<longrightarrow> 0 \<le> int i \<and> int i < int n" using i by simp
    show ?thesis
    proof (cases rule: fd_open_counted [OF refs goodD(3) [OF g] b o])
      case 1
      have "k' = k\<lparr>k_procf := (k_procf k)(i := e\<lparr>pf_used := False\<rparr>)\<rparr>" using r' 1 by (simp add: k1_def)
      then show ?thesis using ko i good_offsets [OF g]
        by (intro safe_frame [OF g])
          (auto simp: kernel_ok_def kernel_inv_def objects_ok_def procf_refs_ok_def pool_frame_def offsets_ok_def e_def counters_kept_def)
    next
      case ok: (2 oi f d en)
      have k': "k' = k2" using r' ok(2) by simp
      have c: "ofd_count (k_ofd k2) (pipe_end_of j w) = ofd_count (k_ofd k) (pipe_end_of j w)"
        "ofd_count (k_ofd k2) (ofd_names FD_TMPFS j) = ofd_count (k_ofd k) (ofd_names FD_TMPFS j)"
        "ofd_count (k_ofd k2) (ofd_names FD_EVENTFD j) = ofd_count (k_ofd k) (ofd_names FD_EVENTFD j)"
        "ofd_count (k_ofd k2) (ofd_names FD_PROC j) = ofd_count (k_ofd k) (ofd_names FD_PROC j) + of_bool (j = i)" for j w
        using ok(10) by (auto simp: k1_def pipe_end_of_def ofd_names_def)
      have pools: "k_pipes k2 = k_pipes k" "k_wfs k2 = k_wfs k" "k_procf k2 = (k_procf k)(i := e)" "k_efd k2 = k_efd k" "mc_mem k2 = mc_mem k"
        by (simp_all add: ok(9) k1_def)
      have "procf_refs_ok (k_ofd k2) (k_procf k2)"
        unfolding procf_refs_ok_def c pools using ko i by (auto simp: kernel_inv_def objects_ok_def procf_refs_ok_def e_def)
      then have "kernel_ok k2"
        using ko ok(8) unfolding kernel_ok_def kernel_inv_def objects_ok_def pipe_refs_ok_def wfs_refs_ok_def efd_refs_ok_def c pools
        by blast
      then show ?thesis unfolding k' using open_frame [OF ok(9)] f1 pool_frame_trans by (intro safe_frame [OF g]) auto
    qed
  qed (use g in simp)
qed

end
