(* ===== verification/SysSafety.thy ===== *)
theory SysSafety
  imports Safety SysPath
begin

text \<open>
  The system calls keep the kernel well formed and the task's stores inside its windows: the lemmas
  for names and nodes of the root mount, for opening, for pipes, and one for every call of
  \<open>SysFd\<close> and \<open>SysPath\<close>.
\<close>

section \<open>Names\<close>

lemma safe_nodes:
  assumes g: "good k p" and w: "wfs_ok (mc_mem k) w" "wf_pool w = wf_pool (k_wfs k)"
    and refs: "\<And>j. j < LXP_NWNODE \<Longrightarrow> wn_open_refs (wf_nodes w j) = wn_open_refs (wf_nodes (k_wfs k) j)"
  shows "safe k p (k\<lparr>k_wfs := w\<rparr>)"
proof -
  have "k\<lparr>k_wfs := w\<rparr> = k\<lparr>mc_mem := mc_mem k, k_wfs := w\<rparr>" by simp
  then show ?thesis using safe_wfs [OF g w refs] by simp
qed

lemma safe_create:
  assumes g: "good k p" and r: "lxp_wfs_create (k_wfs k) path mode = (w, ni)"
  shows "safe k p (k\<lparr>k_wfs := w\<rparr>)"
    "ni \<ge> 0 \<Longrightarrow> \<exists>i. ni = int i \<and> i < LXP_NWNODE \<and> wf_nodes w i = \<lparr>wn_path = path, wn_mode = mode, wn_data = 0,
       wn_size = 0, wn_cap = 0, wn_used = True, wn_open_refs = 0, wn_linked = True\<rparr>"
proof -
  note C = wfs_create_ok [OF goodD(7) [OF g] r]
  have z: "wn_open_refs (wf_nodes (k_wfs k) i) = 0" if "i < LXP_NWNODE" "\<not> wn_used (wf_nodes (k_wfs k) i)" for i
    using wfs_okD(3) [OF goodD(7) [OF g] that(1)] that(2) by (simp add: wnode_fine_def wnode_zero_def)
  show "safe k p (k\<lparr>k_wfs := w\<rparr>)" by (rule safe_nodes [OF g]) (use C z in \<open>auto split: if_splits\<close>)
  show "ni \<ge> 0 \<Longrightarrow> \<exists>i. ni = int i \<and> i < LXP_NWNODE \<and> wf_nodes w i = \<lparr>wn_path = path, wn_mode = mode, wn_data = 0,
       wn_size = 0, wn_cap = 0, wn_used = True, wn_open_refs = 0, wn_linked = True\<rparr>"
    using C by (auto split: if_splits)
qed

lemma safe_free:
  assumes g: "good k p" and i: "i < LXP_NWNODE" "wn_used (wf_nodes (k_wfs k) i)"
  shows "safe k p (node_free k (int i))"
proof -
  obtain m w where e: "lxp_wfs_free (mc_mem k) (k_wfs k) (int i) = (m, w)" by (metis surj_pair)
  note F = wfs_free_cases [OF goodD(7) [OF g] i e]
  have "safe k p (k\<lparr>mc_mem := m, k_wfs := w\<rparr>)"
  proof (rule safe_wfs [OF g])
    fix j assume j: "j < LXP_NWNODE"
    show "wn_open_refs (wf_nodes w j) = wn_open_refs (wf_nodes (k_wfs k) j)"
      using F j by (cases "j = i") (auto simp: wnode_zero_def split: if_splits)
  qed (use F in auto)
  then show ?thesis by (simp add: node_free_def e)
qed

text \<open>A node changed in its mode, or cut in size.\<close>

lemma safe_node_put:
  assumes g: "good k p" and i: "i < LXP_NWNODE" "wn_used (wf_nodes (k_wfs k) i)"
    and n: "n = (wf_nodes (k_wfs k) i)\<lparr>wn_mode := m, wn_size := z\<rparr>" "z \<le> wn_cap (wf_nodes (k_wfs k) i)"
  shows "safe k p (node_put k (int i) n)"
proof -
  note ok = goodD(7) [OF g]
  have "wfs_ok (mc_mem k) (wnode_put (k_wfs k) (int i) n)"
  proof (rule wfs_okI)
    show "wfs_heap_ok (mc_mem k) (wnode_put (k_wfs k) (int i) n)" "wfs_blocks_ok (mc_mem k) (wnode_put (k_wfs k) (int i) n)"
      by (rule wfs_put_same_block [OF wfs_okD(1,2) [OF ok]]; simp add: n)+
    show "wnode_fine (wf_nodes (wnode_put (k_wfs k) (int i) n) j)" if "j < LXP_NWNODE" for j
      using wfs_okD(3) [OF ok that] n i by (auto simp: wnode_fine_def)
  qed
  then show ?thesis unfolding node_put_def by (rule safe_nodes [OF g]) (simp_all add: n)
qed

lemma safe_reserve:
  assumes g: "good k p" and i: "i < LXP_NWNODE" "wn_used (wf_nodes (k_wfs k) i)"
    and r: "node_reserve k (int i) n = (k', rc)"
  shows "safe k p k'" "\<exists>q c. wf_nodes (k_wfs k') = (wf_nodes (k_wfs k))(i := (wf_nodes (k_wfs k) i)\<lparr>wn_data := q, wn_cap := c\<rparr>)
    \<and> (rc = 0 \<longrightarrow> n \<le> c)" "rc = 0 \<or> rc = - 1"
    "\<And>j. j < LXP_NWNODE \<Longrightarrow> wfs_bytes (mc_mem k') (k_wfs k') j = wfs_bytes (mc_mem k) (k_wfs k) j"
proof -
  obtain m w rc' where e: "lxp_wfs_reserve (mc_mem k) (k_wfs k) (int i) n = (m, w, rc')" by (metis surj_pair)
  note R = wfs_reserve_ok [OF goodD(7) [OF g] i e]
  have k': "k' = k\<lparr>mc_mem := m, k_wfs := w\<rparr>" "rc' = rc" using r by (simp_all add: node_reserve_def e)
  show "safe k p k'" unfolding k' by (rule safe_wfs [OF g]) (use R in auto)
  show "\<exists>q c. wf_nodes (k_wfs k') = (wf_nodes (k_wfs k))(i := (wf_nodes (k_wfs k) i)\<lparr>wn_data := q, wn_cap := c\<rparr>)
    \<and> (rc = 0 \<longrightarrow> n \<le> c)"
  proof -
    obtain q c where "wf_nodes w = (wf_nodes (k_wfs k))(i := (wf_nodes (k_wfs k) i)\<lparr>wn_data := q, wn_cap := c\<rparr>)"
      "rc' = 0 \<and> n \<le> c \<or> rc' = - 1" using R by blast
    then show ?thesis by (intro exI [of _ q] exI [of _ c]) (auto simp: k')
  qed
  show "rc = 0 \<or> rc = - 1" using R k' by auto
  show "\<And>j. j < LXP_NWNODE \<Longrightarrow> wfs_bytes (mc_mem k') (k_wfs k') j = wfs_bytes (mc_mem k) (k_wfs k) j" using R k' by auto
qed

lemma safe_fill:
  assumes g: "good k p" and i: "i < LXP_NWNODE" "wn_used (wf_nodes (k_wfs k) i)" "wn_size (wf_nodes (k_wfs k) i) = 0"
    and fit: "length bs \<le> wn_cap (wf_nodes (k_wfs k) i)" and k': "k' = node_fill k (int i) bs"
  shows "safe k p k'" "wfs_bytes (mc_mem k') (k_wfs k') i = bs"
    "wf_nodes (k_wfs k') = (wf_nodes (k_wfs k))(i := (wf_nodes (k_wfs k) i)\<lparr>wn_size := length bs\<rparr>)"
proof -
  let ?n = "wf_nodes (k_wfs k) i"
  let ?m = "mem_write (mc_mem k) (wn_data ?n) bs" and ?w = "wnode_put (k_wfs k) (int i) (?n\<lparr>wn_size := length bs\<rparr>)"
  have e: "k' = k\<lparr>mc_mem := ?m, k_wfs := ?w\<rparr>"
    by (simp add: k' node_fill_def node_put_def wnode_at_def Let_def)
  have "?w = (if 0 + length bs > wn_size ?n then wnode_put (k_wfs k) (int i) (?n\<lparr>wn_size := 0 + length bs\<rparr>) else k_wfs k)"
  proof (cases "length bs = 0")
    case True
    have same: "?n\<lparr>wn_size := length bs\<rparr> = ?n" using i(3) True by simp
    show ?thesis unfolding same using True i(3) by (simp add: wnode_put_def)
  qed (use i(3) in simp)
  note W = wfs_write_bytes [OF goodD(7) [OF g] i(1,2) _ refl refl this, unfolded i(3)]
  have W': "wfs_ok ?m ?w" "wfs_bytes ?m ?w i = file_write (wfs_bytes (mc_mem k) (k_wfs k) i) 0 bs"
    "\<And>x. x \<notin> wfs_region (k_wfs k) \<Longrightarrow> ?m x = mc_mem k x"
    using W(1,2,4) fit by simp_all
  show "safe k p k'" unfolding e by (rule safe_wfs [OF g]) (use W' in simp_all)
  show "wfs_bytes (mc_mem k') (k_wfs k') i = bs"
    using W'(2) i(3) by (simp add: e wfs_bytes_def file_write_def)
  show "wf_nodes (k_wfs k') = (wf_nodes (k_wfs k))(i := ?n\<lparr>wn_size := length bs\<rparr>)" by (simp add: e wnode_put_def)
qed

text \<open>A node created with contents: the tail of \<^verbatim>\<open>symlink\<close> and \<^verbatim>\<open>link\<close>.\<close>

lemma safe_create_fill:
  assumes g: "good k p" and c: "lxp_wfs_create (k_wfs k) path mode = (w, ni)" "ni \<ge> 0"
    and rs: "node_reserve (k\<lparr>k_wfs := w\<rparr>) ni (length bs) = (k2, rc)"
  shows "safe k p (node_free k2 ni)" "rc \<ge> 0 \<Longrightarrow> safe k p (node_fill k2 ni bs)"
    "rc \<ge> 0 \<Longrightarrow> \<exists>i q c. ni = int i \<and> i < LXP_NWNODE \<and> length bs \<le> c \<and> wfs_bytes (mc_mem (node_fill k2 ni bs)) (k_wfs (node_fill k2 ni bs)) i = bs
       \<and> wf_nodes (k_wfs (node_fill k2 ni bs)) = (wf_nodes w)(i := \<lparr>wn_path = path, wn_mode = mode, wn_data = q, wn_size = length bs,
            wn_cap = c, wn_used = True, wn_open_refs = 0, wn_linked = True\<rparr>)"
proof -
  note C = safe_create [OF g c(1)]
  obtain i where i: "ni = int i" "i < LXP_NWNODE" "wf_nodes w i = \<lparr>wn_path = path, wn_mode = mode, wn_data = 0,
       wn_size = 0, wn_cap = 0, wn_used = True, wn_open_refs = 0, wn_linked = True\<rparr>" using C(2) [OF c(2)] by blast
  let ?k1 = "k\<lparr>k_wfs := w\<rparr>"
  have u: "i < LXP_NWNODE" "wn_used (wf_nodes (k_wfs ?k1) i)" using i by simp_all
  note R = safe_reserve [OF safe_good [OF C(1)] u rs [unfolded i(1)]]
  obtain q cp where n2: "wf_nodes (k_wfs k2) = (wf_nodes w)(i := (wf_nodes w i)\<lparr>wn_data := q, wn_cap := cp\<rparr>)" "rc = 0 \<longrightarrow> length bs \<le> cp"
    using R(2) by auto
  have s2: "safe k p k2" by (rule safe_trans [OF C(1) R(1)])
  have u2: "i < LXP_NWNODE" "wn_used (wf_nodes (k_wfs k2) i)" "wn_size (wf_nodes (k_wfs k2) i) = 0" using i n2(1) by simp_all
  show "safe k p (node_free k2 ni)" unfolding i(1) by (rule safe_trans [OF s2 safe_free [OF safe_good [OF s2] u2(1,2)]])
  assume "rc \<ge> 0"
  then have "length bs \<le> wn_cap (wf_nodes (k_wfs k2) i)" using R(3) n2 by auto
  note F = safe_fill [OF safe_good [OF s2] u2 this refl]
  show "safe k p (node_fill k2 ni bs)" unfolding i(1) by (rule safe_trans [OF s2 F(1)])
  show "\<exists>i q c. ni = int i \<and> i < LXP_NWNODE \<and> length bs \<le> c \<and> wfs_bytes (mc_mem (node_fill k2 ni bs)) (k_wfs (node_fill k2 ni bs)) i = bs
       \<and> wf_nodes (k_wfs (node_fill k2 ni bs)) = (wf_nodes w)(i := \<lparr>wn_path = path, wn_mode = mode, wn_data = q, wn_size = length bs,
            wn_cap = c, wn_used = True, wn_open_refs = 0, wn_linked = True\<rparr>)"
    using i F(2,3) n2 \<open>rc \<ge> 0\<close> R(3) by (intro exI [of _ i] exI [of _ q] exI [of _ cp]) auto
qed

lemma find_index:
  assumes "lxp_wfs_find w path \<ge> 0"
  obtains i where "lxp_wfs_find w path = int i" "i < LXP_NWNODE" "wn_used (wf_nodes w i)" "wn_linked (wf_nodes w i)"
    "wn_path (wf_nodes w i) = path" "wnode_at w (int i) = wf_nodes w i"
  using assms wfs_findD [of w path] by (metis nat_int nonneg_int_cases wnode_at_def)

lemma safe_symlink:
  assumes g: "good k p" and r: "overlay_symlink k p target path = (k', rc)"
  shows "safe k p k'"
proof (cases "overlay_exists k p path")
  case True
  then show ?thesis using r g by (simp add: overlay_symlink_def)
next
  case False
  obtain w ni where c: "lxp_wfs_create (k_wfs k) path (LXP_S_IFLNK OR 0x1ff) = (w, ni)" by (metis surj_pair)
  obtain k2 rc2 where rs: "node_reserve (k\<lparr>k_wfs := w\<rparr>) ni (length target) = (k2, rc2)" by (metis surj_pair)
  show ?thesis
    using r False c rs safe_create(1) [OF g c] safe_create_fill(1,2) [OF g c _ rs]
    by (auto simp: overlay_symlink_def Let_def split: if_splits)
qed

lemma safe_link:
  assumes g: "good k p" and r: "overlay_link k p src to = (k', rc)"
  shows "safe k p k'"
proof (cases "overlay_exists k p to \<or> link_source k p src = None")
  case True
  then show ?thesis using r g by (cases "overlay_exists k p to") (simp_all add: overlay_link_def)
next
  case False
  then obtain bs mode where l: "link_source k p src = Some (bs, mode)" by auto
  obtain w ni where c: "lxp_wfs_create (k_wfs k) to (LXP_S_IFREG OR (mode AND 0x1ff)) = (w, ni)" by (metis surj_pair)
  obtain k2 rc2 where rs: "node_reserve (k\<lparr>k_wfs := w\<rparr>) ni (length bs) = (k2, rc2)" by (metis surj_pair)
  show ?thesis
    using r False l c rs g safe_create(1) [OF g c] safe_create_fill(1,2) [OF g c _ rs]
    by (auto simp: overlay_link_def Let_def split: if_splits)
qed

lemma safe_mkdir:
  assumes g: "good k p" and r: "overlay_mkdir k p path mode = (k', rc)"
  shows "safe k p k'"
proof -
  obtain w ni where c: "lxp_wfs_create (k_wfs k) path (LXP_S_IFDIR OR (mode AND 0x1ff)) = (w, ni)" by (metis surj_pair)
  show ?thesis using r g safe_create(1) [OF g c] by (auto simp: overlay_mkdir_def c split: if_splits)
qed

lemma safe_remove:
  assumes g: "good k p" and r: "overlay_remove k p path dir = (k', rc)"
  shows "safe k p k'"
proof (cases "lxp_wfs_find (k_wfs k) path < 0")
  case True
  then show ?thesis using r g by (auto simp: overlay_remove_def)
next
  case False
  then obtain i where i: "lxp_wfs_find (k_wfs k) path = int i" "i < LXP_NWNODE" "wn_used (wf_nodes (k_wfs k) i)"
    by (metis find_index not_less)
  show ?thesis using r g safe_free [OF g i(2,3)] by (auto simp: overlay_remove_def i(1) Let_def split: if_splits)
qed

lemma safe_chmod:
  assumes g: "good k p" and r: "overlay_chmod k p path mode = (k', rc)"
  shows "safe k p k'"
proof (cases "lxp_wfs_find (k_wfs k) path < 0")
  case True
  then show ?thesis using r g by (auto simp: overlay_chmod_def)
next
  case False
  then obtain i where i: "lxp_wfs_find (k_wfs k) path = int i" "i < LXP_NWNODE" "wn_used (wf_nodes (k_wfs k) i)"
    "wnode_at (k_wfs k) (int i) = wf_nodes (k_wfs k) i"
    by (metis find_index not_less)
  let ?n = "wf_nodes (k_wfs k) i"
  have z: "wn_size ?n \<le> wn_cap ?n" using wfs_okD(3) [OF goodD(7) [OF g] i(2)] by (simp add: wnode_fine_def)
  have "?n\<lparr>wn_mode := mm\<rparr> = ?n\<lparr>wn_mode := mm, wn_size := wn_size ?n\<rparr>" for mm by simp
  then show ?thesis using r safe_node_put [OF g i(2,3) _ z] by (auto simp: overlay_chmod_def i(1,4) Let_def)
qed

lemma rename_err: "lxp_wfs_rename m w i newabs = (m', w', rc) \<Longrightarrow> rc = 0 \<or> m' = m \<and> w' = w"
  by (auto simp: lxp_wfs_rename_def Let_def split: if_splits prod.splits)

lemma safe_rename:
  assumes g: "good k p" and r: "overlay_rename k p src to = (k', rc)"
  shows "safe k p k'"
proof (cases "lxp_wfs_find (k_wfs k) src < 0 \<or> lxp_wfs_find (k_wfs k) to < 0 \<and> lxp_fs_lookup k p to \<ge> 0")
  case True
  then show ?thesis using r g by (cases "lxp_wfs_find (k_wfs k) src < 0") (simp_all add: overlay_rename_def Let_def)
next
  case False
  then obtain i where i: "lxp_wfs_find (k_wfs k) src = int i" "i < LXP_NWNODE" "wn_linked (wf_nodes (k_wfs k) i)"
    by (metis find_index not_less)
  obtain m w rc' where e: "lxp_wfs_rename (mc_mem k) (k_wfs k) (int i) to = (m, w, rc')" by (metis surj_pair)
  have k': "k' = k\<lparr>mc_mem := m, k_wfs := w\<rparr>" using r False by (auto simp: overlay_rename_def i(1) e)
  have same: "m = mc_mem k \<and> w = k_wfs k" if "wn_path (wf_nodes (k_wfs k) i) = to"
    using e that by (simp add: lxp_wfs_rename_def wnode_at_def)
  consider "m = mc_mem k" "w = k_wfs k" | "rc' = 0" "wn_path (wf_nodes (k_wfs k) i) \<noteq> to"
    using rename_err [OF e] same by blast
  then show ?thesis
  proof cases
    case 1
    then show ?thesis using g k' by simp
  next
    case 2
    note C = wfs_rename_cases [OF goodD(7) [OF g] i(2,3) e [unfolded 2(1)] 2(2)]
    show ?thesis unfolding k' by (rule safe_wfs [OF g]) (use C in auto)
  qed
qed

section \<open>Opening a name\<close>

lemma safe_alloc_tmpfs:
  assumes g: "good k p" and off: "off \<le> SIZE_MAX" and r: "lxp_sys_fd_alloc k p FD_TMPFS idx off flags = (k', fd)"
  shows "safe k p k'"
proof (cases "lxp_wfs_open (k_wfs k) idx = (k_wfs k, - 1)")
  case True
  then show ?thesis using r g by (simp add: lxp_sys_fd_alloc_def)
next
  case False
  then obtain i where i: "idx = int i" "i < LXP_NWNODE" "wn_used (wf_nodes (k_wfs k) i)" "wn_open_refs (wf_nodes (k_wfs k) i) \<noteq> UINT16_MAX"
    by (metis (no_types, lifting) lxp_wfs_open_def linorder_not_le nat_int nonneg_int_cases of_nat_less_iff wnode_at_def)
  let ?n = "wf_nodes (k_wfs k) i"
  define w1 where "w1 = wnode_put (k_wfs k) (int i) (?n\<lparr>wn_open_refs := wn_open_refs ?n + 1\<rparr>)"
  define k1 where "k1 = k\<lparr>k_wfs := w1\<rparr>"
  have op: "lxp_wfs_open (k_wfs k) (int i) = (w1, 0)" using i by (simp add: lxp_wfs_open_def w1_def wnode_at_def)
  have w1: "wfs_ok (mc_mem k) w1" using wfs_open_ok [OF goodD(7) [OF g] op] by blast
  obtain k2 fd2 where o: "lxp_fd_open k1 p FD_TMPFS (int i) off flags = (k2, fd2)" by (metis surj_pair)
  have refs: "fd_refs_ok (k_ofd k1) (k_files k1) (\<lambda>_. 0)" using goodD(6) [OF g] by (simp add: k1_def)
  have b: "\<forall>n. kind_bound FD_TMPFS = Some n \<longrightarrow> 0 \<le> int i \<and> int i < int n" using i by simp
  show ?thesis
  proof (cases rule: fd_open_counted [OF refs goodD(3) [OF g] b o])
    case 1
    obtain m w where cl: "lxp_wfs_close (mc_mem k) w1 (int i) = (m, w)" by (metis surj_pair)
    have k': "k' = k\<lparr>mc_mem := m, k_wfs := w\<rparr>"
      using r op o 1 cl by (simp add: lxp_sys_fd_alloc_def i(1) k1_def)
    have "wn_open_refs (wf_nodes w1 i) = Suc (wn_open_refs ?n)" "wn_used (wf_nodes w1 i)" using i by (simp_all add: w1_def)
    from wfs_close_cases [OF w1 i(2) this(2,1) cl]
    have C: "wfs_ok m w" "wf_pool w = wf_pool (k_wfs k)" "\<And>x. x \<notin> wfs_region (k_wfs k) \<Longrightarrow> m x = mc_mem k x"
      "\<And>j. j < LXP_NWNODE \<Longrightarrow> j \<noteq> i \<Longrightarrow> wf_nodes w j = wf_nodes w1 j"
      "wf_nodes w i = wnode_zero \<and> wn_open_refs ?n = 0 \<or> wf_nodes w i = (wf_nodes w1 i)\<lparr>wn_open_refs := wn_open_refs ?n\<rparr>"
      by (auto simp: w1_def wfs_region_def split: if_splits)
    show ?thesis unfolding k'
    proof (rule safe_wfs [OF g C(1,2) _ C(3)])
      fix j assume j: "j < LXP_NWNODE"
      show "wn_open_refs (wf_nodes w j) = wn_open_refs (wf_nodes (k_wfs k) j)"
      proof (cases "j = i")
        case True
        then show ?thesis using C(5) by (auto simp: wnode_zero_def)
      next
        case False
        then show ?thesis using C(4) [OF j False] by (simp add: w1_def)
      qed
    qed
  next
    case ok: (2 oi f d en)
    have k': "k' = k2" using r op o ok(2) by (simp add: lxp_sys_fd_alloc_def i(1) k1_def)
    have c: "ofd_count (k_ofd k2) (pipe_end_of j w) = ofd_count (k_ofd k) (pipe_end_of j w)"
      "ofd_count (k_ofd k2) (ofd_names FD_EVENTFD j) = ofd_count (k_ofd k) (ofd_names FD_EVENTFD j)"
      "ofd_count (k_ofd k2) (ofd_names FD_PROC j) = ofd_count (k_ofd k) (ofd_names FD_PROC j)"
      "ofd_count (k_ofd k2) (ofd_names FD_TMPFS j) = ofd_count (k_ofd k) (ofd_names FD_TMPFS j) + of_bool (j = i)" for j w
      using ok(10) by (auto simp: k1_def pipe_end_of_def ofd_names_def)
    have pools: "k_pipes k2 = k_pipes k" "k_wfs k2 = w1" "k_efd k2 = k_efd k" "k_procf k2 = k_procf k" "mc_mem k2 = mc_mem k"
      by (simp_all add: ok(9) k1_def)
    have "wfs_refs_ok (k_ofd k2) (k_wfs k2)"
      unfolding wfs_refs_ok_def c pools using goodD(5) [OF g] by (auto simp: objects_ok_def wfs_refs_ok_def w1_def)
    then have "kernel_ok k2"
      using goodD(5) [OF g] ok(8) w1
      unfolding kernel_ok_def kernel_inv_def objects_ok_def pipe_refs_ok_def efd_refs_ok_def procf_refs_ok_def c pools by blast
    moreover have "pool_frame k k1" "offsets_ok k1" using good_offsets [OF g]
      by (simp_all add: pool_frame_def offsets_ok_def k1_def w1_def counters_same)
    ultimately show ?thesis unfolding k' using open_frame [OF ok(9)] off pool_frame_trans by (intro safe_frame [OF g]) auto
  qed
qed

lemma wnode_size_bound:
  assumes g: "good k p" and i: "i < LXP_NWNODE" shows "wn_size (wf_nodes (k_wfs k) i) \<le> SIZE_MAX"
proof -
  let ?n = "wf_nodes (k_wfs k) i"
  note ok = goodD(7) [OF g]
  have f: "wn_size ?n \<le> wn_cap ?n" "wn_data ?n = 0 \<Longrightarrow> wn_cap ?n = 0"
    using wfs_okD(3) [OF ok i] by (simp_all add: wnode_fine_def)
  have "wn_cap ?n \<le> SIZE_MAX" if nz: "wn_data ?n \<noteq> 0"
  proof -
    obtain l where l: "wf_ready (k_wfs k)" "(wn_data ?n, l) \<in> arena_live (mc_mem k, wf_arena (k_wfs k))" "wn_cap ?n \<le> l"
      by (rule wfs_blockE [OF wfs_okD(2) [OF ok] i nz])
    note H = wfs_heapD [OF wfs_okD(1) [OF ok] l(1)] and B = arena_live_bounds [OF wfs_heapD(1) [OF wfs_okD(1) [OF ok] l(1)] l(2)]
    have "wn_data ?n + l - 1 \<in> arena_region (mc_mem k, wf_arena (k_wfs k))" using B by (auto simp: arena_region_def)
    then have "l \<le> wf_pool (k_wfs k) + LXP_WFS_POOL" using H(2) B(4) by (auto simp: wfs_region_def)
    then show ?thesis using l(3) wfs_okD(1) [OF ok] by (simp add: wfs_heap_ok_def)
  qed
  then show ?thesis using f by (cases "wn_data ?n = 0") auto
qed

lemma safe_alloc_file:
  assumes g: "good k p" and r: "lxp_sys_fd_alloc k p FD_FILE idx 0 flags = (k', fd)"
  shows "safe k p k'"
  using safe_open_plain [OF g, of FD_FILE 0 idx flags k' fd] r by (simp add: lxp_sys_fd_alloc_def)

lemma safe_overlay_open:
  assumes g: "good k p" and r: "overlay_open k p path flags = (k', rc)"
  shows "safe k p k'"
proof (cases "flags AND LXP_O_ACCMODE \<noteq> LXP_O_RDONLY \<or> has_flag flags LXP_O_CREAT")
  case False
  let ?wi = "lxp_wfs_find (k_wfs k) path" and ?fi = "lxp_fs_follow k p (lxp_fs_lookup k p path)"
  have "(if ?wi \<ge> 0 then lxp_sys_fd_alloc k p FD_TMPFS ?wi 0 flags
      else if ?fi \<ge> 0 then lxp_sys_fd_alloc k p FD_FILE ?fi 0 flags else (k, - LXP_ENOENT)) = (k', rc)"
    using r unfolding overlay_open_def Let_def if_not_P [OF False] .
  then show ?thesis using g safe_alloc_tmpfs [OF g, of 0] safe_alloc_file [OF g] by (simp split: if_splits)
next
  case wr: True
  let ?wi = "lxp_wfs_find (k_wfs k) path"
  show ?thesis
  proof (cases "?wi < 0")
    case True
    obtain w ni where c: "lxp_wfs_create (k_wfs k) path (LXP_S_IFREG OR 0x1a4) = (w, ni)" by (metis surj_pair)
    note C = safe_create [OF g c]
    have z: "wn_size (wnode_at w ni) = 0" if "ni \<ge> 0" using C(2) [OF that] by (auto simp: wnode_at_def)
    define off where "off = (if has_flag flags LXP_O_APPEND then wn_size (wnode_at w ni) else 0)"
    have A: "safe k p k'" if "lxp_sys_fd_alloc (k\<lparr>k_wfs := w\<rparr>) p FD_TMPFS ni off flags = (k', rc)" "ni \<ge> 0"
      by (rule safe_trans [OF C(1) safe_alloc_tmpfs [OF safe_good [OF C(1)] _ that(1)]]) (simp add: off_def z [OF that(2)])
    have "k' = k \<or> k' = k\<lparr>k_wfs := w\<rparr> \<or> lxp_sys_fd_alloc (k\<lparr>k_wfs := w\<rparr>) p FD_TMPFS ni off flags = (k', rc) \<and> ni \<ge> 0"
    proof (cases "lxp_fs_lookup k p path \<ge> 0 \<or> \<not> has_flag flags LXP_O_CREAT")
      case True
      then show ?thesis using r
        unfolding overlay_open_def Let_def if_P [OF wr] if_P [OF \<open>?wi < 0\<close>] by (cases "lxp_fs_lookup k p path \<ge> 0") simp_all
    next
      case False
      then have n: "\<not> lxp_fs_lookup k p path \<ge> 0" "\<not> \<not> has_flag flags LXP_O_CREAT" by simp_all
      show ?thesis using r
        unfolding overlay_open_def Let_def if_P [OF wr] if_P [OF \<open>?wi < 0\<close>] if_not_P [OF n(1)] if_not_P [OF n(2)] c prod.case
          off_def [symmetric] by (simp split: if_splits)
    qed
    then show ?thesis using A C(1) g safe_refl by blast
  next
    case nn: False
    then have "0 \<le> ?wi" by simp
    then obtain i where i: "?wi = int i" "i < LXP_NWNODE" "wn_used (wf_nodes (k_wfs k) i)" "wnode_at (k_wfs k) (int i) = wf_nodes (k_wfs k) i"
      by (rule find_index)
    let ?n = "wf_nodes (k_wfs k) i"
    define k1 where "k1 = (if has_flag flags LXP_O_TRUNC then node_put k (int i) (?n\<lparr>wn_size := 0\<rparr>) else k)"
    define off where "off = (if has_flag flags LXP_O_APPEND then wn_size (wnode_at (k_wfs k1) (int i)) else 0)"
    have "?n\<lparr>wn_size := 0\<rparr> = ?n\<lparr>wn_mode := wn_mode ?n, wn_size := 0\<rparr>" by simp
    from safe_node_put [OF g i(2,3) this] have s1: "safe k p k1" using g by (simp add: k1_def)
    have off: "off \<le> SIZE_MAX" using wnode_size_bound [OF safe_good [OF s1] i(2)] by (simp add: off_def wnode_at_def)
    have "k' = k \<or> lxp_sys_fd_alloc k1 p FD_TMPFS (int i) off flags = (k', rc)"
      using r unfolding overlay_open_def Let_def if_P [OF wr] if_not_P [OF nn] i(1) i(4) k1_def [symmetric] off_def [symmetric]
      by (simp split: if_splits)
    then show ?thesis using g safe_refl safe_trans [OF s1 safe_alloc_tmpfs [OF safe_good [OF s1] off]] by blast
  qed
qed

section \<open>Pipes\<close>

lemma fd_open_room:
  assumes k: "fd_refs_ok (k_ofd k) (k_files k) (\<lambda>_. 0)" and f: "p_files p = Some f" "f < LXP_RESOURCE_POOL_COUNT"
    and d: "d < LXP_MAX_FDS" "fd_ofd (fl_fd (k_files k f) d) = 0" and kd: "lxp_file_ops kind"
  shows "snd (lxp_fd_open k p kind idx off flags) \<ge> 0"
proof -
  obtain oi where oi: "oi < LXP_MAX_OFD" "ofd_refs (k_ofd k oi) = 0" using free_ofd_exists [OF k f(2) d] by blast
  obtain o' where "scan (\<lambda>i. ofd_refs (k_ofd k i) = 0) 0 LXP_MAX_OFD = Some o'"
    using scan_ex [of 0 oi LXP_MAX_OFD "\<lambda>i. ofd_refs (k_ofd k i) = 0"] oi by auto
  moreover obtain d' where "scan (\<lambda>fd. fd_ofd (fl_fd (k_files k f) fd) = 0) 0 LXP_MAX_FDS = Some d'"
    using scan_ex [of 0 d LXP_MAX_FDS "\<lambda>fd. fd_ofd (fl_fd (k_files k f) fd) = 0"] d by auto
  ultimately show ?thesis using f kd by (simp add: lxp_fd_open_def Let_def)
qed

lemma two_free:
  assumes "2 \<le> lxp_fd_free_count k p"
  obtains f d e where "p_files p = Some f" "d < LXP_MAX_FDS" "e < LXP_MAX_FDS" "d \<noteq> e"
    "fd_ofd (fl_fd (k_files k f) d) = 0" "fd_ofd (fl_fd (k_files k f) e) = 0"
proof (cases "p_files p")
  case None
  then show thesis using assms by (simp add: lxp_fd_free_count_def)
next
  case (Some f)
  define l where "l = filter (\<lambda>fd. fd_ofd (fl_fd (k_files k f) fd) = 0) [0..<LXP_MAX_FDS]"
  have l: "0 < length l" "1 < length l" "distinct l" using assms Some by (auto simp: lxp_fd_free_count_def l_def)
  have "l ! 0 \<in> set l" "l ! 1 \<in> set l" "l ! 0 \<noteq> l ! 1"
    using nth_mem [OF l(1)] nth_mem [OF l(2)] nth_eq_iff_index_eq [OF l(3) l(1,2)] by simp_all
  then show thesis using that [OF Some, of "l ! 0" "l ! 1"] by (simp add: l_def)
qed

text \<open>A pipe made for the task: two descriptors that were free, the ends of a pipe that was free,
  their numbers stored at the task's address, all else as before.\<close>

definition pipe_made :: "kernel \<Rightarrow> proc \<Rightarrow> nat \<Rightarrow> kernel \<Rightarrow> bool" where
  "pipe_made k p fds k' \<longleftrightarrow>
     (\<exists>rfd wfd i oi oj. rfd \<noteq> wfd \<and> fd_lookup k p rfd = None \<and> fd_lookup k p wfd = None
        \<and> fd_lookup k' p rfd = Some oi \<and> fd_lookup k' p wfd = Some oj
        \<and> (\<forall>fd. fd \<noteq> rfd \<longrightarrow> fd \<noteq> wfd \<longrightarrow> fd_lookup k' p fd = fd_lookup k p fd)
        \<and> i < LXP_NPIPE \<and> \<not> pp_used (k_pipes k i) \<and> pipe_end_of i False (k_ofd k' oi) \<and> pipe_end_of i True (k_ofd k' oj)
        \<and> ofd_accmode (k_ofd k' oi) = LXP_O_RDONLY \<and> ofd_accmode (k_ofd k' oj) = LXP_O_WRONLY
        \<and> k_pipes k' = (k_pipes k)(i := pipe_zero\<lparr>pp_used := True, pp_readers := 1, pp_writers := 1\<rparr>)
        \<and> mc_mem k' = mem_write (mc_mem k) fds (u32_bytes (nat rfd) @ u32_bytes (nat wfd)))"

lemma nat_and_distrib: "((a::nat) OR b) AND c = (a AND c) OR (b AND c)"
  by (rule bit_eqI) (auto simp: bit_simps)

lemma shared_accmode:
  fixes flags :: nat
  shows "(LXP_O_RDONLY OR (flags AND (LXP_O_NONBLOCK OR LXP_O_CLOEXEC))) AND LXP_O_ACCMODE = LXP_O_RDONLY"
    "(LXP_O_WRONLY OR (flags AND (LXP_O_NONBLOCK OR LXP_O_CLOEXEC))) AND LXP_O_ACCMODE = LXP_O_WRONLY"
proof -
  have "(flags AND (LXP_O_NONBLOCK OR LXP_O_CLOEXEC)) AND LXP_O_ACCMODE = 0" by (simp add: and.assoc)
  then show "(LXP_O_RDONLY OR (flags AND (LXP_O_NONBLOCK OR LXP_O_CLOEXEC))) AND LXP_O_ACCMODE = LXP_O_RDONLY"
    "(LXP_O_WRONLY OR (flags AND (LXP_O_NONBLOCK OR LXP_O_CLOEXEC))) AND LXP_O_ACCMODE = LXP_O_WRONLY"
    by (simp_all add: nat_and_distrib)
qed

lemma pipe_go:
  assumes g: "good k p" and a: "fds \<le> SIZE_MAX" and acc: "lxp_guest_access_ok k p fds 8 True"
    and al: "scan (\<lambda>i. \<not> pp_used (k_pipes k i)) 0 LXP_NPIPE = Some i" and fr: "2 \<le> lxp_fd_free_count k p"
    and r: "sys_pipe k p fds flags = (k', rc)"
  shows "safe k p k' \<and> rc = 0 \<and> pipe_made k p fds k'"
proof -
  have i: "i < LXP_NPIPE" "\<not> pp_used (k_pipes k i)" using scan_SomeD [OF al] by simp_all
  have z: "k_pipes k i = pipe_zero" using goodD(5) [OF g] i by (auto simp: objects_ok_def pipes_ok_def pipe_ok_def)
  obtain f d1 d2 where f: "p_files p = Some f" and d: "d1 < LXP_MAX_FDS" "d2 < LXP_MAX_FDS" "d1 \<noteq> d2"
    "fd_ofd (fl_fd (k_files k f) d1) = 0" "fd_ofd (fl_fd (k_files k f) d2) = 0" by (rule two_free [OF fr])
  have fl: "f < LXP_RESOURCE_POOL_COUNT" using goodD(3) [OF g] f by (simp add: proc_ok_def)
  define sh where "sh = flags AND (LXP_O_NONBLOCK OR LXP_O_CLOEXEC)"
  define pz where "pz = pipe_zero\<lparr>pp_used := True\<rparr>"
  define k1 where "k1 = k\<lparr>k_pipes := (k_pipes k)(i := pz)\<rparr>"
  have R1: "fd_refs_ok (k_ofd k1) (k_files k1) (\<lambda>_. 0)" using goodD(6) [OF g] by (simp add: k1_def)
  have b: "\<forall>n. kind_bound FD_PIPE = Some n \<longrightarrow> 0 \<le> int i \<and> int i < int n" using i by simp
  obtain k2 rfd where o1: "lxp_fd_open k1 p FD_PIPE (int i) 0 (LXP_O_RDONLY OR sh) = (k2, rfd)" by (metis surj_pair)
  let ?n1 = "new_ofd FD_PIPE (int i) 0 (LXP_O_RDONLY OR sh)"
  have "rfd \<ge> 0" using fd_open_room [OF R1 f fl d(1), of FD_PIPE "int i" 0 "LXP_O_RDONLY OR sh"] d(4) o1 by (simp add: k1_def)
  then obtain oi x e1 where A: "rfd = int x" "x < LXP_MAX_FDS" "fd_ofd (fl_fd (k_files k f) x) = 0"
      "oi < LXP_MAX_OFD" "ofd_refs (k_ofd k oi) = 0" "fd_ofd e1 = Suc oi" "fd_refs_ok (k_ofd k2) (k_files k2) (\<lambda>_. 0)"
      "k2 = fd_entry_put (ofd_put k1 oi ?n1) f rfd e1"
      "\<And>P. ofd_count (k_ofd k2) P = ofd_count (k_ofd k) P + of_bool (P ?n1)"
    using f by (cases rule: fd_open_counted [OF R1 goodD(3) [OF g] b o1]) (auto simp: k1_def)
  define k3 where "k3 = pipe_end_open k2 (int i) False"
  have R3: "fd_refs_ok (k_ofd k3) (k_files k3) (\<lambda>_. 0)" using A(7) by (simp add: k3_def pipe_end_open_def)
  have p3: "k_pipes k3 = (k_pipes k)(i := pz\<lparr>pp_readers := 1\<rparr>)" "k_files k3 = k_files k2" "k_ofd k3 = k_ofd k2"
    using i by (simp_all add: k3_def pipe_end_open_def A(8) k1_def lxp_pipe_end_open_def pipe_index_ok_def pz_def pipe_zero_def UINT16_MAX_def)
  have "\<exists>y < LXP_MAX_FDS. fd_ofd (fl_fd (k_files k3 f) y) = 0"
    using d A(1,2) by (intro exI [of _ "if x = d1 then d2 else d1"]) (auto simp: p3 A(8) k1_def)
  then obtain y0 where y0: "y0 < LXP_MAX_FDS" "fd_ofd (fl_fd (k_files k3 f) y0) = 0" by blast
  obtain k4 wfd where o2: "lxp_fd_open k3 p FD_PIPE (int i) 0 (LXP_O_WRONLY OR sh) = (k4, wfd)" by (metis surj_pair)
  let ?n2 = "new_ofd FD_PIPE (int i) 0 (LXP_O_WRONLY OR sh)"
  have "wfd \<ge> 0" using fd_open_room [OF R3 f fl y0, of FD_PIPE "int i" 0 "LXP_O_WRONLY OR sh"] o2 by simp
  then obtain oj y e2 where B: "wfd = int y" "y < LXP_MAX_FDS" "fd_ofd (fl_fd (k_files k2 f) y) = 0"
      "oj < LXP_MAX_OFD" "ofd_refs (k_ofd k2 oj) = 0" "fd_ofd e2 = Suc oj" "fd_refs_ok (k_ofd k4) (k_files k4) (\<lambda>_. 0)"
      "k4 = fd_entry_put (ofd_put k3 oj ?n2) f wfd e2"
      "\<And>P. ofd_count (k_ofd k4) P = ofd_count (k_ofd k2) P + of_bool (P ?n2)"
    using f by (cases rule: fd_open_counted [OF R3 goodD(3) [OF g] b o2]) (auto simp: p3)
  let ?n3 = "?n2\<lparr>ofd_rw := 1\<rparr>"
  have ne: "x \<noteq> y" "oi \<noteq> oj" using A B by (auto simp: k1_def)
  have lk: "fd_lookup k4 p wfd = Some oj"
    using B(1,2,4,6) f ne by (simp add: fd_lookup_def B(8) fd_entry_at_def Let_def)
  define k5 where "k5 = ofd_put k4 oj ?n3"
  define k6 where "k6 = pipe_end_open k5 (int i) True"
  have "k_ofd k4 oj = ?n2" by (simp add: B(8))
  then have se: "lxp_fd_set_end k4 p wfd True = (k5, 0)" by (simp add: lxp_fd_set_end_def lk k5_def)
  have S: "sys_pipe k p fds flags = (let (k7, rc) = lxp_copy_to_guest k6 p fds (u32_bytes (nat rfd) @ u32_bytes (nat wfd))
        in if rc \<noteq> 0 then (fst (sys_close (fst (sys_close k7 p rfd)) p wfd), - LXP_EFAULT) else (k7, 0))"
  proof -
    have al': "lxp_pipe_alloc (k_pipes k) = ((k_pipes k)(i := pz), int i)" using al by (simp add: lxp_pipe_alloc_def pz_def)
    have fc: "\<not> lxp_fd_free_count k1 p < 2" using fr f by (simp add: lxp_fd_free_count_def k1_def)
    have nn: "\<not> int i < 0" "\<not> rfd < 0" "\<not> wfd < 0" using A(1) B(1) by simp_all
    have o1': "lxp_sys_fd_alloc k1 p FD_PIPE (int i) 0 (LXP_O_RDONLY OR sh) = (k2, rfd)"
      and o2': "lxp_sys_fd_alloc k3 p FD_PIPE (int i) 0 (LXP_O_WRONLY OR sh) = (k4, wfd)"
      using o1 o2 by (simp_all add: lxp_sys_fd_alloc_def)
    show ?thesis
      unfolding sys_pipe_def Let_def sh_def [symmetric] al' prod.case k1_def [symmetric]
      unfolding o1' prod.case k3_def [symmetric] o2' se k6_def [symmetric] using acc fc nn by simp
  qed
  have o6: "k_ofd k6 = (k_ofd k)(oi := ?n1, oj := ?n3)" "k_files k6 = k_files k4"
    and p6: "k_pipes k6 = (k_pipes k)(i := pz\<lparr>pp_readers := 1, pp_writers := 1\<rparr>)"
    and same: "mc_mem k6 = mc_mem k" "k_wfs k6 = k_wfs k" "k_efd k6 = k_efd k" "k_procf k6 = k_procf k"
    using i by (simp_all add: k6_def k5_def pipe_end_open_def B(8) p3 k3_def A(8) k1_def lxp_pipe_end_open_def pipe_index_ok_def
        pz_def pipe_zero_def UINT16_MAX_def)
  have fr6: "pool_frame k k6"
    by (simp add: k6_def k5_def pipe_end_open_def B(8) k3_def A(8) k1_def ofd_put_def fd_entry_put_def pool_frame_def counters_same)
  have cnt: "ofd_count (k_ofd k6) P = ofd_count (k_ofd k) P + of_bool (P ?n1) + of_bool (P ?n3)" for P
    using ofd_count_new [where g = "k_ofd k" and s = ?n1 and P = P, OF A(4,5)]
      ofd_count_new [where g = "(k_ofd k)(oi := ?n1)" and s = ?n3 and P = P, OF B(4)] B(5) ne
    by (simp add: o6 A(8) k1_def)
  have "ofd_fine ?n3" using i by (simp add: ofd_fine_def)
  moreover have "ofd_refs (k_ofd k6 q) = ofd_refs (k_ofd k4 q) \<and> (q \<noteq> oj \<longrightarrow> k_ofd k6 q = k_ofd k4 q)" for q
    by (simp add: o6 B(8) p3 A(8) k1_def)
  ultimately have R6: "fd_refs_ok (k_ofd k6) (k_files k6) (\<lambda>_. 0)"
    using B(7) o6 unfolding fd_refs_ok_def o6(2) by (metis fun_upd_same)
  have c: "ofd_count (k_ofd k6) (pipe_end_of j w) = ofd_count (k_ofd k) (pipe_end_of j w) + of_bool (j = i)"
      "ofd_count (k_ofd k6) (ofd_names FD_EVENTFD j) = ofd_count (k_ofd k) (ofd_names FD_EVENTFD j)"
      "ofd_count (k_ofd k6) (ofd_names FD_PROC j) = ofd_count (k_ofd k) (ofd_names FD_PROC j)"
      "ofd_count (k_ofd k6) (ofd_names FD_TMPFS j) = ofd_count (k_ofd k) (ofd_names FD_TMPFS j)" for j w
    unfolding cnt by (auto simp: pipe_end_of_def ofd_names_def)
  have "pp_readers (k_pipes k i) = 0" "pp_writers (k_pipes k i) = 0" by (simp_all add: z pipe_zero_def)
  then have "ofd_count (k_ofd k) (pipe_end_of i w) = 0" for w
    using goodD(5) [OF g] i(1) unfolding objects_ok_def pipe_refs_ok_def by (cases w) metis+
  then have "pipe_refs_ok (k_ofd k6) (k_pipes k6)"
    unfolding pipe_refs_ok_def c p6 using goodD(5) [OF g] by (simp add: objects_ok_def pipe_refs_ok_def)
  moreover have "pipe_slots_ok (k_pipes k6)"
    unfolding p6 using goodD(5) [OF g] by (simp add: objects_ok_def pipe_slots_ok_def)
  moreover have "pipes_ok (k_pipes k6)"
    unfolding p6 by (rule pipes_ok_upd) (use goodD(5) [OF g] in \<open>simp_all add: objects_ok_def pipe_ok_def pz_def pipe_zero_def UINT16_MAX_def\<close>)
  ultimately have "kernel_ok k6"
    using goodD(5) [OF g] R6
    unfolding kernel_ok_def kernel_inv_def objects_ok_def wfs_refs_ok_def efd_refs_ok_def procf_refs_ok_def c same by blast
  moreover have "offsets_ok k6" using good_offsets [OF g] by (simp add: offsets_ok_def o6)
  ultimately have s6: "safe k p k6" by (intro safe_frame [OF g _ fr6])
  have "lxp_guest_access_ok k6 p fds 8 True" using access_cong [of k p k6] s6 acc by (simp add: safe_def)
  then have cp: "lxp_copy_to_guest k6 p fds (u32_bytes (nat rfd) @ u32_bytes (nat wfd))
      = (k6\<lparr>mc_mem := mem_write (mc_mem k) fds (u32_bytes (nat rfd) @ u32_bytes (nat wfd))\<rparr>, 0)"
    by (simp add: lxp_copy_to_guest_def same)
  have k': "k' = k6\<lparr>mc_mem := mem_write (mc_mem k) fds (u32_bytes (nat rfd) @ u32_bytes (nat wfd))\<rparr>" "rc = 0"
    using r S cp by simp_all
  have s': "safe k p k'" by (rule safe_trans [OF s6 safe_copy_to [OF safe_good [OF s6] cp [folded k'(1)] a]]) (simp add: SIZE_MAX_def)
  have fl': "k_files k' = k_files k4" "k_ofd k' = k_ofd k6" by (simp_all add: k' o6)
  note L = fd_lookup_iff [OF goodD(1) [OF g] f fl] and L' = fd_lookup_iff [OF goodD(1) [OF safe_good [OF s']] f fl]
  have en: "fl_fd (k_files k' f) = (fl_fd (k_files k f))(x := e1, y := e2)"
    using A(1) B(1) by (simp add: fl' B(8) p3 A(8) k1_def)
  have other: "fd_lookup k' p fd = fd_lookup k p fd" if "fd \<noteq> rfd" "fd \<noteq> wfd" for fd
  proof (cases "0 \<le> fd \<and> fd < int LXP_MAX_FDS")
    case True
    then have "nat fd \<noteq> x" "nat fd \<noteq> y" using that A(1) B(1) by auto
    then show ?thesis using True L [of fd] L' [of fd] by (simp add: fd_entry_at_def en)
  next
    case False
    then show ?thesis by (auto simp: fd_lookup_def f)
  qed
  have "fd_lookup k p rfd = None" "fd_lookup k p wfd = None" "fd_lookup k' p rfd = Some oi" "fd_lookup k' p wfd = Some oj"
    using L [of rfd] L [of wfd] L' [of rfd] L' [of wfd] A(1-3,6) B(1-3,6) ne by (simp_all add: fd_entry_at_def en A(8) k1_def)
  moreover have "pipe_end_of i False (k_ofd k' oi)" "pipe_end_of i True (k_ofd k' oj)" "rfd \<noteq> wfd"
    using ne A(1) B(1) by (simp_all add: fl' o6 pipe_end_of_def)
  moreover have "ofd_accmode (k_ofd k' oi) = LXP_O_RDONLY" "ofd_accmode (k_ofd k' oj) = LXP_O_WRONLY"
    using ne shared_accmode [of flags] by (simp_all add: fl' o6 sh_def)
  moreover have "k_pipes k' = (k_pipes k)(i := pipe_zero\<lparr>pp_used := True, pp_readers := 1, pp_writers := 1\<rparr>)"
    by (simp add: k' p6 pz_def)
  ultimately have "pipe_made k p fds k'"
    unfolding pipe_made_def using other i k'(1)
    by (intro exI [of _ rfd] exI [of _ wfd] exI [of _ i] exI [of _ oi] exI [of _ oj]) simp
  then show ?thesis using s' k'(2) by simp
qed

lemma safe_pipe:
  assumes g: "good k p" and a: "fds \<le> SIZE_MAX" and r: "sys_pipe k p fds flags = (k', rc)"
  shows "safe k p k'"
    "(rc = - LXP_EFAULT \<and> \<not> lxp_guest_access_ok k p fds 8 True
        \<or> rc = - LXP_EMFILE \<and> ((\<forall>i < LXP_NPIPE. pp_used (k_pipes k i)) \<or> lxp_fd_free_count k p < 2)) \<and> k' = k
     \<or> rc = 0 \<and> pipe_made k p fds k'" (is "?R")
proof -
  consider (fault) "\<not> lxp_guest_access_ok k p fds 8 True"
    | (none) "lxp_guest_access_ok k p fds 8 True" "scan (\<lambda>i. \<not> pp_used (k_pipes k i)) 0 LXP_NPIPE = None"
    | (few) i where "lxp_guest_access_ok k p fds 8 True" "scan (\<lambda>i. \<not> pp_used (k_pipes k i)) 0 LXP_NPIPE = Some i"
        "lxp_fd_free_count k p < 2"
    | (go) i where "lxp_guest_access_ok k p fds 8 True" "scan (\<lambda>i. \<not> pp_used (k_pipes k i)) 0 LXP_NPIPE = Some i"
        "2 \<le> lxp_fd_free_count k p"
    by (metis not_le option.exhaust)
  then have "safe k p k' \<and> ?R"
  proof cases
    case fault
    then show ?thesis using r g by (simp add: sys_pipe_def)
  next
    case none
    have "lxp_pipe_alloc (k_pipes k) = (k_pipes k, - 1)" using none by (simp add: lxp_pipe_alloc_def)
    then have "sys_pipe k p fds flags = (k, - LXP_EMFILE)" using none by (simp add: sys_pipe_def)
    then show ?thesis using r g none by (simp add: scan_None)
  next
    case few
    have i: "i < LXP_NPIPE" "\<not> pp_used (k_pipes k i)" using scan_SomeD [OF few(2)] by simp_all
    have z: "k_pipes k i = pipe_zero" using goodD(5) [OF g] i by (auto simp: objects_ok_def pipes_ok_def pipe_ok_def)
    have fc: "lxp_fd_free_count (k\<lparr>k_pipes := x\<rparr>) p = lxp_fd_free_count k p" for x
      by (cases "p_files p") (simp_all add: lxp_fd_free_count_def)
    have dis: "pipe_discard (k\<lparr>k_pipes := (k_pipes k)(i := pipe_zero\<lparr>pp_used := True\<rparr>)\<rparr>) (int i) = k"
      using i z by (simp add: pipe_discard_def lxp_pipe_discard_def pipe_zero_def fun_upd_idem)
    have "lxp_pipe_alloc (k_pipes k) = ((k_pipes k)(i := pipe_zero\<lparr>pp_used := True\<rparr>), int i)"
      using few by (simp add: lxp_pipe_alloc_def)
    then have "sys_pipe k p fds flags = (k, - LXP_EMFILE)" using few dis fc by (simp add: sys_pipe_def)
    then show ?thesis using r g few by simp
  next
    case go
    show ?thesis using pipe_go [OF g a go r] by simp
  qed
  then show "safe k p k'" ?R by simp_all
qed

section \<open>System calls on descriptors\<close>

lemma to_u32_le [simp]: "to_u32 x \<le> SIZE_MAX"
  by (simp add: to_u32_def SIZE_MAX_def)

lemma safe_vfs_read:
  assumes g: "good k p" and h: "host_ok h" and oi: "ofd_live k oi"
    and acc: "lxp_guest_access_ok k p buf len True" "buf \<le> SIZE_MAX" "len \<le> SIZE_MAX"
    and r: "vfs_read h k p oi buf len = Some (p', k', rc)"
  shows "safe k p k' \<and> same_task p p'"
  using r safe_reads [OF g oi acc(2,3)] safe_efd_ops(1) [OF g acc(2)] safe_read_console [OF g h acc]
    safe_pipe_ops(1) [OF g oi _ _ acc]
  by (cases "ofd_kind (k_ofd k oi)") (auto simp: vfs_read_def fop_read_eventfd_def)

lemma safe_tmpfs_write:
  assumes g: "good k p" and oi: "ofd_live k oi" and kd: "ofd_kind (k_ofd k oi) = FD_TMPFS"
    and sz: "buf \<le> SIZE_MAX" "len \<le> SIZE_MAX"
  shows "fop_pwrite_tmpfs k p oi buf len off = (k', rc) \<Longrightarrow> safe_same k p k'"
    "fop_write_tmpfs k p oi buf len = (k', rc) \<Longrightarrow> safe k p k'"
    "fop_ftruncate_tmpfs k oi off = (k', rc) \<Longrightarrow> safe k p k'"
proof -
  obtain i where i: "ofd_file_idx (k_ofd k oi) = int i" by (rule tmpfs_live [OF g oi kd])
  have W: "fop_pwrite_tmpfs k p oi buf len off = (k', rc) \<Longrightarrow> safe_same k p k'" for off k' rc
    using pwrite_tmpfs_cases [OF g oi kd i sz] by blast
  then show "fop_pwrite_tmpfs k p oi buf len off = (k', rc) \<Longrightarrow> safe_same k p k'" .
  show "fop_write_tmpfs k p oi buf len = (k', rc) \<Longrightarrow> safe k p k'"
    unfolding fop_write_tmpfs_def by (erule safe_read_then_advance [OF g oi]) (rule W)
  show "fop_ftruncate_tmpfs k oi off = (k', rc) \<Longrightarrow> safe k p k'"
    using ftruncate_tmpfs_cases [OF g oi kd i] safe_same_safe by blast
qed

lemma safe_vfs_write:
  assumes g: "good k p" and oi: "ofd_live k oi" and sz: "buf \<le> SIZE_MAX" "len \<le> SIZE_MAX"
    and r: "vfs_write h k p oi buf len = Some (p', k', rc)"
  shows "safe k p k' \<and> same_task p p'"
  using r g safe_tmpfs_write(2) [OF g oi _ sz] safe_efd_ops(2) [OF g sz(1)] safe_pipe_ops(2) [OF g oi]
  by (cases "ofd_kind (k_ofd k oi)") (auto simp: vfs_write_def fop_write_eventfd_def)

lemma safe_sys_read:
  assumes g: "good k p" and h: "host_ok h" and sz: "buf \<le> SIZE_MAX" "len \<le> SIZE_MAX"
    and r: "sys_read h k p fd buf len = (p', k', rc)"
  shows "safe k p k' \<and> same_task p p'"
proof (cases "fd_lookup k p fd")
  case None
  then show ?thesis using r g by (simp add: sys_read_def)
next
  case (Some oi)
  show ?thesis
    using r g safe_vfs_read [OF g h lookup_live [OF Some] _ sz]
    by (cases "vfs_read h k p oi buf len") (auto simp: sys_read_def Some split: if_splits)
qed

lemma safe_sys_write:
  assumes g: "good k p" and sz: "buf \<le> SIZE_MAX" "len \<le> SIZE_MAX" and r: "sys_write h k p fd buf len = (p', k', rc)"
  shows "safe k p k' \<and> same_task p p'"
proof (cases "fd_lookup k p fd")
  case None
  then show ?thesis using r g by (simp add: sys_write_def)
next
  case (Some oi)
  show ?thesis
    using r g safe_vfs_write [OF g lookup_live [OF Some] sz]
    by (cases "vfs_write h k p oi buf len") (auto simp: sys_write_def Some split: if_splits)
qed

lemma safe_task:
  assumes "same_task p p'" shows "safe k p' k' = safe k p k'" "good k p' = good k p"
proof -
  have e: "window_bytes q p' w = window_bytes q p w" for q w
    by (rule windows_cong) (use assms in \<open>simp_all add: same_task_def\<close>)
  have "proc_ok p' = proc_ok p" using assms by (simp add: same_task_def proc_ok_def)
  then show "good k p' = good k p" for k by (simp add: good_def e)
  then show "safe k p' k' = safe k p k'" by (simp add: safe_def confined_def e)
qed

lemma same_task_trans: "same_task p q \<Longrightarrow> same_task q r \<Longrightarrow> same_task p r"
  by (simp add: same_task_def)

lemma bytes_u32_le: "bytes_u32 bs \<le> SIZE_MAX"
proof -
  have "unat (b :: byte) \<le> 255" for b using unsigned_less [of b, where ?'a = nat] by simp
  from this [of "bs ! 0"] this [of "bs ! 1"] this [of "bs ! 2"] this [of "bs ! 3"]
  show ?thesis by (simp add: bytes_u32_def SIZE_MAX_def)
qed

lemma writev_step:
  assumes s: "lxp_copy_from_guest k p (uptr (iov + 8 * i)) 8 = Some entry"
    and d: "base = bytes_u32 (take 4 entry)" "iov_len = bytes_u32 (drop 4 entry)" "len = (if iov_len < budget then iov_len else budget)"
    and w: "sys_write h k p fd base len = (p1, k1, r)"
  shows "writev_loop h fd iov single (Suc n) i k p sofar budget =
    (if iov_len = 0 then writev_loop h fd iov single n (i + 1) k p sofar budget
     else if r < 0 then (p1, k1, total_or sofar r)
     else if nat r > len then (p1, k1, total_or sofar (- LXP_EIO))
     else if single \<or> nat r < len \<or> len < iov_len \<or> budget - nat r = 0 then (p1, k1, sofar + r)
     else writev_loop h fd iov single n (i + 1) k1 p1 (sofar + r) (budget - nat r))"
  by (simp only: writev_loop.simps s option.case Let_def d(1) [symmetric] d(2) [symmetric] d(3) [symmetric] w prod.case)

lemma safe_writev_loop:
  assumes "good k p" "writev_loop h fd iov single n i k p sofar budget = (p', k', rc)" "budget \<le> SIZE_MAX"
  shows "safe k p k' \<and> same_task p p'"
  using assms
proof (induction n arbitrary: i k p sofar budget)
  case (Suc n)
  show ?case
  proof (cases "lxp_copy_from_guest k p (uptr (iov + 8 * i)) 8")
    case None
    then show ?thesis using Suc.prems by simp
  next
    case (Some entry)
    define base where "base = bytes_u32 (take 4 entry)"
    define iov_len where "iov_len = bytes_u32 (drop 4 entry)"
    define len where "len = (if iov_len < budget then iov_len else budget)"
    obtain p1 k1 r where w: "sys_write h k p fd base len = (p1, k1, r)" by (metis surj_pair)
    have L: "len \<le> SIZE_MAX" "budget - nat r \<le> SIZE_MAX" using Suc.prems(3) by (simp_all add: len_def)
    have B: "base \<le> SIZE_MAX" by (simp add: base_def bytes_u32_le)
    note W = safe_sys_write [OF Suc.prems(1) B L(1) w]
    have g1: "good k1 p1" using W safe_good safe_task(2) by blast
    have T: "safe k p k' \<and> same_task p p'" if "safe k1 p1 k' \<and> same_task p1 p'"
      using that W safe_task(1) safe_trans same_task_trans by blast
    from Suc.prems(2) [unfolded writev_step [OF Some base_def iov_len_def len_def w]]
    show ?thesis using W T Suc.IH [OF Suc.prems(1) _ Suc.prems(3)] Suc.IH [OF g1 _ L(2)] by (auto split: if_splits)
  qed
qed simp

text \<open>One call moves at most the budget.\<close>

lemma writev_loop_bound:
  assumes "writev_loop h fd iov single n i k p sofar budget = (p', k', rc)" "0 \<le> sofar"
  shows "rc \<le> sofar + int budget"
  using assms
proof (induction n arbitrary: i k p sofar budget)
  case (Suc n)
  show ?case
  proof (cases "lxp_copy_from_guest k p (uptr (iov + 8 * i)) 8")
    case None
    then show ?thesis using Suc.prems by (auto simp: total_or_def)
  next
    case (Some entry)
    define base where "base = bytes_u32 (take 4 entry)"
    define iov_len where "iov_len = bytes_u32 (drop 4 entry)"
    define len where "len = (if iov_len < budget then iov_len else budget)"
    obtain p1 k1 r where w: "sys_write h k p fd base len = (p1, k1, r)" by (metis surj_pair)
    have l: "len \<le> budget" by (simp add: len_def)
    have t: "total_or sofar e \<le> sofar + int budget" if "e < 0" for e using that Suc.prems(2) by (simp add: total_or_def)
    have s: "rc \<le> sofar + int budget"
      if "\<not> r < 0" "\<not> nat r > len" "writev_loop h fd iov single n (i + 1) k1 p1 (sofar + r) (budget - nat r) = (p', k', rc)"
      using Suc.IH [OF that(3)] that(1,2) Suc.prems(2) l by linarith
    from Suc.prems(1) [unfolded writev_step [OF Some base_def iov_len_def len_def w]]
    show ?thesis using t s l Suc.IH Suc.prems(2) by (auto simp del: Suc_eq_plus1 Suc_eq_plus1_left split: if_splits)
  qed
qed (simp add: total_or_def)

lemma safe_writev:
  assumes g: "good k p" and r: "sys_writev h k p fd iov cnt = (p', k', rc)"
  shows "safe k p k' \<and> same_task p p'" "rc \<le> int LXP_SYSCALL_QUANTUM_BYTES"
proof -
  have q: "LXP_SYSCALL_QUANTUM_BYTES \<le> SIZE_MAX" by (simp add: LXP_SYSCALL_QUANTUM_BYTES_def SIZE_MAX_def)
  show "safe k p k' \<and> same_task p p'"
    using r g safe_writev_loop [OF g _ q] by (auto simp: sys_writev_def Let_def split: if_splits option.splits)
  show "rc \<le> int LXP_SYSCALL_QUANTUM_BYTES"
    using r writev_loop_bound [where sofar = 0 and budget = LXP_SYSCALL_QUANTUM_BYTES]
    by (fastforce simp: sys_writev_def Let_def LXP_SYSCALL_QUANTUM_BYTES_def split: if_splits option.splits)
qed

lemma safe_vfs_more:
  assumes g: "good k p" and oi: "ofd_live k oi"
  shows "vfs_pread k p oi buf len off = Some (k', rc) \<Longrightarrow> buf \<le> SIZE_MAX \<Longrightarrow> len \<le> SIZE_MAX \<Longrightarrow> safe k p k'"
    "vfs_pwrite k p oi buf len off = Some (k', rc) \<Longrightarrow> buf \<le> SIZE_MAX \<Longrightarrow> len \<le> SIZE_MAX \<Longrightarrow> safe k p k'"
    "vfs_lseek k p oi pos wh = Some (k', rc) \<Longrightarrow> safe k p k'"
    "vfs_getdents h k p oi sink = Some (k', rc) \<Longrightarrow> safe k p k'"
    "vfs_ftruncate k oi off = Some (k', rc) \<Longrightarrow> safe k p k'"
    "vfs_ioctl k p oi cmd arg = Some (k', rc) \<Longrightarrow> arg \<le> SIZE_MAX \<Longrightarrow> safe k p k'"
proof -
  show "vfs_pread k p oi buf len off = Some (k', rc) \<Longrightarrow> buf \<le> SIZE_MAX \<Longrightarrow> len \<le> SIZE_MAX \<Longrightarrow> safe k p k'"
    using safe_preads [OF g, THEN safe_same_safe] by (cases "ofd_kind (k_ofd k oi)") (auto simp: vfs_pread_def)
  show "vfs_pwrite k p oi buf len off = Some (k', rc) \<Longrightarrow> buf \<le> SIZE_MAX \<Longrightarrow> len \<le> SIZE_MAX \<Longrightarrow> safe k p k'"
    using safe_tmpfs_write(1) [OF g oi, THEN safe_same_safe] by (cases "ofd_kind (k_ofd k oi)") (auto simp: vfs_pwrite_def)
  show "vfs_lseek k p oi pos wh = Some (k', rc) \<Longrightarrow> safe k p k'"
    using safe_seeks [OF g oi] by (cases "ofd_kind (k_ofd k oi)") (auto simp: vfs_lseek_def)
  show "vfs_getdents h k p oi sink = Some (k', rc) \<Longrightarrow> safe k p k'"
    using g safe_dir_list [OF g oi]
    by (cases "ofd_kind (k_ofd k oi)")
      (auto simp: vfs_getdents_def fop_getdents_rootfs_def fop_getdents_tmpfs_def fop_getdents_proc_def Let_def split: if_splits)
  show "vfs_ftruncate k oi off = Some (k', rc) \<Longrightarrow> safe k p k'"
    using safe_tmpfs_write(3) [OF g oi, of 0 0] by (cases "ofd_kind (k_ofd k oi)") (auto simp: vfs_ftruncate_def)
  show "vfs_ioctl k p oi cmd arg = Some (k', rc) \<Longrightarrow> arg \<le> SIZE_MAX \<Longrightarrow> safe k p k'"
    using safe_tty_ioctl [OF g] by (cases "ofd_kind (k_ofd k oi)") (auto simp: vfs_ioctl_def)
qed

lemma safe_pread:
  assumes g: "good k p" and sz: "buf \<le> SIZE_MAX" "len \<le> SIZE_MAX"
  shows "lxp_sys_fd_pread k p fd buf len off = (k', rc) \<Longrightarrow> safe k p k'"
    "sys_pwrite k p fd buf len off = (k', rc) \<Longrightarrow> safe k p k'"
  using g safe_vfs_more(1,2) [OF g lookup_live _ sz]
  by (auto simp: lxp_sys_fd_pread_def sys_pwrite_def Let_def split: option.splits if_splits)

lemma safe_fd_seek: "good k p \<Longrightarrow> fd_seek k p fd off wh = (k', rc) \<Longrightarrow> safe k p k'"
  using safe_vfs_more(3) [OF _ lookup_live] by (auto simp: fd_seek_def split: option.splits)

lemma safe_lseek: "good k p \<Longrightarrow> sys_lseek k p fd off wh = (k', rc) \<Longrightarrow> safe k p k'"
  using safe_fd_seek by (auto simp: sys_lseek_def split: prod.splits)

lemma safe_llseek:
  assumes g: "good k p" and sz: "result \<le> SIZE_MAX" and r: "sys_llseek k p fd hi lo result wh = (k', rc)"
  shows "safe k p k'"
proof -
  obtain k1 pos where s: "fd_seek k p fd (to_int64 (lo + hi * 2 ^ 32)) wh = (k1, pos)" by (metis surj_pair)
  note S = safe_fd_seek [OF g s]
  obtain k2 rc2 where c: "lxp_copy_to_guest k1 p result (le_bytes 8 (nat pos)) = (k2, rc2)" by (metis surj_pair)
  have "safe k p k2"
    by (rule safe_trans [OF S safe_copy_to [OF safe_good [OF S] c sz]]) (simp add: length_le_bytes SIZE_MAX_def)
  then show ?thesis using r S c unfolding sys_llseek_def s Let_def prod.case by (auto split: if_splits)
qed

lemma safe_fd_calls:
  assumes g: "good k p"
  shows "sys_ftruncate k p fd n = (k', rc) \<Longrightarrow> safe k p k'"
    "sys_ioctl k p fd cmd arg = (k', rc) \<Longrightarrow> arg \<le> SIZE_MAX \<Longrightarrow> safe k p k'"
    "sys_getdents64 h k p fd buf count is64 = (k', rc) \<Longrightarrow> safe k p k'"
    "sys_fcntl k p fd c v = (k', rc) \<Longrightarrow> safe k p k'"
proof -
  show "sys_ftruncate k p fd n = (k', rc) \<Longrightarrow> safe k p k'"
    using g safe_vfs_more(5) [OF g lookup_live] by (auto simp: sys_ftruncate_def split: option.splits if_splits)
  show "sys_ioctl k p fd cmd arg = (k', rc) \<Longrightarrow> arg \<le> SIZE_MAX \<Longrightarrow> safe k p k'"
    using g safe_vfs_more(6) [OF g lookup_live] by (auto simp: sys_ioctl_def split: option.splits if_splits)
  show "sys_getdents64 h k p fd buf count is64 = (k', rc) \<Longrightarrow> safe k p k'"
    using g safe_vfs_more(4) [OF g lookup_live] by (auto simp: sys_getdents64_def split: option.splits if_splits)
  assume r: "sys_fcntl k p fd c v = (k', rc)"
  show "safe k p k'"
  proof (cases "fd_lookup k p fd")
    case None
    then show ?thesis using r g by (simp add: sys_fcntl_def)
  next
    case (Some oi)
    have o: "oi < LXP_MAX_OFD" "ofd_refs (k_ofd k oi) \<noteq> 0" using lookup_live [OF Some] by (simp_all add: ofd_live_def)
    have "ofd_offset (k_ofd k oi) \<le> SIZE_MAX" using good_offsets [OF g] o by (simp add: offsets_ok_def)
    then have F: "safe k p (ofd_put k oi ((k_ofd k oi)\<lparr>ofd_nonblock := nb\<rparr>))" for nb by (intro safe_ofd [OF g o]) simp_all
    show ?thesis
      using r g F safe_dup_min [OF g] safe_set_cloexec [OF g] by (auto simp: sys_fcntl_def Some split: if_splits)
  qed
qed

lemma safe_dups:
  assumes g: "good k p"
  shows "sys_dup k p fd = (k', rc) \<Longrightarrow> safe k p k'" "sys_dup2 k p fd fd2 = (k', rc) \<Longrightarrow> safe k p k'"
    "sys_close k p fd = (k', rc) \<Longrightarrow> safe k p k'"
  using safe_dup_min [OF g] safe_dup_to [OF g] safe_close [OF g] by (auto simp: sys_dup_def sys_dup2_def sys_close_def)

lemma safe_getrandom:
  assumes g: "good k p" and h: "host_ok h" and sz: "buf \<le> SIZE_MAX" "n \<le> SIZE_MAX" and r: "sys_getrandom h k p buf n fl = (k', rc)"
  shows "safe k p k'"
  using r g safe_random [OF g h _ sz] by (auto simp: sys_getrandom_def split: if_splits)

section \<open>System calls on path names\<close>

lemma safe_mount_open:
  assumes g: "good k p" and r: "mount_open h k p m path flags = (k', rc)"
  shows "safe k p k'"
proof -
  have d: "safe k p k'" if "devfs_open k p path flags = (k', rc)"
  proof (cases "find_console_node path")
    case None
    then show ?thesis using that g by (simp add: devfs_open_def)
  next
    case (Some c)
    then show ?thesis using that safe_open_plain [OF g, of FD_CONSOLE 0 "cn_idx c" flags k' rc]
      by (simp add: devfs_open_def lxp_fd_install_def lxp_sys_fd_alloc_def)
  qed
  have pr: "safe k p k'" if "procfs_mount_open h k p path flags = (k', rc)"
    using that g safe_procfs_open [OF g] by (auto simp: procfs_mount_open_def Let_def split: if_splits)
  show ?thesis using r d pr safe_overlay_open [OF g] by (cases m) (auto simp: mount_open_def)
qed

lemma safe_openat:
  assumes g: "good k p" and r: "sys_openat h k p dirfd path flags = (k', rc)"
  shows "safe k p k'"
  using r g safe_mount_open [OF g] by (auto simp: sys_openat_def split: if_splits sum.splits)

lemma stat_length: "length (fill_kstat64 st) \<le> SIZE_MAX" "length (fill_statx st) \<le> SIZE_MAX"
  by (simp_all add: fill_kstat64_def fill_statx_def length_le_bytes SIZE_MAX_def)

lemma safe_stat_copyout:
  assumes g: "good k p" and sz: "buf \<le> SIZE_MAX" and r: "lxp_stat_copyout k p buf x st = (k', rc)"
  shows "safe k p k'"
  using safe_copy_to [OF g _ sz] r stat_length by (auto simp: lxp_stat_copyout_def split: if_splits)

lemma safe_stats:
  assumes g: "good k p" and sz: "buf \<le> SIZE_MAX"
  shows "sys_fstat64 k p fd buf = (k', rc) \<Longrightarrow> safe k p k'"
    "sys_stat_path h k p dirfd path follow buf = (k', rc) \<Longrightarrow> safe k p k'"
    "sys_statx h k p dirfd path flags buf = (k', rc) \<Longrightarrow> safe k p k'"
  using g safe_stat_copyout [OF g sz]
  by (auto simp: sys_fstat64_def sys_stat_path_def path_stat_def sys_statx_def Let_def split: option.splits if_splits sum.splits)

lemma safe_statfs:
  assumes g: "good k p" and sz: "buf \<le> SIZE_MAX"
  shows "sys_statfs_path h k p path n buf = (k', rc) \<Longrightarrow> safe k p k'" "sys_fstatfs k p fd n buf = (k', rc) \<Longrightarrow> safe k p k'"
proof -
  have "length (statfs_synthetic m) \<le> SIZE_MAX" for m by (simp add: statfs_synthetic_def length_le_bytes SIZE_MAX_def)
  then have "statfs_copy k p n buf (statfs_synthetic m) = (k', rc) \<Longrightarrow> safe k p k'" for m
    using g safe_copy_to [OF g _ sz] by (auto simp: statfs_copy_def split: if_splits)
  then show "sys_statfs_path h k p path n buf = (k', rc) \<Longrightarrow> safe k p k'" "sys_fstatfs k p fd n buf = (k', rc) \<Longrightarrow> safe k p k'"
    using g by (auto simp: sys_statfs_path_def sys_fstatfs_def split: option.splits if_splits sum.splits)
qed

lemma overlay_readlink_cap: "overlay_readlink k p path cap = Inr t \<Longrightarrow> length t \<le> cap"
  by (auto simp: overlay_readlink_def Let_def split: if_splits)

lemma readlink_cap: "mount_readlink h k p m path cap = Inr t \<Longrightarrow> length t \<le> cap"
  by (cases m) (auto simp: mount_readlink_def procfs_mount_readlink_def Let_def dest: overlay_readlink_cap split: if_splits)

lemma safe_readlink:
  assumes g: "good k p" and sz: "buf \<le> SIZE_MAX" and r: "sys_readlink h k p dirfd path buf n = (k', rc)"
  shows "safe k p k'"
proof (cases "lxp_guest_access_ok k p buf n True")
  case False
  then show ?thesis using r g by (simp add: sys_readlink_def)
next
  case acc: True
  show ?thesis
  proof (cases "resolve_in_mount k p dirfd path")
    case (Inl e)
    then show ?thesis using r g acc by (simp add: sys_readlink_def)
  next
    case (Inr am)
    obtain a m where am: "am = (a, m)" by (metis surj_pair)
    let ?c = "if n < LXP_PATH_MAX then n else LXP_PATH_MAX"
    show ?thesis
    proof (cases "mount_readlink h k p m a ?c")
      case (Inl e)
      then show ?thesis using r g acc \<open>resolve_in_mount k p dirfd path = Inr am\<close> am by (simp add: sys_readlink_def)
    next
      case t: (Inr t)
      obtain k1 rc1 where c: "lxp_copy_to_guest k p buf (bytes_of_string t) = (k1, rc1)" by (metis surj_pair)
      have "length t \<le> ?c" by (rule readlink_cap [OF t])
      also have "?c \<le> LXP_PATH_MAX" by simp
      also have "LXP_PATH_MAX \<le> SIZE_MAX" by (simp add: config_defs SIZE_MAX_def)
      finally have "length (bytes_of_string t) \<le> SIZE_MAX" by (simp add: bytes_of_string_def)
      then have "safe k p k1" by (rule safe_copy_to [OF g c sz])
      moreover have "k' = k1" using r acc Inr am t c by (auto simp: sys_readlink_def split: if_splits)
      ultimately show ?thesis by simp
    qed
  qed
qed

lemma safe_name_calls:
  assumes g: "good k p"
  shows "sys_mkdir h k p dirfd path mode = (k', rc) \<Longrightarrow> safe k p k'"
    "sys_unlink h k p dirfd path rd = (k', rc) \<Longrightarrow> safe k p k'"
    "sys_rename h k p d1 p1 d2 p2 fl = (k', rc) \<Longrightarrow> safe k p k'"
    "sys_symlink h k p t dirfd path = (k', rc) \<Longrightarrow> safe k p k'"
    "sys_link h k p d1 p1 d2 p2 = (k', rc) \<Longrightarrow> safe k p k'"
    "sys_chmod h k p dirfd path mode = (k', rc) \<Longrightarrow> safe k p k'"
proof -
  show "sys_mkdir h k p dirfd path mode = (k', rc) \<Longrightarrow> safe k p k'"
    using g safe_mkdir [OF g] by (auto simp: sys_mkdir_def split: sum.splits if_splits)
  show "sys_unlink h k p dirfd path rd = (k', rc) \<Longrightarrow> safe k p k'"
    using g safe_remove [OF g] by (auto simp: sys_unlink_def split: sum.splits if_splits)
  show "sys_rename h k p d1 p1 d2 p2 fl = (k', rc) \<Longrightarrow> safe k p k'"
    using g safe_rename [OF g] by (auto simp: sys_rename_def split: sum.splits if_splits)
  show "sys_symlink h k p t dirfd path = (k', rc) \<Longrightarrow> safe k p k'"
    using g safe_symlink [OF g] by (auto simp: sys_symlink_def split: sum.splits if_splits)
  show "sys_link h k p d1 p1 d2 p2 = (k', rc) \<Longrightarrow> safe k p k'"
    using g safe_link [OF g] by (auto simp: sys_link_def split: sum.splits if_splits)
  show "sys_chmod h k p dirfd path mode = (k', rc) \<Longrightarrow> safe k p k'"
    using g safe_chmod [OF g] by (auto simp: sys_chmod_def split: sum.splits if_splits)
qed

lemma safe_set_cwd:
  assumes g: "good k p" shows "safe k p (set_cwd k p dir)"
proof (cases "p_fs_context p")
  case None
  then show ?thesis using g by (simp add: set_cwd_def)
next
  case (Some i)
  have "kernel_ok (set_cwd k p dir)"
    using goodD(1) [OF g] by (simp add: set_cwd_def Some kernel_ok_def kernel_inv_def objects_ok_def)
  moreover have "pool_frame k (set_cwd k p dir)" "offsets_ok (set_cwd k p dir)"
    using good_offsets [OF g] by (simp_all add: set_cwd_def Some pool_frame_def counters_same offsets_ok_def)
  ultimately show ?thesis by (rule safe_frame [OF g])
qed

lemma safe_chdir: "good k p \<Longrightarrow> lxp_sys_chdir h k p a = (k', rc) \<Longrightarrow> safe k p k'"
  using safe_set_cwd
  by (auto simp: lxp_sys_chdir_def overlay_chdir_def Let_def split: sum.splits if_splits)

lemma safe_getcwd:
  assumes g: "good k p" and r: "lxp_sys_getcwd k p a = (k', rc)"
  shows "safe k p k'"
proof (cases "to_u32 (a 0) = 0 \<or> to_u32 (a 1) < length (proc_cwd k p) + 1")
  case True
  then show ?thesis using r g by (auto simp: lxp_sys_getcwd_def Let_def simp del: One_nat_def split: if_splits)
next
  case False
  have "length (bytes_of_string (proc_cwd k p) @ [0]) \<le> to_u32 (a 1)" using False by (simp add: bytes_of_string_def)
  then have l: "length (bytes_of_string (proc_cwd k p) @ [0]) \<le> SIZE_MAX" using to_u32_le order_trans by blast
  obtain k1 rc1 where c: "lxp_copy_to_guest k p (to_u32 (a 0)) (bytes_of_string (proc_cwd k p) @ [0]) = (k1, rc1)" by (metis surj_pair)
  show ?thesis using r False c safe_copy_to [OF g c to_u32_le l] by (auto simp: lxp_sys_getcwd_def Let_def split: if_splits)
qed

end
