(* ===== verification/SysProc.thy ===== *)
theory SysProc
  imports SysFd Process Signal "HOL-Library.Signed_Division"
begin

text \<open>
  The system calls on memory, time, processes and signals
  (\<^verbatim>\<open>src/src/sys/lxp_sys_mm.c\<close>, \<^verbatim>\<open>lxp_sys_time.c\<close>, \<^verbatim>\<open>lxp_sys_proc.c\<close>, \<^verbatim>\<open>lxp_sys_signal.c\<close>).  A handler gives
  the caller's record, the kernel and the result.  Where the C code dereferences a pool pointer a
  running task always has (its file-system context, its group, its handlers), the model leaves the
  state as it is when the pointer is absent.
\<close>

section \<open>Memory\<close>

abbreviation (input) LXP_MAP_SHARED :: nat where "LXP_MAP_SHARED \<equiv> 0x01"
abbreviation (input) LXP_MAP_ANONYMOUS :: nat where "LXP_MAP_ANONYMOUS \<equiv> 0x20"

definition sys_mprotect :: "nat \<Rightarrow> nat \<Rightarrow> int \<Rightarrow> int" where
  "sys_mprotect addr len prot = 0"

definition sys_brk :: "kernel \<Rightarrow> proc \<Rightarrow> nat \<Rightarrow> kernel \<times> int" where
  "sys_brk k p addr =
     (case p_mm p of
        None \<Rightarrow> (k, 0)
      | Some mi \<Rightarrow>
          (let mm = mc_mm k mi;
               k' = (if addr \<ge> mm_brk_base mm \<and> addr \<le> mm_brk_max mm
                     then k\<lparr>mc_mm := (mc_mm k)(mi := mm\<lparr>mm_brk_cur := addr\<rparr>)\<rparr> else k)
           in (k', to_int32 (mm_brk_cur (mc_mm k' mi)))))"

text \<open>The \<^verbatim>\<open>mmap\<close> operation of the kind: only the rootfs has one.\<close>

definition vfs_mmap :: "kernel \<Rightarrow> proc \<Rightarrow> nat \<Rightarrow> nat \<Rightarrow> nat \<Rightarrow> nat \<Rightarrow> int" where
  "vfs_mmap k p oi len prot pgoff =
     (case ofd_kind (k_ofd k oi) of FD_FILE \<Rightarrow> fop_mmap_rootfs k p oi len prot pgoff | _ \<Rightarrow> - LXP_ENODEV)"

definition arena_put_k :: "kernel \<Rightarrow> nat \<Rightarrow> mem \<times> arena \<Rightarrow> kernel" where
  "arena_put_k k ai s = k\<lparr>mc_mem := fst s, k_arena := (k_arena k)(ai := snd s)\<rparr>"

text \<open>A private copy in the arena: zeroed, then filled from the file at the page offset.\<close>

definition mmap_private :: "kernel \<Rightarrow> proc \<Rightarrow> nat \<Rightarrow> nat \<Rightarrow> bool \<Rightarrow> int \<Rightarrow> nat \<Rightarrow> kernel \<times> int" where
  "mmap_private k p ai len file fd pgoff =
     (let (m1, ar1, m) = lxp_arena_alloc_tracked (mc_mem k) (k_arena k ai) len in
      if m = 0 then (arena_put_k k ai (m1, ar1), - LXP_ENOMEM)
      else
        (let k1 = arena_put_k k ai (mem_fill m1 m len 0, ar1) in
         if \<not> file then (k1, to_int32 m)
         else
           (let (k2, r) = lxp_sys_fd_pread k1 p fd m len (uptr (pgoff * 4096)) in
            if r < 0 then
              (let (m3, ar3, _) = lxp_arena_free_tracked (mc_mem k2) (k_arena k2 ai) m len
               in (arena_put_k k2 ai (m3, ar3), r))
            else (k2, to_int32 m))))"

definition sys_mmap2 :: "kernel \<Rightarrow> proc \<Rightarrow> nat \<Rightarrow> nat \<Rightarrow> nat \<Rightarrow> int \<Rightarrow> nat \<Rightarrow> kernel \<times> int" where
  "sys_mmap2 k p len prot flags fd pgoff =
     (case p_mm p of
        None \<Rightarrow> (k, - LXP_EINVAL)
      | Some mi \<Rightarrow>
          (case mm_arena (mc_mm k mi) of
             None \<Rightarrow> (k, - LXP_EINVAL)
           | Some ai \<Rightarrow>
               if len = 0 then (k, - LXP_EINVAL)
               else if \<not> has_flag flags LXP_MAP_ANONYMOUS \<and> fd \<ge> 0 then
                 (case fd_lookup k p fd of
                    None \<Rightarrow> (k, - LXP_EBADF)
                  | Some oi \<Rightarrow>
                      (let s = k_ofd k oi in
                       if \<not> lxp_vfs_readable s \<or>
                          has_flag flags LXP_MAP_SHARED \<and> has_flag prot LXP_PROT_WRITE \<and> \<not> lxp_vfs_writable s
                       then (k, - LXP_EACCES)
                       else
                         (let r = vfs_mmap k p oi len prot pgoff in
                          if r \<noteq> - LXP_ENODEV then (k, r) else mmap_private k p ai len True fd pgoff)))
               else mmap_private k p ai len False fd pgoff))"

definition sys_munmap :: "kernel \<Rightarrow> proc \<Rightarrow> nat \<Rightarrow> nat \<Rightarrow> kernel \<times> int" where
  "sys_munmap k p addr len =
     (case p_mm p of
        None \<Rightarrow> (k, - LXP_EINVAL)
      | Some mi \<Rightarrow>
          (case mm_arena (mc_mm k mi) of
             None \<Rightarrow> (k, - LXP_EINVAL)
           | Some ai \<Rightarrow>
               if len = 0 then (k, - LXP_EINVAL)
               else if \<not> lxp_arena_owns (k_arena k ai) addr then (k, 0)
               else
                 (let (m, ar, ok) = lxp_arena_free_tracked (mc_mem k) (k_arena k ai) addr len
                  in (arena_put_k k ai (m, ar), if ok then 0 else - LXP_EINVAL))))"

section \<open>Time\<close>

definition LXP_NS_PER_SEC :: int where "LXP_NS_PER_SEC = 1000000000"
definition LXP_BOOT_EPOCH_NS :: int where "LXP_BOOT_EPOCH_NS = 1782172800 * LXP_NS_PER_SEC"

definition uptime_ns :: "io_host \<Rightarrow> int" where
  "uptime_ns h = to_int64 (ih_now_ns h)"

text \<open>Seconds and nanoseconds of a clock, as the unsigned values stored.\<close>

definition now_sec_nsec :: "io_host \<Rightarrow> kernel \<Rightarrow> int \<Rightarrow> nat \<times> nat" where
  "now_sec_nsec h k clockid =
     (let ns = uptime_ns h + (if clockid = 0 then LXP_BOOT_EPOCH_NS + k_realtime_offset_ns k else 0)
      in (nat ((ns sdiv LXP_NS_PER_SEC) mod 2 ^ 64), nat ((ns smod LXP_NS_PER_SEC) mod 2 ^ 32)))"

definition set_realtime :: "io_host \<Rightarrow> kernel \<Rightarrow> int \<Rightarrow> int \<Rightarrow> kernel \<times> int" where
  "set_realtime h k sec nsec =
     (if sec < 0 \<or> sec > INT64_MAX sdiv LXP_NS_PER_SEC - 1 \<or> nsec < 0 \<or> nsec \<ge> LXP_NS_PER_SEC then (k, - LXP_EINVAL)
      else (k\<lparr>k_realtime_offset_ns := sec * LXP_NS_PER_SEC + nsec - LXP_BOOT_EPOCH_NS - uptime_ns h\<rparr>, 0))"

definition timer_wait :: "nat \<Rightarrow> wait" where
  "timer_wait deadline = wait_zero\<lparr>wt_kind := WAIT_TIMER, wt_data := WD_timer deadline\<rparr>"

definition sleep_for :: "io_host \<Rightarrow> kernel \<Rightarrow> proc \<Rightarrow> nat \<Rightarrow> bool \<Rightarrow> sys_result" where
  "sleep_for h k p reqp time64 =
     (let w = (if time64 then 8 else 4) in
      case lxp_copy_from_guest k p reqp (2 * w) of
        None \<Rightarrow> (p, k, - LXP_EFAULT)
      | Some bs \<Rightarrow>
          (let sec = le_value (take w bs); nsec = le_value (drop w bs);
               us = (sec * 1000000 + nsec div 1000) mod 2 ^ 64;
               dur_us = (if us > 100000000 then 100000000 else us);
               (p', rc) = lxp_wait_park (ih_now_us h) p (timer_wait ((ih_now_us h + dur_us) mod 2 ^ 64))
           in (p', k, rc)))"

text \<open>The tail of the calls that store one result.\<close>

definition store_or_fault :: "kernel \<Rightarrow> proc \<Rightarrow> nat \<Rightarrow> byte list \<Rightarrow> kernel \<times> int" where
  "store_or_fault k p dst bs = (let (k', rc) = lxp_copy_to_guest k p dst bs in (k', if rc \<noteq> 0 then - LXP_EFAULT else 0))"

definition lxp_sys_clock_gettime :: "io_host \<Rightarrow> kernel \<Rightarrow> proc \<Rightarrow> sysargs \<Rightarrow> kernel \<times> int" where
  "lxp_sys_clock_gettime h k p a =
     (let (sec, nsec) = now_sec_nsec h k (a 0) in store_or_fault k p (to_u32 (a 1)) (le_bytes 4 sec @ le_bytes 4 nsec))"

definition lxp_sys_clock_gettime64 :: "io_host \<Rightarrow> kernel \<Rightarrow> proc \<Rightarrow> sysargs \<Rightarrow> kernel \<times> int" where
  "lxp_sys_clock_gettime64 h k p a =
     (let (sec, nsec) = now_sec_nsec h k (a 0) in store_or_fault k p (to_u32 (a 1)) (le_bytes 8 sec @ le_bytes 8 nsec))"

definition lxp_sys_gettimeofday :: "io_host \<Rightarrow> kernel \<Rightarrow> proc \<Rightarrow> sysargs \<Rightarrow> kernel \<times> int" where
  "lxp_sys_gettimeofday h k p a =
     (let (sec, nsec) = now_sec_nsec h k 0 in store_or_fault k p (to_u32 (a 0)) (le_bytes 4 sec @ le_bytes 4 (nsec div 1000)))"

definition lxp_sys_clock_settime :: "io_host \<Rightarrow> kernel \<Rightarrow> proc \<Rightarrow> sysargs \<Rightarrow> kernel \<times> int" where
  "lxp_sys_clock_settime h k p a =
     (if a 0 \<noteq> 0 then (k, - LXP_EINVAL)
      else
        (case lxp_copy_from_guest k p (to_u32 (a 1)) 8 of
           None \<Rightarrow> (k, - LXP_EFAULT)
         | Some bs \<Rightarrow> set_realtime h k (to_int32 (le_value (take 4 bs))) (to_int32 (le_value (drop 4 bs)))))"

definition lxp_sys_clock_settime64 :: "io_host \<Rightarrow> kernel \<Rightarrow> proc \<Rightarrow> sysargs \<Rightarrow> kernel \<times> int" where
  "lxp_sys_clock_settime64 h k p a =
     (if a 0 \<noteq> 0 then (k, - LXP_EINVAL)
      else
        (case lxp_copy_from_guest k p (to_u32 (a 1)) 16 of
           None \<Rightarrow> (k, - LXP_EFAULT)
         | Some bs \<Rightarrow> set_realtime h k (to_int64 (le_value (take 8 bs))) (to_int64 (le_value (drop 8 bs)))))"

definition lxp_sys_settimeofday :: "io_host \<Rightarrow> kernel \<Rightarrow> proc \<Rightarrow> sysargs \<Rightarrow> kernel \<times> int" where
  "lxp_sys_settimeofday h k p a =
     (if a 0 = 0 then (k, 0)
      else
        (case lxp_copy_from_guest k p (to_u32 (a 0)) 8 of
           None \<Rightarrow> (k, - LXP_EFAULT)
         | Some bs \<Rightarrow>
             (let usec = to_int32 (le_value (drop 4 bs)) in
              if usec < 0 \<or> usec \<ge> 1000000 then (k, - LXP_EINVAL)
              else set_realtime h k (to_int32 (le_value (take 4 bs))) (usec * 1000))))"

definition lxp_sys_nanosleep :: "io_host \<Rightarrow> kernel \<Rightarrow> proc \<Rightarrow> sysargs \<Rightarrow> sys_result" where
  "lxp_sys_nanosleep h k p a = sleep_for h k p (to_u32 (a 0)) False"

definition lxp_sys_clock_nanosleep :: "io_host \<Rightarrow> kernel \<Rightarrow> proc \<Rightarrow> sysargs \<Rightarrow> sys_result" where
  "lxp_sys_clock_nanosleep h k p a = sleep_for h k p (to_u32 (a 2)) False"

definition lxp_sys_clock_nanosleep_time64 :: "io_host \<Rightarrow> kernel \<Rightarrow> proc \<Rightarrow> sysargs \<Rightarrow> sys_result" where
  "lxp_sys_clock_nanosleep_time64 h k p a = sleep_for h k p (to_u32 (a 2)) True"

definition itimer_old :: "proc \<Rightarrow> nat \<Rightarrow> byte list" where
  "itimer_old p now =
     (let rem = (if p_alarm_deadline_us p \<noteq> 0 \<and> p_alarm_deadline_us p > now then p_alarm_deadline_us p - now else 0)
      in le_bytes 4 (p_alarm_interval_us p div 1000000) @ le_bytes 4 (p_alarm_interval_us p mod 1000000)
         @ le_bytes 4 (rem div 1000000) @ le_bytes 4 (rem mod 1000000))"

definition lxp_sys_setitimer :: "io_host \<Rightarrow> kernel \<Rightarrow> proc \<Rightarrow> sysargs \<Rightarrow> sys_result" where
  "lxp_sys_setitimer h k p a =
     (let which = a 0; unew = to_u32 (a 1); uold = to_u32 (a 2); now = ih_now_us h in
      if which \<noteq> 0 then (p, k, 0)
      else
        (let (k1, rc) = (if uold \<noteq> 0 then lxp_copy_to_guest k p uold (itimer_old p now) else (k, 0)) in
         if rc \<noteq> 0 then (p, k1, - LXP_EFAULT)
         else if unew = 0 then (p, k1, 0)
         else
           (case lxp_copy_from_guest k1 p unew 16 of
              None \<Rightarrow> (p, k1, - LXP_EFAULT)
            | Some bs \<Rightarrow>
                (let nv = (\<lambda>i. le_value (take 4 (drop (4 * i) bs))); val_us = nv 2 * 1000000 + nv 3
                 in (p\<lparr>p_alarm_interval_us := nv 0 * 1000000 + nv 1,
                       p_alarm_deadline_us := (if val_us \<noteq> 0 then (now + val_us) mod 2 ^ 64 else 0)\<rparr>, k1, 0)))))"

definition lxp_sys_times :: "io_host \<Rightarrow> kernel \<Rightarrow> proc \<Rightarrow> sysargs \<Rightarrow> kernel \<times> int" where
  "lxp_sys_times h k p a =
     (let ticks = ih_now_us h div 10000; dst = to_u32 (a 0);
          (k', rc) = (if dst \<noteq> 0 then lxp_copy_to_guest k p dst (le_bytes 4 ticks @ replicate 12 0) else (k, 0))
      in (k', if rc \<noteq> 0 then - LXP_EFAULT else to_int32 ticks))"

section \<open>Processes\<close>

definition lxp_request_halt :: "kernel \<Rightarrow> kernel" where
  "lxp_request_halt k = k\<lparr>k_halt_requested := True\<rparr>"

definition lxp_reset_halt_request :: "kernel \<Rightarrow> kernel" where
  "lxp_reset_halt_request k = k\<lparr>k_halt_requested := False\<rparr>"

definition lxp_halt_requested :: "kernel \<Rightarrow> bool" where
  "lxp_halt_requested k = k_halt_requested k"

definition group_put :: "kernel \<Rightarrow> nat \<Rightarrow> thread_group \<Rightarrow> kernel" where
  "group_put k gi g = k\<lparr>k_groups := (k_groups k)(gi := g)\<rparr>"

definition sys_exit :: "kernel \<Rightarrow> proc \<Rightarrow> int \<Rightarrow> bool \<Rightarrow> sys_result" where
  "sys_exit k p status grp =
     (let st = status mod 256;
          k' = (case p_group p of
                  Some gi \<Rightarrow>
                    if grp then group_put k gi ((k_groups k gi)\<lparr>tg_exiting := True, tg_exit_status := st\<rparr>) else k
                | None \<Rightarrow> k)
      in ((lxp_intent_exit p grp)\<lparr>p_exit_status := st, p_exit_reason := EXIT_NORMAL, p_exit_signal := 0,
             p_exit_detail := 0, p_exit_address := 0\<rparr>, k', 0))"

definition lxp_sys_exit :: "kernel \<Rightarrow> proc \<Rightarrow> sysargs \<Rightarrow> sys_result" where
  "lxp_sys_exit k p a = sys_exit k p (a 0) False"

definition lxp_sys_exit_group :: "kernel \<Rightarrow> proc \<Rightarrow> sysargs \<Rightarrow> sys_result" where
  "lxp_sys_exit_group k p a = sys_exit k p (a 0) True"

definition lxp_sys_getpid :: "kernel \<Rightarrow> proc \<Rightarrow> int" where
  "lxp_sys_getpid k p = (case p_group p of Some gi \<Rightarrow> tg_tgid (k_groups k gi) | None \<Rightarrow> p_pid p)"

definition lxp_sys_getppid :: "kernel \<Rightarrow> proc \<Rightarrow> int" where
  "lxp_sys_getppid k p = (case p_group p of Some gi \<Rightarrow> tg_ppid (k_groups k gi) | None \<Rightarrow> 0)"

definition lxp_sys_gettid :: "proc \<Rightarrow> int" where
  "lxp_sys_gettid p = p_pid p"

text \<open>Every output is checked before any is written.\<close>

fun getresid_put :: "proc \<Rightarrow> nat list \<Rightarrow> kernel \<Rightarrow> kernel \<times> int" where
  "getresid_put p [] k = (k, 0)"
| "getresid_put p (u # us) k =
     (if u = 0 then getresid_put p us k
      else (case lxp_guest_put_u32 k p u 0 of (k', rc) \<Rightarrow> if rc \<noteq> 0 then (k', - LXP_EFAULT) else getresid_put p us k'))"

definition lxp_sys_getresid :: "kernel \<Rightarrow> proc \<Rightarrow> sysargs \<Rightarrow> kernel \<times> int" where
  "lxp_sys_getresid k p a =
     (let out = map (\<lambda>i. to_u32 (a i)) [0, 1, 2] in
      if \<exists>u \<in> set out. u \<noteq> 0 \<and> \<not> lxp_guest_access_ok k p u 4 True then (k, - LXP_EFAULT) else getresid_put p out k)"

definition lxp_sys_nice :: "kernel \<Rightarrow> proc \<Rightarrow> sysargs \<Rightarrow> sys_result" where
  "lxp_sys_nice k p a =
     (let requested = p_nice p + a 0
      in (lxp_proc_nice_set p (if requested < - 20 then - 20 else if requested > 19 then 19 else requested), k, 0))"

definition lxp_sys_umask :: "kernel \<Rightarrow> proc \<Rightarrow> sysargs \<Rightarrow> kernel \<times> int" where
  "lxp_sys_umask k p a =
     (case p_fs_context p of
        None \<Rightarrow> (k, 0)
      | Some i \<Rightarrow>
          (k\<lparr>k_fs_context := (k_fs_context k)(i := (k_fs_context k i)\<lparr>fc_umask := to_u32 (a 0) AND 0x1ff\<rparr>)\<rparr>,
           int (fc_umask (k_fs_context k i))))"

definition lxp_sys_setpgid :: "kernel \<Rightarrow> proc \<Rightarrow> sysargs \<Rightarrow> kernel \<times> int" where
  "lxp_sys_setpgid k p a =
     (case p_group p of
        Some gi \<Rightarrow>
          if a 0 = 0 \<or> a 0 = p_pid p
          then (group_put k gi ((k_groups k gi)\<lparr>tg_pgid := (if a 1 = 0 then p_pid p else a 1)\<rparr>), 0) else (k, 0)
      | None \<Rightarrow> (k, 0))"

definition lxp_sys_getpgrp :: "kernel \<Rightarrow> proc \<Rightarrow> int" where
  "lxp_sys_getpgrp k p = (case p_group p of Some gi \<Rightarrow> tg_pgid (k_groups k gi) | None \<Rightarrow> 0)"

definition lxp_sys_setsid :: "kernel \<Rightarrow> proc \<Rightarrow> kernel \<times> int" where
  "lxp_sys_setsid k p =
     (case p_group p of
        Some gi \<Rightarrow> (group_put k gi ((k_groups k gi)\<lparr>tg_pgid := p_pid p\<rparr>), p_pid p)
      | None \<Rightarrow> (k, p_pid p))"

definition lxp_sys_prlimit64 :: "kernel \<Rightarrow> proc \<Rightarrow> sysargs \<Rightarrow> kernel \<times> int" where
  "lxp_sys_prlimit64 k p a =
     (let uold = to_u32 (a 3); v = (if a 1 = 7 then LXP_MAX_FDS else 1024) in
      if uold \<noteq> 0 then store_or_fault k p uold (le_bytes 8 v @ le_bytes 8 v) else (k, 0))"

definition UINT32_MAX :: nat where "UINT32_MAX = 4294967295"

function mem_unit :: "nat \<Rightarrow> nat \<Rightarrow> nat" where
  "mem_unit largest unit =
     (if largest div unit > UINT32_MAX \<and> unit \<le> UINT32_MAX div 2 then mem_unit largest (unit * 2) else unit)"
  by pat_completeness auto
termination
proof (relation "measure (\<lambda>(_, unit). UINT32_MAX - unit)")
  fix largest unit :: nat
  assume a: "largest div unit > UINT32_MAX \<and> unit \<le> UINT32_MAX div 2"
  then have "0 < unit" "unit \<le> UINT32_MAX div 2" by (metis div_by_0 gr0I not_less_zero, simp)
  then have "UINT32_MAX - unit * 2 < UINT32_MAX - unit" by (simp add: UINT32_MAX_def)
  then show "((largest, unit * 2), (largest, unit)) \<in> measure (\<lambda>(_, unit). UINT32_MAX - unit)" by simp
qed simp

declare mem_unit.simps [simp del]

definition sysinfo_bytes :: "io_host \<Rightarrow> byte list" where
  "sysinfo_bytes h =
     (let (total_bytes, available, live) = ih_resources h;
          unit = mem_unit (if total_bytes > available then total_bytes else available) 1;
          cap = (\<lambda>v. if v > UINT32_MAX then UINT32_MAX else v);
          procs = (if live > UINT16_MAX then UINT16_MAX else if live \<noteq> 0 then live else 1)
      in le_bytes 4 (ih_now_ns h div 1000000000) @ replicate 12 0
         @ le_bytes 4 (cap (total_bytes div unit)) @ le_bytes 4 (cap (available div unit)) @ replicate 16 0
         @ le_bytes 2 procs @ replicate 2 0 @ replicate 8 0 @ le_bytes 4 unit @ replicate 8 0)"

definition lxp_sys_sysinfo :: "io_host \<Rightarrow> kernel \<Rightarrow> proc \<Rightarrow> sysargs \<Rightarrow> kernel \<times> int" where
  "lxp_sys_sysinfo h k p a = store_or_fault k p (to_u32 (a 0)) (sysinfo_bytes h)"

definition uts_field :: "string \<Rightarrow> byte list" where
  "uts_field s = (let l = min 64 (length s) in bytes_of_string (take l s) @ replicate (65 - l) 0)"

definition lxp_sys_uname :: "io_host \<Rightarrow> kernel \<Rightarrow> proc \<Rightarrow> sysargs \<Rightarrow> kernel \<times> int" where
  "lxp_sys_uname h k p a =
     store_or_fault k p (to_u32 (a 0))
       (concat (map uts_field [''Linux'', ih_nodename h, ''6.1.0'', ih_version h, ''armv7l'', ''(none)'']))"

definition lxp_sys_getrandom :: "io_host \<Rightarrow> kernel \<Rightarrow> proc \<Rightarrow> sysargs \<Rightarrow> kernel \<times> int" where
  "lxp_sys_getrandom h k p a = sys_getrandom h k p (to_u32 (a 0)) (to_u32 (a 1)) (to_u32 (a 2))"

definition lxp_sys_reboot :: "kernel \<Rightarrow> proc \<Rightarrow> sysargs \<Rightarrow> sys_result" where
  "lxp_sys_reboot k p a =
     (let cmd = to_u32 (a 2) in
      if cmd = 0x01234567 \<or> cmd = 0xcdef0123 \<or> cmd = 0x4321fedc \<or> cmd = 0xa1b2c3d4
      then ((lxp_intent_exit p False)\<lparr>p_exit_status := 0, p_exit_reason := EXIT_NORMAL\<rparr>, lxp_request_halt k, 0)
      else (p, k, 0))"

subsection \<open>Children\<close>

abbreviation (input) LXP_WNOHANG :: nat where "LXP_WNOHANG \<equiv> 1"
abbreviation (input) LXP_WUNTRACED :: nat where "LXP_WUNTRACED \<equiv> 2"
abbreviation (input) LXP_ECHILD :: int where "LXP_ECHILD \<equiv> 10"

definition lxp_encode_wstatus :: "int \<Rightarrow> int" where
  "lxp_encode_wstatus code = (if code > 128 \<and> code \<le> 128 + 31 then code - 128 else (code mod 256) * 256)"

definition lxp_encode_wstopped :: "int \<Rightarrow> int" where
  "lxp_encode_wstopped stopsig = (stopsig mod 256) * 256 + 0x7f"

text \<open>Drop entry \<open>i\<close> of the child queue.\<close>

definition drop_at :: "nat \<Rightarrow> nat \<Rightarrow> (nat \<Rightarrow> 'a) \<Rightarrow> nat \<Rightarrow> 'a" where
  "drop_at i n f = (\<lambda>j. if i \<le> j \<and> j + 1 < n then f (j + 1) else f j)"

definition child_take :: "thread_group \<Rightarrow> nat \<Rightarrow> thread_group" where
  "child_take g i =
     g\<lparr>tg_child_pid := drop_at i (tg_child_count g) (tg_child_pid g),
       tg_child_status := drop_at i (tg_child_count g) (tg_child_status g),
       tg_child_kind := drop_at i (tg_child_count g) (tg_child_kind g), tg_child_count := tg_child_count g - 1\<rparr>"

definition child_matches :: "thread_group \<Rightarrow> int \<Rightarrow> nat \<Rightarrow> nat \<Rightarrow> bool" where
  "child_matches g wpid options i \<longleftrightarrow>
     \<not> (wpid > 0 \<and> tg_child_pid g i \<noteq> wpid) \<and> \<not> (tg_child_kind g i = CHILD_STOPPED \<and> \<not> has_flag options LXP_WUNTRACED)"

definition lxp_sys_wait4 :: "io_host \<Rightarrow> kernel \<Rightarrow> proc \<Rightarrow> sysargs \<Rightarrow> sys_result" where
  "lxp_sys_wait4 h k p a =
     (let status = to_u32 (a 1); options = to_u32 (a 2); wpid = a 0 in
      if status \<noteq> 0 \<and> \<not> lxp_guest_access_ok k p status 4 True then (p, k, - LXP_EFAULT)
      else
        (case p_group p of
           None \<Rightarrow> (p, k, - LXP_ECHILD)
         | Some gi \<Rightarrow>
             (let g = k_groups k gi in
              case scan (child_matches g wpid options) 0 (tg_child_count g) of
                Some i \<Rightarrow>
                  (let code = tg_child_status g i;
                       word = (if tg_child_kind g i = CHILD_STOPPED then lxp_encode_wstopped code else lxp_encode_wstatus code);
                       k1 = group_put k gi (child_take g i);
                       k2 = (if status \<noteq> 0 then fst (lxp_guest_put_u32 k1 p status (to_u32 word)) else k1)
                   in (p, k2, tg_child_pid g i))
              | None \<Rightarrow>
                  if tg_live_children g = 0 then (p, k, - LXP_ECHILD)
                  else if has_flag options LXP_WNOHANG then (p, k, 0)
                  else
                    (let (p', rc) = lxp_wait_park (ih_now_us h) p
                            (wait_zero\<lparr>wt_kind := WAIT_CHILD, wt_data := WD_child wpid (a 2) status\<rparr>)
                     in (p', k, rc)))))"

section \<open>Signals\<close>

abbreviation (input) LXP_SA_RESTORER :: nat where "LXP_SA_RESTORER \<equiv> 0x04000000"
abbreviation (input) LXP_SA_RESTART :: nat where "LXP_SA_RESTART \<equiv> 0x10000000"
abbreviation (input) LXP_SIG_BLOCK :: int where "LXP_SIG_BLOCK \<equiv> 0"
abbreviation (input) LXP_SIG_UNBLOCK :: int where "LXP_SIG_UNBLOCK \<equiv> 1"
abbreviation (input) LXP_SIG_SETMASK :: int where "LXP_SIG_SETMASK \<equiv> 2"

definition sigaction_old :: "kernel \<Rightarrow> proc \<Rightarrow> int \<Rightarrow> nat list" where
  "sigaction_old k p sig =
     [lxp_sig_handler_get (k_sighand k) p sig,
      (if lxp_sig_restarts (k_sighand k) p sig then LXP_SA_RESTART else 0)
        OR (if lxp_sig_restorer_get (k_sighand k) p \<noteq> 0 then LXP_SA_RESTORER else 0),
      lxp_sig_restorer_get (k_sighand k) p]"

text \<open>Store words one after the other, stopping at the first fault.\<close>

fun put_words :: "proc \<Rightarrow> nat \<Rightarrow> nat list \<Rightarrow> kernel \<Rightarrow> kernel \<times> int" where
  "put_words p dst [] k = (k, 0)"
| "put_words p dst (v # vs) k =
     (case lxp_guest_put_u32 k p dst v of (k', rc) \<Rightarrow> if rc \<noteq> 0 then (k', - LXP_EFAULT) else put_words p (uptr (dst + 4)) vs k')"

definition sigaction_set :: "sighand \<Rightarrow> int \<Rightarrow> byte list \<Rightarrow> sighand" where
  "sigaction_set s sig act =
     (let fl = le_value (take 4 (drop 4 act)) in
      s\<lparr>sh_handler := (sh_handler s)(sig := le_value (take 4 act)), sh_restorer := le_value (drop 8 act),
        sh_restart := (if has_flag fl LXP_SA_RESTART then sh_restart s OR lxp_sig_bit sig
                       else sh_restart s AND NOT (lxp_sig_bit sig))\<rparr>)"

definition lxp_sys_rt_sigaction :: "kernel \<Rightarrow> proc \<Rightarrow> sysargs \<Rightarrow> kernel \<times> int" where
  "lxp_sys_rt_sigaction k p a =
     (let sig = a 0; uact = to_u32 (a 1); uoact = to_u32 (a 2) in
      if sig < 1 \<or> sig \<ge> LXP_NSIG then (k, - LXP_EINVAL)
      else
        (case (if uact \<noteq> 0 then lxp_copy_from_guest k p uact 12 else Some []) of
           None \<Rightarrow> (k, - LXP_EFAULT)
         | Some act \<Rightarrow>
             if uoact \<noteq> 0 \<and> \<not> lxp_guest_access_ok k p uoact 12 True then (k, - LXP_EFAULT)
             else
               (let (k1, rc) = (if uoact \<noteq> 0 then put_words p uoact (sigaction_old k p sig) k else (k, 0)) in
                if rc \<noteq> 0 then (k1, - LXP_EFAULT)
                else
                  (case p_sighand p of
                     Some si \<Rightarrow>
                       if uact \<noteq> 0 then (k1\<lparr>k_sighand := (k_sighand k1)(si := sigaction_set (k_sighand k1 si) sig act)\<rparr>, 0)
                       else (k1, 0)
                   | None \<Rightarrow> (k1, 0)))))"

text \<open>The mask a guest set of \<open>sz\<close> bytes gives: whole words only.\<close>

definition sigset_of :: "nat \<Rightarrow> byte list \<Rightarrow> 64 word" where
  "sigset_of sz bs =
     word_of_nat ((if sz \<ge> 4 then le_value (take 4 bs) else 0) + (if sz \<ge> 8 then le_value (take 4 (drop 4 bs)) * 2 ^ 32 else 0))"

definition unblockable :: "64 word" where
  "unblockable = lxp_sig_bit LXP_SIGKILL OR lxp_sig_bit LXP_SIGSTOP"

definition sigmask_after :: "int \<Rightarrow> 64 word \<Rightarrow> 64 word \<Rightarrow> 64 word" where
  "sigmask_after how old nv =
     (if how = LXP_SIG_BLOCK then old OR nv else if how = LXP_SIG_UNBLOCK then old AND NOT nv else nv) AND NOT unblockable"

definition lxp_sys_rt_sigprocmask :: "kernel \<Rightarrow> proc \<Rightarrow> sysargs \<Rightarrow> sys_result" where
  "lxp_sys_rt_sigprocmask k p a =
     (let how = a 0; uset = to_u32 (a 1); uold = to_u32 (a 2); sz = to_u32 (a 3); old = p_sig_blocked p in
      if sz > 8 then (p, k, - LXP_EINVAL)
      else if uset \<noteq> 0 \<and> \<not> lxp_guest_access_ok k p uset sz False then (p, k, - LXP_EFAULT)
      else if uold \<noteq> 0 \<and> \<not> lxp_guest_access_ok k p uold sz True then (p, k, - LXP_EFAULT)
      else if uset \<noteq> 0 \<and> how \<noteq> LXP_SIG_BLOCK \<and> how \<noteq> LXP_SIG_UNBLOCK \<and> how \<noteq> LXP_SIG_SETMASK then (p, k, - LXP_EINVAL)
      else
        (case (if uset \<noteq> 0 then lxp_copy_from_guest k p uset sz else Some []) of
           None \<Rightarrow> (p, k, - LXP_EFAULT)
         | Some bs \<Rightarrow>
             (let n = (if sz \<ge> 8 then 8 else if sz \<ge> 4 then 4 else 0);
                  (k1, rc) = (if uold \<noteq> 0 \<and> n \<noteq> 0 then lxp_copy_to_guest k p uold (take n (le_bytes 8 (unat old))) else (k, 0))
              in if rc \<noteq> 0 then (p, k1, - LXP_EFAULT)
                 else (if uset \<noteq> 0 then p\<lparr>p_sig_blocked := sigmask_after how old (sigset_of sz bs)\<rparr> else p, k1, 0))))"

definition lxp_sys_rt_sigsuspend :: "io_host \<Rightarrow> kernel \<Rightarrow> proc \<Rightarrow> sysargs \<Rightarrow> sys_result" where
  "lxp_sys_rt_sigsuspend h k p a =
     (let uset = to_u32 (a 0); sz = to_u32 (a 1) in
      if sz \<noteq> 8 then (p, k, - LXP_EINVAL)
      else if uset = 0 then (p, k, - LXP_EFAULT)
      else
        (case lxp_copy_from_guest k p uset 8 of
           None \<Rightarrow> (p, k, - LXP_EFAULT)
         | Some bs \<Rightarrow>
             (let p1 = p\<lparr>p_sigsuspend_saved_mask := p_sig_blocked p, p_sig_blocked := sigset_of 8 bs AND NOT unblockable,
                         p_sigsuspend_active := True\<rparr>
              in if lxp_pending_deliverable p1 = 0 then
                   (let (p2, rc) = lxp_wait_begin (ih_now_us h) p1 (wait_zero\<lparr>wt_kind := WAIT_SIGSUSPEND\<rparr>)
                    in (p2, k, if rc \<noteq> 0 then - LXP_EAGAIN else - LXP_EINTR))
                 else (p1, k, - LXP_EINTR))))"

text \<open>The number of the lowest set bit, from 1.\<close>

definition lowest_signal :: "64 word \<Rightarrow> int" where
  "lowest_signal w = (case scan (\<lambda>i. bit w i) 0 64 of Some i \<Rightarrow> int i + 1 | None \<Rightarrow> 0)"

definition lxp_sys_rt_sigtimedwait_time64 :: "kernel \<Rightarrow> proc \<Rightarrow> sysargs \<Rightarrow> sys_result" where
  "lxp_sys_rt_sigtimedwait_time64 k p a =
     (let uset = to_u32 (a 0); sz = to_u32 (a 3) in
      if sz > 8 then (p, k, - LXP_EINVAL)
      else
        (case (if uset \<noteq> 0 then lxp_copy_from_guest k p uset sz else Some []) of
           None \<Rightarrow> (p, k, - LXP_EFAULT)
         | Some bs \<Rightarrow>
             (let wanted = (if uset \<noteq> 0 then sigset_of sz bs else 0); ready = p_pending_sigs p AND wanted in
              if ready \<noteq> 0 then
                (let sig = lowest_signal ready
                 in (p\<lparr>p_pending_sigs := p_pending_sigs p AND NOT (lxp_sig_bit sig)\<rparr>, k, sig))
              else (p, k, - LXP_EAGAIN))))"

section \<open>Entry points\<close>

definition lxp_sys_brk :: "kernel \<Rightarrow> proc \<Rightarrow> sysargs \<Rightarrow> kernel \<times> int" where
  "lxp_sys_brk k p a = sys_brk k p (to_u32 (a 0))"

definition lxp_sys_mmap2 :: "kernel \<Rightarrow> proc \<Rightarrow> sysargs \<Rightarrow> kernel \<times> int" where
  "lxp_sys_mmap2 k p a = sys_mmap2 k p (to_u32 (a 1)) (to_u32 (a 2)) (to_u32 (a 3)) (a 4) (to_u32 (a 5))"

definition lxp_sys_munmap :: "kernel \<Rightarrow> proc \<Rightarrow> sysargs \<Rightarrow> kernel \<times> int" where
  "lxp_sys_munmap k p a = sys_munmap k p (to_u32 (a 0)) (to_u32 (a 1))"

definition lxp_sys_mprotect :: "kernel \<Rightarrow> proc \<Rightarrow> sysargs \<Rightarrow> int" where
  "lxp_sys_mprotect k p a = sys_mprotect (to_u32 (a 0)) (to_u32 (a 1)) (a 2)"

definition lxp_sys_inert :: "kernel \<Rightarrow> proc \<Rightarrow> sysargs \<Rightarrow> int" where
  "lxp_sys_inert k p a = 0"

definition lxp_sys_getuid_root :: "kernel \<Rightarrow> proc \<Rightarrow> sysargs \<Rightarrow> int" where
  "lxp_sys_getuid_root k p a = 0"

definition lxp_sys_set_tid_address :: "kernel \<Rightarrow> proc \<Rightarrow> sysargs \<Rightarrow> int" where
  "lxp_sys_set_tid_address k p a = 1"

definition lxp_sys_set_robust_list :: "kernel \<Rightarrow> proc \<Rightarrow> sysargs \<Rightarrow> int" where
  "lxp_sys_set_robust_list k p a = 0"

text \<open>Without hostfs there is nothing to flush.\<close>

definition lxp_sys_sync :: "kernel \<Rightarrow> proc \<Rightarrow> sysargs \<Rightarrow> int" where
  "lxp_sys_sync k p a = 0"

end
