(* ===== verification/Poll.thy ===== *)
theory Poll
  imports SysProc
begin

text \<open>
  Readiness over a descriptor set (\<^verbatim>\<open>src/src/fs/lxp_poll.c\<close>): poll, ppoll and pselect6, and the
  re-scan of a parked caller.  A probe timeout of \<open>None\<close> is the code's null pointer.
\<close>

section \<open>The scan\<close>

record pollfd =
  pl_fd :: int
  pl_events :: nat
  pl_revents :: nat

abbreviation (input) LXP_POLLNVAL :: nat where "LXP_POLLNVAL \<equiv> 0x20"

definition LXP_SEL_MAXFDS :: nat where "LXP_SEL_MAXFDS = 32"
definition LXP_POLL_EVENTS :: nat where "LXP_POLL_EVENTS = LXP_POLLIN OR LXP_POLLOUT"

definition console_ready :: "io_host \<Rightarrow> kernel \<Rightarrow> proc \<Rightarrow> int option \<Rightarrow> bool" where
  "console_ready h k p probe_tmo =
     (case probe_tmo of
        None \<Rightarrow> p_console_poll p = 0 \<or> lxp_console_input_ready h k p
      | Some t \<Rightarrow>
          if t < 0 then True
          else if p_console_poll p \<noteq> 0 then lxp_console_input_ready h k p
          else t > 100)"

definition poll_waitable :: "kernel \<Rightarrow> proc \<Rightarrow> nat \<Rightarrow> bool" where
  "poll_waitable k p oi \<longleftrightarrow>
     (if ofd_kind (k_ofd k oi) = FD_CONSOLE then p_console_poll p \<noteq> 0 else vfs_poll k oi \<noteq> None)"

text \<open>Fill the entries' \<^verbatim>\<open>revents\<close>; also the number of entries with any and whether waiting could
  make another one ready.\<close>

definition poll_mask :: "io_host \<Rightarrow> kernel \<Rightarrow> proc \<Rightarrow> int option \<Rightarrow> nat \<Rightarrow> nat" where
  "poll_mask h k p probe_tmo oi =
     (if ofd_kind (k_ofd k oi) = FD_CONSOLE then (if console_ready h k p probe_tmo then LXP_POLL_EVENTS else 0)
      else (case vfs_poll k oi of Some ev \<Rightarrow> ev | None \<Rightarrow> LXP_POLL_EVENTS))"

fun poll_scan :: "io_host \<Rightarrow> kernel \<Rightarrow> proc \<Rightarrow> int option \<Rightarrow> pollfd list \<Rightarrow> pollfd list \<times> int \<times> bool" where
  "poll_scan h k p probe_tmo [] = ([], 0, False)"
| "poll_scan h k p probe_tmo (e # es) =
     (let (es', ready, waitable) = poll_scan h k p probe_tmo es in
      if pl_fd e < 0 then (e\<lparr>pl_revents := 0\<rparr> # es', ready, waitable)
      else
        (case fd_lookup k p (pl_fd e) of
           None \<Rightarrow> (e\<lparr>pl_revents := LXP_POLLNVAL\<rparr> # es', ready + 1, waitable)
         | Some oi \<Rightarrow>
             (let r = pl_events e AND poll_mask h k p probe_tmo oi AND LXP_POLL_EVENTS in
              if r \<noteq> 0 then (e\<lparr>pl_revents := r\<rparr> # es', ready + 1, waitable)
              else (e\<lparr>pl_revents := 0\<rparr> # es', ready, waitable \<or> poll_waitable k p oi))))"

definition poll_park :: "io_host \<Rightarrow> proc \<Rightarrow> nat \<Rightarrow> (nat \<Rightarrow> wait_data) \<Rightarrow> int \<Rightarrow> proc \<times> int" where
  "poll_park h p flags data tmo_ms =
     (let deadline = (if tmo_ms > 0 then (ih_now_us h + nat tmo_ms * 1000) mod 2 ^ 64 else UINT64_MAX)
      in lxp_wait_park (ih_now_us h) p (wait_zero\<lparr>wt_kind := WAIT_POLL, wt_flags := flags, wt_data := data deadline\<rparr>))"

definition poll_deadline :: "proc \<Rightarrow> nat" where
  "poll_deadline p = (case wt_data (p_wait p) of WD_poll _ _ d _ _ _ \<Rightarrow> d | _ \<Rightarrow> 0)"

definition poll_timed_out :: "io_host \<Rightarrow> proc \<Rightarrow> bool" where
  "poll_timed_out h p \<longleftrightarrow> poll_deadline p \<noteq> UINT64_MAX \<and> ih_now_us h \<ge> poll_deadline p"

section \<open>poll and ppoll\<close>

definition pollfd_of :: "byte list \<Rightarrow> pollfd" where
  "pollfd_of bs = \<lparr>pl_fd = to_int32 (le_value (take 4 bs)), pl_events = le_value (take 2 (drop 4 bs)),
     pl_revents = le_value (take 2 (drop 6 bs))\<rparr>"

definition pollfd_bytes :: "pollfd \<Rightarrow> byte list" where
  "pollfd_bytes e = le_bytes 4 (to_u32 (pl_fd e)) @ le_bytes 2 (pl_events e) @ le_bytes 2 (pl_revents e)"

definition pollfds_of :: "nat \<Rightarrow> byte list \<Rightarrow> pollfd list" where
  "pollfds_of n bs = map (\<lambda>i. pollfd_of (take 8 (drop (8 * i) bs))) [0..<n]"

text \<open>Load and store the array; an empty one is not touched.\<close>

definition poll_load :: "kernel \<Rightarrow> proc \<Rightarrow> nat \<Rightarrow> nat \<Rightarrow> pollfd list option" where
  "poll_load k p upfds nfds =
     (if nfds = 0 then Some [] else map_option (pollfds_of nfds) (lxp_copy_from_guest k p upfds (nfds * 8)))"

definition poll_store :: "kernel \<Rightarrow> proc \<Rightarrow> nat \<Rightarrow> pollfd list \<Rightarrow> kernel \<times> int" where
  "poll_store k p upfds pf = (if pf = [] then (k, 0) else lxp_copy_to_guest k p upfds (concat (map pollfd_bytes pf)))"

definition timespec_ms :: "byte list \<Rightarrow> int" where
  "timespec_ms bs = to_int64 (le_value (take 8 bs)) * 1000 + to_int64 (le_value (drop 8 bs)) sdiv 1000000"

definition wrap32 :: "int \<Rightarrow> int" where
  "wrap32 v = to_int32 (to_u32 v)"

definition poll_timeout :: "kernel \<Rightarrow> proc \<Rightarrow> bool \<Rightarrow> int \<Rightarrow> int option" where
  "poll_timeout k p is_poll a2 =
     (if is_poll then Some a2
      else if a2 = 0 then Some (- 1)
      else map_option (\<lambda>bs. wrap32 (timespec_ms bs)) (lxp_copy_from_guest k p (to_u32 a2) 16))"

definition poll_entry :: "io_host \<Rightarrow> kernel \<Rightarrow> proc \<Rightarrow> bool \<Rightarrow> int \<Rightarrow> int \<Rightarrow> int \<Rightarrow> sys_result" where
  "poll_entry h k p is_poll a0 a1 a2 =
     (let upfds = to_u32 a0; nfds = to_u32 a1 in
      if nfds > LXP_MAX_FDS then (p, k, - LXP_EINVAL)
      else
        (case poll_timeout k p is_poll a2 of
           None \<Rightarrow> (p, k, - LXP_EFAULT)
         | Some tmo_ms \<Rightarrow>
             (case poll_load k p upfds nfds of
                None \<Rightarrow> (p, k, - LXP_EFAULT)
              | Some pf \<Rightarrow>
                  (let (pf', ready, waitable) = poll_scan h k p (Some tmo_ms) pf; (k1, rc) = poll_store k p upfds pf' in
                   if rc \<noteq> 0 then (p, k1, - LXP_EFAULT)
                   else if ready > 0 \<or> tmo_ms = 0 then (p, k1, ready)
                   else if waitable then
                     (case poll_park h p 0 (\<lambda>d. WD_poll upfds (int nfds) d 0 0 0) tmo_ms of (p', r) \<Rightarrow> (p', k1, r))
                   else if p_console_poll p \<noteq> 0 \<and> tmo_ms > 0 then
                     (case lxp_wait_begin (ih_now_us h) p (timer_wait ((ih_now_us h + nat tmo_ms * 1000) mod 2 ^ 64)) of
                        (p', r) \<Rightarrow> (p', k1, if r \<noteq> 0 then - LXP_EAGAIN else 0))
                   else (p, k1, 0)))))"

definition poll_retry :: "io_host \<Rightarrow> kernel \<Rightarrow> proc \<Rightarrow> nat \<Rightarrow> nat \<Rightarrow> kernel \<times> int" where
  "poll_retry h k p upfds nfds =
     (case poll_load k p upfds nfds of
        None \<Rightarrow> (k, - LXP_EFAULT)
      | Some pf \<Rightarrow>
          (let (pf', ready, _) = poll_scan h k p None pf in
           if ready = 0 \<and> \<not> poll_timed_out h p then (k, - LXP_EAGAIN)
           else (let (k1, rc) = poll_store k p upfds pf' in (k1, if rc \<noteq> 0 then - LXP_EFAULT else ready))))"

definition lxp_sys_poll :: "io_host \<Rightarrow> kernel \<Rightarrow> proc \<Rightarrow> sysargs \<Rightarrow> sys_result" where
  "lxp_sys_poll h k p a = poll_entry h k p True (a 0) (a 1) (a 2)"

definition lxp_sys_ppoll_time64 :: "io_host \<Rightarrow> kernel \<Rightarrow> proc \<Rightarrow> sysargs \<Rightarrow> sys_result" where
  "lxp_sys_ppoll_time64 h k p a = poll_entry h k p False (a 0) (a 1) (a 2)"

section \<open>pselect6\<close>

record sel_set =
  sl_nfds :: nat
  sl_readfds :: nat
  sl_writefds :: nat
  sl_exceptfds :: nat

definition sel_load :: "kernel \<Rightarrow> proc \<Rightarrow> nat \<Rightarrow> nat option" where
  "sel_load k p uset = (if uset \<noteq> 0 then lxp_guest_get_u32 k p uset else Some 0)"

definition sel_events :: "nat \<Rightarrow> nat \<Rightarrow> nat \<Rightarrow> nat" where
  "sel_events r w fd = (if bit r fd then LXP_POLLIN else 0) OR (if bit w fd then LXP_POLLOUT else 0)"

definition sel_build :: "kernel \<Rightarrow> proc \<Rightarrow> sel_set \<Rightarrow> pollfd list option" where
  "sel_build k p s =
     (case (sel_load k p (sl_readfds s), sel_load k p (sl_writefds s)) of
        (Some r, Some w) \<Rightarrow>
          Some (map (\<lambda>fd. \<lparr>pl_fd = int fd, pl_events = sel_events r w fd, pl_revents = 0\<rparr>)
                 (filter (\<lambda>fd. sel_events r w fd \<noteq> 0) [0..<sl_nfds s]))
      | _ \<Rightarrow> None)"

text \<open>The word of the descriptors whose \<^verbatim>\<open>revents\<close> have an event, and how many there are.\<close>

definition sel_word :: "nat \<Rightarrow> pollfd list \<Rightarrow> nat" where
  "sel_word ev pf = fold (\<lambda>e w. w OR 2 ^ nat (pl_fd e)) (filter (\<lambda>e. has_flag (pl_revents e) ev) pf) 0"

definition sel_count :: "nat \<Rightarrow> pollfd list \<Rightarrow> int" where
  "sel_count ev pf = int (length (filter (\<lambda>e. has_flag (pl_revents e) ev) pf))"

definition sel_put :: "proc \<Rightarrow> nat \<Rightarrow> nat \<Rightarrow> kernel \<times> int \<Rightarrow> kernel \<times> int" where
  "sel_put p uset word s =
     (case s of (k, rc) \<Rightarrow> if rc \<noteq> 0 \<or> uset = 0 then (k, rc) else lxp_guest_put_u32 k p uset word)"

definition sel_writeback :: "kernel \<Rightarrow> proc \<Rightarrow> sel_set \<Rightarrow> pollfd list \<Rightarrow> kernel \<times> int" where
  "sel_writeback k p s pf =
     (let (k', rc) = sel_put p (sl_exceptfds s) 0
            (sel_put p (sl_writefds s) (sel_word LXP_POLLOUT pf) (sel_put p (sl_readfds s) (sel_word LXP_POLLIN pf) (k, 0)))
      in (k', if rc \<noteq> 0 then - LXP_EFAULT else sel_count LXP_POLLIN pf + sel_count LXP_POLLOUT pf))"

definition sel_scan :: "io_host \<Rightarrow> kernel \<Rightarrow> proc \<Rightarrow> sel_set \<Rightarrow> bool \<Rightarrow> kernel \<times> int" where
  "sel_scan h k p s may_wait =
     (case sel_build k p s of
        None \<Rightarrow> (k, - LXP_EFAULT)
      | Some pf \<Rightarrow>
          (let (pf', ready, _) = poll_scan h k p None pf in
           if \<exists>e \<in> set pf'. has_flag (pl_revents e) LXP_POLLNVAL then (k, - LXP_EBADF)
           else if ready = 0 \<and> may_wait then (k, - LXP_EAGAIN)
           else sel_writeback k p s pf'))"

definition sel_timeout :: "kernel \<Rightarrow> proc \<Rightarrow> nat \<Rightarrow> int option" where
  "sel_timeout k p utimeout =
     (if utimeout = 0 then Some (- 1)
      else map_option (\<lambda>bs. let ms = timespec_ms bs in if ms < 0 then 0 else wrap32 ms) (lxp_copy_from_guest k p utimeout 16))"

definition pselect6_entry :: "io_host \<Rightarrow> kernel \<Rightarrow> proc \<Rightarrow> int \<Rightarrow> nat \<Rightarrow> nat \<Rightarrow> nat \<Rightarrow> nat \<Rightarrow> sys_result" where
  "pselect6_entry h k p nfds urfds uwfds uefds utimeout =
     (if nfds < 0 then (p, k, - LXP_EINVAL)
      else
        (let n = (if nfds > int LXP_SEL_MAXFDS then LXP_SEL_MAXFDS else nat nfds) in
         case sel_timeout k p utimeout of
           None \<Rightarrow> (p, k, - LXP_EFAULT)
         | Some tmo_ms \<Rightarrow>
             (let (k1, rc) = sel_scan h k p \<lparr>sl_nfds = n, sl_readfds = urfds, sl_writefds = uwfds, sl_exceptfds = uefds\<rparr> (tmo_ms \<noteq> 0) in
              if rc \<noteq> - LXP_EAGAIN then (p, k1, rc)
              else (case poll_park h p 1 (\<lambda>d. WD_poll 0 (int n) d urfds uwfds uefds) tmo_ms of (p', r) \<Rightarrow> (p', k1, r)))))"

definition lxp_sys_pselect6_time64 :: "io_host \<Rightarrow> kernel \<Rightarrow> proc \<Rightarrow> sysargs \<Rightarrow> sys_result" where
  "lxp_sys_pselect6_time64 h k p a =
     pselect6_entry h k p (a 0) (to_u32 (a 1)) (to_u32 (a 2)) (to_u32 (a 3)) (to_u32 (a 4))"

definition lxp_poll_retry :: "io_host \<Rightarrow> kernel \<Rightarrow> proc \<Rightarrow> kernel \<times> int" where
  "lxp_poll_retry h k p =
     (if wt_kind (p_wait p) \<noteq> WAIT_POLL then (k, - LXP_EINVAL)
      else
        (case wt_data (p_wait p) of
           WD_poll upfds nfds _ r w e \<Rightarrow>
             if has_flag (wt_flags (p_wait p)) 1
             then sel_scan h k p \<lparr>sl_nfds = nat nfds, sl_readfds = r, sl_writefds = w, sl_exceptfds = e\<rparr> (\<not> poll_timed_out h p)
             else poll_retry h k p upfds (nat nfds)
         | _ \<Rightarrow> (k, - LXP_EINVAL)))"

end
