(* ===== verification/Syscall.thy ===== *)
theory Syscall
  imports SysPath Poll
begin

text \<open>
  The dispatcher (\<^verbatim>\<open>src/src/lxp_syscall.c\<close>): one row per system call of the core configuration, with
  the handler and its flags.  The \<^verbatim>\<open>execve\<close> handler is an argument of the table.
\<close>

section \<open>The model\<close>

type_synonym handler = "kernel \<Rightarrow> proc \<Rightarrow> sysargs \<Rightarrow> sys_result"

abbreviation (input) LXP_SYS_CLAMP_A1 :: nat where "LXP_SYS_CLAMP_A1 \<equiv> 0x01"
abbreviation (input) LXP_SYS_CLAMP_A2 :: nat where "LXP_SYS_CLAMP_A2 \<equiv> 0x02"
abbreviation (input) LXP_SYS_CLAMP_A2_FILE :: nat where "LXP_SYS_CLAMP_A2_FILE \<equiv> 0x04"
abbreviation (input) LXP_SYS_FAST :: nat where "LXP_SYS_FAST \<equiv> 0x08"
abbreviation (input) LXP_SYS_QUIET_ENOSYS :: nat where "LXP_SYS_QUIET_ENOSYS \<equiv> 0x10"
abbreviation (input) LXP_NR_execve :: int where "LXP_NR_execve \<equiv> 11"
abbreviation (input) LXP_NR_socket :: int where "LXP_NR_socket \<equiv> 281"
abbreviation (input) LXP_SYS_TABLE_SIZE :: int where "LXP_SYS_TABLE_SIZE \<equiv> 440"

definition LXP_SYSCALL_FILE_QUANTUM_BYTES :: nat where "LXP_SYSCALL_FILE_QUANTUM_BYTES = 65536"

text \<open>Handlers that change only the kernel, or nothing.\<close>

definition ret_kernel :: "(kernel \<Rightarrow> proc \<Rightarrow> sysargs \<Rightarrow> kernel \<times> int) \<Rightarrow> handler" where
  "ret_kernel f = (\<lambda>k p a. (p, f k p a))"

definition ret_int :: "(kernel \<Rightarrow> proc \<Rightarrow> sysargs \<Rightarrow> int) \<Rightarrow> handler" where
  "ret_int f = (\<lambda>k p a. (p, k, f k p a))"

definition g_lxp_sys_table :: "handler \<Rightarrow> io_host \<Rightarrow> (int \<times> handler \<times> nat) list" where
  "g_lxp_sys_table execve h =
     [(3, lxp_sys_read h, LXP_SYS_CLAMP_A2), (4, lxp_sys_write h, LXP_SYS_CLAMP_A2), (146, lxp_sys_writev h, 0),
      (45, ret_kernel lxp_sys_brk, 0), (192, ret_kernel lxp_sys_mmap2, 0), (91, ret_kernel lxp_sys_munmap, 0),
      (125, ret_int lxp_sys_mprotect, LXP_SYS_FAST), (180, ret_kernel lxp_sys_pread64, LXP_SYS_CLAMP_A2_FILE),
      (181, ret_kernel lxp_sys_pwrite64, LXP_SYS_CLAMP_A2_FILE), (5, ret_kernel (lxp_sys_open h), 0), (11, execve, 0),
      (322, ret_kernel (lxp_sys_openat h), 0), (6, ret_kernel lxp_sys_close, 0), (42, ret_kernel lxp_sys_pipe, 0),
      (359, ret_kernel lxp_sys_pipe2, 0), (41, ret_kernel lxp_sys_dup, 0), (63, ret_kernel lxp_sys_dup2, 0),
      (358, ret_kernel lxp_sys_dup3, 0), (19, ret_kernel lxp_sys_lseek, 0), (140, ret_kernel lxp_sys_llseek, 0),
      (194, ret_kernel lxp_sys_ftruncate64, 0), (118, ret_int lxp_sys_fsync, 0), (148, ret_int lxp_sys_fsync, 0),
      (36, ret_int lxp_sys_sync, 0), (373, ret_int lxp_sys_syncfs, 0), (197, ret_kernel lxp_sys_fstat64, 0),
      (195, ret_kernel (lxp_sys_stat64 h), 0), (196, ret_kernel (lxp_sys_lstat64 h), 0),
      (327, ret_kernel (lxp_sys_fstatat64 h), 0), (85, ret_kernel (lxp_sys_readlink h), 0),
      (332, ret_kernel (lxp_sys_readlinkat h), 0), (33, ret_int (lxp_sys_access h), 0),
      (334, ret_int (lxp_sys_faccessat h), 0), (439, ret_int (lxp_sys_faccessat h), 0), (39, ret_kernel (lxp_sys_mkdir h), 0),
      (323, ret_kernel (lxp_sys_mkdirat h), 0), (40, ret_kernel (lxp_sys_rmdir h), 0), (10, ret_kernel (lxp_sys_unlink h), 0),
      (328, ret_kernel (lxp_sys_unlinkat h), 0), (38, ret_kernel (lxp_sys_rename h), 0),
      (329, ret_kernel (lxp_sys_renameat h), 0), (382, ret_kernel (lxp_sys_renameat2 h), 0),
      (83, ret_kernel (lxp_sys_symlink h), 0), (331, ret_kernel (lxp_sys_symlinkat h), 0), (9, ret_kernel (lxp_sys_link h), 0),
      (330, ret_kernel (lxp_sys_linkat h), 0), (15, ret_kernel (lxp_sys_chmod h), 0),
      (333, ret_kernel (lxp_sys_fchmodat h), 0), (348, ret_int (lxp_sys_utimensat h), 0),
      (412, ret_int (lxp_sys_utimensat h), 0), (21, ret_int lxp_sys_mount, 0), (52, ret_int lxp_sys_umount2, 0),
      (266, ret_kernel (lxp_sys_statfs64 h), 0), (267, ret_kernel lxp_sys_fstatfs64, 0),
      (384, ret_kernel (lxp_sys_getrandom h), LXP_SYS_CLAMP_A1), (356, ret_kernel lxp_sys_eventfd2, 0),
      (116, ret_kernel (lxp_sys_sysinfo h), 0), (55, ret_kernel lxp_sys_fcntl, 0), (221, ret_kernel lxp_sys_fcntl, 0),
      (141, ret_kernel (lxp_sys_getdents h), LXP_SYS_CLAMP_A2), (217, ret_kernel (lxp_sys_getdents64 h), LXP_SYS_CLAMP_A2),
      (397, ret_kernel (lxp_sys_statx h), 0), (1, lxp_sys_exit, LXP_SYS_FAST), (248, lxp_sys_exit_group, LXP_SYS_FAST),
      (20, ret_int (\<lambda>k p a. lxp_sys_getpid k p), LXP_SYS_FAST), (34, lxp_sys_nice, LXP_SYS_FAST),
      (64, ret_int (\<lambda>k p a. lxp_sys_getppid k p), LXP_SYS_FAST), (183, ret_kernel lxp_sys_getcwd, 0),
      (12, ret_kernel (lxp_sys_chdir h), 0), (60, ret_kernel lxp_sys_umask, LXP_SYS_FAST),
      (57, ret_kernel lxp_sys_setpgid, LXP_SYS_FAST), (172, ret_int lxp_sys_inert, LXP_SYS_FAST),
      (158, ret_int lxp_sys_inert, LXP_SYS_FAST), (94, ret_int lxp_sys_inert, LXP_SYS_FAST),
      (207, ret_int lxp_sys_inert, LXP_SYS_FAST), (212, ret_int lxp_sys_inert, 0), (206, ret_int lxp_sys_inert, LXP_SYS_FAST),
      (213, ret_int lxp_sys_inert, LXP_SYS_FAST), (214, ret_int lxp_sys_inert, LXP_SYS_FAST),
      (203, ret_int lxp_sys_inert, LXP_SYS_FAST), (204, ret_int lxp_sys_inert, LXP_SYS_FAST),
      (208, ret_int lxp_sys_inert, LXP_SYS_FAST), (210, ret_int lxp_sys_inert, LXP_SYS_FAST),
      (209, ret_kernel lxp_sys_getresid, 0), (211, ret_kernel lxp_sys_getresid, 0), (369, ret_kernel lxp_sys_prlimit64, 0),
      (43, ret_kernel (lxp_sys_times h), 0), (104, lxp_sys_setitimer h, 0),
      (65, ret_int (\<lambda>k p a. lxp_sys_getpgrp k p), LXP_SYS_FAST),
      (66, ret_kernel (\<lambda>k p a. lxp_sys_setsid k p), LXP_SYS_FAST), (88, lxp_sys_reboot, LXP_SYS_FAST),
      (224, ret_int (\<lambda>k p a. lxp_sys_gettid p), LXP_SYS_FAST), (263, ret_kernel (lxp_sys_clock_gettime h), 0),
      (403, ret_kernel (lxp_sys_clock_gettime64 h), 0), (78, ret_kernel (lxp_sys_gettimeofday h), 0),
      (79, ret_kernel (lxp_sys_settimeofday h), 0), (262, ret_kernel (lxp_sys_clock_settime h), 0),
      (404, ret_kernel (lxp_sys_clock_settime64 h), 0), (162, lxp_sys_nanosleep h, 0), (265, lxp_sys_clock_nanosleep h, 0),
      (407, lxp_sys_clock_nanosleep_time64 h, 0), (122, ret_kernel (lxp_sys_uname h), 0),
      (174, ret_kernel lxp_sys_rt_sigaction, 0), (413, lxp_sys_pselect6_time64 h, 0), (168, lxp_sys_poll h, 0),
      (414, lxp_sys_ppoll_time64 h, 0), (114, lxp_sys_wait4 h, 0), (199, ret_int lxp_sys_getuid_root, LXP_SYS_FAST),
      (201, ret_int lxp_sys_getuid_root, LXP_SYS_FAST), (200, ret_int lxp_sys_getuid_root, LXP_SYS_FAST),
      (202, ret_int lxp_sys_getuid_root, LXP_SYS_FAST), (54, ret_kernel lxp_sys_ioctl, 0), (179, lxp_sys_rt_sigsuspend h, 0),
      (421, lxp_sys_rt_sigtimedwait_time64, 0), (175, lxp_sys_rt_sigprocmask, 0),
      (256, ret_int lxp_sys_set_tid_address, LXP_SYS_FAST), (338, ret_int lxp_sys_set_robust_list, LXP_SYS_FAST)]"

definition sys_row :: "handler \<Rightarrow> io_host \<Rightarrow> int \<Rightarrow> (handler \<times> nat) option" where
  "sys_row execve h nr = map_of (g_lxp_sys_table execve h) nr"

definition lxp_syscall_flags :: "handler \<Rightarrow> io_host \<Rightarrow> int \<Rightarrow> nat" where
  "lxp_syscall_flags execve h nr =
     (case sys_row execve h nr of Some (_, fl) \<Rightarrow> fl | None \<Rightarrow> if nr = LXP_NR_socket then LXP_SYS_QUIET_ENOSYS else 0)"

text \<open>Cap a count register.\<close>

definition clamp_reg :: "nat \<Rightarrow> nat \<Rightarrow> nat \<Rightarrow> nat \<Rightarrow> sysargs \<Rightarrow> sysargs" where
  "clamp_reg fl b i cap a = (if has_flag fl b \<and> to_u32 (a i) > cap then a(i := int cap) else a)"

definition clamp_args :: "nat \<Rightarrow> sysargs \<Rightarrow> sysargs" where
  "clamp_args fl a =
     clamp_reg fl LXP_SYS_CLAMP_A2_FILE 2 LXP_SYSCALL_FILE_QUANTUM_BYTES
       (clamp_reg fl LXP_SYS_CLAMP_A2 2 LXP_SYSCALL_QUANTUM_BYTES
         (clamp_reg fl LXP_SYS_CLAMP_A1 1 LXP_SYSCALL_QUANTUM_BYTES a))"

definition lxp_syscall :: "handler \<Rightarrow> io_host \<Rightarrow> kernel \<Rightarrow> proc \<Rightarrow> int \<Rightarrow> sysargs \<Rightarrow> sys_result" where
  "lxp_syscall execve h k p nr a =
     (if nr < 0 \<or> nr \<ge> LXP_SYS_TABLE_SIZE then (p, k, - LXP_ENOSYS)
      else
        (case sys_row execve h nr of
           None \<Rightarrow> (p, k, - LXP_ENOSYS)
         | Some (fn, fl) \<Rightarrow> fn k p (clamp_args fl a)))"

end
