(* ===== verification/System.thy ===== *)
theory System
  imports SysSafety Syscall
begin

text \<open>
  The whole table of system calls: every row keeps the invariants of the kernel and writes memory only
  where its caller may, first for one call and then for every interleaving of the calls and stores of
  several tasks.
\<close>

section \<open>What a system call may do\<close>

definition arena_bytes :: "arena \<Rightarrow> nat set" where
  "arena_bytes ar = {a_base ar..<a_base ar + a_size ar}"

text \<open>A task in a good state whose mapping arena lies in the memory it may write.\<close>

definition sys_good :: "kernel \<Rightarrow> proc \<Rightarrow> bool" where
  "sys_good k p \<longleftrightarrow> good k p \<and>
     (\<forall>mi ai. p_mm p = Some mi \<longrightarrow> mm_arena (mc_mm k mi) = Some ai \<longrightarrow> arena_bytes (k_arena k ai) \<subseteq> window_bytes k p True)"

text \<open>The extent of every window and arena stays; memory changes only where the caller may write and
  in the pool of the writable file system.\<close>

definition sys_frame :: "kernel \<Rightarrow> proc \<Rightarrow> kernel \<Rightarrow> bool" where
  "sys_frame k p k' \<longleftrightarrow> (\<forall>q w. window_bytes k' q w = window_bytes k q w)
     \<and> (\<forall>i. mm_arena (mc_mm k' i) = mm_arena (mc_mm k i)) \<and> (\<forall>i. arena_bytes (k_arena k' i) = arena_bytes (k_arena k i))
     \<and> mc_slot_generation k' = mc_slot_generation k \<and> wf_pool (k_wfs k') = wf_pool (k_wfs k)
     \<and> (\<forall>a. a \<notin> window_bytes k p True \<longrightarrow> a \<notin> wfs_region (k_wfs k) \<longrightarrow> mc_mem k' a = mc_mem k a)"

definition sys_safe :: "kernel \<Rightarrow> proc \<Rightarrow> sys_result \<Rightarrow> bool" where
  "sys_safe k p r \<longleftrightarrow> (case r of (p', k', _) \<Rightarrow> p_mm p' = p_mm p \<and> good k' p' \<and> sys_frame k p k')"

lemma sys_goodD: "sys_good k p \<Longrightarrow> good k p"
  by (simp add: sys_good_def)

lemma safe_sys_frame: "safe k p k' \<Longrightarrow> sys_frame k p k'"
  using windows_cong [of k' k] by (simp add: safe_def confined_def sys_frame_def)

lemma sys_safeI: "safe k p k' \<Longrightarrow> same_task p p' \<Longrightarrow> sys_safe k p (p', k', rc)"
  by (simp add: sys_safe_def safe_sys_frame safe_good safe_task(2)) (simp add: same_task_def)

lemma sys_frame_refl [simp]: "sys_frame k p k"
  by (simp add: sys_frame_def)

lemma sys_frame_trans:
  assumes "sys_frame k p k1" "sys_frame k1 p k2" shows "sys_frame k p k2"
proof -
  have "wfs_region (k_wfs k1) = wfs_region (k_wfs k)" by (rule region_cong) (use assms(1) in \<open>simp add: sys_frame_def\<close>)
  then show ?thesis using assms by (simp add: sys_frame_def)
qed

text \<open>What a call leaves of the other tasks.\<close>

lemma sys_frame_good:
  assumes f: "sys_frame k p k'" and g': "good k' p'" and q: "good k q"
  shows "good k' q"
proof -
  have "wfs_region (k_wfs k') = wfs_region (k_wfs k)" by (rule region_cong) (use f in \<open>simp add: sys_frame_def\<close>)
  then show ?thesis using f g' q by (simp add: good_def sys_frame_def)
qed

lemma sys_frame_sys_good:
  assumes f: "sys_frame k p k'" and g': "good k' p'" and q: "sys_good k q"
  shows "sys_good k' q"
  using sys_frame_good [OF f g' sys_goodD [OF q]] q f by (simp add: sys_good_def sys_frame_def)

section \<open>Handlers that leave memory alone\<close>

text \<open>Tables outside the invariants: groups, signal handlers, contexts, the clock, the halt request.\<close>

definition side_same :: "kernel \<Rightarrow> kernel \<Rightarrow> bool" where
  "side_same k k' \<longleftrightarrow> (\<exists>fs sh gr off halt. k' = k\<lparr>k_fs_context := fs, k_sighand := sh, k_groups := gr, k_realtime_offset_ns := off,
      k_halt_requested := halt\<rparr>)"

lemma side_refl [simp]: "side_same k k"
  unfolding side_same_def by (rule exI [of _ "k_fs_context k"], rule exI [of _ "k_sighand k"], rule exI [of _ "k_groups k"],
      rule exI [of _ "k_realtime_offset_ns k"], rule exI [of _ "k_halt_requested k"]) simp

lemma side_upd [simp]:
  "side_same k (k\<lparr>k_fs_context := fs\<rparr>)" "side_same k (k\<lparr>k_sighand := sh\<rparr>)" "side_same k (k\<lparr>k_groups := gr\<rparr>)"
  "side_same k (k\<lparr>k_realtime_offset_ns := off\<rparr>)" "side_same k (k\<lparr>k_halt_requested := halt\<rparr>)"
proof -
  have "side_same k (k\<lparr>k_fs_context := fs, k_sighand := sh, k_groups := gr, k_realtime_offset_ns := off, k_halt_requested := halt\<rparr>)"
    for fs sh gr off halt unfolding side_same_def by blast
  from this [where sh = "k_sighand k" and gr = "k_groups k" and off = "k_realtime_offset_ns k" and halt = "k_halt_requested k"]
    this [where fs = "k_fs_context k" and gr = "k_groups k" and off = "k_realtime_offset_ns k" and halt = "k_halt_requested k"]
    this [where fs = "k_fs_context k" and sh = "k_sighand k" and off = "k_realtime_offset_ns k" and halt = "k_halt_requested k"]
    this [where fs = "k_fs_context k" and sh = "k_sighand k" and gr = "k_groups k" and halt = "k_halt_requested k"]
    this [where fs = "k_fs_context k" and sh = "k_sighand k" and gr = "k_groups k" and off = "k_realtime_offset_ns k"]
  show "side_same k (k\<lparr>k_fs_context := fs\<rparr>)" "side_same k (k\<lparr>k_sighand := sh\<rparr>)" "side_same k (k\<lparr>k_groups := gr\<rparr>)"
    "side_same k (k\<lparr>k_realtime_offset_ns := off\<rparr>)" "side_same k (k\<lparr>k_halt_requested := halt\<rparr>)" by simp_all
qed

lemma safe_side:
  assumes g: "good k p" and s: "side_same k k'" shows "safe k p k'"
proof -
  from s obtain fs sh gr off halt where e: "k' = k\<lparr>k_fs_context := fs, k_sighand := sh, k_groups := gr,
      k_realtime_offset_ns := off, k_halt_requested := halt\<rparr>" unfolding side_same_def by blast
  have "kernel_ok k'" using goodD(1) [OF g] by (simp add: e kernel_ok_def kernel_inv_def objects_ok_def)
  moreover have "pool_frame k k'" "offsets_ok k'"
    using good_offsets [OF g] by (simp_all add: e pool_frame_def counters_same offsets_ok_def)
  ultimately show ?thesis by (rule safe_frame [OF g])
qed

section \<open>Time, processes and signals\<close>

lemma safe_store_fault:
  assumes "good k p" "store_or_fault k p dst bs = (k', rc)" "dst \<le> SIZE_MAX" "length bs \<le> SIZE_MAX"
  shows "safe k p k'"
  using assms safe_copy_to [OF assms(1) _ assms(3,4)] by (auto simp: store_or_fault_def split: prod.splits)

lemma safe_put_u32:
  assumes "good k p" "lxp_guest_put_u32 k p dst v = (k', rc)" "dst \<le> SIZE_MAX" shows "safe k p k'"
  using assms safe_copy_to [OF assms(1) _ assms(3)] by (auto simp: lxp_guest_put_u32_def SIZE_MAX_def split: prod.splits)

lemma small_bytes [simp]: "n \<le> 1024 \<Longrightarrow> n \<le> SIZE_MAX"
  by (simp add: SIZE_MAX_def)

lemma safe_set_realtime: "good k p \<Longrightarrow> set_realtime h k s n = (k', rc) \<Longrightarrow> safe k p k'"
  by (auto simp: set_realtime_def intro: safe_side split: if_splits)

lemma length_uts [simp]: "length (uts_field s) = 65"
  by (simp add: uts_field_def Let_def bytes_of_string_def)

lemma length_sysinfo [simp]: "length (sysinfo_bytes h) = 64"
  by (simp only: sysinfo_bytes_def Let_def split_beta length_append length_le_bytes length_replicate)

lemma safe_clocks:
  assumes g: "good k p"
  shows "lxp_sys_clock_gettime h k p a = (k', rc) \<Longrightarrow> safe k p k'"
    "lxp_sys_clock_gettime64 h k p a = (k', rc) \<Longrightarrow> safe k p k'"
    "lxp_sys_gettimeofday h k p a = (k', rc) \<Longrightarrow> safe k p k'"
    "lxp_sys_clock_settime h k p a = (k', rc) \<Longrightarrow> safe k p k'"
    "lxp_sys_clock_settime64 h k p a = (k', rc) \<Longrightarrow> safe k p k'"
    "lxp_sys_settimeofday h k p a = (k', rc) \<Longrightarrow> safe k p k'"
    "lxp_sys_times h k p a = (k', rc) \<Longrightarrow> safe k p k'"
  subgoal using safe_store_fault [OF g] by (auto simp: lxp_sys_clock_gettime_def split: prod.splits)
  subgoal using safe_store_fault [OF g] by (auto simp: lxp_sys_clock_gettime64_def split: prod.splits)
  subgoal using safe_store_fault [OF g] by (auto simp: lxp_sys_gettimeofday_def split: prod.splits)
  subgoal using g safe_set_realtime by (auto simp: lxp_sys_clock_settime_def split: if_splits option.splits)
  subgoal using g safe_set_realtime by (auto simp: lxp_sys_clock_settime64_def split: if_splits option.splits)
  subgoal using g safe_set_realtime by (auto simp: lxp_sys_settimeofday_def Let_def split: if_splits option.splits)
  subgoal using g safe_copy_to [OF g _ to_u32_le] by (auto simp: lxp_sys_times_def Let_def split: prod.splits if_splits)
  done

lemma safe_getresid_put:
  "good k p \<Longrightarrow> \<forall>u \<in> set us. u \<le> SIZE_MAX \<Longrightarrow> getresid_put p us k = (k', rc) \<Longrightarrow> safe k p k'"
proof (induction us arbitrary: k)
  case (Cons u us)
  show ?case
  proof (cases "u = 0")
    case True
    then show ?thesis using Cons by simp
  next
    case False
    obtain k1 rc1 where c: "lxp_guest_put_u32 k p u 0 = (k1, rc1)" by (metis surj_pair)
    have S: "safe k p k1" by (rule safe_put_u32 [OF Cons.prems(1) c]) (use Cons.prems(2) in simp)
    have "safe k1 p k'" if "rc1 = 0"
      using that Cons.IH [OF safe_good [OF S]] Cons.prems(2,3) False c by simp
    then show ?thesis using S Cons.prems(3) False c safe_trans [OF S] by (auto split: if_splits)
  qed
qed simp

lemma safe_proc_calls:
  assumes g: "good k p"
  shows "lxp_sys_getresid k p a = (k', rc) \<Longrightarrow> safe k p k'"
    "lxp_sys_umask k p a = (k', rc) \<Longrightarrow> safe k p k'"
    "lxp_sys_setpgid k p a = (k', rc) \<Longrightarrow> safe k p k'"
    "lxp_sys_setsid k p = (k', rc) \<Longrightarrow> safe k p k'"
    "lxp_sys_prlimit64 k p a = (k', rc) \<Longrightarrow> safe k p k'"
    "lxp_sys_sysinfo h k p a = (k', rc) \<Longrightarrow> safe k p k'"
    "lxp_sys_uname h k p a = (k', rc) \<Longrightarrow> safe k p k'"
    "host_ok h \<Longrightarrow> lxp_sys_getrandom h k p a = (k', rc) \<Longrightarrow> safe k p k'"
  subgoal using g safe_getresid_put [OF g, of "[to_u32 (a 0), to_u32 (a 1), to_u32 (a 2)]"] by (auto simp: lxp_sys_getresid_def Let_def simp del: getresid_put.simps split: if_splits)
  subgoal using g by (auto simp: lxp_sys_umask_def intro: safe_side split: option.splits)
  subgoal using g by (auto simp: lxp_sys_setpgid_def group_put_def intro: safe_side split: option.splits if_splits)
  subgoal using g by (auto simp: lxp_sys_setsid_def group_put_def intro: safe_side split: option.splits)
  subgoal using g safe_store_fault [OF g _ to_u32_le] by (auto simp: lxp_sys_prlimit64_def Let_def split: if_splits)
  subgoal using safe_store_fault [OF g _ to_u32_le] by (auto simp: lxp_sys_sysinfo_def)
  subgoal using safe_store_fault [OF g _ to_u32_le] by (auto simp: lxp_sys_uname_def)
  subgoal using safe_getrandom [OF g _ to_u32_le to_u32_le] by (auto simp: lxp_sys_getrandom_def)
  done

lemma safe_put_words:
  "good k p \<Longrightarrow> dst \<le> SIZE_MAX \<Longrightarrow> put_words p dst vs k = (k', rc) \<Longrightarrow> safe k p k'"
proof (induction vs arbitrary: k dst)
  case (Cons v vs)
  obtain k1 rc1 where c: "lxp_guest_put_u32 k p dst v = (k1, rc1)" by (metis surj_pair)
  have S: "safe k p k1" by (rule safe_put_u32 [OF Cons.prems(1) c Cons.prems(2)])
  have "safe k1 p k'" if "rc1 = 0"
    using that Cons.IH [OF safe_good [OF S] uptr_le] Cons.prems(3) c by simp
  then show ?case using S Cons.prems(3) c safe_trans [OF S] by (auto split: if_splits)
qed simp

lemma safe_sigaction:
  assumes g: "good k p" and r: "lxp_sys_rt_sigaction k p a = (k', rc)"
  shows "safe k p k'"
proof -
  obtain k1 rc1 where c: "(if to_u32 (a 2) \<noteq> 0 then put_words p (to_u32 (a 2)) (sigaction_old k p (a 0)) k else (k, 0)) = (k1, rc1)"
    by (metis surj_pair)
  have S: "safe k p k1" using c g safe_put_words [OF g to_u32_le] by (auto split: if_splits)
  have "safe k p (k1\<lparr>k_sighand := sh\<rparr>)" for sh by (rule safe_trans [OF S safe_side [OF safe_good [OF S]]]) simp
  then show ?thesis using r g S unfolding lxp_sys_rt_sigaction_def Let_def c
    by (auto split: if_splits option.splits)
qed

lemma begin_task: "lxp_wait_begin now p w = (p', rc) \<Longrightarrow> same_task p p'"
  by (auto simp: lxp_wait_begin_def same_task_def split: if_splits)

lemma sys_safe_same: "good k p \<Longrightarrow> same_task p p' \<Longrightarrow> sys_safe k p (p', k, rc)"
  by (rule sys_safeI) simp_all

lemma sys_safe_if: "sys_safe k p x \<Longrightarrow> sys_safe k p y \<Longrightarrow> sys_safe k p (if b then x else y)"
  by simp

lemma same_task_if: "same_task p x \<Longrightarrow> same_task p y \<Longrightarrow> same_task p (if b then x else y)"
  by simp

lemma task_upd [simp]:
  "same_task p (p\<lparr>p_alarm_interval_us := i, p_alarm_deadline_us := d\<rparr>)" "same_task p (p\<lparr>p_sig_blocked := m\<rparr>)"
  "same_task p (p\<lparr>p_pending_sigs := s\<rparr>)"
  "same_task p (p\<lparr>p_sigsuspend_saved_mask := m, p_sig_blocked := m', p_sigsuspend_active := b\<rparr>)"
  by (simp_all add: same_task_def)

lemma sys_safe_park: "good k p \<Longrightarrow> sys_safe k p (case lxp_wait_park n p w of (p', rc) \<Rightarrow> (p', k, rc))"
  by (auto split: prod.split intro!: sys_safe_same dest: park_task)

lemma sys_safe_sleep:
  assumes g: "good k p" shows "sys_safe k p (sleep_for h k p req t)"
  unfolding sleep_for_def Let_def
  by (split option.split, intro conjI allI impI sys_safe_park [OF g]) (simp add: g sys_safe_same)

lemma sys_safe_time:
  assumes g: "good k p"
  shows "sys_safe k p (lxp_sys_nanosleep h k p a)" "sys_safe k p (lxp_sys_clock_nanosleep h k p a)"
    "sys_safe k p (lxp_sys_clock_nanosleep_time64 h k p a)" "sys_safe k p (lxp_sys_setitimer h k p a)"
proof -
  show "sys_safe k p (lxp_sys_nanosleep h k p a)" "sys_safe k p (lxp_sys_clock_nanosleep h k p a)"
    "sys_safe k p (lxp_sys_clock_nanosleep_time64 h k p a)"
    using sys_safe_sleep [OF g] by (simp_all add: lxp_sys_nanosleep_def lxp_sys_clock_nanosleep_def lxp_sys_clock_nanosleep_time64_def)
  obtain k1 rc where c: "(if to_u32 (a 2) \<noteq> 0 then lxp_copy_to_guest k p (to_u32 (a 2)) (itimer_old p (ih_now_us h)) else (k, 0)) = (k1, rc)"
    by (metis surj_pair)
  have "safe k p k1" using c g safe_copy_to [OF g _ to_u32_le] by (auto simp: itimer_old_def Let_def split: if_splits)
  then show "sys_safe k p (lxp_sys_setitimer h k p a)"
    using g unfolding lxp_sys_setitimer_def Let_def c
    by (auto split: option.splits intro!: sys_safeI simp: same_task_def)
qed

lemma sys_safe_procs:
  assumes g: "good k p"
  shows "sys_safe k p (lxp_sys_exit k p a)" "sys_safe k p (lxp_sys_exit_group k p a)" "sys_safe k p (lxp_sys_nice k p a)"
    "sys_safe k p (lxp_sys_reboot k p a)"
proof -
  have "sys_safe k p (sys_exit k p st b)" for st b
  proof -
    define k' where "k' = (case p_group p of
                  Some gi \<Rightarrow>
                    if b then group_put k gi ((k_groups k gi)\<lparr>tg_exiting := True, tg_exit_status := st mod 256\<rparr>) else k
                | None \<Rightarrow> k)"
    have "safe k p k'" by (rule safe_side [OF g]) (auto simp: k'_def group_put_def split: option.split)
    then show ?thesis unfolding sys_exit_def Let_def k'_def [symmetric]
      by (rule sys_safeI) (simp add: same_task_def lxp_intent_exit_def)
  qed
  then show "sys_safe k p (lxp_sys_exit k p a)" "sys_safe k p (lxp_sys_exit_group k p a)"
    by (simp_all add: lxp_sys_exit_def lxp_sys_exit_group_def)
  show "sys_safe k p (lxp_sys_nice k p a)"
    unfolding lxp_sys_nice_def Let_def by (rule sys_safe_same [OF g]) (simp add: same_task_def lxp_proc_nice_set_def)
  have "safe k p (lxp_request_halt k)" by (rule safe_side [OF g]) (simp add: lxp_request_halt_def)
  then show "sys_safe k p (lxp_sys_reboot k p a)"
    using g by (auto simp: lxp_sys_reboot_def Let_def same_task_def lxp_intent_exit_def intro!: sys_safeI)
qed

lemma sys_safe_wait4:
  assumes g: "good k p" shows "sys_safe k p (lxp_sys_wait4 h k p a)"
proof -
  have G: "safe k p (group_put k gi t)" for gi t by (rule safe_side [OF g]) (simp add: group_put_def)
  have P: "safe k p (fst (lxp_guest_put_u32 (group_put k gi t) p (to_u32 x) v))" for gi t x v
  proof -
    obtain k1 rc where c: "lxp_guest_put_u32 (group_put k gi t) p (to_u32 x) v = (k1, rc)" by (metis surj_pair)
    show ?thesis using safe_trans [OF G safe_put_u32 [OF safe_good [OF G] c to_u32_le]] c by simp
  qed
  show ?thesis
    using g G P unfolding lxp_sys_wait4_def Let_def
    by (auto split: option.splits prod.splits intro!: sys_safeI dest: park_task)
qed

lemma sys_safe_signals:
  assumes g: "good k p"
  shows "sys_safe k p (lxp_sys_rt_sigsuspend h k p a)" "sys_safe k p (lxp_sys_rt_sigtimedwait_time64 k p a)"
    "sys_safe k p (lxp_sys_rt_sigprocmask k p a)"
proof -
  have B: "sys_safe k p (case lxp_wait_begin n q w of (p2, rc) \<Rightarrow> (p2, k, if rc \<noteq> 0 then e else e'))" if "same_task p q" for n q w e e'
    using that g by (auto split: prod.split intro!: sys_safe_same intro: same_task_trans dest: begin_task)
  show "sys_safe k p (lxp_sys_rt_sigsuspend h k p a)"
  proof (cases "lxp_copy_from_guest k p (to_u32 (a 0)) 8")
    case None
    then show ?thesis using g by (simp add: lxp_sys_rt_sigsuspend_def Let_def sys_safe_same)
  next
    case (Some bs)
    define q where "q = p\<lparr>p_sigsuspend_saved_mask := p_sig_blocked p, p_sig_blocked := sigset_of 8 bs AND NOT unblockable,
      p_sigsuspend_active := True\<rparr>"
    have q: "same_task p q" by (simp add: q_def)
    show ?thesis
      unfolding lxp_sys_rt_sigsuspend_def Let_def Some option.case q_def [symmetric]
      by (intro sys_safe_if B [OF q] sys_safe_same [OF g q] sys_safe_same [OF g same_task_refl])
  qed
  note same = sys_safe_same [OF g same_task_refl]
  show "sys_safe k p (lxp_sys_rt_sigtimedwait_time64 k p a)"
  proof (cases "if to_u32 (a 0) \<noteq> 0 then lxp_copy_from_guest k p (to_u32 (a 0)) (to_u32 (a 3)) else Some []")
    case None
    show ?thesis unfolding lxp_sys_rt_sigtimedwait_time64_def Let_def None option.case by (intro sys_safe_if same)
  next
    case (Some bs)
    show ?thesis unfolding lxp_sys_rt_sigtimedwait_time64_def Let_def Some option.case
      by (intro sys_safe_if same sys_safe_same [OF g task_upd(3)])
  qed
  show "sys_safe k p (lxp_sys_rt_sigprocmask k p a)"
  proof (cases "if to_u32 (a 1) \<noteq> 0 then lxp_copy_from_guest k p (to_u32 (a 1)) (to_u32 (a 3)) else Some []")
    case None
    show ?thesis unfolding lxp_sys_rt_sigprocmask_def Let_def None option.case by (intro sys_safe_if same)
  next
    case (Some bs)
    define n :: nat where "n = (if to_u32 (a 3) \<ge> 8 then 8 else if to_u32 (a 3) \<ge> 4 then 4 else 0)"
    obtain k1 rc where c: "(if to_u32 (a 2) \<noteq> 0 \<and> n \<noteq> 0
        then lxp_copy_to_guest k p (to_u32 (a 2)) (take n (le_bytes 8 (unat (p_sig_blocked p)))) else (k, 0)) = (k1, rc)"
      by (metis surj_pair)
    have "safe k p k1" using c g safe_copy_to [OF g _ to_u32_le] by (auto split: if_splits)
    note to_k1 = sys_safeI [OF this]
    show ?thesis unfolding lxp_sys_rt_sigprocmask_def Let_def Some option.case n_def [symmetric] c prod.case
      by (intro sys_safe_if same to_k1 same_task_if same_task_refl task_upd(2))
  qed
qed

section \<open>poll and select\<close>

lemma poll_scan_length: "length (fst (poll_scan h k p t pf)) = length pf"
  by (induction pf) (auto simp: Let_def split: prod.splits option.splits)

lemma length_pollfds: "length (concat (map pollfd_bytes pf)) = 8 * length pf"
  by (induction pf) (simp_all add: pollfd_bytes_def)

lemma safe_poll_store:
  assumes g: "good k p" and l: "poll_load k p u n = Some pf" and n: "n \<le> LXP_MAX_FDS" and u: "u \<le> SIZE_MAX"
    and s: "poll_store k p u (fst (poll_scan h k p t pf)) = (k', rc)"
  shows "safe k p k'"
proof -
  have "length pf = n" using l by (auto simp: poll_load_def pollfds_of_def split: if_splits)
  then have "length (concat (map pollfd_bytes (fst (poll_scan h k p t pf)))) \<le> SIZE_MAX"
    using n by (simp only: length_pollfds poll_scan_length) (simp add: LXP_MAX_FDS_def SIZE_MAX_def)
  then show ?thesis using s g safe_copy_to [OF g _ u] by (auto simp: poll_store_def split: if_splits)
qed

lemma poll_park_task: "poll_park h p fl d t = (p', rc) \<Longrightarrow> same_task p p'"
  by (auto simp: poll_park_def Let_def intro: park_task)

lemma sys_safe_poll: 
  assumes g: "good k p" shows "sys_safe k p (poll_entry h k p b a0 a1 a2)"
proof (cases "to_u32 a1 > LXP_MAX_FDS")
  case False
  show ?thesis
  proof (cases "poll_timeout k p b a2")
    case (Some t)
    show ?thesis
    proof (cases "poll_load k p (to_u32 a0) (to_u32 a1)")
      case l: (Some pf)
      obtain pf' ready wt where sc: "poll_scan h k p (Some t) pf = (pf', ready, wt)" by (metis prod_cases3)
      obtain k1 rc where st: "poll_store k p (to_u32 a0) pf' = (k1, rc)" by (metis surj_pair)
      have S: "safe k p k1"
        by (rule safe_poll_store [OF g l _ to_u32_le, of h "Some t"]) (use False sc st in simp_all)
      show ?thesis using False S unfolding poll_entry_def Let_def Some l option.case sc st prod.case
        by (auto split: prod.splits intro!: sys_safeI dest: begin_task poll_park_task)
    qed (use g Some in \<open>auto simp: poll_entry_def Let_def intro: sys_safe_same\<close>)
  qed (use g in \<open>auto simp: poll_entry_def Let_def intro: sys_safe_same\<close>)
qed (use g in \<open>simp add: poll_entry_def Let_def sys_safe_same\<close>)

lemma safe_sel_put:
  assumes g: "good k p" and s: "safe k p (fst s)" and u: "uset \<le> SIZE_MAX"
  shows "safe k p (fst (sel_put p uset w s))"
proof (cases s)
  case (Pair k1 rc)
  obtain k2 rc2 where c: "lxp_guest_put_u32 k1 p uset w = (k2, rc2)" by (metis surj_pair)
  have "safe k1 p k2" using safe_put_u32 [OF safe_good c u] s Pair by (metis fst_conv)
  then show ?thesis using s safe_trans [of k p k1 k2] by (simp add: sel_put_def Pair c)
qed

lemma safe_sel_scan:
  assumes g: "good k p" and u: "sl_readfds s \<le> SIZE_MAX" "sl_writefds s \<le> SIZE_MAX" "sl_exceptfds s \<le> SIZE_MAX"
    and r: "sel_scan h k p s b = (k', rc)"
  shows "safe k p k'"
proof -
  have "safe k p (fst (sel_writeback k p s pf))" for pf
    using safe_sel_put [OF g safe_sel_put [OF g safe_sel_put [OF g, of "(k, 0)"] u(2)] u(3)] g u(1)
    by (simp add: sel_writeback_def split_beta Let_def)
  then have W: "safe k p k1" if "sel_writeback k p s pf = (k1, e)" for pf k1 e using that by (metis fst_conv)
  show ?thesis using r g unfolding sel_scan_def Let_def by (auto split: option.splits prod.splits if_splits dest: W)
qed

lemma sys_safe_select: 
  assumes g: "good k p" shows "sys_safe k p (lxp_sys_pselect6_time64 h k p a)"
proof -
  have "sys_safe k p (pselect6_entry h k p n (to_u32 r) (to_u32 w) (to_u32 e) t)" for n r w e t
  proof (cases "n < 0")
    case False
    define m where "m = (if n > int LXP_SEL_MAXFDS then LXP_SEL_MAXFDS else nat n)"
    define s where "s = \<lparr>sl_nfds = m, sl_readfds = to_u32 r, sl_writefds = to_u32 w, sl_exceptfds = to_u32 e\<rparr>"
    show ?thesis
    proof (cases "sel_timeout k p t")
      case (Some tmo)
      obtain k1 rc where c: "sel_scan h k p s (tmo \<noteq> 0) = (k1, rc)" by (metis surj_pair)
      have "safe k p k1" by (rule safe_sel_scan [OF g _ _ _ c]) (simp_all add: s_def)
      then show ?thesis unfolding pselect6_entry_def if_not_P [OF False] Let_def Some option.case m_def [symmetric]
          s_def [symmetric] c prod.case
        by (auto split: prod.splits intro!: sys_safeI dest: poll_park_task)
    qed (use g False in \<open>simp add: pselect6_entry_def sys_safe_same\<close>)
  qed (use g in \<open>simp add: pselect6_entry_def sys_safe_same\<close>)
  then show ?thesis by (simp add: lxp_sys_pselect6_time64_def)
qed

section \<open>Memory\<close>

lemma windows_put [simp]:
  "window_bytes (k\<lparr>mc_mem := m\<rparr>) q w = window_bytes k q w"
  "window_bytes (k\<lparr>mc_mem := m, k_arena := ar\<rparr>) q w = window_bytes k q w"
  by (rule windows_cong; simp)+

lemma good_mem:
  assumes g: "good k p" and out: "\<And>x. x \<notin> window_bytes k p True \<Longrightarrow> m x = mc_mem k x"
  shows "good (k\<lparr>mc_mem := m, k_arena := ar\<rparr>) p"
proof -
  have "good (k\<lparr>mc_mem := m\<rparr>) p" by (rule safe_good [OF safe_mem [OF g out]])
  then show ?thesis by (simp add: good_def kernel_ok_def kernel_inv_def objects_ok_def kernel_typed_def)
qed

text \<open>A change of the caller's arena and of memory within it.\<close>

lemma sys_safe_arena:
  assumes s: "sys_good k p" and a: "p_mm p = Some mi" "mm_arena (mc_mm k mi) = Some ai"
    and ext: "arena_bytes ar = arena_bytes (k_arena k ai)" and out: "\<And>x. x \<notin> arena_bytes (k_arena k ai) \<Longrightarrow> m x = mc_mem k x"
  shows "sys_safe k p (p, arena_put_k k ai (m, ar), rc)"
proof -
  have "arena_bytes (k_arena k ai) \<subseteq> window_bytes k p True" using s a by (simp add: sys_good_def)
  then have out': "\<And>x. x \<notin> window_bytes k p True \<Longrightarrow> m x = mc_mem k x" using out by blast
  then show ?thesis using good_mem [OF sys_goodD [OF s] out'] ext
    by (simp add: sys_safe_def arena_put_k_def sys_frame_def)
qed

lemma alloc_tracked_facts:
  assumes r: "lxp_arena_alloc_tracked m ar n = (m', ar', ptr)"
  shows "arena_bytes ar' = arena_bytes ar" "x \<notin> arena_bytes ar \<Longrightarrow> m' x = m x"
    "ptr \<noteq> 0 \<Longrightarrow> {ptr..<ptr + n} \<subseteq> arena_bytes ar \<and> ptr \<le> SIZE_MAX"
proof -
  obtain m1 ar1 p1 where a: "lxp_arena_alloc m ar n = (m1, ar1, p1)" by (metis prod_cases3)
  note F = arena_alloc_frame [OF a] arena_alloc_confined [OF a]
  have R: "m' = m \<and> ar' = ar \<and> ptr = 0 \<or> m' = m1 \<and> ptr = p1 \<and> a_base ar' = a_base ar1 \<and> a_size ar' = a_size ar1"
    using r by (auto simp: lxp_arena_alloc_tracked_def a arena_set_mapping_def split: option.splits if_splits)
  then show "arena_bytes ar' = arena_bytes ar" using F by (auto simp: arena_bytes_def)
  show "m' x = m x" if "x \<notin> arena_bytes ar" using that R F(2) [of x] by (auto simp: arena_bytes_def)
  show "{ptr..<ptr + n} \<subseteq> arena_bytes ar \<and> ptr \<le> SIZE_MAX" if "ptr \<noteq> 0"
  proof -
    have p: "p1 = ptr" "p1 \<noteq> 0" using R that by auto
    then have "arena_layout_valid m ar" using a by (auto simp: lxp_arena_alloc_def split: if_splits)
    then obtain bs where ok: "arena_ok m ar bs" by (auto simp: arena_layout_valid_iff)
    obtain bs' l where b: "arena_ok m1 ar1 bs'" "(p1, l) \<in> allocd (a_base ar) bs'" "n \<le> l" "0 < l"
      using arena_alloc_ok [OF ok a p(2)] by (metis insertI1)
    have "a_base ar + span bs' = a_base ar1 + a_size ar1" using arena_okD(3) [OF b(1)] F(1) by simp
    moreover have "a_base ar1 + a_size ar1 \<le> SIZE_MAX + 1" using arena_okD [OF b(1)] by simp
    ultimately show ?thesis using allocd_bounds [OF b(2)] b(3,4) F(1) p(1) by (auto simp: arena_bytes_def)
  qed
qed

lemma free_tracked_facts:
  assumes r: "lxp_arena_free_tracked m ar ptr n = (m', ar', b)"
  shows "arena_bytes ar' = arena_bytes ar" "x \<notin> arena_bytes ar \<Longrightarrow> m' x = m x"
proof -
  obtain m1 ar1 b1 where a: "arena_free_block m ar ptr = (m1, ar1, b1)" by (metis prod_cases3)
  note F = arena_free_block_frame [OF a] arena_free_block_confined [OF a]
  have R: "m' = m \<and> ar' = ar \<or> m' = m1 \<and> a_base ar' = a_base ar1 \<and> a_size ar' = a_size ar1"
    using r by (auto simp: lxp_arena_free_tracked_def a arena_set_mapping_def split: option.splits if_splits)
  then show "arena_bytes ar' = arena_bytes ar" using F by (auto simp: arena_bytes_def)
  show "m' x = m x" if "x \<notin> arena_bytes ar" using that R F(2) [of x] by (auto simp: arena_bytes_def)
qed

lemma sys_safe_trans:
  assumes 1: "sys_safe k p (p, k1, r1)" and 2: "sys_safe k1 p (p', k2, r2)"
  shows "sys_safe k p (p', k2, r3)"
  using assms sys_frame_trans [of k p k1 k2] by (simp add: sys_safe_def)

lemma sys_safe_good: "sys_good k p \<Longrightarrow> sys_safe k p (p', k', rc) \<Longrightarrow> sys_good k' p"
  using sys_frame_sys_good [of k p k' p'] by (simp add: sys_safe_def)

lemma sys_safe_munmap:
  assumes s: "sys_good k p" and r: "sys_munmap k p addr len = (k', rc)"
  shows "sys_safe k p (p, k', rc)"
proof -
  note same = sys_safe_same [OF sys_goodD [OF s] same_task_refl]
  have F: "sys_safe k p (p, arena_put_k k ai (m, ar), rc)"
    if "lxp_arena_free_tracked (mc_mem k) (k_arena k ai) addr len = (m, ar, b)"
      "p_mm p = Some mi" "mm_arena (mc_mm k mi) = Some ai" for m ar b ai mi
    by (rule sys_safe_arena [OF s that(2,3) free_tracked_facts [OF that(1)]])
  show ?thesis using r same unfolding sys_munmap_def
    by (auto split: option.splits if_splits prod.splits dest: F)
qed

lemma sys_safe_mmap_private:
  assumes s: "sys_good k p" and a: "p_mm p = Some mi" "mm_arena (mc_mm k mi) = Some ai" and len: "len \<le> SIZE_MAX"
    and r: "mmap_private k p ai len file fd pgoff = (k', rc)"
  shows "sys_safe k p (p, k', rc)"
proof -
  obtain m1 ar1 m where al: "lxp_arena_alloc_tracked (mc_mem k) (k_arena k ai) len = (m1, ar1, m)" by (metis prod_cases3)
  note A = alloc_tracked_facts [OF al]
  show ?thesis
  proof (cases "m = 0")
    case True
    have "sys_safe k p (p, arena_put_k k ai (m1, ar1), rc)" by (rule sys_safe_arena [OF s a A(1,2)])
    then show ?thesis using r True by (auto simp: mmap_private_def al)
  next
    case False
    define k1 where "k1 = arena_put_k k ai (mem_fill m1 m len 0, ar1)"
    have S1: "sys_safe k p (p, k1, e)" for e unfolding k1_def
      by (rule sys_safe_arena [OF s a A(1)]) (use A(2,3) False in \<open>auto simp: mem_fill_def subset_iff\<close>)
    note s1 = sys_safe_good [OF s S1]
    obtain k2 r2 where pr: "lxp_sys_fd_pread k1 p fd m len (uptr (pgoff * 4096)) = (k2, r2)" by (metis surj_pair)
    have "safe k1 p k2" by (rule safe_pread(1) [OF sys_goodD [OF s1] _ len pr]) (use A(3) False in simp)
    note S2 = sys_safe_trans [OF S1 sys_safeI [OF this same_task_refl]]
    note s2 = sys_safe_good [OF s S2]
    have a2: "mm_arena (mc_mm k2 mi) = Some ai" using S2 a by (simp add: sys_safe_def sys_frame_def)
    obtain m3 ar3 b where fr: "lxp_arena_free_tracked (mc_mem k2) (k_arena k2 ai) m len = (m3, ar3, b)" by (metis prod_cases3)
    have "sys_safe k2 p (p, arena_put_k k2 ai (m3, ar3), e)" for e
      by (rule sys_safe_arena [OF s2 a(1) a2 free_tracked_facts [OF fr]])
    note S3 = sys_safe_trans [OF S2 this]
    show ?thesis using r S1 S2 S3 False unfolding mmap_private_def Let_def al prod.case k1_def [symmetric] pr fr
      by (auto split: if_splits)
  qed
qed

lemma sys_safe_mmap2:
  assumes s: "sys_good k p" and len: "len \<le> SIZE_MAX" and r: "sys_mmap2 k p len prot flags fd pgoff = (k', rc)"
  shows "sys_safe k p (p, k', rc)"
  using r sys_safe_same [OF sys_goodD [OF s] same_task_refl] sys_safe_mmap_private [OF s _ _ len]
  unfolding sys_mmap2_def Let_def by (auto split: option.splits if_splits)

lemma sys_safe_brk:
  assumes s: "sys_good k p" and r: "sys_brk k p addr = (k', rc)"
  shows "sys_safe k p (p, k', rc)"
proof -
  have U: "sys_safe k p (p, k\<lparr>mc_mm := (mc_mm k)(mi := (mc_mm k mi)\<lparr>mm_brk_cur := addr\<rparr>)\<rparr>, e)" for mi e
  proof -
    let ?k = "k\<lparr>mc_mm := (mc_mm k)(mi := (mc_mm k mi)\<lparr>mm_brk_cur := addr\<rparr>)\<rparr>"
    have w: "window_bytes ?k q w = window_bytes k q w" for q w
      by (simp add: window_bytes_def guest_windows_def split: option.split)
    have "good ?k p" using sys_goodD [OF s] unfolding good_def w
      by (simp add: kernel_ok_def kernel_inv_def objects_ok_def kernel_typed_def)
    then show ?thesis by (simp add: sys_safe_def sys_frame_def w)
  qed
  show ?thesis using r U sys_safe_same [OF sys_goodD [OF s] same_task_refl] unfolding sys_brk_def Let_def
    by (auto split: option.splits if_splits)
qed

section \<open>Every row of the table\<close>

definition handler_ok :: "handler \<Rightarrow> bool" where
  "handler_ok f \<longleftrightarrow> (\<forall>k p a. sys_good k p \<longrightarrow> sys_safe k p (f k p a))"

named_theorems rows \<open>the handlers of the table\<close>

lemma handler_okI: "(\<And>k p a. sys_good k p \<Longrightarrow> sys_safe k p (f k p a)) \<Longrightarrow> handler_ok f"
  by (simp add: handler_ok_def)

lemma ret_kernelI:
  assumes "\<And>k p a k' rc. good k p \<Longrightarrow> f k p a = (k', rc) \<Longrightarrow> safe k p k'"
  shows "handler_ok (ret_kernel f)"
proof (rule handler_okI)
  fix k p a assume "sys_good k p"
  then show "sys_safe k p (ret_kernel f k p a)"
    using assms [OF sys_goodD] sys_safeI [OF _ same_task_refl] by (metis ret_kernel_def surj_pair)
qed

lemma ret_int [rows]: "handler_ok (ret_int f)"
  by (rule handler_okI) (simp add: ret_int_def sys_safe_same [OF sys_goodD])

lemma goodI: "(\<And>k p a. good k p \<Longrightarrow> sys_safe k p (f k p a)) \<Longrightarrow> handler_ok f"
  by (rule handler_okI) (simp add: sys_goodD)

lemma rw_rows [rows]:
  shows "host_ok h \<Longrightarrow> handler_ok (lxp_sys_read h)" "handler_ok (lxp_sys_write h)" "handler_ok (lxp_sys_writev h)"
proof -
  have T: "sys_safe k p r" if "\<And>p' k' rc. r = (p', k', rc) \<Longrightarrow> safe k p k' \<and> same_task p p'" for k p r
    using that sys_safeI by (metis prod_cases3)
  show "handler_ok (lxp_sys_read h)" if "host_ok h"
    by (rule goodI, rule T) (use that in \<open>auto simp: lxp_sys_read_def dest: safe_sys_read [OF _ _ to_u32_le to_u32_le]\<close>)
  show "handler_ok (lxp_sys_write h)"
    by (rule goodI, rule T) (auto simp: lxp_sys_write_def dest: safe_sys_write [OF _ to_u32_le to_u32_le])
  show "handler_ok (lxp_sys_writev h)"
    by (rule goodI, rule T) (auto simp: lxp_sys_writev_def dest: safe_writev(1))
qed

lemma mm_rows [rows]:
  "handler_ok (ret_kernel lxp_sys_brk)" "handler_ok (ret_kernel lxp_sys_mmap2)" "handler_ok (ret_kernel lxp_sys_munmap)"
proof -
  have T: "handler_ok (ret_kernel f)" if "\<And>k p a k' rc. sys_good k p \<Longrightarrow> f k p a = (k', rc) \<Longrightarrow> sys_safe k p (p, k', rc)" for f
    by (rule handler_okI) (metis that ret_kernel_def surj_pair)
  show "handler_ok (ret_kernel lxp_sys_brk)" "handler_ok (ret_kernel lxp_sys_munmap)"
    by (rule T, simp add: lxp_sys_brk_def lxp_sys_munmap_def sys_safe_brk sys_safe_munmap)+
  show "handler_ok (ret_kernel lxp_sys_mmap2)"
    by (rule T) (simp add: lxp_sys_mmap2_def sys_safe_mmap2 [OF _ to_u32_le])
qed

lemma to_u32_lt: "to_u32 x < UINT64_MAX"
  using to_u32_le [of x] by (simp add: SIZE_MAX_def UINT64_MAX_def)

lemma fd_rows [rows]:
  "handler_ok (ret_kernel lxp_sys_pread64)"
  "handler_ok (ret_kernel lxp_sys_pwrite64)"
  "handler_ok (ret_kernel lxp_sys_close)"
  "handler_ok (ret_kernel lxp_sys_pipe)"
  "handler_ok (ret_kernel lxp_sys_pipe2)"
  "handler_ok (ret_kernel lxp_sys_dup)"
  "handler_ok (ret_kernel lxp_sys_dup2)"
  "handler_ok (ret_kernel lxp_sys_dup3)"
  "handler_ok (ret_kernel lxp_sys_lseek)"
  "handler_ok (ret_kernel lxp_sys_llseek)"
  "handler_ok (ret_kernel lxp_sys_ftruncate64)"
  "handler_ok (ret_kernel lxp_sys_fcntl)"
  "handler_ok (ret_kernel lxp_sys_ioctl)"
  "handler_ok (ret_kernel (lxp_sys_getdents h))"
  "handler_ok (ret_kernel (lxp_sys_getdents64 h))"
  "handler_ok (ret_kernel lxp_sys_eventfd2)"
  subgoal by (rule ret_kernelI) (auto simp: lxp_sys_pread64_def dest: safe_pread(1) [OF _ to_u32_le to_u32_le])
  subgoal by (rule ret_kernelI) (auto simp: lxp_sys_pwrite64_def dest: safe_pread(2) [OF _ to_u32_le to_u32_le])
  subgoal by (rule ret_kernelI) (auto simp: lxp_sys_close_def dest: safe_dups(3))
  subgoal by (rule ret_kernelI) (auto simp: lxp_sys_pipe_def dest: safe_pipe(1) [OF _ to_u32_le])
  subgoal by (rule ret_kernelI) (auto simp: lxp_sys_pipe2_def dest: safe_pipe(1) [OF _ to_u32_le])
  subgoal by (rule ret_kernelI) (auto simp: lxp_sys_dup_def dest: safe_dups(1))
  subgoal by (rule ret_kernelI) (auto simp: lxp_sys_dup2_def dest: safe_dups(2))
  subgoal by (rule ret_kernelI) (auto simp: lxp_sys_dup3_def dest: safe_dup_to split: if_splits)
  subgoal by (rule ret_kernelI) (auto simp: lxp_sys_lseek_def dest: safe_lseek)
  subgoal by (rule ret_kernelI) (auto simp: lxp_sys_llseek_def dest: safe_llseek [OF _ to_u32_le])
  subgoal by (rule ret_kernelI) (auto simp: lxp_sys_ftruncate64_def dest: safe_fd_calls(1))
  subgoal by (rule ret_kernelI) (auto simp: lxp_sys_fcntl_def dest: safe_fd_calls(4))
  subgoal by (rule ret_kernelI) (auto simp: lxp_sys_ioctl_def dest: safe_fd_calls(2) [OF _ _ to_u32_le])
  subgoal by (rule ret_kernelI) (auto simp: lxp_sys_getdents_def dest: safe_fd_calls(3))
  subgoal by (rule ret_kernelI) (auto simp: lxp_sys_getdents64_def dest: safe_fd_calls(3))
  subgoal by (rule ret_kernelI) (simp add: lxp_sys_eventfd2_def safe_eventfd_open [OF _ to_u32_lt])
  done

lemma path_rows [rows]:
  "handler_ok (ret_kernel (lxp_sys_open h))"
  "handler_ok (ret_kernel (lxp_sys_openat h))"
  "handler_ok (ret_kernel lxp_sys_fstat64)"
  "handler_ok (ret_kernel (lxp_sys_stat64 h))"
  "handler_ok (ret_kernel (lxp_sys_lstat64 h))"
  "handler_ok (ret_kernel (lxp_sys_fstatat64 h))"
  "handler_ok (ret_kernel (lxp_sys_statx h))"
  "handler_ok (ret_kernel (lxp_sys_readlink h))"
  "handler_ok (ret_kernel (lxp_sys_readlinkat h))"
  "handler_ok (ret_kernel (lxp_sys_mkdir h))"
  "handler_ok (ret_kernel (lxp_sys_mkdirat h))"
  "handler_ok (ret_kernel (lxp_sys_rmdir h))"
  "handler_ok (ret_kernel (lxp_sys_unlink h))"
  "handler_ok (ret_kernel (lxp_sys_unlinkat h))"
  "handler_ok (ret_kernel (lxp_sys_rename h))"
  "handler_ok (ret_kernel (lxp_sys_renameat h))"
  "handler_ok (ret_kernel (lxp_sys_renameat2 h))"
  "handler_ok (ret_kernel (lxp_sys_symlink h))"
  "handler_ok (ret_kernel (lxp_sys_symlinkat h))"
  "handler_ok (ret_kernel (lxp_sys_link h))"
  "handler_ok (ret_kernel (lxp_sys_linkat h))"
  "handler_ok (ret_kernel (lxp_sys_chmod h))"
  "handler_ok (ret_kernel (lxp_sys_fchmodat h))"
  "handler_ok (ret_kernel (lxp_sys_statfs64 h))"
  "handler_ok (ret_kernel lxp_sys_fstatfs64)"
  subgoal by (rule ret_kernelI) (auto simp: lxp_sys_open_def dest: safe_openat)
  subgoal by (rule ret_kernelI) (auto simp: lxp_sys_openat_def dest: safe_openat)
  subgoal by (rule ret_kernelI) (auto simp: lxp_sys_fstat64_def dest: safe_stats(1) [OF _ to_u32_le])
  subgoal by (rule ret_kernelI) (auto simp: lxp_sys_stat64_def dest: safe_stats(2) [OF _ to_u32_le])
  subgoal by (rule ret_kernelI) (auto simp: lxp_sys_lstat64_def dest: safe_stats(2) [OF _ to_u32_le])
  subgoal by (rule ret_kernelI) (auto simp: lxp_sys_fstatat64_def dest: safe_stats(2) [OF _ to_u32_le])
  subgoal by (rule ret_kernelI) (auto simp: lxp_sys_statx_def dest: safe_stats(3) [OF _ to_u32_le])
  subgoal by (rule ret_kernelI) (auto simp: lxp_sys_readlink_def dest: safe_readlink [OF _ to_u32_le])
  subgoal by (rule ret_kernelI) (auto simp: lxp_sys_readlinkat_def dest: safe_readlink [OF _ to_u32_le])
  subgoal by (rule ret_kernelI) (auto simp: lxp_sys_mkdir_def dest: safe_name_calls(1))
  subgoal by (rule ret_kernelI) (auto simp: lxp_sys_mkdirat_def dest: safe_name_calls(1))
  subgoal by (rule ret_kernelI) (auto simp: lxp_sys_rmdir_def dest: safe_name_calls(2))
  subgoal by (rule ret_kernelI) (auto simp: lxp_sys_unlink_def dest: safe_name_calls(2))
  subgoal by (rule ret_kernelI) (auto simp: lxp_sys_unlinkat_def Let_def dest: safe_name_calls(2) split: if_splits)
  subgoal by (rule ret_kernelI) (auto simp: lxp_sys_rename_def dest: safe_name_calls(3))
  subgoal by (rule ret_kernelI) (auto simp: lxp_sys_renameat_def dest: safe_name_calls(3))
  subgoal by (rule ret_kernelI) (auto simp: lxp_sys_renameat2_def dest: safe_name_calls(3))
  subgoal by (rule ret_kernelI) (auto simp: lxp_sys_symlink_def dest: safe_name_calls(4))
  subgoal by (rule ret_kernelI) (auto simp: lxp_sys_symlinkat_def dest: safe_name_calls(4))
  subgoal by (rule ret_kernelI) (auto simp: lxp_sys_link_def dest: safe_name_calls(5))
  subgoal by (rule ret_kernelI) (auto simp: lxp_sys_linkat_def dest: safe_name_calls(5))
  subgoal by (rule ret_kernelI) (auto simp: lxp_sys_chmod_def dest: safe_name_calls(6))
  subgoal by (rule ret_kernelI) (auto simp: lxp_sys_fchmodat_def dest: safe_name_calls(6))
  subgoal by (rule ret_kernelI) (auto simp: lxp_sys_statfs64_def dest: safe_statfs(1) [OF _ to_u32_le])
  subgoal by (rule ret_kernelI) (auto simp: lxp_sys_fstatfs64_def dest: safe_statfs(2) [OF _ to_u32_le])
  done

lemma proc_rows [rows]:
  "handler_ok (ret_kernel (lxp_sys_clock_gettime h))" "handler_ok (ret_kernel (lxp_sys_clock_gettime64 h))"
  "handler_ok (ret_kernel (lxp_sys_gettimeofday h))" "handler_ok (ret_kernel (lxp_sys_clock_settime h))"
  "handler_ok (ret_kernel (lxp_sys_clock_settime64 h))" "handler_ok (ret_kernel (lxp_sys_settimeofday h))"
  "handler_ok (ret_kernel (lxp_sys_times h))" "handler_ok (ret_kernel lxp_sys_getresid)" "handler_ok (ret_kernel lxp_sys_umask)"
  "handler_ok (ret_kernel lxp_sys_setpgid)" "handler_ok (ret_kernel (\<lambda>k p a. lxp_sys_setsid k p))"
  "handler_ok (ret_kernel lxp_sys_prlimit64)" "handler_ok (ret_kernel (lxp_sys_sysinfo h))" "handler_ok (ret_kernel (lxp_sys_uname h))"
  "handler_ok (ret_kernel lxp_sys_rt_sigaction)" "handler_ok (ret_kernel (lxp_sys_chdir h))" "handler_ok (ret_kernel lxp_sys_getcwd)"
  by (rule ret_kernelI, erule (1) safe_clocks safe_proc_calls(1-7) safe_sigaction safe_chdir safe_getcwd)+

lemma random_row [rows]: "host_ok h \<Longrightarrow> handler_ok (ret_kernel (lxp_sys_getrandom h))"
  by (rule ret_kernelI) (rule safe_proc_calls(8))

lemma task_rows [rows]:
  "handler_ok lxp_sys_exit" "handler_ok lxp_sys_exit_group" "handler_ok lxp_sys_nice" "handler_ok lxp_sys_reboot"
  "handler_ok (lxp_sys_setitimer h)" "handler_ok (lxp_sys_nanosleep h)" "handler_ok (lxp_sys_clock_nanosleep h)"
  "handler_ok (lxp_sys_clock_nanosleep_time64 h)" "handler_ok (lxp_sys_wait4 h)" "handler_ok (lxp_sys_rt_sigsuspend h)"
  "handler_ok lxp_sys_rt_sigtimedwait_time64" "handler_ok lxp_sys_rt_sigprocmask" "handler_ok (lxp_sys_pselect6_time64 h)"
  by (rule goodI, erule sys_safe_procs sys_safe_time sys_safe_wait4 sys_safe_signals sys_safe_select)+

lemma poll_rows [rows]: "handler_ok (lxp_sys_poll h)" "handler_ok (lxp_sys_ppoll_time64 h)"
  by (rule goodI, simp add: lxp_sys_poll_def lxp_sys_ppoll_time64_def sys_safe_poll)+

lemma table_ok:
  assumes "host_ok h" "handler_ok execve"
  shows "\<forall>(nr, f, fl) \<in> set (g_lxp_sys_table execve h). handler_ok f"
  by (simp add: g_lxp_sys_table_def rows assms)

section \<open>One call, and many\<close>

lemma syscall_safe:
  assumes g: "sys_good k p" and h: "host_ok h" and nr: "nr \<noteq> LXP_NR_execve"
  shows "sys_safe k p (lxp_syscall execve h k p nr a)"
proof (cases "sys_row execve h nr")
  case None
  then show ?thesis using sys_safe_same [OF sys_goodD [OF g] same_task_refl] by (simp add: lxp_syscall_def)
next
  case (Some r)
  obtain f fl where r: "r = (f, fl)" by (metis surj_pair)
  define idle :: handler where "idle = (\<lambda>k p a. (p, k, 0))"
  have i: "handler_ok idle" by (rule goodI) (simp add: idle_def sys_safe_same)
  have "map_of (g_lxp_sys_table execve h) nr = map_of (g_lxp_sys_table idle h) nr"
    using nr by (simp add: g_lxp_sys_table_def)
  then have "(nr, f, fl) \<in> set (g_lxp_sys_table idle h)" using Some r by (metis sys_row_def map_of_SomeD)
  then have "handler_ok f" using table_ok [OF h i] by fastforce
  then show ?thesis using g sys_safe_same [OF sys_goodD [OF g] same_task_refl]
    by (simp add: lxp_syscall_def Some r handler_ok_def)
qed

text \<open>Several tasks over one kernel.  A step of task \<open>i\<close> is a system call with any number and
  arguments, the host answering as it likes, or a store of the guest program into memory it may
  write.\<close>

record system =
  sy_kernel :: kernel
  sy_task :: "nat \<Rightarrow> proc option"

inductive sys_step :: "handler \<Rightarrow> system \<Rightarrow> nat \<Rightarrow> system \<Rightarrow> bool" for execve :: handler where
  step_call: "sy_task s i = Some p \<Longrightarrow> host_ok h \<Longrightarrow> nr \<noteq> LXP_NR_execve \<Longrightarrow>
    lxp_syscall execve h (sy_kernel s) p nr a = (p', k', rc) \<Longrightarrow>
    sys_step execve s i \<lparr>sy_kernel = k', sy_task = (sy_task s)(i := Some p')\<rparr>"
| step_store: "sy_task s i = Some p \<Longrightarrow> x \<in> window_bytes (sy_kernel s) p True \<Longrightarrow>
    sys_step execve s i (s\<lparr>sy_kernel := (sy_kernel s)\<lparr>mc_mem := (mc_mem (sy_kernel s))(x := b)\<rparr>\<rparr>)"

inductive sys_run :: "handler \<Rightarrow> system \<Rightarrow> nat list \<Rightarrow> system \<Rightarrow> bool" for execve :: handler where
  run_nil: "sys_run execve s [] s"
| run_step: "sys_step execve s i s1 \<Longrightarrow> sys_run execve s1 is s2 \<Longrightarrow> sys_run execve s (i # is) s2"

definition system_ok :: "system \<Rightarrow> bool" where
  "system_ok s \<longleftrightarrow> (\<forall>i p. sy_task s i = Some p \<longrightarrow> sys_good (sy_kernel s) p)"

lemma step_effect:
  assumes "sys_step execve s i s'" "system_ok s"
  obtains p p' where "sy_task s i = Some p" "sy_task s' = (sy_task s)(i := Some p')" "p_mm p' = p_mm p"
    "good (sy_kernel s') p'" "sys_frame (sy_kernel s) p (sy_kernel s')"
  using assms(1)
proof cases
  case (step_call p h nr a p' k' rc)
  have "sys_safe (sy_kernel s) p (p', k', rc)"
    using syscall_safe [of "sy_kernel s" p h nr execve a] step_call assms(2) by (simp add: system_ok_def)
  then show ?thesis using that [of p p'] step_call by (simp add: sys_safe_def)
next
  case (step_store p x b)
  have g: "good (sy_kernel s) p" using step_store assms(2) by (simp add: system_ok_def sys_goodD)
  have "safe (sy_kernel s) p ((sy_kernel s)\<lparr>mc_mem := (mc_mem (sy_kernel s))(x := b)\<rparr>)"
    by (rule safe_mem [OF g]) (use step_store in auto)
  then show ?thesis using that [of p p] step_store safe_sys_frame safe_good by (simp add: fun_upd_idem)
qed

lemma good_windows: "p_mm p' = p_mm p \<Longrightarrow> window_bytes k p' w = window_bytes k p w"
  by (rule windows_cong) simp_all

lemma step_ok:
  assumes "sys_step execve s i s'" "system_ok s" shows "system_ok s'"
proof -
  obtain p p' where e: "sy_task s i = Some p" "sy_task s' = (sy_task s)(i := Some p')" "p_mm p' = p_mm p"
    "good (sy_kernel s') p'" "sys_frame (sy_kernel s) p (sy_kernel s')" by (rule step_effect [OF assms])
  have "sys_good (sy_kernel s') q" if "sys_good (sy_kernel s) q" for q by (rule sys_frame_sys_good [OF e(5,4) that])
  moreover have "sys_good (sy_kernel s') p'" if "sys_good (sy_kernel s') p"
    using that e(3,4) good_windows [OF e(3)] by (simp add: sys_good_def)
  ultimately show ?thesis using assms(2) e(1,2) by (simp add: system_ok_def)
qed

lemma sys_run_ok: "sys_run execve s is s' \<Longrightarrow> system_ok s \<Longrightarrow> system_ok s'"
  by (induction rule: sys_run.induct) (simp_all add: step_ok)

text \<open>The windows of every task stay where they are.\<close>

lemma step_windows:
  assumes "sys_step execve s i s'" "system_ok s" "sy_task s' j = Some q'"
  obtains q where "sy_task s j = Some q" "p_mm q' = p_mm q" "\<And>w. window_bytes (sy_kernel s') q' w = window_bytes (sy_kernel s) q w"
proof -
  obtain p p' where e: "sy_task s i = Some p" "sy_task s' = (sy_task s)(i := Some p')" "p_mm p' = p_mm p"
    "good (sy_kernel s') p'" "sys_frame (sy_kernel s) p (sy_kernel s')" by (rule step_effect [OF assms(1,2)])
  have w: "window_bytes (sy_kernel s') q w = window_bytes (sy_kernel s) q w" for q w using e(5) by (simp add: sys_frame_def)
  show ?thesis
  proof (cases "j = i")
    case True
    then show ?thesis using that [of p] e(1-3) assms(3) w good_windows [OF e(3)] by simp
  next
    case False
    then show ?thesis using that [of q'] e(2) assms(3) w by simp
  qed
qed

lemma run_isolated:
  assumes "sys_run execve s is s'" "system_ok s" "sy_task s j = Some q" "j \<notin> set is" "x \<in> window_bytes (sy_kernel s) q False"
    and "\<forall>i \<in> set is. \<forall>p. sy_task s i = Some p \<longrightarrow> x \<notin> window_bytes (sy_kernel s) p True"
  shows "sy_task s' j = Some q \<and> mc_mem (sy_kernel s') x = mc_mem (sy_kernel s) x"
  using assms
proof (induction rule: sys_run.induct)
  case (run_step s i s1 "is" s2)
  obtain p p' where e: "sy_task s i = Some p" "sy_task s1 = (sy_task s)(i := Some p')" "p_mm p' = p_mm p"
    "good (sy_kernel s1) p'" "sys_frame (sy_kernel s) p (sy_kernel s1)" by (rule step_effect [OF run_step.hyps(1) run_step.prems(1)])
  have q: "sy_task s1 j = Some q" using e(2) run_step.prems(2,3) by simp
  have "x \<notin> wfs_region (k_wfs (sy_kernel s))"
    using run_step.prems(1,2,4) goodD(4) [OF sys_goodD] unfolding system_ok_def by blast
  moreover have "x \<notin> window_bytes (sy_kernel s) p True" using run_step.prems(5) e(1) by simp
  ultimately have m: "mc_mem (sy_kernel s1) x = mc_mem (sy_kernel s) x" using e(5) by (simp add: sys_frame_def)
  have x: "x \<in> window_bytes (sy_kernel s1) q False" using run_step.prems(4) e(5) by (simp add: sys_frame_def)
  have "x \<notin> window_bytes (sy_kernel s1) r True" if "i' \<in> set is" "sy_task s1 i' = Some r" for i' r
  proof -
    note t = that
    obtain r0 where "sy_task s i' = Some r0" "\<And>w. window_bytes (sy_kernel s1) r w = window_bytes (sy_kernel s) r0 w"
      by (rule step_windows [OF run_step.hyps(1) run_step.prems(1) t(2)]) blast
    then show ?thesis using run_step.prems(5) t(1) by simp
  qed
  then show ?case
    using run_step.IH [OF step_ok [OF run_step.hyps(1) run_step.prems(1)] q _ x] run_step.prems(3) m by simp
qed simp

section \<open>Properties\<close>

text \<open>Two tasks with a slot each above the file-system pool, and a host that answers every call.\<close>

definition demo_host :: io_host where
  "demo_host = \<lparr>ch_attached = False, ch_poll = 0, ch_read = (\<lambda>_ _. (0, [])), ih_now_us = 5, ih_write = (\<lambda>_ bs. int (length bs)),
     ih_random = (\<lambda>n. (0, replicate n 7)), ih_pents = [1], ih_proc_gen = (\<lambda>_. None), ih_now_ns = 5000,
     ih_resources = (1024, 512, 2), ih_nodename = ''lxp'', ih_version = ''1''\<rparr>"

definition demo_mm :: "nat \<Rightarrow> mm" where
  "demo_mm i = mm_zero\<lparr>mm_refs := 1, mm_region_lo := (i + 2) * 65536, mm_region_hi := (i + 3) * 65536, mm_arena := Some i\<rparr>"

definition demo_machine :: kernel where
  "demo_machine = kernel_boot\<lparr>mc_mm := demo_mm,
     k_arena := (\<lambda>i. arena_bss\<lparr>a_base := (i + 2) * 65536 + 4096, a_size := 4096\<rparr>)\<rparr>"

definition demo_proc :: "nat \<Rightarrow> proc" where
  "demo_proc i = proc_zero\<lparr>p_files := Some i, p_mm := Some i\<rparr>"

definition demo_system :: system where
  "demo_system = \<lparr>sy_kernel = demo_machine, sy_task = (\<lambda>i. if i < 2 then Some (demo_proc i) else None)\<rparr>"

lemma demo_host_ok: "host_ok demo_host"
  by (simp add: demo_host_def host_ok_def)

lemma demo_windows:
  "window_bytes demo_machine (demo_proc i) w = {(i + 2) * 65536..<(i + 3) * 65536}"
  by (auto simp: window_bytes_def guest_windows_def demo_proc_def demo_machine_def demo_mm_def kernel_boot_def mm_zero_def proc_zero_def)

lemma demo_good: "i < 2 \<Longrightarrow> sys_good demo_machine (demo_proc i)"
proof -
  assume i: "i < 2"
  have "kernel_ok demo_machine"
    using kernel_boot_ok by (simp add: demo_machine_def kernel_ok_def kernel_inv_def objects_ok_def)
  moreover have "kernel_typed demo_machine"
    by (simp add: demo_machine_def kernel_typed_def kernel_boot_def ofd_zero_def efd_zero_def UINT64_MAX_def LXP_CONSOLE_TYPEAHEAD_def)
  moreover have "proc_ok (demo_proc i)" using i by (simp add: proc_ok_def demo_proc_def LXP_RESOURCE_POOL_COUNT_def config_defs)
  moreover have "wfs_region (k_wfs demo_machine) = {65536..<131072}"
    by (simp add: demo_machine_def kernel_boot_def demo_wfs_def wfs_region_def config_defs)
  ultimately have "good demo_machine (demo_proc i)" by (auto simp: good_def demo_windows)
  then show ?thesis unfolding sys_good_def demo_windows
    by (auto simp: demo_proc_def proc_zero_def demo_machine_def demo_mm_def arena_bytes_def)
qed

lemma demo_system_ok: "system_ok demo_system"
  using demo_good by (auto simp: system_ok_def demo_system_def split: if_splits)

text \<open>C3.  Whatever the number and the arguments of a system call (\<^verbatim>\<open>execve\<close> apart), and whatever the host
  answers within its contract, the call keeps the invariants of the kernel: every reference count of
  descriptions, pipes, files, event counters and /proc snapshots is exact, the node table and the
  pool of the writable file system are intact, and offsets, counters, terminal settings and the
  typeahead ring are in range; the same holds then for every other task.\<close>

theorem syscall_keeps_the_invariants:
  assumes "sys_good k p" "host_ok h" "nr \<noteq> LXP_NR_execve" "lxp_syscall execve h k p nr a = (p', k', rc)"
  shows "kernel_ok k' \<and> kernel_typed k' \<and> proc_ok p' \<and> sys_good k' p' \<and> (\<forall>q. sys_good k q \<longrightarrow> sys_good k' q)"
proof -
  have S: "sys_safe k p (p', k', rc)" using syscall_safe [OF assms(1-3), of execve a] assms(4) by simp
  then have g: "good k' p'" "p_mm p' = p_mm p" and f: "sys_frame k p k'" by (simp_all add: sys_safe_def)
  have "sys_good k' p'" using sys_frame_sys_good [OF f g(1) assms(1)] g good_windows [OF g(2)] by (simp add: sys_good_def)
  then show ?thesis using g(1) sys_frame_sys_good [OF f g(1)] by (simp add: good_def)
qed

theorem syscall_keeps_the_invariants_witness:
  "\<exists>p' k' rc. lxp_syscall (\<lambda>k p a. (p, k, 0)) demo_host demo_machine (demo_proc 0) 42 (\<lambda>_. 131072) = (p', k', rc)
     \<and> kernel_ok k' \<and> sys_good k' (demo_proc 1)"
proof -
  obtain p' k' rc where c: "lxp_syscall (\<lambda>k p a. (p, k, 0)) demo_host demo_machine (demo_proc 0) 42 (\<lambda>_. 131072) = (p', k', rc)"
    by (metis prod_cases3)
  show ?thesis
    using syscall_keeps_the_invariants [OF demo_good demo_host_ok _ c] c demo_good [of 1] by auto
qed

text \<open>C2.  A system call changes memory only inside the windows its caller may write and inside the
  pool of the writable file system, whatever pointers and lengths it is given; windows never move.\<close>

theorem syscall_memory_confined:
  assumes "sys_good k p" "host_ok h" "nr \<noteq> LXP_NR_execve" "lxp_syscall execve h k p nr a = (p', k', rc)"
  shows "(\<forall>x. x \<notin> window_bytes k p True \<longrightarrow> x \<notin> wfs_region (k_wfs k) \<longrightarrow> mc_mem k' x = mc_mem k x)
    \<and> p_mm p' = p_mm p \<and> (\<forall>q w. window_bytes k' q w = window_bytes k q w)"
  using syscall_safe [OF assms(1-3), of execve a] assms(4) by (simp add: sys_safe_def sys_frame_def)

theorem syscall_memory_confined_witness:
  "\<exists>p' k' rc. lxp_syscall (\<lambda>k p a. (p, k, 0)) demo_host demo_machine (demo_proc 0) 384 (\<lambda>_. 200000) = (p', k', rc)
     \<and> mc_mem k' 200001 = 0"
proof -
  obtain p' k' rc where c: "lxp_syscall (\<lambda>k p a. (p, k, 0)) demo_host demo_machine (demo_proc 0) 384 (\<lambda>_. 200000) = (p', k', rc)"
    by (metis prod_cases3)
  have "mc_mem k' 200001 = mc_mem demo_machine 200001"
    using syscall_memory_confined [OF demo_good demo_host_ok _ c] demo_windows [of 0]
    by (simp add: demo_machine_def kernel_boot_def demo_wfs_def wfs_region_def config_defs)
  then show ?thesis using c by (simp add: demo_machine_def kernel_boot_def)
qed

text \<open>C1.  Along every interleaving of system calls and stores of any number of tasks, the invariants
  hold, and a byte a task can read that no running task can write never changes: its private memory
  while it does not run, and the rootfs image always.\<close>

theorem tasks_are_isolated:
  assumes "system_ok s" "sys_run execve s is s'"
  shows "system_ok s' \<and> (\<forall>j q x. sy_task s j = Some q \<longrightarrow> j \<notin> set is \<longrightarrow> x \<in> window_bytes (sy_kernel s) q False \<longrightarrow>
       (\<forall>i \<in> set is. \<forall>p. sy_task s i = Some p \<longrightarrow> x \<notin> window_bytes (sy_kernel s) p True) \<longrightarrow>
       sy_task s' j = Some q \<and> mc_mem (sy_kernel s') x = mc_mem (sy_kernel s) x)"
  using sys_run_ok [OF assms(2,1)] run_isolated [OF assms(2,1)] by blast

theorem tasks_are_isolated_witness:
  "\<exists>s'. sys_run (\<lambda>k p a. (p, k, 0)) demo_system [0, 0] s' \<and> system_ok s'
     \<and> mc_mem (sy_kernel s') 131072 = 9 \<and> mc_mem (sy_kernel s') 200001 = 0"
proof -
  let ?e = "\<lambda>k p a. (p, k, 0)" and ?k = "demo_machine\<lparr>mc_mem := (mc_mem demo_machine)(131072 := 9)\<rparr>"
  define s1 where "s1 = demo_system\<lparr>sy_kernel := ?k\<rparr>"
  have t: "sy_task demo_system 0 = Some (demo_proc 0)" "sy_task demo_system 1 = Some (demo_proc 1)"
    "sy_kernel demo_system = demo_machine" by (simp_all add: demo_system_def)
  have 1: "sys_step ?e demo_system 0 s1"
    using step_store [of demo_system 0 "demo_proc 0" 131072 ?e 9] demo_windows [of 0] by (simp add: t s1_def)
  obtain p' k' rc where c: "lxp_syscall ?e demo_host ?k (demo_proc 0) 20 (\<lambda>_. 0) = (p', k', rc)" by (metis prod_cases3)
  then have k': "k' = ?k" by (simp add: lxp_syscall_def sys_row_def g_lxp_sys_table_def ret_int_def)
  define s2 where "s2 = \<lparr>sy_kernel = k', sy_task = (sy_task s1)(0 := Some p')\<rparr>"
  have 2: "sys_step ?e s1 0 s2" unfolding s2_def
    by (rule step_call [of s1 0 "demo_proc 0" demo_host 20 ?e "\<lambda>_. 0" p' k' rc]) (simp_all add: s1_def t c demo_host_ok)
  have r: "sys_run ?e demo_system [0, 0] s2" by (rule run_step [OF 1 run_step [OF 2 run_nil]])
  have "sy_task s2 1 = Some (demo_proc 1) \<and> mc_mem (sy_kernel s2) 200001 = mc_mem (sy_kernel demo_system) 200001"
    by (rule tasks_are_isolated [OF demo_system_ok r, THEN conjunct2, rule_format, OF t(2)])
      (auto simp: t(1,3) demo_windows)
  then show ?thesis using r tasks_are_isolated [OF demo_system_ok r]
    by (intro exI [of _ s2]) (simp add: s2_def k' t(3), simp add: demo_machine_def kernel_boot_def)
qed

end
