(* ===== verification/SysProps.thy ===== *)
theory SysProps
  imports System
begin

text \<open>
  What single system calls promise beyond safety: files as byte strings, pipes made whole or not at all,
  bounded transfers, signal masks, mappings, the reaping of children, the wall clock, and the agreement
  of \<^verbatim>\<open>poll\<close> with \<^verbatim>\<open>select\<close>.
\<close>

section \<open>Files as byte strings\<close>

lemma pread_tmpfs_bytes:
  assumes i: "ofd_file_idx (k_ofd k oi) = int i" and r: "fop_pread_tmpfs k p oi buf len off = (k', rc)" and ok: "rc \<ge> 0"
  shows "(let bs = take len (drop off (wfs_bytes (mc_mem k) (k_wfs k) i)) in
     rc = int (length bs) \<and> mem_read (mc_mem k') buf (length bs) = bs)"
proof -
  let ?c = "wfs_bytes (mc_mem k) (k_wfs k) i"
  have c: "mem_read (mc_mem k) (wn_data (tmpfs_at k oi)) (wn_size (tmpfs_at k oi)) = ?c"
    by (simp add: tmpfs_at_def wnode_at_def i wfs_bytes_def)
  have r': "lxp_vfs_read_mem k p ?c buf len off = (k', rc)" using r ok by (auto simp: fop_pread_tmpfs_def c Let_def split: if_splits)
  show ?thesis
  proof (cases "off \<ge> length ?c")
    case True
    then show ?thesis using r' by (simp add: lxp_vfs_read_mem_def)
  next
    case False
    let ?n = "if length ?c - off > len then len else length ?c - off"
    obtain k1 e where cp: "lxp_copy_to_guest k p buf (take ?n (drop off ?c)) = (k1, e)" by (metis surj_pair)
    have t: "take ?n (drop off ?c) = take len (drop off ?c)" by (simp add: min_def)
    have "e = 0" "k' = k1" "rc = int ?n" using r' False cp ok by (auto simp: lxp_vfs_read_mem_def Let_def split: if_splits)
    moreover have "mc_mem k1 = mem_write (mc_mem k) buf (take ?n (drop off ?c))"
      using cp \<open>e = 0\<close> by (auto simp: lxp_copy_to_guest_def split: if_splits)
    ultimately show ?thesis using False by (simp add: t Let_def mem_read_write_same min_def)
  qed
qed

text \<open>C4.  A file of the writable file system behaves as a byte string: a write at an offset stores the
  caller's bytes there, extends the file when it ends later and fills a hole with zeros; a
  truncation cuts or extends with zeros.  When either fails the contents are as before, and no other
  file changes, though the pool may have moved every block.\<close>

theorem tmpfs_writes_refine_byte_strings:
  assumes "good k p" "ofd_live k oi" "ofd_kind (k_ofd k oi) = FD_TMPFS" "ofd_file_idx (k_ofd k oi) = int i"
    "buf \<le> SIZE_MAX" "len \<le> SIZE_MAX"
    and w: "fop_pwrite_tmpfs k p oi buf len off = (k1, rc1)" and t: "fop_ftruncate_tmpfs k oi n = (k2, rc2)"
  shows "good k1 p \<and> good k2 p
    \<and> (\<forall>j < LXP_NWNODE. j \<noteq> i \<longrightarrow> wfs_bytes (mc_mem k1) (k_wfs k1) j = wfs_bytes (mc_mem k) (k_wfs k) j
         \<and> wfs_bytes (mc_mem k2) (k_wfs k2) j = wfs_bytes (mc_mem k) (k_wfs k) j)
    \<and> (rc1 < 0 \<and> wfs_bytes (mc_mem k1) (k_wfs k1) i = wfs_bytes (mc_mem k) (k_wfs k) i
       \<or> (\<exists>bs. rc1 = int len \<and> lxp_copy_from_guest k p buf len = Some bs
            \<and> wfs_bytes (mc_mem k1) (k_wfs k1) i = file_write (wfs_bytes (mc_mem k) (k_wfs k) i) off bs))
    \<and> (rc2 < 0 \<and> wfs_bytes (mc_mem k2) (k_wfs k2) i = wfs_bytes (mc_mem k) (k_wfs k) i
       \<or> rc2 = 0 \<and> wfs_bytes (mc_mem k2) (k_wfs k2) i = file_truncate (wfs_bytes (mc_mem k) (k_wfs k) i) n)"
  using pwrite_tmpfs_cases [OF assms(1-6) w] ftruncate_tmpfs_cases [OF assms(1-4) t]
  by (auto simp: safe_same_def safe_def)

text \<open>A task with a fresh file open as descriptor 0.\<close>

definition demo_file_kernel :: kernel where
  "demo_file_kernel = fst (lxp_sys_fd_alloc (demo_machine\<lparr>k_wfs := fst (lxp_wfs_create demo_wfs ''/f'' 0x81a4)\<rparr>)
     (demo_proc 0) FD_TMPFS 0 0 LXP_O_RDWR)"

lemma scan_first: "P 0 \<Longrightarrow> 0 < n \<Longrightarrow> scan P 0 n = Some 0"
  by (simp add: scan_Some)

lemma demo_file_kernel_facts:
  "good demo_file_kernel (demo_proc 0)" "fd_lookup demo_file_kernel (demo_proc 0) 0 = Some 0"
  "k_ofd demo_file_kernel 0 = new_ofd FD_TMPFS 0 0 LXP_O_RDWR"
  "wf_nodes (k_wfs demo_file_kernel) 0 = \<lparr>wn_path = ''/f'', wn_mode = 0x81a4, wn_data = 0, wn_size = 0, wn_cap = 0,
     wn_used = True, wn_open_refs = 1, wn_linked = True\<rparr>"
  "mc_mm demo_file_kernel = demo_mm" "mc_mem demo_file_kernel = (\<lambda>_. 0)"
  "wf_arena (k_wfs demo_file_kernel) = wf_arena demo_wfs" "\<not> wf_ready (k_wfs demo_file_kernel)" "wf_pool (k_wfs demo_file_kernel) = 65536"
proof -
  let ?c = "lxp_wfs_create demo_wfs ''/f'' 0x81a4"
  let ?k1 = "demo_machine\<lparr>k_wfs := fst ?c\<rparr>"
  have w: "k_wfs demo_machine = demo_wfs" by (simp add: demo_machine_def kernel_boot_def)
  obtain k2 fd where o: "lxp_sys_fd_alloc ?k1 (demo_proc 0) FD_TMPFS 0 0 LXP_O_RDWR = (k2, fd)" by (metis surj_pair)
  have "safe demo_machine (demo_proc 0) ?k1"
    using safe_create(1) [OF sys_goodD [OF demo_good], of 0 "''/f''" "0x81a4" "fst ?c" "snd ?c"] by (simp add: w)
  from safe_alloc_tmpfs [OF safe_good [OF this] _ o] show "good demo_file_kernel (demo_proc 0)"
    by (simp add: demo_file_kernel_def o safe_good)
  have c: "?c = (demo_wfs\<lparr>wf_nodes := (\<lambda>_. wnode_zero)(0 := \<lparr>wn_path = ''/f'', wn_mode = 0x81a4, wn_data = 0, wn_size = 0,
      wn_cap = 0, wn_used = True, wn_open_refs = 0, wn_linked = True\<rparr>)\<rparr>, 0)"
    by (simp add: lxp_wfs_create_def demo_wfs_def scan_first LXP_PATH_MAX_def LXP_NWNODE_def wnode_put_def)
  define w1 where "w1 = demo_wfs\<lparr>wf_nodes := (\<lambda>_. wnode_zero)(0 := \<lparr>wn_path = ''/f'',
      wn_mode = 0x81a4, wn_data = 0, wn_size = 0, wn_cap = 0, wn_used = True, wn_open_refs = 1, wn_linked = True\<rparr>)\<rparr>"
  have W: "lxp_wfs_open (fst ?c) 0 = (w1, 0)"
    unfolding c by (simp add: w1_def lxp_wfs_open_def wnode_at_def LXP_NWNODE_def UINT16_MAX_def wnode_put_def)
  let ?e = "\<lparr>fd_ofd = 1, fd_cloexec = False\<rparr>"
  have "lxp_fd_open (demo_machine\<lparr>k_wfs := w1\<rparr>) (demo_proc 0) FD_TMPFS 0 0 LXP_O_RDWR
      = (fd_entry_put (ofd_put (demo_machine\<lparr>k_wfs := w1\<rparr>) 0 (new_ofd FD_TMPFS 0 0 LXP_O_RDWR)) 0 0 ?e, 0)"
    by (simp add: lxp_fd_open_def demo_proc_def proc_zero_def demo_machine_def kernel_boot_def scan_first ofd_zero_def files_zero_def
        fd_zero_def LXP_MAX_OFD_def LXP_MAX_FDS_def new_ofd_def has_flag_def)
  then have E: "demo_file_kernel = fd_entry_put (ofd_put (demo_machine\<lparr>k_wfs := w1\<rparr>) 0 (new_ofd FD_TMPFS 0 0 LXP_O_RDWR)) 0 0 ?e"
    using W by (simp add: demo_file_kernel_def lxp_sys_fd_alloc_def)
  show "fd_lookup demo_file_kernel (demo_proc 0) 0 = Some 0"
    by (simp add: E fd_lookup_def demo_proc_def fd_entry_at_def fd_entry_put_def ofd_put_def LXP_MAX_OFD_def LXP_MAX_FDS_def)
  show "k_ofd demo_file_kernel 0 = new_ofd FD_TMPFS 0 0 LXP_O_RDWR"
    "wf_nodes (k_wfs demo_file_kernel) 0 = \<lparr>wn_path = ''/f'', wn_mode = 0x81a4, wn_data = 0, wn_size = 0, wn_cap = 0,
       wn_used = True, wn_open_refs = 1, wn_linked = True\<rparr>"
    "mc_mm demo_file_kernel = demo_mm" "mc_mem demo_file_kernel = (\<lambda>_. 0)"
    "wf_arena (k_wfs demo_file_kernel) = wf_arena demo_wfs" "\<not> wf_ready (k_wfs demo_file_kernel)" "wf_pool (k_wfs demo_file_kernel) = 65536"
    by (simp_all add: E w1_def demo_machine_def kernel_boot_def demo_wfs_def fd_entry_put_def ofd_put_def)
qed

lemma demo_pool_alloc:
  obtains m0 ar0 m1 ar1 where "lxp_arena_init (\<lambda>_. 0) (wf_arena demo_wfs) 65536 LXP_WFS_POOL = (m0, ar0, init_result.LXP_OK)"
    "lxp_arena_alloc m0 ar0 256 = (m1, ar1, 65552)"
proof -
  obtain m0 ar0 r where i: "lxp_arena_init (\<lambda>_. 0) (wf_arena demo_wfs) 65536 LXP_WFS_POOL = (m0, ar0, r)" by (metis prod_cases3)
  then have r: "r = init_result.LXP_OK" and b: "a_base ar0 = 65536" "a_size ar0 = 65536"
    by (auto simp: lxp_arena_init_def align_down_def Let_def arena_lay_first_def arena_clear_mappings_def SIZE_MAX_def
        demo_wfs_def LXP_WFS_POOL_def)
  have ok: "arena_ok m0 ar0 [(65520, True)]"
    using arena_init_ok(1) [OF i [unfolded r]] b by (simp add: SIZE_MAX_def LXP_WFS_POOL_def)
  have n: "256 = arena_align (if (256::nat) = 0 then 1 else 256)" by (simp add: arena_align_def align_down_def SIZE_MAX_def)
  have a: "aalloc 256 [(65520, True)] = Some (0, [(256, False), (65248, True)])" by (simp add: carve_def)
  show thesis
  proof (rule lxp_arena_alloc_Some [OF ok n _ a])
    fix m1 ar1 assume "lxp_arena_alloc m0 ar0 256 = (m1, ar1, a_base ar0 + 0 + 16)"
    then show thesis using that i r b by simp
  qed simp
qed

lemma demo_reserve:
  assumes "0 < n" "n \<le> 256"
  shows "\<exists>k'. tmpfs_reserve demo_file_kernel 0 n = (k', 0)"
proof (rule demo_pool_alloc)
  fix m0 ar0 m1 ar1
  assume i: "lxp_arena_init (\<lambda>_. 0) (wf_arena demo_wfs) 65536 LXP_WFS_POOL = (m0, ar0, init_result.LXP_OK)"
    "lxp_arena_alloc m0 ar0 256 = (m1, ar1, 65552)"
  note F = demo_file_kernel_facts
  have "(n + 255) div 256 = 1" using assms by (intro div_nat_eqI) simp_all
  then have "wfs_mincap n = 256" "wfs_newcap 0 n = 256"
    by (simp_all add: wfs_mincap_def wfs_newcap_def wfs_max_payload_def LXP_WFS_POOL_def)
  moreover have "n \<le> wfs_max_payload" "n \<le> SIZE_MAX - 255"
    using assms by (simp_all add: wfs_max_payload_def LXP_WFS_POOL_def SIZE_MAX_def)
  ultimately show ?thesis using assms i
    by (simp add: tmpfs_reserve_def F lxp_wfs_reserve_def wnode_at_def wfs_prepare_def lxp_arena_realloc_def)
qed

lemma demo_guest:
  assumes "131072 \<le> a" "a + n \<le> 196608" "mc_mm k = demo_mm"
  shows "lxp_guest_access_ok k (demo_proc 0) a n w"
  using assms by (simp add: lxp_guest_access_ok_def view_grants_def demo_proc_def proc_zero_def lxp_guest_range_ok_def
      guest_range_hi_def demo_mm_def mm_zero_def uptr_def Let_def)

lemma demo_file_live: "ofd_live demo_file_kernel 0" "ofd_kind (k_ofd demo_file_kernel 0) = FD_TMPFS"
  "ofd_file_idx (k_ofd demo_file_kernel 0) = int 0"
  using lookup_live [OF demo_file_kernel_facts(2)] by (simp_all add: demo_file_kernel_facts(3))

lemma demo_file_empty: "wfs_bytes (mc_mem demo_file_kernel) (k_wfs demo_file_kernel) 0 = []"
  by (simp add: wfs_bytes_def demo_file_kernel_facts(4) mem_read_def)

lemma demo_pwrite:
  assumes "0 < len" "off + len \<le> 256"
  shows "\<exists>k'. fop_pwrite_tmpfs demo_file_kernel (demo_proc 0) 0 131072 len off = (k', int len)"
proof -
  note F = demo_file_kernel_facts
  obtain k1 where r: "tmpfs_reserve demo_file_kernel 0 (off + len) = (k1, 0)" using demo_reserve [of "off + len"] assms by auto
  have "mc_mm k1 = demo_mm" using r F(5) by (auto simp: tmpfs_reserve_def split: prod.splits)
  then have m: "mc_mm (tmpfs_zero_hole k1 0 off) = demo_mm" by (simp add: tmpfs_zero_hole_def Let_def)
  have "lxp_copy_from_guest (tmpfs_zero_hole k1 0 off) (demo_proc 0) 131072 len \<noteq> None"
    using demo_guest [OF _ _ m, of 131072 len False] assms by (simp add: lxp_copy_from_guest_def)
  moreover have "\<not> wnode_is_dir (tmpfs_at demo_file_kernel 0)"
    by (simp add: tmpfs_at_def wnode_at_def F(3,4) wnode_is_dir_def file_type_def)
  moreover have "off \<le> SIZE_MAX" "\<not> uptr (off + len) < len" using assms by (simp_all add: SIZE_MAX_def uptr_def)
  ultimately show ?thesis using r by (auto simp: fop_pwrite_tmpfs_def Let_def split: option.splits)
qed

theorem tmpfs_writes_refine_byte_strings_witness:
  "\<exists>k1 k2 rc2. fop_pwrite_tmpfs demo_file_kernel (demo_proc 0) 0 131072 3 5 = (k1, 3)
     \<and> fop_ftruncate_tmpfs demo_file_kernel 0 0 = (k2, rc2) \<and> wfs_bytes (mc_mem k1) (k_wfs k1) 0 = replicate 8 0"
proof -
  note F = demo_file_kernel_facts
  obtain k1 where w: "fop_pwrite_tmpfs demo_file_kernel (demo_proc 0) 0 131072 3 5 = (k1, int 3)" using demo_pwrite [of 3 5] by auto
  obtain k2 rc2 where t: "fop_ftruncate_tmpfs demo_file_kernel 0 0 = (k2, rc2)" by (metis surj_pair)
  have c: "lxp_copy_from_guest demo_file_kernel (demo_proc 0) 131072 3 = Some [0, 0, 0]"
    using demo_guest [OF _ _ F(5), of 131072 3 False]
    by (simp add: lxp_copy_from_guest_def F(6) mem_read_def upt_conv_Cons)
  have sz: "(131072::nat) \<le> SIZE_MAX" "(3::nat) \<le> SIZE_MAX" by (simp_all add: SIZE_MAX_def)
  from tmpfs_writes_refine_byte_strings [OF F(1) demo_file_live sz w t, THEN conjunct2, THEN conjunct2, THEN conjunct2, THEN conjunct1]
  obtain bs where b: "lxp_copy_from_guest demo_file_kernel (demo_proc 0) 131072 3 = Some bs"
    "wfs_bytes (mc_mem k1) (k_wfs k1) 0 = file_write (wfs_bytes (mc_mem demo_file_kernel) (k_wfs demo_file_kernel) 0) 5 bs" by auto
  have "bs = [0, 0, 0]" using b(1) c by simp
  then have "wfs_bytes (mc_mem k1) (k_wfs k1) 0 = file_write (wfs_bytes (mc_mem demo_file_kernel) (k_wfs demo_file_kernel) 0) 5 [0, 0, 0]"
    using b(2) by simp
  also have "\<dots> = replicate 8 0" unfolding demo_file_empty by (simp add: file_write_def numeral_eq_Suc)
  finally show ?thesis using w t by auto
qed

text \<open>C34.  What a write stored at an offset of a writable file, any later read at any offset returns, up to
  the length asked for and the end of the file.\<close>

theorem pwrite_then_pread:
  assumes "good k p" "ofd_live k oi" "ofd_kind (k_ofd k oi) = FD_TMPFS" "ofd_file_idx (k_ofd k oi) = int i"
    "buf \<le> SIZE_MAX" "len \<le> SIZE_MAX"
    and w: "fop_pwrite_tmpfs k p oi buf len off = (k1, rc1)" "rc1 \<ge> 0"
    and r: "fop_pread_tmpfs k1 p oi dst n pos = (k2, rc2)" "rc2 \<ge> 0"
  shows "\<exists>bs. lxp_copy_from_guest k p buf len = Some bs \<and> rc1 = int len
    \<and> (let got = take n (drop pos (file_write (wfs_bytes (mc_mem k) (k_wfs k) i) off bs))
       in rc2 = int (length got) \<and> mem_read (mc_mem k2) dst (length got) = got)"
proof -
  note W = pwrite_tmpfs_cases [OF assms(1-6) w(1)]
  then obtain bs where b: "rc1 = int len" "lxp_copy_from_guest k p buf len = Some bs"
    "wfs_bytes (mc_mem k1) (k_wfs k1) i = file_write (wfs_bytes (mc_mem k) (k_wfs k) i) off bs" using w(2) by auto
  have "ofd_file_idx (k_ofd k1 oi) = int i" using W assms(4) by (simp add: safe_same_def)
  from pread_tmpfs_bytes [OF this r] b show ?thesis by (simp add: Let_def)
qed

lemma pwrite_mode:
  assumes "good k p" "ofd_file_idx (k_ofd k oi) = int i" "i < LXP_NWNODE" "wn_used (wf_nodes (k_wfs k) i)"
    and r: "fop_pwrite_tmpfs k p oi buf len off = (k', rc)"
  shows "wn_mode (wf_nodes (k_wfs k') i) = wn_mode (wf_nodes (k_wfs k) i)"
proof -
  obtain k1 rc1 where res: "tmpfs_reserve k oi (off + len) = (k1, rc1)" by (metis surj_pair)
  note R = tmpfs_reserve_safe [OF assms(1-4) res]
  have m: "wn_mode (wf_nodes (k_wfs k1) i) = wn_mode (wf_nodes (k_wfs k) i)" and o: "k_ofd k1 = k_ofd k"
    using R(1,3) by (auto simp: safe_same_def)
  have "k_wfs (tmpfs_zero_hole k1 oi off) = k_wfs k1" "k_ofd (tmpfs_zero_hole k1 oi off) = k_ofd k1"
    by (simp_all add: tmpfs_zero_hole_def Let_def)
  then show ?thesis using r m o assms(2)
    by (auto simp: fop_pwrite_tmpfs_def res Let_def tmpfs_put_def tmpfs_at_def wnode_at_def split: if_splits option.splits)
qed

theorem pwrite_then_pread_witness:
  "\<exists>k1 k2. fop_pwrite_tmpfs demo_file_kernel (demo_proc 0) 0 131072 3 5 = (k1, 3)
     \<and> fop_pread_tmpfs k1 (demo_proc 0) 0 140000 100 6 = (k2, 2) \<and> mem_read (mc_mem k2) 140000 2 = [0, 0]"
proof -
  note F = demo_file_kernel_facts
  obtain k1 where w: "fop_pwrite_tmpfs demo_file_kernel (demo_proc 0) 0 131072 3 5 = (k1, int 3)" using demo_pwrite [of 3 5] by auto
  obtain k2 rc2 where r: "fop_pread_tmpfs k1 (demo_proc 0) 0 140000 100 6 = (k2, rc2)" by (metis surj_pair)
  have sz: "(131072::nat) \<le> SIZE_MAX" "(3::nat) \<le> SIZE_MAX" by (simp_all add: SIZE_MAX_def)
  note W = pwrite_tmpfs_cases [OF F(1) demo_file_live sz w]
  have m: "mc_mm k1 = demo_mm" and o: "k_ofd k1 = k_ofd demo_file_kernel"
    using W F(5) by (simp_all add: safe_same_def safe_def confined_def)
  have "wn_mode (tmpfs_at k1 0) = 0x81a4"
    using pwrite_mode [OF F(1) demo_file_live(3) _ _ w] by (simp add: tmpfs_at_def wnode_at_def o F(3,4) LXP_NWNODE_def)
  then have d: "\<not> wnode_is_dir (tmpfs_at k1 0)" by (simp add: wnode_is_dir_def file_type_def)
  have "lxp_guest_access_ok k1 (demo_proc 0) 140000 j True" if "j \<le> 100" for j
    using that demo_guest [OF _ _ m, of 140000 j True] by simp
  then have nn: "rc2 \<ge> 0"
    using r d by (auto simp: fop_pread_tmpfs_def lxp_vfs_read_mem_def lxp_copy_to_guest_def Let_def split: if_splits)
  have c: "lxp_copy_from_guest demo_file_kernel (demo_proc 0) 131072 3 = Some [0, 0, 0]"
    using demo_guest [OF _ _ F(5), of 131072 3 False]
    by (simp add: lxp_copy_from_guest_def F(6) mem_read_def upt_conv_Cons)
  have g: "take 100 (drop 6 (file_write (wfs_bytes (mc_mem demo_file_kernel) (k_wfs demo_file_kernel) 0) 5 [0, 0, 0])) = [0, 0]"
    unfolding demo_file_empty by (simp add: file_write_def numeral_eq_Suc)
  let ?got = "\<lambda>bs. take 100 (drop 6 (file_write (wfs_bytes (mc_mem demo_file_kernel) (k_wfs demo_file_kernel) 0) 5 bs))"
  from pwrite_then_pread [OF F(1) demo_file_live sz w _ r nn, unfolded Let_def]
  obtain bs where b: "lxp_copy_from_guest demo_file_kernel (demo_proc 0) 131072 3 = Some bs"
    "rc2 = int (length (?got bs)) \<and> mem_read (mc_mem k2) 140000 (length (?got bs)) = ?got bs" by auto
  have "bs = [0, 0, 0]" using b(1) c by simp
  then have "rc2 = int (length [0, 0 :: byte]) \<and> mem_read (mc_mem k2) 140000 (length [0, 0 :: byte]) = [0, 0]"
    using b(2) by (simp only: g)
  then have "rc2 = 2 \<and> mem_read (mc_mem k2) 140000 2 = [0, 0]" by (simp add: numeral_2_eq_2)
  then show ?thesis using w r by auto
qed

section \<open>Pipes\<close>

text \<open>C9.  \<^verbatim>\<open>pipe\<close> makes both descriptors or none.  It fails only for an array the caller may not write, with no
  pipe left, or with fewer than two descriptors free, and then nothing has changed; otherwise two
  descriptors that were free name the two ends of a fresh empty pipe, each with its access mode, every
  other descriptor is as before, and their numbers are stored in the array.\<close>

theorem pipe_is_all_or_nothing:
  assumes "good k p" "fds \<le> SIZE_MAX" "sys_pipe k p fds flags = (k', rc)"
  shows "good k' p \<and> ((rc = - LXP_EFAULT \<and> \<not> lxp_guest_access_ok k p fds 8 True
        \<or> rc = - LXP_EMFILE \<and> ((\<forall>i < LXP_NPIPE. pp_used (k_pipes k i)) \<or> lxp_fd_free_count k p < 2)) \<and> k' = k
     \<or> rc = 0 \<and> pipe_made k p fds k')"
  using safe_pipe [OF assms] by (simp add: safe_good)

theorem pipe_is_all_or_nothing_witness:
  "\<exists>k'. sys_pipe demo_machine (demo_proc 0) 131072 0 = (k', 0) \<and> pipe_made demo_machine (demo_proc 0) 131072 k'"
proof -
  obtain k' rc where r: "sys_pipe demo_machine (demo_proc 0) 131072 0 = (k', rc)" by (metis surj_pair)
  have sz: "(131072::nat) \<le> SIZE_MAX" by (simp add: SIZE_MAX_def)
  have "lxp_guest_access_ok demo_machine (demo_proc 0) 131072 8 True"
    by (rule demo_guest) (simp_all add: demo_machine_def)
  moreover have "\<not> pp_used (k_pipes demo_machine 0)" "0 < LXP_NPIPE" by (simp_all add: demo_machine_def kernel_boot_def LXP_NPIPE_def pipe_zero_def)
  moreover have "lxp_fd_free_count demo_machine (demo_proc 0) = LXP_MAX_FDS"
    by (simp add: lxp_fd_free_count_def demo_machine_def kernel_boot_def demo_proc_def files_zero_def fd_zero_def)
  moreover have "2 \<le> LXP_MAX_FDS" by (simp add: LXP_MAX_FDS_def)
  ultimately have "rc = 0 \<and> pipe_made demo_machine (demo_proc 0) 131072 k'"
    using pipe_is_all_or_nothing [OF sys_goodD [OF demo_good] sz r] by auto
  then show ?thesis using r by auto
qed

section \<open>Bounded transfers\<close>

lemma to_u32_small: "n \<le> 65536 \<Longrightarrow> to_u32 (int n) = n"
  by (simp add: to_u32_def)

text \<open>The count register and the quantum of the calls that move bytes.\<close>

definition transfer_row :: "int \<Rightarrow> (nat \<times> nat) option" where
  "transfer_row nr =
     (if nr \<in> {3, 4, 141, 217} then Some (2, LXP_SYSCALL_QUANTUM_BYTES)
      else if nr \<in> {180, 181} then Some (2, LXP_SYSCALL_FILE_QUANTUM_BYTES)
      else if nr = 384 then Some (1, LXP_SYSCALL_QUANTUM_BYTES) else None)"

text \<open>A call left at most \<open>n\<close> bytes to a later attempt: it did not park, or parked with that count.\<close>

definition parks_within :: "proc \<Rightarrow> proc \<Rightarrow> nat \<Rightarrow> bool" where
  "parks_within p p' n \<longleftrightarrow> p_wait p' = p_wait p \<or> io_length (wait_io (wt_data (p_wait p'))) \<le> n"

lemma parks_within_simps [simp]: "parks_within p p n" "parks_within p (lxp_signal_terminate p s r d b) n"
  by (simp_all add: parks_within_def lxp_signal_terminate_def lxp_intent_exit_def)

lemma parks_within_mono: "parks_within p p' n \<Longrightarrow> n \<le> m \<Longrightarrow> parks_within p p' m"
  by (auto simp: parks_within_def)

lemma parks_within_trans: "parks_within p p1 n \<Longrightarrow> parks_within p1 p' n \<Longrightarrow> parks_within p p' n"
  by (auto simp: parks_within_def)

lemma park_within:
  assumes "lxp_wait_park now p w = (p', rc)" "io_length (wait_io (wt_data w)) \<le> n"
  shows "parks_within p p' n" "rc \<le> 0"
  using assms by (auto simp: parks_within_def lxp_wait_park_def lxp_wait_begin_def split: if_splits)

lemma read_mem_bound: "lxp_vfs_read_mem k p data buf len off = (k', rc) \<Longrightarrow> rc \<le> int len"
  by (auto simp: lxp_vfs_read_mem_def Let_def split: if_splits prod.splits)

lemma random_bound: "lxp_random_fill_guest h k buf n e = (k', rc) \<Longrightarrow> 0 \<le> e \<Longrightarrow> rc \<le> int n"
  by (auto simp: lxp_random_fill_guest_def Let_def split: if_splits prod.splits)

lemma pread_bounds:
  "fop_pread_rootfs k p oi buf len off = (k', rc) \<Longrightarrow> rc \<le> int len"
  "fop_pread_tmpfs k p oi buf len off = (k', rc) \<Longrightarrow> rc \<le> int len"
  "fop_pread_proc k p oi buf len off = (k', rc) \<Longrightarrow> rc \<le> int len"
  unfolding fop_pread_rootfs_def fop_pread_tmpfs_def fop_pread_proc_def Let_def
  by (auto dest: read_mem_bound split: if_split_asm)

lemma pwrite_bound: "fop_pwrite_tmpfs k p oi buf len off = (k', rc) \<Longrightarrow> rc \<le> int len"
  by (auto simp: fop_pwrite_tmpfs_def Let_def split: if_splits prod.splits option.splits)

lemma eventfd_bounds:
  "efd_read k p ei buf len = (k', rc) \<Longrightarrow> rc \<le> int len" "efd_write k p ei buf len = (k', rc) \<Longrightarrow> rc \<le> int len"
  by (auto simp: efd_read_def efd_write_def Let_def split: if_splits prod.splits option.splits)

lemma console_read_bound:
  assumes "host_ok h" "lxp_console_read h k p fd buf len = (k', rc)"
  shows "rc \<le> int len"
proof -
  have "fst (ch_read h fd len) \<le> int len" using assms(1) by (simp add: host_ok_def)
  then show ?thesis using assms(2) by (auto simp: lxp_console_read_def Let_def split: if_splits prod.splits)
qed

lemma pipe_bounds:
  "pipe_try_read k pi buf len = (k', rc) \<Longrightarrow> rc \<le> int len" "pipe_try_write k pi buf len = (k', rc) \<Longrightarrow> rc \<le> int len"
  by (auto simp: pipe_try_read_def pipe_try_write_def lxp_pipe_try_read_def lxp_pipe_try_write_def lxp_ring_read_def
      lxp_ring_write_def Let_def mem_read_def split: if_splits prod.splits)

text \<open>Every operation of the file tables.\<close>

lemma read_ops_bounded:
  assumes "host_ok h" "vfs_read h k p oi buf len = Some (p', k', rc)"
  shows "rc \<le> int len \<and> parks_within p p' len"
proof -
  have c: "rc \<le> int len \<and> parks_within p p' len" if r: "fop_read_console h k p oi buf len = (p', k', rc)"
    using r park_within [where w = "console_wait buf len" and n = len] console_read_bound [OF assms(1)]
      random_bound [where e = LXP_EIO]
    unfolding fop_read_console_def Let_def by (auto simp: console_wait_def split: if_split_asm prod.splits) fastforce+
  have q: "rc \<le> int len \<and> parks_within p p' len" if r: "fop_read_pipe h k p oi buf len = (p', k', rc)"
    using r park_within [where w = "pipe_wait 1 (ofd_file_idx (k_ofd k oi)) buf len" and n = len] pipe_bounds(1)
    unfolding fop_read_pipe_def Let_def by (auto simp: pipe_wait_def split: if_split_asm prod.splits) fastforce+
  show ?thesis using assms(2) c q
    by (cases "ofd_kind (k_ofd k oi)")
      (auto simp: vfs_read_def fop_read_rootfs_def fop_read_tmpfs_def fop_read_proc_def fop_read_eventfd_def
        dest: pread_bounds eventfd_bounds split: prod.splits)
qed

lemma write_ops_bounded:
  assumes "\<And>fd bs. ih_write h fd bs \<le> int (length bs)" "vfs_write h k p oi buf len = Some (p', k', rc)"
  shows "rc \<le> int len \<and> parks_within p p' len"
proof -
  have c: "fop_write_console h k p oi buf len \<le> int len"
    using assms(1) [of "ofd_file_idx (k_ofd k oi)" "mem_read (mc_mem k) buf len"]
    by (simp add: fop_write_console_def Let_def mem_read_def)
  have q: "rc \<le> int len \<and> parks_within p p' len" if r: "fop_write_pipe h k p oi buf len = (p', k', rc)"
    using r park_within [where w = "pipe_wait 2 (ofd_file_idx (k_ofd k oi)) buf len" and n = len] pipe_bounds(2)
    unfolding fop_write_pipe_def Let_def by (auto simp: pipe_wait_def split: if_split_asm prod.splits) fastforce+
  show ?thesis using assms(2) c q
    by (cases "ofd_kind (k_ofd k oi)")
      (auto simp: vfs_write_def fop_write_tmpfs_def fop_write_eventfd_def dest: pwrite_bound eventfd_bounds split: prod.splits)
qed

lemma read_bounded:
  assumes "host_ok h" "sys_read h k p fd buf len = (p', k', rc)"
  shows "rc \<le> int len \<and> parks_within p p' len"
  using assms(2) read_ops_bounded [OF assms(1)]
  by (auto simp: sys_read_def split: option.splits if_splits)

lemma write_bounded:
  assumes "\<And>fd bs. ih_write h fd bs \<le> int (length bs)" "sys_write h k p fd buf len = (p', k', rc)"
  shows "rc \<le> int len \<and> parks_within p p' len"
  using assms(2) write_ops_bounded [OF assms(1)]
  by (auto simp: sys_write_def split: option.splits if_splits)

lemma positioned_bounded:
  "lxp_sys_fd_pread k p fd buf len off = (k', rc) \<Longrightarrow> rc \<le> int len"
  "sys_pwrite k p fd buf len off = (k', rc) \<Longrightarrow> rc \<le> int len"
  by (auto simp: lxp_sys_fd_pread_def vfs_pread_def sys_pwrite_def vfs_pwrite_def Let_def dest: pread_bounds pwrite_bound
      split: option.splits if_splits fd_kind.splits)

lemma emit_loop_bound:
  assumes "dir_emit_loop p oi es d = (d', full)" "ds_filled (dl_sink d) \<le> ds_cap (dl_sink d)" "ds_error (dl_sink d) \<le> 0"
  shows "ds_filled (dl_sink d') \<le> ds_cap (dl_sink d) \<and> ds_error (dl_sink d') \<le> 0"
  using assms
proof (induction es arbitrary: d)
  case (Cons e es)
  obtain ino name mode where e: "e = (ino, name, mode)" by (rule prod_cases3)
  obtain d1 ok where s: "dirent_emit p oi d ino name mode = (d1, ok)" by (metis surj_pair)
  have s1: "ds_filled (dl_sink d1) \<le> ds_cap (dl_sink d) \<and> ds_cap (dl_sink d1) = ds_cap (dl_sink d) \<and> ds_error (dl_sink d1) \<le> 0"
    using s Cons.prems(2,3) by (auto simp: dirent_emit_def lxp_dirent_put_def Let_def split: if_splits prod.splits)
  show ?case using Cons.prems(1) Cons.IH [of d1] s1 by (auto simp: e s split: if_splits)
qed simp

lemma dir_list_bound:
  assumes "lxp_dir_list h k p oi path sink = (k', rc)" "ds_filled sink = 0" "ds_error sink = 0"
  shows "rc \<le> int (ds_cap sink)"
proof -
  obtain d full where l: "dir_emit_loop p oi (dir_entries h k p path) \<lparr>dl_kernel = k, dl_sink = sink, dl_pos = 0\<rparr> = (d, full)"
    by (metis surj_pair)
  show ?thesis using assms emit_loop_bound [OF l] by (auto simp: lxp_dir_list_def l split: if_splits)
qed

lemma getdents_bounded: "sys_getdents64 h k p fd buf n is64 = (k', rc) \<Longrightarrow> rc \<le> int n"
  by (auto simp: sys_getdents64_def vfs_getdents_def fop_getdents_rootfs_def fop_getdents_tmpfs_def fop_getdents_proc_def Let_def
      dest!: dir_list_bound split: option.splits if_splits fd_kind.splits)

lemma getrandom_bounded: "sys_getrandom h k p buf n fl = (k', rc) \<Longrightarrow> rc \<le> int n"
  using random_bound [of h k buf n LXP_ENOSYS] by (auto simp: sys_getrandom_def split: if_splits)

lemma writev_parks:
  assumes w: "\<And>fd bs. ih_write h fd bs \<le> int (length bs)"
    and "writev_loop h fd iov single n i k p sofar budget = (p', k', rc)"
  shows "parks_within p p' budget"
  using assms(2)
proof (induction n arbitrary: i k p sofar budget)
  case (Suc n)
  show ?case
  proof (cases "lxp_copy_from_guest k p (uptr (iov + 8 * i)) 8")
    case None
    then show ?thesis using Suc.prems by auto
  next
    case (Some entry)
    define base where "base = bytes_u32 (take 4 entry)"
    define iov_len where "iov_len = bytes_u32 (drop 4 entry)"
    define len where "len = (if iov_len < budget then iov_len else budget)"
    obtain p1 k1 r where s: "sys_write h k p fd base len = (p1, k1, r)" by (metis surj_pair)
    have 1: "parks_within p p1 budget"
      using write_bounded [OF w s] by (auto simp: len_def elim: parks_within_mono)
    have 2: "parks_within p p' budget"
      if "writev_loop h fd iov single n (i + 1) k1 p1 (sofar + r) (budget - nat r) = (p', k', rc)"
      using parks_within_trans [OF 1 parks_within_mono [OF Suc.IH [OF that]]] by simp
    from Suc.prems(1) [unfolded writev_step [OF Some base_def iov_len_def len_def s]]
    show ?thesis using 1 2 Suc.IH by (auto simp del: Suc_eq_plus1 Suc_eq_plus1_left split: if_splits)
  qed
qed simp

lemma writev_bounded:
  assumes w: "\<And>fd bs. ih_write h fd bs \<le> int (length bs)" and r: "sys_writev h k p fd iov cnt = (p', k', rc)"
  shows "rc \<le> int LXP_SYSCALL_QUANTUM_BYTES \<and> parks_within p p' LXP_SYSCALL_QUANTUM_BYTES"
proof -
  have "rc \<le> int LXP_SYSCALL_QUANTUM_BYTES"
    using r writev_loop_bound [where sofar = 0 and budget = LXP_SYSCALL_QUANTUM_BYTES]
    by (fastforce simp: sys_writev_def Let_def LXP_SYSCALL_QUANTUM_BYTES_def split: if_splits option.splits)
  moreover have "parks_within p p' LXP_SYSCALL_QUANTUM_BYTES"
    using r writev_parks [OF w, where budget = LXP_SYSCALL_QUANTUM_BYTES]
    by (auto simp: sys_writev_def Let_def split: if_splits option.splits)
  ultimately show ?thesis by simp
qed

text \<open>The dispatcher hands the handler the registers with the count cut to the quantum.\<close>

lemma transfer_call:
  assumes t: "transfer_row nr = Some (i, q)"
  shows "\<exists>fn. (\<forall>a. lxp_syscall execve h k p nr a = fn k p (a(i := if to_u32 (a i) > q then int q else a i)))
    \<and> (\<exists>fl. sys_row execve h nr = Some (fn, fl)) \<and> (fn = lxp_sys_read h \<and> nr = 3 \<or> fn = lxp_sys_write h \<and> nr = 4 \<or> fn = ret_kernel (lxp_sys_getdents h) \<and> nr = 141
       \<or> fn = ret_kernel (lxp_sys_getdents64 h) \<and> nr = 217 \<or> fn = ret_kernel lxp_sys_pread64 \<and> nr = 180
       \<or> fn = ret_kernel lxp_sys_pwrite64 \<and> nr = 181 \<or> fn = ret_kernel (lxp_sys_getrandom h) \<and> nr = 384)"
proof -
  have c: "clamp_args 1 a = a(1 := if to_u32 (a 1) > 4096 then 4096 else a 1)"
    "clamp_args 2 a = a(2 := if to_u32 (a 2) > 4096 then 4096 else a 2)"
    "clamp_args 4 a = a(2 := if to_u32 (a 2) > 65536 then 65536 else a 2)" for a
    by (simp_all add: clamp_args_def clamp_reg_def has_flag_def LXP_SYSCALL_QUANTUM_BYTES_def LXP_SYSCALL_FILE_QUANTUM_BYTES_def)
  note d = lxp_syscall_def sys_row_def g_lxp_sys_table_def c
  note q = LXP_SYSCALL_QUANTUM_BYTES_def LXP_SYSCALL_FILE_QUANTUM_BYTES_def
  consider "nr = 3" | "nr = 4" | "nr = 141" | "nr = 217" | "nr = 180" | "nr = 181" | "nr = 384"
    using t by (auto simp: transfer_row_def split: if_splits)
  then show ?thesis
  proof cases
    case 1
    then show ?thesis using t by (intro exI [of _ "lxp_sys_read h"]) (simp add: d transfer_row_def q)
  next
    case 2
    then show ?thesis using t by (intro exI [of _ "lxp_sys_write h"]) (simp add: d transfer_row_def q)
  next
    case 3
    then show ?thesis using t by (intro exI [of _ "ret_kernel (lxp_sys_getdents h)"]) (simp add: d transfer_row_def q)
  next
    case 4
    then show ?thesis using t by (intro exI [of _ "ret_kernel (lxp_sys_getdents64 h)"]) (simp add: d transfer_row_def q)
  next
    case 5
    then show ?thesis using t by (intro exI [of _ "ret_kernel lxp_sys_pread64"]) (simp add: d transfer_row_def q)
  next
    case 6
    then show ?thesis using t by (intro exI [of _ "ret_kernel lxp_sys_pwrite64"]) (simp add: d transfer_row_def q)
  next
    case 7
    moreover have "i = 1" "q = 4096" using 7 t by (simp_all add: transfer_row_def q)
    ultimately show ?thesis by (intro exI [of _ "ret_kernel (lxp_sys_getrandom h)"]) (simp add: d del: One_nat_def)
  qed
qed

lemma transfer_row_facts: "transfer_row nr = Some (i, q) \<Longrightarrow> q \<le> 65536 \<and> (i = (if nr = 384 then 1 else 2))"
  by (auto simp: transfer_row_def LXP_SYSCALL_QUANTUM_BYTES_def LXP_SYSCALL_FILE_QUANTUM_BYTES_def split: if_splits)

text \<open>C35.  The work of one call is bounded, whatever count the guest asks for.  Read, write, the directory reads and
  getrandom move at most \<^verbatim>\<open>LXP_SYSCALL_QUANTUM_BYTES\<close> (4096) bytes, the positioned calls at most
  \<^verbatim>\<open>LXP_SYSCALL_FILE_QUANTUM_BYTES\<close> (65536), and never more than was asked for; a call that parks leaves no more than that
  to its later attempt.  A count within the quantum reaches the handler with every register unchanged,
  and a larger one gives exactly the result of asking for one quantum.  A gathered write, which has no count
  register, moves at most 4096 bytes.  The host's console write is assumed to report no more bytes than
  it was given.\<close>

theorem transfers_are_bounded:
  assumes h: "host_ok h" "\<And>fd bs. ih_write h fd bs \<le> int (length bs)"
    and c: "lxp_syscall execve h k p nr a = (p', k', rc)"
  shows "(nr = 146 \<longrightarrow> rc \<le> int LXP_SYSCALL_QUANTUM_BYTES \<and> parks_within p p' LXP_SYSCALL_QUANTUM_BYTES)
    \<and> (\<forall>i q. transfer_row nr = Some (i, q) \<longrightarrow>
         rc \<le> int (min q (to_u32 (a i))) \<and> parks_within p p' (min q (to_u32 (a i)))
       \<and> (to_u32 (a i) \<le> q \<longrightarrow> (\<exists>fn fl. sys_row execve h nr = Some (fn, fl) \<and> fn k p a = (p', k', rc)))
       \<and> (q < to_u32 (a i) \<longrightarrow> lxp_syscall execve h k p nr (a(i := int q)) = (p', k', rc)))"
proof (intro conjI allI impI)
  assume "nr = 146"
  then have "sys_writev h k p (a 0) (to_u32 (a 1)) (a 2) = (p', k', rc)"
    using c by (simp add: lxp_syscall_def sys_row_def g_lxp_sys_table_def clamp_args_def clamp_reg_def has_flag_def lxp_sys_writev_def)
  then show "rc \<le> int LXP_SYSCALL_QUANTUM_BYTES" "parks_within p p' LXP_SYSCALL_QUANTUM_BYTES"
    using writev_bounded [OF h(2)] by blast+
next
  fix i q assume t: "transfer_row nr = Some (i, q)"
  let ?n = "min q (to_u32 (a i))"
  define b where "b = a(i := if to_u32 (a i) > q then int q else a i)"
  note f = transfer_row_facts [OF t]
  obtain fn where F: "\<And>x. lxp_syscall execve h k p nr x = fn k p (x(i := if to_u32 (x i) > q then int q else x i))"
    and row: "\<exists>fl. sys_row execve h nr = Some (fn, fl)" and fn: "fn = lxp_sys_read h \<and> nr = 3 \<or> fn = lxp_sys_write h \<and> nr = 4 \<or> fn = ret_kernel (lxp_sys_getdents h) \<and> nr = 141
       \<or> fn = ret_kernel (lxp_sys_getdents64 h) \<and> nr = 217 \<or> fn = ret_kernel lxp_sys_pread64 \<and> nr = 180
       \<or> fn = ret_kernel lxp_sys_pwrite64 \<and> nr = 181 \<or> fn = ret_kernel (lxp_sys_getrandom h) \<and> nr = 384"
    using transfer_call [OF t, of execve h k p] by blast
  have r: "fn k p b = (p', k', rc)" using c F [of a] by (simp only: b_def)
  have u: "to_u32 (b i) = ?n" unfolding b_def using f to_u32_small by simp
  have i: "nr \<noteq> 384 \<longrightarrow> i = 2" "nr = 384 \<longrightarrow> i = 1" using f by simp_all
  have "rc \<le> int ?n \<and> parks_within p p' ?n"
    using fn
  proof (elim disjE conjE)
    assume x: "fn = lxp_sys_read h" "nr = 3"
    have "sys_read h k p (b 0) (to_u32 (b 1)) (to_u32 (b i)) = (p', k', rc)" using r i x by (simp add: lxp_sys_read_def)
    from read_bounded [OF h(1) this] show ?thesis unfolding u .
  next
    assume x: "fn = lxp_sys_write h" "nr = 4"
    have "sys_write h k p (b 0) (to_u32 (b 1)) (to_u32 (b i)) = (p', k', rc)" using r i x by (simp add: lxp_sys_write_def)
    from write_bounded [OF h(2) this] show ?thesis unfolding u .
  next
    assume x: "fn = ret_kernel (lxp_sys_getdents h)" "nr = 141"
    have "sys_getdents64 h k p (b 0) (to_u32 (b 1)) (to_u32 (b i)) False = (k', rc)" and p: "p' = p"
      using r i x by (auto simp: ret_kernel_def lxp_sys_getdents_def)
    from getdents_bounded [OF this(1)] show ?thesis unfolding u by (simp add: p)
  next
    assume x: "fn = ret_kernel (lxp_sys_getdents64 h)" "nr = 217"
    have "sys_getdents64 h k p (b 0) (to_u32 (b 1)) (to_u32 (b i)) True = (k', rc)" and p: "p' = p"
      using r i x by (auto simp: ret_kernel_def lxp_sys_getdents64_def)
    from getdents_bounded [OF this(1)] show ?thesis unfolding u by (simp add: p)
  next
    assume x: "fn = ret_kernel lxp_sys_pread64" "nr = 180"
    have "lxp_sys_fd_pread k p (b 0) (to_u32 (b 1)) (to_u32 (b i)) (reg_pair (b 4) (b 5)) = (k', rc)" and p: "p' = p"
      using r i x by (auto simp: ret_kernel_def lxp_sys_pread64_def)
    from positioned_bounded(1) [OF this(1)] show ?thesis unfolding u by (simp add: p)
  next
    assume x: "fn = ret_kernel lxp_sys_pwrite64" "nr = 181"
    have "sys_pwrite k p (b 0) (to_u32 (b 1)) (to_u32 (b i)) (reg_pair (b 4) (b 5)) = (k', rc)" and p: "p' = p"
      using r i x by (auto simp: ret_kernel_def lxp_sys_pwrite64_def)
    from positioned_bounded(2) [OF this(1)] show ?thesis unfolding u by (simp add: p)
  next
    assume x: "fn = ret_kernel (lxp_sys_getrandom h)" "nr = 384"
    have "sys_getrandom h k p (to_u32 (b 0)) (to_u32 (b i)) (to_u32 (b 2)) = (k', rc)" and p: "p' = p"
      using r i x by (auto simp: ret_kernel_def lxp_sys_getrandom_def)
    from getrandom_bounded [OF this(1)] show ?thesis unfolding u by (simp add: p)
  qed
  then show "rc \<le> int ?n" "parks_within p p' ?n" by simp_all
  show "\<exists>fn fl. sys_row execve h nr = Some (fn, fl) \<and> fn k p a = (p', k', rc)" if "to_u32 (a i) \<le> q"
    using row r that by (auto simp: b_def)
  assume "q < to_u32 (a i)"
  moreover have "to_u32 (int q) = q" using f to_u32_small by simp
  ultimately show "lxp_syscall execve h k p nr (a(i := int q)) = (p', k', rc)" using r by (simp add: F b_def)
qed

theorem transfers_are_bounded_witness:
  "\<exists>p' k'. lxp_syscall (\<lambda>k p a. (p, k, 0)) demo_host demo_machine (demo_proc 0) 384 ((\<lambda>_. 0)(0 := 131072, 1 := 100000)) = (p', k', 4096)
     \<and> lxp_syscall (\<lambda>k p a. (p, k, 0)) demo_host demo_machine (demo_proc 0) 384 ((\<lambda>_. 0)(0 := 131072, 1 := 4096)) = (p', k', 4096)"
proof -
  let ?e = "(\<lambda>k p a. (p, k, 0)) :: handler" and ?a = "((\<lambda>_. 0)(0 := 131072, 1 := 100000)) :: sysargs"
  let ?b = "((\<lambda>_. 0)(0 := 131072, 1 := 4096)) :: sysargs"
  have m: "mc_mm demo_machine = demo_mm" by (simp add: demo_machine_def kernel_boot_def)
  have t: "transfer_row 384 = Some (1, 4096)" by (simp add: transfer_row_def LXP_SYSCALL_QUANTUM_BYTES_def)
  have w: "ih_write demo_host fd bs \<le> int (length bs)" for fd bs by (simp add: demo_host_def)
  obtain p' k' rc where c: "lxp_syscall ?e demo_host demo_machine (demo_proc 0) 384 ?a = (p', k', rc)" by (rule prod_cases3)
  have ba: "?a(1 := int 4096) = ?b" by (rule ext) simp
  have b: "lxp_syscall ?e demo_host demo_machine (demo_proc 0) 384 ?b = (p', k', rc)"
    using transfers_are_bounded [OF demo_host_ok w c, THEN conjunct2, rule_format, OF t] unfolding ba by (simp add: to_u32_def)
  have R: "snd (lxp_random_fill_guest demo_host k x n e) = int n" for k x n e
    by (simp add: lxp_random_fill_guest_def demo_host_def)
  have "sys_getrandom demo_host demo_machine (demo_proc 0) 131072 4096 0 = (k', rc) \<and> p' = demo_proc 0"
    using b by (auto simp add: lxp_syscall_def sys_row_def g_lxp_sys_table_def clamp_args_def clamp_reg_def has_flag_def
        ret_kernel_def lxp_sys_getrandom_def to_u32_def LXP_SYSCALL_QUANTUM_BYTES_def)
  then have "lxp_random_fill_guest demo_host demo_machine 131072 4096 LXP_ENOSYS = (k', rc)"
    using demo_guest [OF _ _ m, of 131072 4096 True] by (simp add: sys_getrandom_def)
  then have "rc = 4096" using R [of demo_machine 131072 4096 LXP_ENOSYS] by simp
  then show ?thesis using b c by auto
qed

section \<open>Signal masks\<close>

text \<open>Neither SIGKILL nor SIGSTOP is blocked.\<close>

definition killable :: "proc \<Rightarrow> bool" where
  "killable p \<longleftrightarrow> p_sig_blocked p AND unblockable = 0"

definition handler_kill :: "handler \<Rightarrow> bool" where
  "handler_kill f \<longleftrightarrow> (\<forall>k p a. killable p \<longrightarrow> killable (fst (f k p a)))"

named_theorems kill_rows \<open>the handlers of the table\<close>

lemma masked: "(w AND NOT u) AND u = (0 :: 64 word)"
  by (rule bit_word_eqI) (auto simp: bit_simps)

lemma killable_mask [simp]: "killable (p\<lparr>p_sig_blocked := w AND NOT unblockable\<rparr>)"
  by (simp add: killable_def masked)

lemma park_mask: "lxp_wait_park now p w = (p', rc) \<Longrightarrow> p_sig_blocked p' = p_sig_blocked p"
  "lxp_wait_begin now p w = (p', rc) \<Longrightarrow> p_sig_blocked p' = p_sig_blocked p"
  by (auto simp: lxp_wait_park_def lxp_wait_begin_def Let_def split: if_splits prod.splits)

lemma park_fst: "p_sig_blocked (fst (lxp_wait_park now p w)) = p_sig_blocked p" "p_sig_blocked (fst (lxp_wait_begin now p w)) = p_sig_blocked p"
  using park_mask by (metis surj_pair fst_conv)+

lemma exit_mask: "p_sig_blocked (lxp_intent_exit p b) = p_sig_blocked p" "p_sig_blocked (lxp_signal_terminate p s r d a) = p_sig_blocked p"
  by (simp_all add: lxp_intent_exit_def lxp_signal_terminate_def)

lemma ret_kill [kill_rows]: "handler_kill (ret_kernel f)" "handler_kill (ret_int g)"
  by (simp_all add: handler_kill_def ret_kernel_def ret_int_def)

lemma kill_same_row:
  assumes "\<And>k p a. p_sig_blocked (fst (f k p a)) = p_sig_blocked p" shows "handler_kill f"
  using assms by (simp add: handler_kill_def killable_def)

lemma read_mask: "p_sig_blocked (fst (sys_read h k p fd buf len)) = p_sig_blocked p"
proof (cases "fd_lookup k p fd")
  case (Some oi)
  have "vfs_read h k p oi buf len = Some r \<Longrightarrow> p_sig_blocked (fst r) = p_sig_blocked p" for r
    by (cases "ofd_kind (k_ofd k oi)")
      (auto simp: vfs_read_def fop_read_console_def fop_read_pipe_def Let_def park_mask split: if_splits prod.splits)
  then show ?thesis using Some by (auto simp: sys_read_def split: option.split)
qed (simp add: sys_read_def)

lemma write_mask: "p_sig_blocked (fst (sys_write h k p fd buf len)) = p_sig_blocked p"
proof (cases "fd_lookup k p fd")
  case (Some oi)
  have "vfs_write h k p oi buf len = Some r \<Longrightarrow> p_sig_blocked (fst r) = p_sig_blocked p" for r
    by (cases "ofd_kind (k_ofd k oi)")
      (auto simp: vfs_write_def fop_write_pipe_def Let_def park_mask exit_mask split: if_splits prod.splits)
  then show ?thesis using Some by (auto simp: sys_write_def split: option.split)
qed (simp add: sys_write_def)

lemma writev_mask: "p_sig_blocked (fst (writev_loop h fd iov single n i k p sofar budget)) = p_sig_blocked p"
proof (induction n arbitrary: i k p sofar budget)
  case (Suc n)
  show ?case
  proof (cases "lxp_copy_from_guest k p (uptr (iov + 8 * i)) 8")
    case None
    then show ?thesis by simp
  next
    case (Some entry)
    let ?len = "if bytes_u32 (drop 4 entry) < budget then bytes_u32 (drop 4 entry) else budget"
    obtain p1 k1 r where w: "sys_write h k p fd (bytes_u32 (take 4 entry)) ?len = (p1, k1, r)" by (metis prod_cases3)
    have "p_sig_blocked p1 = p_sig_blocked p" using write_mask [of h k p fd "bytes_u32 (take 4 entry)" ?len] w by simp
    then show ?thesis unfolding writev_step [OF Some refl refl refl w] using Suc.IH by (cases single) (simp_all split: if_split)
  qed
qed simp

lemma rw_kill [kill_rows]: "handler_kill (lxp_sys_read h)" "handler_kill (lxp_sys_write h)" "handler_kill (lxp_sys_writev h)"
  by (rule kill_same_row; simp add: lxp_sys_read_def read_mask lxp_sys_write_def write_mask lxp_sys_writev_def sys_writev_def Let_def writev_mask split: option.split)+

lemma exit_kill [kill_rows]: "handler_kill lxp_sys_exit" "handler_kill lxp_sys_exit_group" "handler_kill lxp_sys_reboot" "handler_kill lxp_sys_nice"
  by (rule kill_same_row;
      simp add: lxp_sys_exit_def lxp_sys_exit_group_def sys_exit_def lxp_sys_reboot_def lxp_sys_nice_def lxp_proc_nice_set_def Let_def exit_mask)+

lemma sleep_mask: "p_sig_blocked (fst (sleep_for h k p r t)) = p_sig_blocked p"
  unfolding sleep_for_def Let_def by (simp add: split_beta park_fst split: option.split)

lemma time_kill [kill_rows]: "handler_kill (lxp_sys_nanosleep h)" "handler_kill (lxp_sys_clock_nanosleep h)"
  "handler_kill (lxp_sys_clock_nanosleep_time64 h)" "handler_kill (lxp_sys_setitimer h)" "handler_kill (lxp_sys_wait4 h)"
  by (rule kill_same_row; simp add: lxp_sys_nanosleep_def lxp_sys_clock_nanosleep_def lxp_sys_clock_nanosleep_time64_def sleep_mask
      lxp_sys_setitimer_def lxp_sys_wait4_def Let_def split_beta park_fst split: option.split)+

lemma poll_kill [kill_rows]: "handler_kill (lxp_sys_poll h)" "handler_kill (lxp_sys_ppoll_time64 h)" "handler_kill (lxp_sys_pselect6_time64 h)"
  by (rule kill_same_row; simp add: lxp_sys_poll_def lxp_sys_ppoll_time64_def poll_entry_def lxp_sys_pselect6_time64_def pselect6_entry_def
      poll_park_def Let_def split_beta park_fst split: option.split)+

lemma kill_if: "killable (fst x) \<Longrightarrow> killable (fst y) \<Longrightarrow> killable (fst (if b then x else y))"
  by simp

lemma kill_pair: "killable p \<Longrightarrow> killable (fst (p, r))"
  by simp

lemma kill_either: "killable p \<Longrightarrow> killable q \<Longrightarrow> killable (if b then p else q)"
  by simp

lemma sigprocmask_kill: "killable p \<Longrightarrow> killable (fst (lxp_sys_rt_sigprocmask k p a))"
proof -
  assume k: "killable p"
  show ?thesis
  proof (cases "if to_u32 (a 1) \<noteq> 0 then lxp_copy_from_guest k p (to_u32 (a 1)) (to_u32 (a 3)) else Some []")
    case None
    show ?thesis unfolding lxp_sys_rt_sigprocmask_def Let_def None option.case by (intro kill_if kill_pair k)
  next
    case (Some bs)
    show ?thesis unfolding lxp_sys_rt_sigprocmask_def Let_def Some option.case split_beta sigmask_after_def
      by (intro kill_if kill_pair kill_either killable_mask k)
  qed
qed

lemma sigsuspend_kill: "killable p \<Longrightarrow> killable (fst (lxp_sys_rt_sigsuspend h k p a))"
proof (cases "lxp_copy_from_guest k p (to_u32 (a 0)) 8")
  case (Some bs)
  assume k: "killable p"
  let ?q = "p\<lparr>p_sigsuspend_saved_mask := p_sig_blocked p, p_sig_blocked := sigset_of 8 bs AND NOT unblockable, p_sigsuspend_active := True\<rparr>"
  have q: "killable ?q" by (simp add: killable_def masked)
  have "p_sig_blocked (fst (lxp_wait_begin n ?q w)) = p_sig_blocked ?q" for n w by (rule park_fst)
  then have "killable (fst (lxp_wait_begin n ?q w))" for n w using q by (simp only: killable_def)
  then show ?thesis unfolding lxp_sys_rt_sigsuspend_def Let_def Some option.case split_beta
    by (intro kill_if kill_pair k q)
next
  case None
  assume "killable p"
  then show ?thesis unfolding lxp_sys_rt_sigsuspend_def Let_def None option.case by (intro kill_if kill_pair)
qed

lemma sigtimedwait_mask: "p_sig_blocked (fst (lxp_sys_rt_sigtimedwait_time64 k p a)) = p_sig_blocked p"
proof (cases "if to_u32 (a 0) \<noteq> 0 then lxp_copy_from_guest k p (to_u32 (a 0)) (to_u32 (a 3)) else Some []")
  case None
  show ?thesis unfolding lxp_sys_rt_sigtimedwait_time64_def Let_def None option.case by simp
next
  case (Some bs)
  show ?thesis unfolding lxp_sys_rt_sigtimedwait_time64_def Let_def Some option.case by (simp del: of_nat_add)
qed

lemma signal_kill [kill_rows]: "handler_kill lxp_sys_rt_sigprocmask" "handler_kill (lxp_sys_rt_sigsuspend h)"
  "handler_kill lxp_sys_rt_sigtimedwait_time64"
  subgoal using sigprocmask_kill by (simp add: handler_kill_def)
  subgoal using sigsuspend_kill by (simp add: handler_kill_def)
  subgoal by (rule kill_same_row [OF sigtimedwait_mask])
  done

lemma table_kill: "handler_kill execve \<Longrightarrow> \<forall>(nr, f, fl) \<in> set (g_lxp_sys_table execve h). handler_kill f"
  by (simp add: g_lxp_sys_table_def kill_rows)

lemma killable_bits: "killable p \<Longrightarrow> s = LXP_SIGKILL \<or> s = LXP_SIGSTOP \<Longrightarrow> p_sig_blocked p AND lxp_sig_bit s = 0"
proof -
  assume k: "killable p" and s: "s = LXP_SIGKILL \<or> s = LXP_SIGSTOP"
  have "lxp_sig_bit s = unblockable AND lxp_sig_bit s"
    using s by (elim disjE) (simp_all add: unblockable_def word_ao_dist and.assoc [symmetric])
  then have "p_sig_blocked p AND lxp_sig_bit s = (p_sig_blocked p AND unblockable) AND lxp_sig_bit s" by (simp add: and.assoc)
  then show ?thesis using k by (simp add: killable_def)
qed

text \<open>C10.  No system call ever leaves SIGKILL or SIGSTOP blocked, whatever mask the guest asks for and through
  whichever call it sets it.\<close>

theorem kill_and_stop_never_blocked:
  assumes k: "killable p" and nr: "nr \<noteq> LXP_NR_execve" and c: "lxp_syscall execve h k p nr a = (p', k', rc)"
  shows "killable p' \<and> p_sig_blocked p' AND lxp_sig_bit LXP_SIGKILL = 0 \<and> p_sig_blocked p' AND lxp_sig_bit LXP_SIGSTOP = 0"
proof -
  have "killable p'"
  proof (cases "sys_row execve h nr")
    case None
    then show ?thesis using c k by (auto simp: lxp_syscall_def split: if_splits)
  next
    case (Some r)
    obtain f fl where r: "r = (f, fl)" by (metis surj_pair)
    define idle :: handler where "idle = (\<lambda>k p a. (p, k, 0))"
    have i: "handler_kill idle" by (simp add: handler_kill_def idle_def)
    have "map_of (g_lxp_sys_table execve h) nr = map_of (g_lxp_sys_table idle h) nr"
      using nr by (simp add: g_lxp_sys_table_def)
    then have "(nr, f, fl) \<in> set (g_lxp_sys_table idle h)" using Some r by (metis sys_row_def map_of_SomeD)
    then have "handler_kill f" using table_kill [OF i] by fastforce
    then have "killable (fst (f k p (clamp_args fl a)))" using k unfolding handler_kill_def by blast
    then show ?thesis using c k by (auto simp: lxp_syscall_def Some r split: if_splits)
  qed
  then show ?thesis using killable_bits by blast
qed

theorem kill_and_stop_never_blocked_witness:
  "\<exists>p' k'. lxp_syscall (\<lambda>k p a. (p, k, 0)) demo_host (demo_machine\<lparr>mc_mem := (\<lambda>_. 255)\<rparr>) (demo_proc 0) 175
       ((\<lambda>_. 0)(0 := 2, 1 := 131072, 3 := 8)) = (p', k', 0)
     \<and> p_sig_blocked p' AND lxp_sig_bit LXP_SIGPIPE \<noteq> 0 \<and> p_sig_blocked p' AND lxp_sig_bit LXP_SIGKILL = 0"
proof -
  let ?e = "(\<lambda>k p a. (p, k, 0)) :: handler" and ?a = "((\<lambda>_. 0)(0 := 2, 1 := 131072, 3 := 8)) :: sysargs"
  let ?k = "demo_machine\<lparr>mc_mem := (\<lambda>_. 255)\<rparr>"
  have m: "mc_mm ?k = demo_mm" by (simp add: demo_machine_def kernel_boot_def)
  obtain p' k' rc where c: "lxp_syscall ?e demo_host ?k (demo_proc 0) 175 ?a = (p', k', rc)" by (rule prod_cases3)
  have "lxp_copy_from_guest ?k (demo_proc 0) 131072 8 = Some [255, 255, 255, 255, 255, 255, 255, 255]"
    using demo_guest [OF _ _ m, of 131072 8 False] by (simp add: lxp_copy_from_guest_def mem_read_def upt_rec)
  moreover have "lxp_syscall ?e demo_host ?k (demo_proc 0) 175 ?a = lxp_sys_rt_sigprocmask ?k (demo_proc 0) ?a"
    by (simp add: lxp_syscall_def sys_row_def g_lxp_sys_table_def clamp_args_def clamp_reg_def has_flag_def)
  ultimately have s: "rc = 0" "p_sig_blocked p' = sigmask_after 2 0 (sigset_of 8 [255, 255, 255, 255, 255, 255, 255, 255])"
    using c demo_guest [OF _ _ m, of 131072 8 False]
    by (auto simp: lxp_sys_rt_sigprocmask_def to_u32_def demo_proc_def proc_zero_def)
  have "p_sig_blocked p' AND lxp_sig_bit LXP_SIGPIPE \<noteq> 0" unfolding s(2)
    by (simp add: sigmask_after_def sigset_of_def le_value_def unblockable_def lxp_sig_bit_def)
  moreover have "killable (demo_proc 0)" by (simp add: killable_def demo_proc_def proc_zero_def)
  then have "p_sig_blocked p' AND lxp_sig_bit LXP_SIGKILL = 0"
    using kill_and_stop_never_blocked [OF _ _ c] by simp
  ultimately show ?thesis using c s(1) by blast
qed

section \<open>Mappings\<close>

definition task_heap :: "kernel \<Rightarrow> nat \<Rightarrow> mem \<times> arena" where
  "task_heap k ai = (mc_mem k, k_arena k ai)"

lemma set_mapping_ok [simp]:
  "arena_ok m (arena_set_mapping ar i a n) bs = arena_ok m ar bs" "a_base (arena_set_mapping ar i a n) = a_base ar"
  by (simp_all add: arena_ok_def arena_set_mapping_def)

lemma good_live: "arena_ok m ar bs \<Longrightarrow> coalesced bs \<Longrightarrow> arena_good (m, ar) \<and> arena_live (m, ar) = allocd (a_base ar) bs"
  using arena_goodI [of m ar bs] arena_blocks_ok [of m ar bs] by (simp add: arena_live_def)

lemma alloc_tracked_ok:
  assumes g: "arena_good (m, ar)" and r: "lxp_arena_alloc_tracked m ar n = (m', ar', a)" and z: "m2 = mem_fill m' a n 0"
  shows "a = 0 \<and> m' = m \<and> ar' = ar \<or> (\<exists>l i. a \<noteq> 0 \<and> n \<le> l \<and> arena_good (m2, ar') \<and> arena_live (m2, ar') = insert (a, l) (arena_live (m, ar))
     \<and> (\<forall>(b, j) \<in> arena_live (m, ar). b + j \<le> a \<or> a + l \<le> b) \<and> keeps (arena_live (m, ar)) m m2 \<and> mem_read m2 a n = replicate n 0
     \<and> i < LXP_ARENA_MAX_MAPPINGS \<and> a_mappings ar' i = \<lparr>map_addr = a, map_len = n\<rparr>)"
proof -
  obtain bs where b: "arena_ok m ar bs" "coalesced bs" "arena_live (m, ar) = allocd (a_base ar) bs"
    using arena_goodE [OF g] by (metis prod.inject)
  obtain m1 ar1 p where al: "lxp_arena_alloc m ar n = (m1, ar1, p)" by (metis prod_cases3)
  consider (fail) "a = 0" "m' = m" "ar' = ar" | (ok) i where "p = a" "a \<noteq> 0" "m' = m1" "ar' = arena_set_mapping ar1 i a n" "i < LXP_ARENA_MAX_MAPPINGS"
  proof (cases "scan (\<lambda>i. map_addr (a_mappings ar i) = 0) 0 LXP_ARENA_MAX_MAPPINGS")
    case None
    then show ?thesis using that(1) r by (simp add: lxp_arena_alloc_tracked_def)
  next
    case (Some i)
    show ?thesis
    proof (cases "p = 0")
      case True
      then show ?thesis using that(1) r Some al arena_alloc_fail(1,2) [OF b(1)] by (simp add: lxp_arena_alloc_tracked_def)
    next
      case False
      then show ?thesis using that(2) [of i] r Some al scan_SomeD(2) [OF Some] by (auto simp: lxp_arena_alloc_tracked_def)
    qed
  qed
  then show ?thesis
  proof cases
    case ok
    obtain bs' l where A: "arena_ok m1 ar1 bs'" "allocd (a_base ar) bs' = insert (p, l) (allocd (a_base ar) bs)"
      "n \<le> l" "0 < l" "aligned p" "keeps (allocd (a_base ar) bs) m m1" "\<forall>(b, j) \<in> allocd (a_base ar) bs. b + j \<le> p \<or> p + l \<le> b"
      "a_base ar1 = a_base ar" "a_size ar1 = a_size ar" "a_mappings ar1 = a_mappings ar" "coalesced bs \<longrightarrow> coalesced bs'"
      using arena_alloc_ok [OF b(1) al ok(2) [folded ok(1)]] .
    note A = A [unfolded ok(1)]
    have "arena_ok m2 ar1 bs'"
      by (rule payload_write_ok [OF A(1), of a l]) (use A(2,3,8) z ok(3) in \<open>auto simp: mem_fill_def\<close>)
    then have ok2: "arena_ok m2 ar' bs'" "a_base ar' = a_base ar" using ok(4) A(8) by simp_all
    have L: "arena_good (m2, ar')" "arena_live (m2, ar') = insert (a, l) (arena_live (m, ar))"
      using good_live [OF ok2(1)] A(2,11) b(2,3) ok2(2) by simp_all
    have "keeps (allocd (a_base ar) bs) m1 m2"
    proof (rule keepsI)
      fix b j x assume "(b, j) \<in> allocd (a_base ar) bs" "b \<le> x" "x < b + j"
      then have "x < a \<or> a + l \<le> x" using A(7) by fastforce
      then show "m2 x = m1 x" using z ok(3) A(3) by (auto simp: mem_fill_def)
    qed
    then have K: "keeps (arena_live (m, ar)) m m2" unfolding b(3) by (rule keeps_trans [OF A(6)])
    have "mem_read m2 a n = replicate n 0" by (rule nth_equalityI) (simp_all add: z mem_read_def mem_fill_def)
    then show ?thesis using ok A(3,7) L K b(3)
      by (intro disjI2 exI [of _ l] exI [of _ i]) (simp add: arena_set_mapping_def)
  qed simp
qed

lemma free_tracked_ok:
  assumes g: "arena_good (m, ar)" and l: "(a, l) \<in> arena_live (m, ar)" and i: "i < LXP_ARENA_MAX_MAPPINGS" "a_mappings ar i = \<lparr>map_addr = a, map_len = n\<rparr>"
  shows "\<exists>m' ar'. lxp_arena_free_tracked m ar a n = (m', ar', True) \<and> arena_good (m', ar')
    \<and> arena_live (m', ar') = arena_live (m, ar) - {(a, l)} \<and> keeps (arena_live (m, ar)) m m'"
proof -
  obtain bs where b: "arena_ok m ar bs" "coalesced bs" "arena_live (m, ar) = allocd (a_base ar) bs"
    using arena_goodE [OF g] by (metis prod.inject)
  have l': "(a, l) \<in> allocd (a_base ar) bs" using l b(3) by simp
  let ?ar = "ar\<lparr>a_used := a_used ar - (16 + l)\<rparr>"
  obtain m' bs' where F: "arena_free_block m ar a = (m', ?ar, True)" "arena_ok m' ?ar bs'"
    "allocd (a_base ar) bs' = allocd (a_base ar) bs - {(a, l)}" "keeps (allocd (a_base ar) bs) m m'" "coalesced bs'"
    using arena_free_ok [OF b(1) l'] b(2) by metis
  obtain j where "scan (\<lambda>i. map_addr (a_mappings ar i) = a \<and> map_len (a_mappings ar i) = n) 0 LXP_ARENA_MAX_MAPPINGS = Some j"
    using scan_ex [of 0 i LXP_ARENA_MAX_MAPPINGS "\<lambda>i. map_addr (a_mappings ar i) = a \<and> map_len (a_mappings ar i) = n"] i by auto
  then have "lxp_arena_free_tracked m ar a n = (m', arena_set_mapping ?ar j 0 0, True)"
    using allocd_bounds [OF l'] F(1) by (simp add: lxp_arena_free_tracked_def)
  moreover have "arena_good (m', arena_set_mapping ?ar j 0 0) \<and> arena_live (m', arena_set_mapping ?ar j 0 0) = allocd (a_base ar) bs'"
    using good_live [of m' "arena_set_mapping ?ar j 0 0" bs'] F(2,5) by simp
  ultimately show ?thesis using F(3,4) b(3) by auto
qed

lemma live_owned:
  assumes g: "arena_good (m, ar)" and l: "(b, l) \<in> arena_live (m, ar)" "0 < l"
  shows "lxp_arena_owns ar b"
proof -
  obtain bs where b: "arena_ok m ar bs" "arena_live (m, ar) = allocd (a_base ar) bs"
    using arena_goodE [OF g] by (metis prod.inject)
  have "(b, l) \<in> allocd (a_base ar) bs" using l b(2) by simp
  from allocd_bounds [OF this] l(2) arena_okD(3,6) [OF b(1)] show ?thesis by (simp add: lxp_arena_owns_def SIZE_MAX_def)
qed

text \<open>C8.  An anonymous mapping is memory of its own: it fails with \<^verbatim>\<open>ENOMEM\<close> and no change, or gives a block
  that is apart from every live block of the task, at least as long as asked for and all zero, while
  every live block keeps its bytes; unmapping it with the same address and length succeeds and leaves
  exactly the blocks there were.\<close>

theorem mmap_gives_fresh_zeroed_memory:
  assumes a: "p_mm p = Some mi" "mm_arena (mc_mm k mi) = Some ai" and g: "arena_good (task_heap k ai)"
    and f: "has_flag flags LXP_MAP_ANONYMOUS" "0 < len" and r: "sys_mmap2 k p len prot flags fd pgoff = (k1, rc)"
  shows "rc = - LXP_ENOMEM \<and> k1 = k \<or> (\<exists>b l k2. rc = to_int32 b \<and> len \<le> l
      \<and> arena_live (task_heap k1 ai) = insert (b, l) (arena_live (task_heap k ai))
      \<and> (\<forall>(c, j) \<in> arena_live (task_heap k ai). (c + j \<le> b \<or> b + l \<le> c) \<and> mem_read (mc_mem k1) c j = mem_read (mc_mem k) c j)
      \<and> mem_read (mc_mem k1) b len = replicate len 0
      \<and> sys_munmap k1 p b len = (k2, 0) \<and> arena_good (task_heap k2 ai) \<and> arena_live (task_heap k2 ai) = arena_live (task_heap k ai)
      \<and> (\<forall>(c, j) \<in> arena_live (task_heap k ai). mem_read (mc_mem k2) c j = mem_read (mc_mem k) c j))"
proof -
  let ?m = "mc_mem k" and ?ar = "k_arena k ai"
  obtain m1 ar1 b where al: "lxp_arena_alloc_tracked ?m ?ar len = (m1, ar1, b)" by (metis prod_cases3)
  have r': "mmap_private k p ai len False fd pgoff = (k1, rc)" using r a f by (simp add: sys_mmap2_def)
  have g': "arena_good (?m, ?ar)" using g by (simp add: task_heap_def)
  let ?m2 = "mem_fill m1 b len 0"
  from alloc_tracked_ok [OF g' al refl] show ?thesis
  proof (elim disjE exE)
    assume "b = 0 \<and> m1 = ?m \<and> ar1 = ?ar"
    then show ?thesis using r' by (simp add: mmap_private_def al arena_put_k_def)
  next
    fix l i
    assume H: "b \<noteq> 0 \<and> len \<le> l \<and> arena_good (?m2, ar1) \<and> arena_live (?m2, ar1) = insert (b, l) (arena_live (?m, ?ar))
      \<and> (\<forall>(c, j) \<in> arena_live (?m, ?ar). c + j \<le> b \<or> b + l \<le> c) \<and> keeps (arena_live (?m, ?ar)) ?m ?m2 \<and> mem_read ?m2 b len = replicate len 0
      \<and> i < LXP_ARENA_MAX_MAPPINGS \<and> a_mappings ar1 i = \<lparr>map_addr = b, map_len = len\<rparr>"
    have k1: "k1 = arena_put_k k ai (?m2, ar1)" "rc = to_int32 b" using r' H by (auto simp: mmap_private_def al Let_def)
    have h1: "mc_mem k1 = ?m2" "k_arena k1 ai = ar1" "mc_mm k1 = mc_mm k" by (simp_all add: k1(1) arena_put_k_def)
    obtain m3 ar3 where F: "lxp_arena_free_tracked ?m2 ar1 b len = (m3, ar3, True)" "arena_good (m3, ar3)"
      "arena_live (m3, ar3) = arena_live (?m2, ar1) - {(b, l)}" "keeps (arena_live (?m2, ar1)) ?m2 m3"
      using free_tracked_ok [of ?m2 ar1 b l i len] H by auto
    have own: "lxp_arena_owns ar1 b" by (rule live_owned [of ?m2 ar1 b l]) (use H f(2) in auto)
    define k2 where "k2 = arena_put_k k1 ai (m3, ar3)"
    have u: "sys_munmap k1 p b len = (k2, 0)" using a f(2) own F(1) by (simp add: sys_munmap_def h1 k2_def)
    have h2: "mc_mem k2 = m3" "k_arena k2 ai = ar3" by (simp_all add: k2_def arena_put_k_def)
    have "(b, l) \<notin> arena_live (?m, ?ar)"
    proof
      assume "(b, l) \<in> arena_live (?m, ?ar)"
      then have "b + l \<le> b \<or> b + l \<le> b" using H by fastforce
      then show False using H f(2) by simp
    qed
    then have live: "arena_live (m3, ar3) = arena_live (?m, ?ar)" using F(3) H by auto
    have keep: "mem_read ?m2 c j = mem_read ?m c j" "mem_read m3 c j = mem_read ?m c j" if "(c, j) \<in> arena_live (?m, ?ar)" for c j
      using keepsD [of "arena_live (?m, ?ar)" ?m ?m2 c j] keepsD [OF F(4), of c j] H that by auto
    have T: "task_heap k ai = (?m, ?ar)" "task_heap k1 ai = (?m2, ar1)" "task_heap k2 ai = (m3, ar3)" by (simp_all add: task_heap_def h1 h2)
    have "\<forall>(c, j) \<in> arena_live (?m, ?ar). (c + j \<le> b \<or> b + l \<le> c) \<and> mem_read ?m2 c j = mem_read ?m c j" using H keep(1) by blast
    moreover have "\<forall>(c, j) \<in> arena_live (?m, ?ar). mem_read m3 c j = mem_read ?m c j" using keep(2) by blast
    ultimately show ?thesis
      using H k1(2) u live F(2) by (intro disjI2 exI [of _ b] exI [of _ l] exI [of _ k2] conjI) (simp_all add: T h1(1) h2(1))
  qed
qed

theorem mmap_gives_fresh_zeroed_memory_witness:
  "\<exists>k k1 k2 b. sys_mmap2 k (demo_proc 0) 100 3 0x20 (- 1) 0 = (k1, to_int32 b) \<and> mem_read (mc_mem k1) b 100 = replicate 100 0
     \<and> sys_munmap k1 (demo_proc 0) b 100 = (k2, 0) \<and> arena_live (task_heap k2 0) = arena_live (task_heap k 0)"
proof (rule arena_alloc_bss)
  fix m0 ar0 m1 ar1
  assume i: "lxp_arena_init (\<lambda>_. 0) arena_bss 4096 4096 = (m0, ar0, init_result.LXP_OK)" "arena_ok m0 ar0 [(4080, True)]"
    "lxp_arena_alloc m0 ar0 100 = (m1, ar1, 4112)"
  define k where "k = demo_machine\<lparr>mc_mem := m0, k_arena := (\<lambda>_. ar0)\<rparr>"
  have h: "task_heap k 0 = (m0, ar0)" "mc_mem k = m0" "k_arena k 0 = ar0" "mm_arena (mc_mm k 0) = Some 0" "p_mm (demo_proc 0) = Some 0"
    by (simp_all add: k_def task_heap_def demo_machine_def demo_mm_def demo_proc_def)
  have g: "arena_good (task_heap k 0)" unfolding h by (rule arena_goodI [OF i(2)]) (simp add: coalesced_def)
  have "map_addr (a_mappings ar0 j) = 0" for j
    using i(1) by (auto simp: lxp_arena_init_def align_down_def Let_def arena_lay_first_def arena_clear_mappings_def SIZE_MAX_def)
  then have "scan (\<lambda>i. map_addr (a_mappings ar0 i) = 0) 0 LXP_ARENA_MAX_MAPPINGS = Some 0"
    by (intro scan_first) (simp_all add: LXP_ARENA_MAX_MAPPINGS_def)
  then have t: "lxp_arena_alloc_tracked m0 ar0 100 = (m1, arena_set_mapping ar1 0 4112 100, 4112)"
    by (simp add: lxp_arena_alloc_tracked_def i(3))
  have f: "has_flag 0x20 LXP_MAP_ANONYMOUS" by (simp add: has_flag_def)
  obtain k1 rc where r: "sys_mmap2 k (demo_proc 0) 100 3 0x20 (- 1) 0 = (k1, rc)" by (metis surj_pair)
  then have "rc = to_int32 4112" by (simp add: sys_mmap2_def h f mmap_private_def t Let_def)
  then have "rc \<noteq> - LXP_ENOMEM" by (simp add: to_int32_def)
  then show ?thesis using mmap_gives_fresh_zeroed_memory [OF h(5,4) g f _ r] r by auto
qed

section \<open>Children\<close>

text \<open>The queue of child state changes, oldest first, and what a wait may report of it.\<close>

definition child_queue :: "thread_group \<Rightarrow> (int \<times> int \<times> child_kind) list" where
  "child_queue g = map (\<lambda>i. (tg_child_pid g i, tg_child_status g i, tg_child_kind g i)) [0..<tg_child_count g]"

definition child_wanted :: "int \<Rightarrow> nat \<Rightarrow> int \<times> int \<times> child_kind \<Rightarrow> bool" where
  "child_wanted wpid options c \<longleftrightarrow> (wpid \<le> 0 \<or> fst c = wpid) \<and> (snd (snd c) = CHILD_STOPPED \<longrightarrow> has_flag options LXP_WUNTRACED)"

definition wait_word :: "int \<times> int \<times> child_kind \<Rightarrow> int" where
  "wait_word c = (if snd (snd c) = CHILD_STOPPED then lxp_encode_wstopped (fst (snd c)) else lxp_encode_wstatus (fst (snd c)))"

lemma child_queue_nth: "i < tg_child_count g \<Longrightarrow> child_queue g ! i = (tg_child_pid g i, tg_child_status g i, tg_child_kind g i)"
  "length (child_queue g) = tg_child_count g"
  by (simp_all add: child_queue_def)

lemma child_matches_wanted:
  "i < tg_child_count g \<Longrightarrow> child_matches g wpid options i = child_wanted wpid options (child_queue g ! i)"
  by (auto simp: child_matches_def child_wanted_def child_queue_nth)

lemma child_take_queue:
  assumes "i < tg_child_count g"
  shows "child_queue (child_take g i) = take i (child_queue g) @ drop (Suc i) (child_queue g)"
proof (rule nth_equalityI)
  show "length (child_queue (child_take g i)) = length (take i (child_queue g) @ drop (Suc i) (child_queue g))"
    using assms by (simp add: child_queue_nth child_take_def)
  fix j assume "j < length (child_queue (child_take g i))"
  then have "j < tg_child_count g - 1" by (simp add: child_queue_nth child_take_def)
  then show "child_queue (child_take g i) ! j = (take i (child_queue g) @ drop (Suc i) (child_queue g)) ! j"
    using assms by (auto simp: child_queue_def child_take_def drop_at_def nth_append min_def)
qed

lemma scan_queue:
  assumes "scan (child_matches g wpid options) 0 (tg_child_count g) = Some i"
  shows "i < tg_child_count g" "child_queue g = take i (child_queue g) @ child_queue g ! i # drop (Suc i) (child_queue g)"
    "child_wanted wpid options (child_queue g ! i)" "\<forall>c \<in> set (take i (child_queue g)). \<not> child_wanted wpid options c"
proof -
  have s: "i < tg_child_count g" "child_matches g wpid options i" "\<forall>j < i. \<not> child_matches g wpid options j"
    using assms by (auto simp: scan_Some)
  then show "i < tg_child_count g" "child_wanted wpid options (child_queue g ! i)" by (simp_all add: child_matches_wanted)
  show "child_queue g = take i (child_queue g) @ child_queue g ! i # drop (Suc i) (child_queue g)"
    using s(1) by (intro id_take_nth_drop) (simp add: child_queue_nth)
  show "\<forall>c \<in> set (take i (child_queue g)). \<not> child_wanted wpid options c"
    using s(1,3) child_matches_wanted [of _ g wpid options] by (auto simp: in_set_conv_nth child_queue_nth)
qed

text \<open>C11.  \<^verbatim>\<open>wait4\<close> reports the oldest queued change it may see (its pid, or any; a stop only when asked for)
  and takes exactly that one off the queue, storing its status word.  With none it changes
  nothing but the caller's wait: no living child is an error, \<^verbatim>\<open>WNOHANG\<close> answers zero, and otherwise
  the caller waits for a child.\<close>

theorem wait4_reaps_in_order:
  assumes g: "p_group p = Some gi" and st: "to_u32 (a 1) = 0 \<or> lxp_guest_access_ok k p (to_u32 (a 1)) 4 True"
    and r: "lxp_sys_wait4 h k p a = (p', k', rc)"
  defines "q \<equiv> child_queue (k_groups k gi)" and "want \<equiv> child_wanted (a 0) (to_u32 (a 2))"
  shows "if \<exists>c \<in> set q. want c then
      p' = p \<and> (\<exists>old c new. q = old @ c # new \<and> want c \<and> (\<forall>x \<in> set old. \<not> want x) \<and> rc = fst c
        \<and> child_queue (k_groups k' gi) = old @ new \<and> (\<forall>gj. gj \<noteq> gi \<longrightarrow> k_groups k' gj = k_groups k gj)
        \<and> tg_live_children (k_groups k' gi) = tg_live_children (k_groups k gi)
        \<and> mc_mem k' = (if to_u32 (a 1) = 0 then mc_mem k else mem_write (mc_mem k) (to_u32 (a 1)) (u32_bytes (to_u32 (wait_word c)))))
    else k' = k \<and> (if tg_live_children (k_groups k gi) = 0 then p' = p \<and> rc = - LXP_ECHILD
        else if has_flag (to_u32 (a 2)) LXP_WNOHANG then p' = p \<and> rc = 0
        else (p', rc) = lxp_wait_park (ih_now_us h) p (wait_zero\<lparr>wt_kind := WAIT_CHILD, wt_data := WD_child (a 0) (a 2) (to_u32 (a 1))\<rparr>))"
proof (cases "scan (child_matches (k_groups k gi) (a 0) (to_u32 (a 2))) 0 (tg_child_count (k_groups k gi))")
  case (Some i)
  let ?g = "k_groups k gi"
  note S = scan_queue [OF Some, folded q_def want_def]
  have ex: "\<exists>c \<in> set q. want c" using S(1,3) by (metis child_queue_nth(2) nth_mem q_def)
  define k1 where "k1 = group_put k gi (child_take ?g i)"
  have w: "(if tg_child_kind ?g i = CHILD_STOPPED then lxp_encode_wstopped (tg_child_status ?g i)
      else lxp_encode_wstatus (tg_child_status ?g i)) = wait_word (q ! i)"
    using S(1) by (simp add: wait_word_def q_def child_queue_nth)
  have e: "p' = p" "rc = fst (q ! i)"
    "k' = (if to_u32 (a 1) \<noteq> 0 then fst (lxp_guest_put_u32 k1 p (to_u32 (a 1)) (to_u32 (wait_word (q ! i)))) else k1)"
    using r st S(1) unfolding lxp_sys_wait4_def Let_def g option.case Some w k1_def [symmetric]
    by (auto simp: q_def child_queue_nth split: if_splits)
  have acc: "lxp_guest_access_ok k1 p x n b = lxp_guest_access_ok k p x n b" for x n b
    by (rule access_cong) (simp add: k1_def group_put_def confined_def)
  have k': "k_groups k' = (k_groups k)(gi := child_take ?g i)"
    "mc_mem k' = (if to_u32 (a 1) = 0 then mc_mem k else mem_write (mc_mem k) (to_u32 (a 1)) (u32_bytes (to_u32 (wait_word (q ! i)))))"
    using st by (auto simp: e(3) lxp_guest_put_u32_def lxp_copy_to_guest_def acc [unfolded k1_def group_put_def] k1_def group_put_def)
  show ?thesis unfolding if_P [OF ex] using S e(1,2) k' child_take_queue [OF S(1)]
    by (intro conjI exI [of _ "take i q"] exI [of _ "q ! i"] exI [of _ "drop (Suc i) q"]) (simp_all add: q_def child_take_def)
next
  case None
  have "\<not> (\<exists>c \<in> set q. want c)"
    using None child_matches_wanted [of _ "k_groups k gi" "a 0" "to_u32 (a 2)"]
    by (auto simp: q_def want_def scan_None in_set_conv_nth child_queue_nth)
  then show ?thesis using r st unfolding lxp_sys_wait4_def Let_def g option.case None
    by (auto split: if_splits prod.splits)
qed

theorem wait4_reaps_in_order_witness:
  "\<exists>p' k'. lxp_sys_wait4 demo_host (demo_machine\<lparr>k_groups := (\<lambda>_. thread_group_zero\<lparr>tg_child_pid := (\<lambda>i. 10 + int i), tg_child_count := 2,
       tg_child_kind := (\<lambda>i. if i = 0 then CHILD_STOPPED else CHILD_EXITED)\<rparr>)\<rparr>) ((demo_proc 0)\<lparr>p_group := Some 0\<rparr>)
       ((\<lambda>_. 0)(0 := - 1)) = (p', k', 11) \<and> child_queue (k_groups k' 0) = [(10, 0, CHILD_STOPPED)]"
proof -
  let ?g = "thread_group_zero\<lparr>tg_child_pid := (\<lambda>i. 10 + int i), tg_child_count := 2, tg_child_kind := (\<lambda>i. if i = 0 then CHILD_STOPPED else CHILD_EXITED)\<rparr>"
  let ?k = "demo_machine\<lparr>k_groups := (\<lambda>_. ?g)\<rparr>" and ?p = "(demo_proc 0)\<lparr>p_group := Some 0\<rparr>" and ?a = "((\<lambda>_. 0)(0 := - 1)) :: sysargs"
  obtain p' k' rc where r: "lxp_sys_wait4 demo_host ?k ?p ?a = (p', k', rc)" by (rule prod_cases3)
  have g: "p_group ?p = Some 0" and s: "to_u32 (?a 1) = 0 \<or> lxp_guest_access_ok ?k ?p (to_u32 (?a 1)) 4 True" by (simp_all add: to_u32_def)
  have q: "child_queue (k_groups ?k 0) = [(10, 0, CHILD_STOPPED), (11, 0, CHILD_EXITED)]"
    by (simp add: child_queue_def upt_rec thread_group_zero_def)
  have w: "\<not> child_wanted (?a 0) (to_u32 (?a 2)) (10, 0, CHILD_STOPPED)" "child_wanted (?a 0) (to_u32 (?a 2)) (11, 0, CHILD_EXITED)"
    by (simp_all add: child_wanted_def to_u32_def has_flag_def)
  have ex: "\<exists>c \<in> set (child_queue (k_groups ?k 0)). child_wanted (?a 0) (to_u32 (?a 2)) c" unfolding q using w(2) by simp
  from wait4_reaps_in_order [OF g s r, unfolded if_P [OF ex]]
  obtain old c new where c: "[(10, 0, CHILD_STOPPED), (11, 0, CHILD_EXITED)] = old @ c # new" "child_wanted (?a 0) (to_u32 (?a 2)) c"
    "rc = fst c" "child_queue (k_groups k' 0) = old @ new" unfolding q by blast
  have "old = [(10, 0, CHILD_STOPPED)] \<and> c = (11, 0, CHILD_EXITED) \<and> new = []"
    using c(1,2) w(1) by (cases old rule: list.exhaust; cases "tl old") auto
  then show ?thesis using r c(3,4) by auto
qed

section \<open>The wall clock\<close>

lemma sdiv_nonneg: "0 \<le> (x::int) \<Longrightarrow> 0 < y \<Longrightarrow> x sdiv y = x div y" "0 \<le> (x::int) \<Longrightarrow> 0 < y \<Longrightarrow> x smod y = x mod y"
  by (auto simp: signed_divide_int_def signed_modulo_int_def sgn_if)

lemma split_seconds:
  assumes "0 \<le> (n::int)" shows "(s * LXP_NS_PER_SEC + n) div LXP_NS_PER_SEC = s + n div LXP_NS_PER_SEC"
    "(s * LXP_NS_PER_SEC + n) mod LXP_NS_PER_SEC = n mod LXP_NS_PER_SEC"
  by (simp_all add: LXP_NS_PER_SEC_def)

lemma now_after_set:
  assumes s: "set_realtime h k sec nsec = (k', 0)" and t: "uptime_ns h' = uptime_ns h + d" "0 \<le> d"
    and b: "sec * LXP_NS_PER_SEC + nsec + d \<le> INT64_MAX"
  shows "now_sec_nsec h' k' 0 = (nat (sec + (nsec + d) div LXP_NS_PER_SEC), nat ((nsec + d) mod LXP_NS_PER_SEC))"
proof -
  have v: "0 \<le> sec" "0 \<le> nsec" and k': "k_realtime_offset_ns k' = sec * LXP_NS_PER_SEC + nsec - LXP_BOOT_EPOCH_NS - uptime_ns h"
    using s by (auto simp: set_realtime_def split: if_splits)
  let ?n = "nsec + d"
  have ns: "uptime_ns h' + (LXP_BOOT_EPOCH_NS + k_realtime_offset_ns k') = sec * LXP_NS_PER_SEC + ?n" by (simp add: k' t)
  have n: "0 \<le> ?n" using v t by simp
  have pos: "0 < LXP_NS_PER_SEC" by (simp add: LXP_NS_PER_SEC_def)
  have t0: "0 \<le> sec * LXP_NS_PER_SEC + ?n" using v n pos by simp
  have q: "0 \<le> sec + ?n div LXP_NS_PER_SEC" using v n pos by (simp add: pos_imp_zdiv_nonneg_iff)
  have "sec + ?n div LXP_NS_PER_SEC = (sec * LXP_NS_PER_SEC + ?n) div LXP_NS_PER_SEC" by (simp only: split_seconds(1) [OF n])
  also have "\<dots> \<le> INT64_MAX div LXP_NS_PER_SEC" by (rule zdiv_mono1) (use b pos in \<open>simp_all add: add.assoc\<close>)
  finally have "(sec + ?n div LXP_NS_PER_SEC) mod 2 ^ 64 = sec + ?n div LXP_NS_PER_SEC"
    using q by (intro mod_pos_pos_trivial) (simp_all add: INT64_MAX_def LXP_NS_PER_SEC_def)
  moreover have "(?n mod LXP_NS_PER_SEC) mod 2 ^ 32 = ?n mod LXP_NS_PER_SEC"
  proof (rule mod_pos_pos_trivial)
    show "0 \<le> ?n mod LXP_NS_PER_SEC" "?n mod LXP_NS_PER_SEC < 2 ^ 32"
      using pos_mod_bound [OF pos, of ?n] pos_mod_sign [OF pos, of ?n] by (simp_all add: LXP_NS_PER_SEC_def)
  qed
  ultimately show ?thesis
    using t0 pos by (simp add: now_sec_nsec_def Let_def ns sdiv_nonneg split_seconds [OF n])
qed

text \<open>C36.  After \<^verbatim>\<open>clock_settime\<close> the real-time clock reads the time that was set plus what has passed since,
  normalised to seconds and nanoseconds, without rounding and for every time the call accepts; the
  other clocks do not notice.\<close>

theorem clock_reads_what_was_set:
  assumes w: "lxp_copy_from_guest k p (to_u32 (a 1)) 16 = Some bs" and s: "lxp_sys_clock_settime64 h k p a = (k1, 0)"
    and r: "lxp_sys_clock_gettime64 h' k1 p b = (k2, 0)" "b 0 = 0"
    and t: "uptime_ns h' = uptime_ns h + d" "0 \<le> d"
    and bound: "to_int64 (le_value (take 8 bs)) * LXP_NS_PER_SEC + to_int64 (le_value (drop 8 bs)) + d \<le> INT64_MAX"
  shows "mem_read (mc_mem k2) (to_u32 (b 1)) 16
      = le_bytes 8 (nat (to_int64 (le_value (take 8 bs)) + (to_int64 (le_value (drop 8 bs)) + d) div LXP_NS_PER_SEC))
        @ le_bytes 8 (nat ((to_int64 (le_value (drop 8 bs)) + d) mod LXP_NS_PER_SEC))
    \<and> (\<forall>c. c \<noteq> 0 \<longrightarrow> now_sec_nsec h' k1 c = now_sec_nsec h' k c)"
proof -
  have s': "set_realtime h k (to_int64 (le_value (take 8 bs))) (to_int64 (le_value (drop 8 bs))) = (k1, 0)"
    using s w by (auto simp: lxp_sys_clock_settime64_def split: if_splits)
  note N = now_after_set [OF s' t bound]
  let ?bs = "le_bytes 8 (nat (to_int64 (le_value (take 8 bs)) + (to_int64 (le_value (drop 8 bs)) + d) div LXP_NS_PER_SEC))
        @ le_bytes 8 (nat ((to_int64 (le_value (drop 8 bs)) + d) mod LXP_NS_PER_SEC))"
  have "store_or_fault k1 p (to_u32 (b 1)) ?bs = (k2, 0)" using r by (simp add: lxp_sys_clock_gettime64_def N)
  then have "mc_mem k2 = mem_write (mc_mem k1) (to_u32 (b 1)) ?bs"
    by (auto simp: store_or_fault_def lxp_copy_to_guest_def Let_def split: if_splits)
  then have "mem_read (mc_mem k2) (to_u32 (b 1)) 16 = ?bs" by (simp add: mem_read_write_same)
  moreover have "now_sec_nsec h' k1 c = now_sec_nsec h' k c" if "c \<noteq> 0" for c using that by (simp add: now_sec_nsec_def Let_def)
  ultimately show ?thesis by blast
qed

lemma le_value_zero: "le_value (replicate n 0) = 0"
  by (induction n) (simp_all add: le_value_def)

theorem clock_reads_what_was_set_witness:
  "\<exists>k1 k2. lxp_sys_clock_settime64 demo_host demo_machine (demo_proc 0) ((\<lambda>_. 131072)(0 := 0)) = (k1, 0)
     \<and> lxp_sys_clock_gettime64 (demo_host\<lparr>ih_now_ns := 1000005007\<rparr>) k1 (demo_proc 0) ((\<lambda>_. 140000)(0 := 0)) = (k2, 0)
     \<and> mem_read (mc_mem k2) 140000 16 = le_bytes 8 1 @ le_bytes 8 7"
proof -
  let ?a = "((\<lambda>_. 131072)(0 := 0)) :: sysargs" and ?b = "((\<lambda>_. 140000)(0 := 0)) :: sysargs" and ?h = "demo_host\<lparr>ih_now_ns := 1000005007\<rparr>"
  have u: "to_u32 (?a 1) = 131072" "to_u32 (?b 1) = 140000" by (simp_all add: to_u32_def)
  have m: "mc_mem demo_machine = (\<lambda>_. 0)" "mc_mm demo_machine = demo_mm" by (simp_all add: demo_machine_def kernel_boot_def)
  have z0: "mem_read (\<lambda>_. 0) 131072 16 = replicate 16 0" by (simp only: mem_read_def map_replicate_const length_upt) simp
  have w: "lxp_copy_from_guest demo_machine (demo_proc 0) (to_u32 (?a 1)) 16 = Some (replicate 16 0)"
    unfolding u using demo_guest [OF _ _ m(2), of 131072 16 False] z0 by (simp add: lxp_copy_from_guest_def m(1))
  have z: "to_int64 (le_value (take 8 (replicate 16 0))) = 0" "to_int64 (le_value (drop 8 (replicate 16 0))) = 0"
    by (simp_all add: to_int64_def le_value_zero)
  obtain k1 rc1 where s: "lxp_sys_clock_settime64 demo_host demo_machine (demo_proc 0) ?a = (k1, rc1)" by (metis surj_pair)
  have s0: "rc1 = 0" "mc_mm k1 = demo_mm"
    using s w z m(2) by (auto simp: lxp_sys_clock_settime64_def set_realtime_def LXP_NS_PER_SEC_def INT64_MAX_def signed_divide_int_def)
  obtain k2 rc2 where r: "lxp_sys_clock_gettime64 ?h k1 (demo_proc 0) ?b = (k2, rc2)" by (metis surj_pair)
  have "to_u32 140000 = 140000" by (simp add: to_u32_def)
  then have "rc2 = 0" using r demo_guest [OF _ _ s0(2), of 140000 16 True]
    by (auto simp: lxp_sys_clock_gettime64_def store_or_fault_def lxp_copy_to_guest_def split: prod.splits)
  then have r0: "lxp_sys_clock_gettime64 ?h k1 (demo_proc 0) ?b = (k2, 0)" using r by simp
  have t: "uptime_ns ?h = uptime_ns demo_host + 1000000007" by (simp add: uptime_ns_def demo_host_def to_int64_def)
  have "mem_read (mc_mem k2) (to_u32 (?b 1)) 16 = le_bytes 8 1 @ le_bytes 8 7"
    using clock_reads_what_was_set [OF w s [unfolded s0(1)] r0 _ t] z by (simp add: LXP_NS_PER_SEC_def INT64_MAX_def)
  then show ?thesis using s s0(1) r0 u(2) by auto
qed

section \<open>poll and select\<close>

text \<open>What one entry of a scan reports.\<close>

definition poll_answer :: "io_host \<Rightarrow> kernel \<Rightarrow> proc \<Rightarrow> int option \<Rightarrow> pollfd \<Rightarrow> nat" where
  "poll_answer h k p tmo e =
     (if pl_fd e < 0 then 0
      else (case fd_lookup k p (pl_fd e) of
              None \<Rightarrow> LXP_POLLNVAL
            | Some oi \<Rightarrow> pl_events e AND poll_mask h k p tmo oi AND LXP_POLL_EVENTS))"

lemma poll_scan_answers:
  "poll_scan h k p tmo pf = (pf', ready, wt) \<Longrightarrow> pf' = map (\<lambda>e. e\<lparr>pl_revents := poll_answer h k p tmo e\<rparr>) pf
     \<and> ready = int (length (filter (\<lambda>e. poll_answer h k p tmo e \<noteq> 0) pf))
     \<and> (wt \<longleftrightarrow> (\<exists>e \<in> set pf. \<exists>oi. 0 \<le> pl_fd e \<and> fd_lookup k p (pl_fd e) = Some oi \<and> poll_answer h k p tmo e = 0 \<and> poll_waitable k p oi))"
proof (induction pf arbitrary: pf' ready wt)
  case (Cons e es)
  obtain es' r w where s: "poll_scan h k p tmo es = (es', r, w)" by (metis prod_cases3)
  note IH = Cons.IH [OF s]
  show ?case
  proof (cases "pl_fd e < 0")
    case True
    then show ?thesis using Cons.prems IH by (auto simp: s poll_answer_def)
  next
    case False
    show ?thesis
    proof (cases "fd_lookup k p (pl_fd e)")
      case None
      then show ?thesis using Cons.prems IH False by (auto simp: s poll_answer_def)
    next
      case (Some oi)
      let ?r = "pl_events e AND poll_mask h k p tmo oi AND LXP_POLL_EVENTS"
      have a: "poll_answer h k p tmo e = ?r" using Some False by (simp add: poll_answer_def)
      have step: "poll_scan h k p tmo (e # es) = (if ?r \<noteq> 0 then (e\<lparr>pl_revents := ?r\<rparr> # es', r + 1, w)
          else (e\<lparr>pl_revents := 0\<rparr> # es', r, w \<or> poll_waitable k p oi))"
        using Some False by (simp add: s Let_def)
      show ?thesis
      proof (cases "?r = 0")
        case True
        then show ?thesis using Cons.prems IH Some False a unfolding step by auto
      next
        case ne: False
        then show ?thesis using Cons.prems IH a unfolding step by auto
      qed
    qed
  qed
qed simp

lemma flag_bits: "has_flag x 1 \<longleftrightarrow> bit x 0" "has_flag x 4 \<longleftrightarrow> bit x 2" "has_flag x 32 \<longleftrightarrow> bit x 5"
proof -
  have "has_flag x (2 ^ n) \<longleftrightarrow> bit x n" for n
    by (simp add: has_flag_def and_exp_eq_0_iff_not_bit)
  from this [of 0] this [of 2] this [of 5] show "has_flag x 1 \<longleftrightarrow> bit x 0" "has_flag x 4 \<longleftrightarrow> bit x 2" "has_flag x 32 \<longleftrightarrow> bit x 5" by simp_all
qed

lemma sel_word_bit: "bit (sel_word ev pf) n \<longleftrightarrow> (\<exists>e \<in> set pf. has_flag (pl_revents e) ev \<and> nat (pl_fd e) = n)"
proof -
  have "bit (fold (\<lambda>e w. w OR 2 ^ nat (pl_fd e)) es w) n \<longleftrightarrow> bit (w :: nat) n \<or> (\<exists>e \<in> set es. nat (pl_fd e) = n)" for es :: "pollfd list" and w
    by (induction es arbitrary: w) (auto simp: bit_simps)
  then show ?thesis by (auto simp: sel_word_def)
qed

text \<open>What \<^verbatim>\<open>poll\<close> reports of one descriptor asked for \<open>ev\<close>.\<close>

definition poll_one :: "io_host \<Rightarrow> kernel \<Rightarrow> proc \<Rightarrow> int option \<Rightarrow> nat \<Rightarrow> nat \<Rightarrow> nat" where
  "poll_one h k p tmo ev fd =
     pl_revents (hd (fst (poll_scan h k p tmo [\<lparr>pl_fd = int fd, pl_events = ev, pl_revents = 0\<rparr>])))"

text \<open>The descriptors of a set below the bound that a parked \<^verbatim>\<open>poll\<close> would report for \<open>ev\<close>.\<close>

definition sel_ready :: "io_host \<Rightarrow> kernel \<Rightarrow> proc \<Rightarrow> nat \<Rightarrow> nat \<Rightarrow> nat \<Rightarrow> nat set" where
  "sel_ready h k p n ev r = {fd. fd < n \<and> bit r fd \<and> has_flag (poll_one h k p None ev fd) ev}"

definition sel_stale :: "io_host \<Rightarrow> kernel \<Rightarrow> proc \<Rightarrow> nat \<Rightarrow> nat \<Rightarrow> bool" where
  "sel_stale h k p n r \<longleftrightarrow> (\<exists>fd < n. bit r fd \<and> has_flag (poll_one h k p None 0 fd) LXP_POLLNVAL)"

lemma poll_one_answer: "poll_one h k p tmo ev fd = poll_answer h k p tmo \<lparr>pl_fd = int fd, pl_events = ev, pl_revents = 0\<rparr>"
proof -
  let ?e = "\<lparr>pl_fd = int fd, pl_events = ev, pl_revents = 0\<rparr>"
  obtain pf n w where s: "poll_scan h k p tmo [?e] = (pf, n, w)" by (metis prod_cases3)
  from poll_scan_answers [OF s] show ?thesis unfolding poll_one_def s by simp
qed

lemma poll_one_nval: "has_flag (poll_one h k p tmo ev fd) LXP_POLLNVAL \<longleftrightarrow> fd_lookup k p (int fd) = None"
  by (auto simp: poll_one_answer poll_answer_def flag_bits bit_simps LXP_POLL_EVENTS_def bit_numeral_rec split: option.split)

text \<open>The answers of a select scan: its entries, their words and their count.\<close>

lemma select_entries:
  assumes l: "sel_load k p (sl_readfds s) = Some r" "sel_load k p (sl_writefds s) = Some w"
    and b: "sel_build k p s = Some pf" and sc: "poll_scan h k p None pf = (pf', ready, wt)"
  defines "stale \<equiv> sel_stale h k p (sl_nfds s) r \<or> sel_stale h k p (sl_nfds s) w"
  shows "(\<exists>e \<in> set pf'. has_flag (pl_revents e) LXP_POLLNVAL) \<longleftrightarrow> stale"
    and "\<not> stale \<Longrightarrow> ready = 0 \<longleftrightarrow> sel_ready h k p (sl_nfds s) LXP_POLLIN r = {} \<and> sel_ready h k p (sl_nfds s) LXP_POLLOUT w = {}"
    and "ev \<in> {(LXP_POLLIN, r), (LXP_POLLOUT, w)} \<Longrightarrow> (\<forall>n. bit (sel_word (fst ev) pf') n \<longleftrightarrow> n \<in> sel_ready h k p (sl_nfds s) (fst ev) (snd ev))
      \<and> sel_count (fst ev) pf' = int (card (sel_ready h k p (sl_nfds s) (fst ev) (snd ev)))"
proof -
  let ?N = "sl_nfds s"
  define ans where "ans fd = poll_answer h k p None \<lparr>pl_fd = int fd, pl_events = sel_events r w fd, pl_revents = 0\<rparr>" for fd
  define ent where "ent fd = \<lparr>pl_fd = int fd, pl_events = sel_events r w fd, pl_revents = ans fd\<rparr>" for fd
  have A: "pf' = map (\<lambda>e. e\<lparr>pl_revents := poll_answer h k p None e\<rparr>) pf"
    "ready = int (length (filter (\<lambda>e. poll_answer h k p None e \<noteq> 0) pf))" using poll_scan_answers [OF sc] by auto
  have ev: "sel_events r w fd \<noteq> 0 \<longleftrightarrow> bit r fd \<or> bit w fd" for fd by (auto simp: sel_events_def)
  have B: "pf = map (\<lambda>fd. \<lparr>pl_fd = int fd, pl_events = sel_events r w fd, pl_revents = 0\<rparr>) (filter (\<lambda>fd. bit r fd \<or> bit w fd) [0..<?N])"
    using b l by (simp add: sel_build_def ev del: neq0_conv)
  have P: "pf' = map ent (filter (\<lambda>fd. bit r fd \<or> bit w fd) [0..<?N])"
    unfolding A(1) B by (simp add: ent_def ans_def)
  have E: "bit (sel_events r w fd) 0 \<longleftrightarrow> bit r fd" "bit (sel_events r w fd) 2 \<longleftrightarrow> bit w fd" "\<not> bit (sel_events r w fd) 5" for fd
    by (simp_all add: sel_events_def bit_simps bit_numeral_rec bit_0)
  have P5: "LXP_POLL_EVENTS = 2 ^ 0 OR 2 ^ 2" by (simp add: LXP_POLL_EVENTS_def)
  have EV: "bit LXP_POLL_EVENTS n \<longleftrightarrow> n = 0 \<or> n = 2" for n unfolding P5 by (simp only: bit_or_iff bit_exp_iff possible_bit_nat) auto
  have N: "has_flag (ans fd) LXP_POLLNVAL \<longleftrightarrow> fd_lookup k p (int fd) = None" for fd
    by (auto simp: ans_def poll_answer_def flag_bits bit_simps E EV bit_numeral_rec split: option.split)
  have ONE: "bit (1 :: nat) 0" "bit (4 :: nat) 2" "\<not> bit (32 :: nat) 0" "\<not> bit (32 :: nat) 2"
    by (simp_all add: bit_numeral_rec bit_0)
  have O: "odd LXP_POLL_EVENTS" "odd (sel_events r w fd) \<longleftrightarrow> bit r fd" for fd using EV [of 0] E(1) by (simp_all add: bit_0)
  have IN: "has_flag (ans fd) LXP_POLLIN \<longleftrightarrow> bit r fd \<and> has_flag (poll_one h k p None LXP_POLLIN fd) LXP_POLLIN" for fd
    unfolding ans_def poll_one_answer poll_answer_def flag_bits
    by (auto simp: bit_0 O even_and_iff simp del: one_and_eq and_one_eq split: option.split)
  have OUT: "has_flag (ans fd) LXP_POLLOUT \<longleftrightarrow> bit w fd \<and> has_flag (poll_one h k p None LXP_POLLOUT fd) LXP_POLLOUT" for fd
    unfolding ans_def poll_one_answer poll_answer_def flag_bits
    by (auto simp: bit_and_iff E EV ONE bit_0 simp del: one_and_eq and_one_eq split: option.split)
  have Z: "ans fd \<noteq> 0 \<longleftrightarrow> has_flag (ans fd) LXP_POLLIN \<or> has_flag (ans fd) LXP_POLLOUT" if "fd_lookup k p (int fd) \<noteq> None" for fd
    using that unfolding ans_def poll_answer_def flag_bits bit_eq_iff by (auto simp: bit_and_iff EV)
  have ST: "stale \<longleftrightarrow> (\<exists>fd < ?N. (bit r fd \<or> bit w fd) \<and> fd_lookup k p (int fd) = None)"
    by (auto simp: stale_def sel_stale_def poll_one_nval)
  show "(\<exists>e \<in> set pf'. has_flag (pl_revents e) LXP_POLLNVAL) \<longleftrightarrow> stale"
    unfolding ST P using N by (auto simp: ent_def)
  have R: "ready = int (length (filter (\<lambda>fd. ans fd \<noteq> 0) (filter (\<lambda>fd. bit r fd \<or> bit w fd) [0..<?N])))"
    unfolding A(2) B by (simp add: ans_def filter_map comp_def)
  show "ready = 0 \<longleftrightarrow> sel_ready h k p ?N LXP_POLLIN r = {} \<and> sel_ready h k p ?N LXP_POLLOUT w = {}" if "\<not> stale"
  proof -
    have "ready = 0 \<longleftrightarrow> (\<forall>fd < ?N. bit r fd \<or> bit w fd \<longrightarrow> ans fd = 0)" by (auto simp: R filter_empty_conv)
    also have "\<dots> \<longleftrightarrow> (\<forall>fd < ?N. bit r fd \<or> bit w fd \<longrightarrow> \<not> has_flag (ans fd) LXP_POLLIN \<and> \<not> has_flag (ans fd) LXP_POLLOUT)"
      using that Z unfolding ST by blast
    also have "\<dots> \<longleftrightarrow> sel_ready h k p ?N LXP_POLLIN r = {} \<and> sel_ready h k p ?N LXP_POLLOUT w = {}"
      unfolding IN OUT sel_ready_def by blast
    finally show ?thesis .
  qed
  have C: "(\<forall>n. bit (sel_word e pf') n \<longleftrightarrow> n \<in> sel_ready h k p ?N e x) \<and> sel_count e pf' = int (card (sel_ready h k p ?N e x))"
    if H: "\<And>fd. has_flag (ans fd) e \<longleftrightarrow> bit x fd \<and> has_flag (poll_one h k p None e fd) e" and x: "\<And>fd. bit x fd \<Longrightarrow> bit r fd \<or> bit w fd" for e x
  proof -
    have S: "sel_ready h k p ?N e x = {fd. fd < ?N \<and> (bit r fd \<or> bit w fd) \<and> has_flag (ans fd) e}"
      using x by (auto simp: sel_ready_def H)
    have "bit (sel_word e pf') n \<longleftrightarrow> n \<in> sel_ready h k p ?N e x" for n
      unfolding sel_word_bit S P by (auto simp: ent_def)
    moreover have "sel_count e pf' = int (length (filter (\<lambda>fd. (bit r fd \<or> bit w fd) \<and> has_flag (ans fd) e) [0..<?N]))"
      by (simp add: sel_count_def P filter_map comp_def ent_def conj_commute)
    moreover have "length (filter Q [0..<?N]) = card {fd. fd < ?N \<and> Q fd}" for Q
      by (simp add: length_filter_conv_card cong: conj_cong)
    ultimately show ?thesis unfolding S by simp
  qed
  show "ev \<in> {(LXP_POLLIN, r), (LXP_POLLOUT, w)} \<Longrightarrow> (\<forall>n. bit (sel_word (fst ev) pf') n \<longleftrightarrow> n \<in> sel_ready h k p ?N (fst ev) (snd ev))
      \<and> sel_count (fst ev) pf' = int (card (sel_ready h k p ?N (fst ev) (snd ev)))"
    using C [OF IN] C [OF OUT] by auto
qed

text \<open>Two optional sets do not overlap.\<close>

definition sets_apart :: "nat \<Rightarrow> nat \<Rightarrow> bool" where
  "sets_apart u v \<longleftrightarrow> u = 0 \<or> v = 0 \<or> u + 4 \<le> v \<or> v + 4 \<le> u"

definition set_writable :: "kernel \<Rightarrow> proc \<Rightarrow> nat \<Rightarrow> bool" where
  "set_writable k p u \<longleftrightarrow> u = 0 \<or> lxp_guest_access_ok k p u 4 True"

definition put_set :: "nat \<Rightarrow> nat \<Rightarrow> mem \<Rightarrow> mem" where
  "put_set u v m = (if u = 0 then m else mem_write m u (u32_bytes v))"

lemma sel_put_writable:
  assumes "set_writable k p u" shows "sel_put p u v (k\<lparr>mc_mem := m\<rparr>, 0) = (k\<lparr>mc_mem := put_set u v m\<rparr>, 0)"
  using assms by (auto simp: set_writable_def sel_put_def put_set_def lxp_guest_put_u32_def lxp_copy_to_guest_def)

lemma sets_apart_sym: "sets_apart u v \<Longrightarrow> sets_apart v u"
  by (auto simp: sets_apart_def)

lemma put_set_out: "u = 0 \<or> x < u \<or> u + 4 \<le> x \<Longrightarrow> put_set u v m x = m x"
  by (auto simp: put_set_def mem_simps)

lemma put_set_other: "sets_apart u a \<Longrightarrow> a \<noteq> 0 \<Longrightarrow> mem_read (put_set u v m) a 4 = mem_read m a 4"
  by (rule mem_read_cong) (auto simp: sets_apart_def put_set_out)

lemma put_set_same: "u \<noteq> 0 \<Longrightarrow> mem_read (put_set u v m) u 4 = u32_bytes v"
  by (simp add: put_set_def mem_simps)

lemma small_word: "(\<And>n. bit v n \<Longrightarrow> n < 32) \<Longrightarrow> (v :: nat) \<le> SIZE_MAX"
proof -
  assume "\<And>n. bit v n \<Longrightarrow> n < 32"
  then have "take_bit 32 v = v" by (auto simp: bit_eq_iff bit_take_bit_iff)
  then have "v < 2 ^ 32" by (metis take_bit_nat_less_exp)
  then show ?thesis by (simp add: SIZE_MAX_def)
qed

lemma sel_reload:
  assumes "sel_load k p u = Some r" "u \<noteq> 0 \<Longrightarrow> mem_read m u 4 = u32_bytes v" "u = 0 \<Longrightarrow> v = 0" "v \<le> SIZE_MAX"
  shows "sel_load (k\<lparr>mc_mem := m\<rparr>) p u = Some v"
  using assms bytes_u32_inverse [OF assms(4)]
  by (auto simp: sel_load_def lxp_guest_get_u32_def lxp_copy_from_guest_def split: if_splits)

text \<open>Select succeeded: it returns how many bits are left in the two sets, which are \<open>R\<close> and \<open>W\<close> when the guest
  reads them back, the third set is empty, and no other byte and no other part of the kernel changed.\<close>

definition sel_reports :: "kernel \<Rightarrow> proc \<Rightarrow> sel_set \<Rightarrow> nat set \<Rightarrow> nat set \<Rightarrow> kernel \<Rightarrow> int \<Rightarrow> bool" where
  "sel_reports k p s R W k' rc \<longleftrightarrow> rc = int (card R) + int (card W)
        \<and> (\<exists>r' w'. sel_load k' p (sl_readfds s) = Some r' \<and> sel_load k' p (sl_writefds s) = Some w'
             \<and> (\<forall>fd. bit r' fd \<longleftrightarrow> fd \<in> R) \<and> (\<forall>fd. bit w' fd \<longleftrightarrow> fd \<in> W))
        \<and> (sl_exceptfds s \<noteq> 0 \<longrightarrow> mem_read (mc_mem k') (sl_exceptfds s) 4 = u32_bytes 0)
        \<and> k' = k\<lparr>mc_mem := mc_mem k'\<rparr>
        \<and> (\<forall>x. mc_mem k' x \<noteq> mc_mem k x \<longrightarrow> (\<exists>u \<in> {sl_readfds s, sl_writefds s, sl_exceptfds s}. u \<noteq> 0 \<and> u \<le> x \<and> x < u + 4))"

text \<open>C37.  A select scan, the first of \<^verbatim>\<open>pselect6\<close> and every later one of a parked caller, reports what \<^verbatim>\<open>poll\<close> reports.
  When \<^verbatim>\<open>poll\<close> answers \<^verbatim>\<open>POLLNVAL\<close> for a descriptor of a set below the bound, that is when it is not open, the scan fails with
  \<^verbatim>\<open>EBADF\<close> and changes nothing.  When no descriptor is ready and the caller may wait, it returns \<^verbatim>\<open>EAGAIN\<close> and
  changes nothing.  Otherwise the sets the guest reads back are the descriptors of the given sets below
  the bound for which \<^verbatim>\<open>poll\<close> reports \<^verbatim>\<open>POLLIN\<close>, or \<^verbatim>\<open>POLLOUT\<close>, the result is their number, the third
  set is cleared, and nothing else changes.  The readiness is the one a parked \<^verbatim>\<open>poll\<close> sees; for every descriptor
  but the console a first \<^verbatim>\<open>poll\<close> with any timeout answers the same.  The sets are writable and do not overlap.\<close>

theorem select_agrees_with_poll:
  assumes l: "sel_load k p (sl_readfds s) = Some r" "sel_load k p (sl_writefds s) = Some w" and n: "sl_nfds s \<le> LXP_SEL_MAXFDS"
    and acc: "set_writable k p (sl_readfds s)" "set_writable k p (sl_writefds s)" "set_writable k p (sl_exceptfds s)"
    and dis: "sets_apart (sl_readfds s) (sl_writefds s)" "sets_apart (sl_readfds s) (sl_exceptfds s)" "sets_apart (sl_writefds s) (sl_exceptfds s)"
    and sc: "sel_scan h k p s may_wait = (k', rc)"
  defines "stale \<equiv> sel_stale h k p (sl_nfds s) r \<or> sel_stale h k p (sl_nfds s) w"
    and "R \<equiv> sel_ready h k p (sl_nfds s) LXP_POLLIN r" and "W \<equiv> sel_ready h k p (sl_nfds s) LXP_POLLOUT w"
  shows "(stale \<longrightarrow> k' = k \<and> rc = - LXP_EBADF)
    \<and> (\<not> stale \<and> R = {} \<and> W = {} \<and> may_wait \<longrightarrow> k' = k \<and> rc = - LXP_EAGAIN)
    \<and> (\<not> stale \<and> \<not> (R = {} \<and> W = {} \<and> may_wait) \<longrightarrow> sel_reports k p s R W k' rc)
    \<and> (\<forall>fd oi tmo ev. fd_lookup k p (int fd) = Some oi \<and> ofd_kind (k_ofd k oi) \<noteq> FD_CONSOLE \<longrightarrow>
         poll_one h k p tmo ev fd = poll_one h k p None ev fd)"
proof -
  obtain pf where b: "sel_build k p s = Some pf" using l by (simp add: sel_build_def)
  obtain pf' ready wt where p: "poll_scan h k p None pf = (pf', ready, wt)" by (metis prod_cases3)
  note S = select_entries [OF l b p]
  have st: "(\<exists>e \<in> set pf'. has_flag (pl_revents e) LXP_POLLNVAL) \<longleftrightarrow> stale" unfolding stale_def by (rule S(1))
  have rd: "ready = 0 \<longleftrightarrow> R = {} \<and> W = {}" if "\<not> stale" using S(2) that unfolding stale_def R_def W_def by blast
  let ?r = "sel_word LXP_POLLIN pf'" and ?w = "sel_word LXP_POLLOUT pf'"
  have br: "\<forall>fd. bit ?r fd \<longleftrightarrow> fd \<in> R" "sel_count LXP_POLLIN pf' = int (card R)"
    and bw: "\<forall>fd. bit ?w fd \<longleftrightarrow> fd \<in> W" "sel_count LXP_POLLOUT pf' = int (card W)"
    using S(3) [of "(LXP_POLLIN, r)"] S(3) [of "(LXP_POLLOUT, w)"] unfolding R_def W_def by simp_all
  have lo: "\<And>fd. fd \<in> R \<Longrightarrow> fd < 32" "\<And>fd. fd \<in> W \<Longrightarrow> fd < 32"
    using n by (simp_all add: R_def W_def sel_ready_def LXP_SEL_MAXFDS_def)
  have sm: "?r \<le> SIZE_MAX" "?w \<le> SIZE_MAX" using lo br(1) bw(1) by (blast intro: small_word)+
  have scan: "(k', rc) = (if stale then (k, - LXP_EBADF) else if ready = 0 \<and> may_wait then (k, - LXP_EAGAIN) else sel_writeback k p s pf')"
    using sc unfolding sel_scan_def b st [symmetric] by (simp add: p)
  define m where "m = put_set (sl_exceptfds s) 0 (put_set (sl_writefds s) ?w (put_set (sl_readfds s) ?r (mc_mem k)))"
  have wb: "sel_writeback k p s pf' = (k\<lparr>mc_mem := m\<rparr>, int (card R) + int (card W))"
    using sel_put_writable [OF acc(1), of _ "mc_mem k"] acc
    by (simp add: sel_writeback_def sel_put_writable br bw br(2) [simplified] m_def)
  have z: "sl_readfds s = 0 \<Longrightarrow> ?r = 0" "sl_writefds s = 0 \<Longrightarrow> ?w = 0"
    using l br(1) bw(1) by (auto simp: bit_eq_iff sel_load_def R_def W_def sel_ready_def)
  have mr: "sl_readfds s \<noteq> 0 \<Longrightarrow> mem_read m (sl_readfds s) 4 = u32_bytes ?r"
    using dis dis [THEN sets_apart_sym] by (simp add: m_def put_set_other put_set_same)
  have mw: "sl_writefds s \<noteq> 0 \<Longrightarrow> mem_read m (sl_writefds s) 4 = u32_bytes ?w"
    using dis dis [THEN sets_apart_sym] by (simp add: m_def put_set_other put_set_same)
  have me: "sl_exceptfds s \<noteq> 0 \<Longrightarrow> mem_read m (sl_exceptfds s) 4 = u32_bytes 0" by (simp add: m_def put_set_same)
  have mo: "\<forall>x. m x \<noteq> mc_mem k x \<longrightarrow> (\<exists>u \<in> {sl_readfds s, sl_writefds s, sl_exceptfds s}. u \<noteq> 0 \<and> u \<le> x \<and> x < u + 4)"
    by (intro allI impI, rule ccontr) (auto simp: m_def put_set_out not_less not_le)
  have "stale \<longrightarrow> k' = k \<and> rc = - LXP_EBADF" using scan by (auto split: if_splits)
  moreover have "\<not> stale \<and> R = {} \<and> W = {} \<and> may_wait \<longrightarrow> k' = k \<and> rc = - LXP_EAGAIN" using scan rd by (auto split: if_splits)
  moreover have "sel_reports k p s R W k' rc"
    if "\<not> stale" "\<not> (R = {} \<and> W = {} \<and> may_wait)"
  proof -
    have k': "k' = k\<lparr>mc_mem := m\<rparr>" "rc = int (card R) + int (card W)" using scan that rd wb by auto
    from sel_reload [OF l(1) mr z(1) sm(1)] sel_reload [OF l(2) mw z(2) sm(2)] br(1) bw(1)
    have "\<exists>r' w'. sel_load k' p (sl_readfds s) = Some r' \<and> sel_load k' p (sl_writefds s) = Some w'
             \<and> (\<forall>fd. bit r' fd \<longleftrightarrow> fd \<in> R) \<and> (\<forall>fd. bit w' fd \<longleftrightarrow> fd \<in> W)" unfolding k' by blast
    then show ?thesis unfolding sel_reports_def using me mo k' by simp
  qed
  moreover have "poll_one h k p tmo ev fd = poll_one h k p None ev fd"
    if "fd_lookup k p (int fd) = Some oi" "ofd_kind (k_ofd k oi) \<noteq> FD_CONSOLE" for fd oi tmo ev
    using that by (simp add: poll_one_answer poll_answer_def poll_mask_def)
  ultimately show ?thesis by blast
qed

theorem select_agrees_with_poll_witness:
  "\<exists>k' r'. sel_scan demo_host (demo_file_kernel\<lparr>mc_mem := (\<lambda>_. 0)(131072 := 1)\<rparr>) (demo_proc 0)
       \<lparr>sl_nfds = 4, sl_readfds = 131072, sl_writefds = 0, sl_exceptfds = 131080\<rparr> True = (k', 1)
     \<and> sel_load k' (demo_proc 0) 131072 = Some r' \<and> bit r' 0 \<and> \<not> bit r' 1"
proof -
  let ?s = "\<lparr>sl_nfds = 4, sl_readfds = 131072, sl_writefds = 0, sl_exceptfds = 131080\<rparr>"
  let ?k = "demo_file_kernel\<lparr>mc_mem := (\<lambda>_. 0)(131072 := 1)\<rparr>" and ?p = "demo_proc 0"
  note F = demo_file_kernel_facts
  have k: "mc_mm ?k = demo_mm" "k_ofd ?k = k_ofd demo_file_kernel" using F(5) by simp_all
  have o: "fd_lookup ?k ?p (int 0) = Some 0"
    using F(2) by (simp add: fd_lookup_def fd_entry_at_def demo_proc_def Let_def split: if_splits)
  have "lxp_guest_get_u32 ?k ?p 131072 = Some 1"
    using demo_guest [OF _ _ k(1), of 131072 4 False]
    by (simp add: lxp_guest_get_u32_def lxp_copy_from_guest_def mem_read_def bytes_u32_def upt_conv_Cons)
  then have l: "sel_load ?k ?p (sl_readfds ?s) = Some 1" "sel_load ?k ?p (sl_writefds ?s) = Some 0"
    by (simp_all add: sel_load_def)
  have a: "set_writable ?k ?p (sl_readfds ?s)" "set_writable ?k ?p (sl_writefds ?s)" "set_writable ?k ?p (sl_exceptfds ?s)"
    using demo_guest [OF _ _ k(1), of 131072 4 True] demo_guest [OF _ _ k(1), of 131080 4 True] by (simp_all add: set_writable_def)
  have d: "sets_apart (sl_readfds ?s) (sl_writefds ?s)" "sets_apart (sl_readfds ?s) (sl_exceptfds ?s)"
    "sets_apart (sl_writefds ?s) (sl_exceptfds ?s)" "sl_nfds ?s \<le> LXP_SEL_MAXFDS" by (simp_all add: sets_apart_def LXP_SEL_MAXFDS_def)
  obtain k' rc where sc: "sel_scan demo_host ?k ?p ?s True = (k', rc)" by (metis surj_pair)
  have one: "poll_one demo_host ?k ?p None ev 0 = ev AND 5 AND 5" for ev
    using F(3) o by (simp add: poll_one_answer poll_answer_def poll_mask_def vfs_poll_def LXP_POLL_EVENTS_def)
  have b1: "bit (1 :: nat) fd \<longleftrightarrow> fd = 0" for fd by (simp only: bit_1_iff)
  have R: "sel_ready demo_host ?k ?p (sl_nfds ?s) 1 1 = {0}"
    unfolding sel_ready_def b1 using one [of 1] by (auto simp: has_flag_def)
  have W: "sel_ready demo_host ?k ?p (sl_nfds ?s) 4 0 = {}" by (auto simp: sel_ready_def)
  have S: "\<not> (sel_stale demo_host ?k ?p (sl_nfds ?s) 1 \<or> sel_stale demo_host ?k ?p (sl_nfds ?s) 0)"
    unfolding sel_stale_def b1 using one [of 0] by (auto simp: has_flag_def)
  have "sel_reports ?k ?p ?s {0} {} k' rc"
    using select_agrees_with_poll [OF l d(4) a d(1-3) sc, unfolded R W] S by blast
  then obtain r' where "rc = 1" "sel_load k' ?p 131072 = Some r'" "\<forall>fd. bit r' fd \<longleftrightarrow> fd \<in> {0}"
    by (auto simp: sel_reports_def)
  then show ?thesis using sc by auto
qed

end
