(* ===== verification/Spec2Isabelle.thy ===== *)
theory Spec2Isabelle
  imports Arena Ring Pipe Proc_Types Signal Path Kernel Guest Tmpfs Fd Process Tty Vfs Procfs Fops SysFd Overlay SysPath Safety SysSafety SysProc Poll Syscall System SysProps
begin

text \<open>
  lxp is a Linux personality for microcontrollers without a memory management unit: guest programs
  built for Linux run as tasks of a host real-time kernel, trap into lxp with Linux system call
  numbers, and share one flat address space.  This development models the core of it, in the
  configuration with every optional subsystem off, for the 32-bit target.

  \<^bold>\<open>The parts and their theories.\<close>  Every theory opens with a note on its own content; the C files
  are under \<^verbatim>\<open>src/src/\<close>.

  \<^item> \<open>Lxp_Prelude\<close>: the shared vocabulary, errno values and sizing knobs
    (\<^verbatim>\<open>lxp_linux_uapi.h\<close>, \<^verbatim>\<open>include/lxp/lxp_config.h\<close>), the flat memory, first-fit scans.
  \<^item> \<open>Arena\<close>: the heap allocator of guest memory and of the file pool (\<^verbatim>\<open>lxp_arena.c\<close>), with
    its block headers in the memory it manages.
  \<^item> \<open>Ring\<close>, \<open>Pipe\<close>: the byte ring and the pipe pool (\<^verbatim>\<open>fs/lxp_ring.h\<close>, \<^verbatim>\<open>fs/lxp_pipe.c\<close>).
  \<^item> \<open>Proc_Types\<close>, \<open>Signal\<close>: the task record, intents and waits (\<^verbatim>\<open>proc/lxp_proc.h\<close>,
    \<^verbatim>\<open>proc/lxp_process.c\<close>) and the signal policy (\<^verbatim>\<open>signal/lxp_signal_policy.c\<close>).
  \<^item> \<open>Path\<close>: normalisation, the rootfs lookup, the mount table and \<^verbatim>\<open>/dev\<close> (\<^verbatim>\<open>fs/lxp_path.c\<close>,
    \<^verbatim>\<open>fs/lxp_mount.c\<close>, \<^verbatim>\<open>fs/lxp_devfs.c\<close>).
  \<^item> \<open>Kernel\<close>, \<open>Guest\<close>: the state every system call acts on, and the one boundary at which guest
    memory is checked and copied (\<^verbatim>\<open>lxp_guest.c\<close>).
  \<^item> \<open>Tmpfs\<close>, \<open>Fd\<close>, \<open>Process\<close>: the writable file system (\<^verbatim>\<open>fs/lxp_tmpfs.c\<close>), open-file
    descriptions and descriptor tables (\<^verbatim>\<open>fs/lxp_fd.c\<close>), and the reference-counted resources of a
    task with fork, clone and exit (\<^verbatim>\<open>proc/lxp_process.c\<close>).
  \<^item> \<open>Tty\<close>, \<open>Vfs\<close>, \<open>Procfs\<close>, \<open>Fops\<close>, \<open>Overlay\<close>: the terminal and the console
    (\<^verbatim>\<open>fs/lxp_tty.c\<close>, \<^verbatim>\<open>fs/lxp_console.c\<close>, \<^verbatim>\<open>run/lxp_console_input.c\<close>, \<^verbatim>\<open>run/lxp_signal_route.c\<close>), attributes
    and event counters (\<^verbatim>\<open>fs/lxp_stat.c\<close>, \<^verbatim>\<open>fs/lxp_eventfd.c\<close>), \<^verbatim>\<open>/proc\<close> and directory listings
    (\<^verbatim>\<open>proc/lxp_procfs.c\<close>, \<^verbatim>\<open>fs/lxp_dir.c\<close>, \<^verbatim>\<open>fs/lxp_dirent.c\<close>), the per-type file operations, and the writable
    overlay on the rootfs (\<^verbatim>\<open>fs/lxp_overlay.c\<close>).
  \<^item> \<open>SysFd\<close>, \<open>SysPath\<close>, \<open>SysProc\<close>, \<open>Poll\<close>, \<open>Syscall\<close>: the system calls
    (\<^verbatim>\<open>sys/lxp_sys_fd.c\<close>, \<^verbatim>\<open>sys/lxp_sys_path.c\<close>, \<^verbatim>\<open>sys/lxp_sys_mm.c\<close>, \<^verbatim>\<open>sys/lxp_sys_time.c\<close>,
    \<^verbatim>\<open>sys/lxp_sys_proc.c\<close>, \<^verbatim>\<open>sys/lxp_sys_signal.c\<close>, \<^verbatim>\<open>fs/lxp_poll.c\<close>) and the dispatcher with its table of 117
    rows (\<^verbatim>\<open>lxp_syscall.c\<close>).
  \<^item> \<open>Safety\<close>, \<open>SysSafety\<close>, \<open>System\<close>, \<open>SysProps\<close>: the invariant of the whole state, the
    proof that every row of the table keeps it, runs of several tasks, and end-to-end properties of
    single calls.

  \<^bold>\<open>How state and operations correspond.\<close>  A static pool of the C code is a function on indices and
  a pointer to a pool object is its index; a pointer to bytes is an address in the flat memory
  \<open>mc_mem\<close>, 0 being NULL.  A system call handler takes the six argument registers, the caller's
  record and the kernel, and gives all three results: the record, the kernel and the \<^verbatim>\<open>long\<close> that
  goes back in \<^verbatim>\<open>r0\<close>, negative for an errno.  Every early return of the source is a branch.  A call
  that blocks records a wait or an intent in the task record, as the C code does; resuming it is
  the coordinator's part.  Widths are written out where the code can wrap: \<open>uptr\<close> is 32-bit
  address arithmetic, \<open>to_int32\<close>, \<open>to_u32\<close> and \<open>to_int64\<close> are the casts, signal masks are \<open>64 word\<close>.

  \<^bold>\<open>What is proved.\<close>  The allocator keeps a well-formed heap through every history of calls and never
  hands out overlapping blocks; rings and pipes are FIFO queues; descriptor tables and process
  resources keep exact reference counts, and the last exit frees everything.  Path normalisation is
  canonical, a lookup goes to the longest accepting mount, renames move whole subtrees, and writes to
  a file refine a plain byte string.  \<open>good\<close> is the invariant of one task's view of the kernel and
  \<open>confined\<close> says which memory may change; the theorems of \<open>System\<close> show, for every call and every
  argument, that the invariant is kept, that memory changes only inside the caller's own windows and the
  kernel's pools, and that a run of any number of calls by other tasks leaves a task's memory alone.
  The interfaces between components are locales (allocator, byte queue and others),
  each interpreted on the model's own definitions.

  \<^bold>\<open>Bounds.\<close>  Loops of the C code over fixed pools are scans with the pool's size; symbolic links
  are followed at most eight times, as in the source; every other recursion is structural or has a
  termination proof, so no result depends on fuel.

  \<^bold>\<open>What the host provides\<close> (console bytes, clock, entropy, cache and scheduling calls) is the
  record \<open>io_host\<close>, an argument of the operations that use it, and \<open>host_ok\<close> states the documented
  behaviour relied on: a read returns at most the bytes asked for.  The texts of \<^verbatim>\<open>/proc\<close> files are an
  argument as well.

  \<^bold>\<open>Not modelled.\<close>  \<^verbatim>\<open>execve\<close> is an argument of the dispatcher.  The coordinator's run loop
  (\<^verbatim>\<open>lxp_run.c\<close> and most of \<^verbatim>\<open>run/\<close>) and signal frames act on native tasks and saved registers through
  the port.  Sockets, the network and host file systems, pseudo terminals and devices
  are off in the modelled configuration; statistics, tracing and the ports do not affect what a call
  returns.
\<close>

end
